(* ===== verification/Prelude.thy ===== *)
theory Prelude
  imports Main "HOL-Library.Word"
begin

text \<open>
  Shared vocabulary of the development: Go's base types as the model uses them, results of
  fallible calls, JSON values, and the generic lemmas the component theories rely on.

  \<^item> a \<open>time.Time\<close> is an \<open>int\<close>, the nanoseconds since the epoch (all clocks in the code
    are read as UTC); a \<open>time.Duration\<close> is an \<open>int\<close> of nanoseconds, with Go's \<open>int64\<close>
    wrap-around (\<open>wrap64\<close>) and saturation (\<open>time_sub\<close>) written out where it can occur;
  \<^item> a Go \<open>uint\<close> or \<open>uint64\<close> is a \<open>64 word\<close>;
  \<^item> a call that returns \<open>(T, error)\<close> has the type \<open>'e + 't\<close>, \<open>Inl\<close> for the error.
\<close>

section \<open>Go base types\<close>

type_synonym time = int
type_synonym duration = int
type_synonym u64 = "64 word"

text \<open>Two's complement reading of the low 64 bits: the result of \<open>int\<close> arithmetic in Go.\<close>

definition wrap64 :: "int \<Rightarrow> int" where
  "wrap64 i = signed_take_bit 63 i"

text \<open>\<open>t.Add(d)\<close>, \<open>t.Sub(u)\<close> (saturating at the bounds of \<open>int64\<close>) and \<open>t.After(u)\<close>.\<close>

definition time_add :: "time \<Rightarrow> duration \<Rightarrow> time" where
  "time_add t d = t + d"

definition max_duration :: duration where
  "max_duration = 2 ^ 63 - 1"

definition min_duration :: duration where
  "min_duration = - (2 ^ 63)"

definition time_sub :: "time \<Rightarrow> time \<Rightarrow> duration" where
  "time_sub t u = max min_duration (min max_duration (t - u))"

definition time_after :: "time \<Rightarrow> time \<Rightarrow> bool" where
  "time_after t u \<longleftrightarrow> u < t"

definition Second :: duration where
  "Second = 1000000000"

named_theorems go_time "Go's time arithmetic, unfolded"

lemmas [go_time] = time_add_def time_after_def Second_def

section \<open>JSON values\<close>

text \<open>
  The values \<open>encoding/json\<close> works on. A Go map literal with string keys is a \<open>JObj\<close> of
  its entries in the order written; \<open>JTime\<close> is the string a \<open>time.Time\<close> is rendered to
  (RFC 3339), kept as the instant it denotes.
\<close>

datatype json =
    JNull
  | JBool bool
  | JNum int
  | JStr string
  | JTime time
  | JArr "json list"
  | JObj "(string \<times> json) list"

type_synonym json_obj = "(string \<times> json) list"

section \<open>Results\<close>

text \<open>\<open>if err != nil { return nil, err }\<close>: the error goes through, a value is mapped.\<close>

fun map_result :: "('a \<Rightarrow> 'b) \<Rightarrow> 'e + 'a \<Rightarrow> 'e + 'b" where
  "map_result f (Inl e) = Inl e"
| "map_result f (Inr x) = Inr (f x)"

named_theorems result_simps "case analysis on results"

lemma map_result_Inr_iff [result_simps]: "map_result f r = Inr y \<longleftrightarrow> (\<exists>x. r = Inr x \<and> y = f x)"
  by (cases r) auto

lemma map_result_Inl_iff [result_simps]: "map_result f r = Inl e \<longleftrightarrow> r = Inl e"
  by (cases r) auto

section \<open>Words\<close>

lemma word_succ_unat:
  fixes x :: u64
  assumes "unat x < 2 ^ 64 - 1"
  shows "unat (x + 1) = unat x + 1"
proof -
  have "unat x + 1 < 2 ^ 64" using assms by linarith
  then show ?thesis by (simp add: unat_word_ariths)
qed

lemma word_pred_unat:
  fixes x :: u64
  assumes "0 < x"
  shows "unat (x - 1) = unat x - 1"
  using assms by (simp add: unat_minus_one word_gt_0)

text \<open>The conversion \<open>int(x)\<close> of a \<open>uint\<close> is negative from \<open>2 ^ 63\<close> on.\<close>

lemma sint_small:
  fixes x :: u64
  assumes "unat x < 2 ^ 63"
  shows "sint x = int (unat x)"
proof -
  have s: "sint x = signed_take_bit 63 (uint x)" by (subst sint_uint) simp
  have u: "uint x = int (unat x)" by simp
  have lt: "uint x < 2 ^ 63"
    unfolding u using assms by (metis of_nat_less_iff of_nat_numeral of_nat_power)
  have ge: "- (2 ^ 63) \<le> uint x" by (rule order_trans [OF _ uint_ge_0]) simp
  show ?thesis unfolding s signed_take_bit_int_eq_self [OF ge lt] by (rule u)
qed

lemma sint_big:
  fixes x :: u64
  assumes "2 ^ 63 \<le> unat x"
  shows "sint x < 0"
proof (rule ccontr)
  assume neg: "\<not> sint x < 0"
  have "sint x < 2 ^ 63" using sint_lt [of x] by simp
  then have "take_bit 64 (sint x) = sint x" using neg by (simp add: take_bit_int_eq_self)
  then have "uint x < 2 ^ 63" using \<open>sint x < 2 ^ 63\<close> by (simp add: uint_sint)
  then have "int (unat x) < 2 ^ 63" by simp
  moreover have "2 ^ 63 \<le> int (unat x)"
    using assms by (metis of_nat_le_iff of_nat_numeral of_nat_power)
  ultimately show False by simp
qed

lemma wrap64_id: "- (2 ^ 63) \<le> i \<Longrightarrow> i < 2 ^ 63 \<Longrightarrow> wrap64 i = i"
  unfolding wrap64_def by (rule signed_take_bit_int_eq_self) simp_all

lemma time_sub_small:
  "min_duration \<le> t - u \<Longrightarrow> t - u \<le> max_duration \<Longrightarrow> time_sub t u = t - u"
  by (simp add: time_sub_def)

end
