(* ===== verification/QueueName.thy ===== *)
theory QueueName
  imports Prelude "HOL-Library.Sublist"
begin

text \<open>
  Queue names: \<open>internal/domain/queue/models.go\<close> and the index names derived from them in
  \<open>internal/infra/elasticsearch/task/service.go\<close>. Go's \<open>strings.ToLower\<close> depends on the
  Unicode tables, so it is the parameter \<open>ToLower\<close>; on ASCII strings it is documented to
  lower each letter (\<open>lowers_ascii\<close>).
\<close>

section \<open>Validation of queue names\<close>

type_synonym qname = string

datatype name_error =
    EmptyString
  | ContainsInvalidChars string
  | StartsWithIllegalChar string
  | EqualToIllegalString string
  | NotLowerCase string

definition invalidChars :: string where
  "invalidChars = [CHR 0x5C, CHR ''/'', CHR ''*'', CHR ''?'', CHR 0x22, CHR ''<'', CHR ''>'',
     CHR ''|'', CHR '' '', CHR '','', CHR ''#'', CHR '':'']"

definition illegalPrefixes :: "string list" where
  "illegalPrefixes = [''_'', ''-'', ''+'']"

definition illegals :: "string list" where
  "illegals = [''.'', ''..'']"

definition name_errors :: "(string \<Rightarrow> string) \<Rightarrow> string \<Rightarrow> name_error list" where
  "name_errors ToLower s =
     (if length s = 0 then [EmptyString] else [])
   @ (if \<exists>c \<in> set s. c \<in> set invalidChars then [ContainsInvalidChars invalidChars] else [])
   @ map StartsWithIllegalChar (filter (\<lambda>p. prefix p s) illegalPrefixes)
   @ map EqualToIllegalString (filter (\<lambda>x. s = x) illegals)
   @ (if s \<noteq> ToLower s then [NotLowerCase s] else [])"

definition NameFromString :: "(string \<Rightarrow> string) \<Rightarrow> string \<Rightarrow> name_error list + qname" where
  "NameFromString ToLower s =
     (let errs = name_errors ToLower s in if length errs = 0 then Inr s else Inl errs)"

text \<open>What \<open>strings.ToLower\<close> does on ASCII, as its documentation states.\<close>

definition is_ascii :: "string \<Rightarrow> bool" where
  "is_ascii s \<longleftrightarrow> (\<forall>c \<in> set s. of_char c < (128 :: nat))"

definition ascii_lower :: "char \<Rightarrow> char" where
  "ascii_lower c =
     (let n = of_char c :: nat in if 65 \<le> n \<and> n \<le> 90 then char_of (n + 32) else c)"

definition lowers_ascii :: "(string \<Rightarrow> string) \<Rightarrow> bool" where
  "lowers_ascii ToLower \<longleftrightarrow> (\<forall>s. is_ascii s \<longrightarrow> ToLower s = map ascii_lower s)"

text \<open>The names Elasticsearch allows, as one predicate.\<close>

definition valid_name :: "string \<Rightarrow> bool" where
  "valid_name s \<longleftrightarrow>
     s \<noteq> [] \<and> set s \<inter> set invalidChars = {} \<and> hd s \<notin> {CHR ''_'', CHR ''-'', CHR ''+''} \<and>
     s \<noteq> ''.'' \<and> s \<noteq> ''..'' \<and> (\<forall>c \<in> set s. \<not> (65 \<le> (of_char c :: nat) \<and> of_char c \<le> (90 :: nat)))"

lemma ascii_lower_id_iff:
  "ascii_lower c = c \<longleftrightarrow> \<not> (65 \<le> (of_char c :: nat) \<and> of_char c \<le> (90 :: nat))"
proof -
  have "char_of (of_char c + 32 :: nat) \<noteq> c" if le: "(of_char c :: nat) \<le> 90"
  proof
    assume "char_of (of_char c + 32 :: nat) = c"
    then have "of_char (char_of (of_char c + 32 :: nat)) = (of_char c :: nat)" by simp
    with le show False by simp
  qed
  then show ?thesis by (auto simp: ascii_lower_def Let_def)
qed

lemma map_id_iff: "map f xs = xs \<longleftrightarrow> (\<forall>x \<in> set xs. f x = x)"
  by (induction xs) auto

lemma NameFromString_Inr_iff:
  "NameFromString ToLower s = Inr q \<longleftrightarrow> q = s \<and> name_errors ToLower s = []"
  by (auto simp: NameFromString_def Let_def)

lemma NameFromString_cases:
  "NameFromString ToLower s =
     (if name_errors ToLower s = [] then Inr s else Inl (name_errors ToLower s))"
  by (simp add: NameFromString_def Let_def)

lemma prefix_single: "prefix [c] s \<longleftrightarrow> s \<noteq> [] \<and> hd s = c"
  by (cases s) auto

text \<open>
  On an ASCII string, \<open>NameFromString\<close> returns the string itself exactly when it is a
  valid index-name suffix: not empty, none of the forbidden characters, no leading
  \<open>_ - +\<close>, not \<open>.\<close> or \<open>..\<close>, no upper-case letter.
\<close>

lemma NameFromString_accepts_iff:
  assumes "lowers_ascii ToLower" and "is_ascii s"
  shows "(\<exists>q. NameFromString ToLower s = Inr q) \<longleftrightarrow> valid_name s"
proof -
  from assms have "ToLower s = map ascii_lower s"
    by (simp add: lowers_ascii_def)
  then have "s = ToLower s \<longleftrightarrow>
      (\<forall>c \<in> set s. \<not> (65 \<le> (of_char c :: nat) \<and> of_char c \<le> (90 :: nat)))"
    by (metis ascii_lower_id_iff map_id_iff)
  then show ?thesis
    by (auto simp: NameFromString_cases name_errors_def valid_name_def illegalPrefixes_def
        illegals_def prefix_single split: if_splits)
qed

lemma NameFromString_accepts_iff_witness:
  "lowers_ascii (map ascii_lower) \<and> is_ascii ''run-later'' \<and>
   ((\<exists>q. NameFromString (map ascii_lower) ''run-later'' = Inr q) \<longleftrightarrow> valid_name ''run-later'')"
proof -
  have h: "lowers_ascii (map ascii_lower)" "is_ascii ''run-later''"
    by (simp_all add: lowers_ascii_def is_ascii_def)
  show ?thesis using h NameFromString_accepts_iff [OF h] by simp
qed

section \<open>Index names\<close>

definition TasquesQueuePrefix :: string where
  "TasquesQueuePrefix = ''.tasques_queue-''"

definition TasquesArchiveIndex :: string where
  "TasquesArchiveIndex = ''.tasques_archive''"

definition BuildIndexName :: "qname \<Rightarrow> string" where
  "BuildIndexName queue = TasquesQueuePrefix @ queue"

definition allTaskqueueQueuesPattern :: string where
  "allTaskqueueQueuesPattern = BuildIndexName ''*''"

definition queueNameFromIndexName :: "string \<Rightarrow> qname" where
  "queueNameFromIndexName indexName =
     (if prefix TasquesQueuePrefix indexName
      then drop (length TasquesQueuePrefix) indexName else indexName)"

lemma BuildIndexName_inject [simp]: "BuildIndexName p = BuildIndexName q \<longleftrightarrow> p = q"
  by (simp add: BuildIndexName_def)

lemma queueNameFromIndexName_Build [simp]: "queueNameFromIndexName (BuildIndexName q) = q"
  by (simp add: queueNameFromIndexName_def BuildIndexName_def)

lemma BuildIndexName_not_archive [simp]: "BuildIndexName q \<noteq> TasquesArchiveIndex"
  by (simp add: BuildIndexName_def TasquesQueuePrefix_def TasquesArchiveIndex_def)

lemma accepted_no_invalid:
  "NameFromString ToLower s = Inr q \<Longrightarrow> set q \<inter> set invalidChars = {}"
  by (auto simp: NameFromString_cases name_errors_def split: if_splits)

text \<open>
  C38: whatever the Unicode tables are, the index of an accepted queue name contains no
  wildcard and no comma (the separator of an index list), so it names one index; it is
  neither the all-queues pattern nor the archive index, different queues have different
  indices, and the queue is recovered from the index name.
\<close>

theorem accepted_name_index:
  assumes "NameFromString ToLower s = Inr q"
  shows "CHR ''*'' \<notin> set (BuildIndexName q) \<and> CHR '','' \<notin> set (BuildIndexName q) \<and>
    BuildIndexName q \<noteq> allTaskqueueQueuesPattern \<and> BuildIndexName q \<noteq> TasquesArchiveIndex \<and>
    queueNameFromIndexName (BuildIndexName q) = s \<and>
    (BuildIndexName q' = BuildIndexName q \<longleftrightarrow> q' = q)"
proof -
  from assms have q: "q = s" by (simp add: NameFromString_Inr_iff)
  have chars: "CHR ''*'' \<notin> set q" "CHR '','' \<notin> set q"
    using accepted_no_invalid [OF assms] by (auto simp: invalidChars_def)
  have "q \<noteq> ''*''" using chars(1) by auto
  with chars show ?thesis
    by (simp add: q allTaskqueueQueuesPattern_def) (simp add: BuildIndexName_def TasquesQueuePrefix_def)
qed

theorem accepted_name_index_witness:
  "NameFromString (map ascii_lower) ''run-later'' = Inr ''run-later'' \<and>
   CHR ''*'' \<notin> set (BuildIndexName ''run-later'') \<and>
   queueNameFromIndexName (BuildIndexName ''run-later'') = ''run-later''"
proof -
  have h: "NameFromString (map ascii_lower) ''run-later'' = Inr ''run-later''"
    by code_simp
  show ?thesis using h accepted_name_index [OF h] by blast
qed

end
