(* ===== verification/TaskModel.thy ===== *)
theory TaskModel
  imports QueueName
begin

unbundle bit_operations_syntax

text \<open>
  The domain model of a task: \<open>internal/domain/metadata/models.go\<close>,
  \<open>internal/domain/task/models.go\<close> and the domain errors of
  \<open>internal/domain/task/service.go\<close>. A method with a pointer receiver that may fail becomes a
  function to \<open>task_error + Task\<close>: the code assigns to the receiver only after its checks, so
  on an error the task is unchanged. The step relation \<open>task_step\<close> collects the methods; its
  invariants are proved over every run from a freshly created task.
\<close>

section \<open>Metadata\<close>

record Version =
  SeqNum :: u64
  PrimaryTerm :: u64

record Metadata =
  CreatedAt :: time
  ModifiedAt :: time
  metaVersion :: Version

section \<open>The state enumeration\<close>

datatype State = QUEUED | CLAIMED | FAILED | DONE | DEAD

fun State_String :: "State \<Rightarrow> string" where
  "State_String QUEUED = ''queued''"
| "State_String CLAIMED = ''claimed''"
| "State_String FAILED = ''failed''"
| "State_String DONE = ''done''"
| "State_String DEAD = ''dead''"

definition toID :: "string \<rightharpoonup> State" where
  "toID = [''queued'' \<mapsto> QUEUED, ''claimed'' \<mapsto> CLAIMED, ''failed'' \<mapsto> FAILED,
     ''done'' \<mapsto> DONE, ''dead'' \<mapsto> DEAD]"

definition State_MarshalJSON :: "State \<Rightarrow> json" where
  "State_MarshalJSON s = JStr (State_String s)"

text \<open>
  \<open>json.Unmarshal(b, &j)\<close> into a string accepts a JSON string, and leaves \<open>j\<close> empty on
  \<open>null\<close>; anything else is its error.
\<close>

definition unmarshal_string :: "json \<Rightarrow> string option" where
  "unmarshal_string b =
     (case b of JStr s \<Rightarrow> Some s | JNull \<Rightarrow> Some '''' | _ \<Rightarrow> None)"

definition State_UnmarshalJSON :: "json \<Rightarrow> string + State" where
  "State_UnmarshalJSON b =
     (case unmarshal_string b of
        None \<Rightarrow> Inl ''not a string''
      | Some j \<Rightarrow> (case toID j of Some found \<Rightarrow> Inr found | None \<Rightarrow> Inl ''invalid state''))"

text \<open>The order of the enumeration is the order of its \<open>iota\<close> codes.\<close>

fun state_code :: "State \<Rightarrow> nat" where
  "state_code QUEUED = 0"
| "state_code CLAIMED = 1"
| "state_code FAILED = 2"
| "state_code DONE = 3"
| "state_code DEAD = 4"

lemma state_code_inject: "state_code s = state_code t \<longleftrightarrow> s = t"
  by (cases s; cases t) simp_all

instantiation State :: linorder
begin

definition less_eq_State :: "State \<Rightarrow> State \<Rightarrow> bool" where
  "less_eq_State s t \<longleftrightarrow> state_code s \<le> state_code t"

definition less_State :: "State \<Rightarrow> State \<Rightarrow> bool" where
  "less_State s t \<longleftrightarrow> state_code s < state_code t"

instance
  by standard (auto simp: less_eq_State_def less_State_def state_code_inject)

end

section \<open>Tasks\<close>

type_synonym task_id = string
type_synonym worker_id = string
type_synonym recurring_id = string

record NewTask =
  nId :: "task_id option"
  nQueue :: qname
  nRetryTimes :: u64
  nKind :: string
  nPriority :: int
  nRunAt :: time
  nProcessingTimeout :: duration
  nArgs :: "json_obj option"
  nContext :: "json_obj option"
  nRecurringTaskId :: "recurring_id option"

record Report =
  repAt :: time
  repData :: "json_obj option"

record Result =
  resAt :: time
  resFailure :: "json_obj option"
  resSuccess :: "json_obj option"

record LastClaimed =
  lcWorkerId :: worker_id
  lcClaimedAt :: time
  lcTimesOutAt :: time
  lcLastReport :: "Report option"
  lcResult :: "Result option"

record Task =
  tID :: task_id
  tQueue :: qname
  tRetryTimes :: u64
  tAttempted :: u64
  tKind :: string
  tState :: State
  tPriority :: int
  tRunAt :: time
  tProcessingTimeout :: duration
  tArgs :: "json_obj option"
  tContext :: "json_obj option"
  tLastClaimed :: "LastClaimed option"
  tLastEnqueuedAt :: time
  tMetadata :: Metadata
  tRecurringTaskId :: "recurring_id option"

text \<open>\<open>GenerateNewId\<close> strips the dashes of a fresh UUID; \<open>GenerateId\<close> uses it only when needed.\<close>

definition GenerateNewId :: "string \<Rightarrow> task_id" where
  "GenerateNewId uuid = filter (\<lambda>c. c \<noteq> CHR ''-'') uuid"

definition GenerateId :: "('w \<Rightarrow> 'w \<times> string) \<Rightarrow> NewTask \<Rightarrow> 'w \<Rightarrow> 'w \<times> task_id" where
  "GenerateId new_uuid task w =
     (case nId task of
        None \<Rightarrow> (case new_uuid w of (w', uuid) \<Rightarrow> (w', GenerateNewId uuid))
      | Some i \<Rightarrow> (w, i))"

section \<open>Domain errors\<close>

text \<open>
  The error values a task service returns: the domain errors, and the two of the Elasticsearch
  layer. A Go panic (a nil dereference, an index out of range) is kept apart as \<open>Panicked\<close>.
\<close>

datatype task_error =
    NotFound task_id qname
  | InvalidVersion task_id
  | AlreadyExists task_id
  | InvalidPersistedData
  | NotOwnedByWorker task_id worker_id
  | NotClaimed task_id State
  | ReportFromThePast task_id time time
  | Unclaimable task_id State
  | ElasticsearchErr
  | JsonSerdesErr
  | Panicked

section \<open>Operations on a task\<close>

definition RemainingAttempts :: "Task \<Rightarrow> u64" where
  "RemainingAttempts t =
     (if tRetryTimes t + 1 < tAttempted t then 0 else tRetryTimes t + 1 - tAttempted t)"

definition IntoClaimed :: "worker_id \<Rightarrow> time \<Rightarrow> Task \<Rightarrow> task_error + Task" where
  "IntoClaimed workerId at t =
     (if tState t = QUEUED \<or> tState t = FAILED then
        Inr (t\<lparr>tState := CLAIMED,
               tAttempted := tAttempted t + 1,
               tLastClaimed := Some \<lparr>lcWorkerId = workerId,
                 lcClaimedAt = at,
                 lcTimesOutAt = time_add at (tProcessingTimeout t),
                 lcLastReport = None,
                 lcResult = None\<rparr>\<rparr>)
      else Inl (Unclaimable (tID t) (tState t)))"

text \<open>
  The two checks the methods of a claimed task share: the state, then the owner. On success
  the claim the method works on is returned.
\<close>

definition check_claim :: "worker_id \<Rightarrow> Task \<Rightarrow> task_error + LastClaimed" where
  "check_claim byWorker t =
     (if tState t \<noteq> CLAIMED then Inl (NotClaimed (tID t) (tState t))
      else case tLastClaimed t of
          None \<Rightarrow> Inl (NotOwnedByWorker (tID t) byWorker)
        | Some lc \<Rightarrow>
            if lcWorkerId lc \<noteq> byWorker then Inl (NotOwnedByWorker (tID t) byWorker) else Inr lc)"

definition ReportIn :: "worker_id \<Rightarrow> json_obj option \<Rightarrow> time \<Rightarrow> Task \<Rightarrow> task_error + Task" where
  "ReportIn byWorker newReportData at t =
     (case check_claim byWorker t of
        Inl e \<Rightarrow> Inl e
      | Inr lc \<Rightarrow>
          (case lcLastReport lc of
             Some r \<Rightarrow>
               if time_after (repAt r) at then Inl (ReportFromThePast (tID t) at (repAt r))
               else Inr (t\<lparr>tLastClaimed := Some (lc\<lparr>
                      lcLastReport := Some \<lparr>repAt = at, repData = newReportData\<rparr>,
                      lcTimesOutAt := time_add at (tProcessingTimeout t)\<rparr>)\<rparr>)
           | None \<Rightarrow>
               Inr (t\<lparr>tLastClaimed := Some (lc\<lparr>
                      lcLastReport := Some \<lparr>repAt = at, repData = newReportData\<rparr>,
                      lcTimesOutAt := time_add at (tProcessingTimeout t)\<rparr>)\<rparr>)))"

definition IntoDone :: "worker_id \<Rightarrow> time \<Rightarrow> json_obj option \<Rightarrow> Task \<Rightarrow> task_error + Task" where
  "IntoDone byWorker at success t =
     (case check_claim byWorker t of
        Inl e \<Rightarrow> Inl e
      | Inr lc \<Rightarrow>
          Inr (t\<lparr>tState := DONE,
                 tLastClaimed := Some (lc\<lparr>lcResult :=
                   Some \<lparr>resAt = at, resFailure = None, resSuccess = success\<rparr>\<rparr>)\<rparr>))"

text \<open>
  The back-off of \<open>IntoFailed\<close>, in Go's 64-bit \<open>int\<close>: \<open>+\<close> and \<open>^\<close> (exclusive or) have
  the same precedence and associate to the left, so \<open>15 + retriesSoFar ^ 4\<close> is
  \<open>(15 + retriesSoFar) XOR 4\<close>. The argument \<open>r\<close> is the value of \<open>rand.Intn(30)\<close>.
\<close>

definition retriesSoFar :: "Task \<Rightarrow> u64" where
  "retriesSoFar t = (if tAttempted t > 0 then tAttempted t - 1 else 0)"

definition waitTimeSecondsInt :: "u64 \<Rightarrow> u64 \<Rightarrow> u64" where
  "waitTimeSecondsInt r retries = ((15 + retries) XOR 4) + (r * (retries + 1))"

definition waitTimeDuration :: "u64 \<Rightarrow> u64 \<Rightarrow> duration" where
  "waitTimeDuration r retries = sint (waitTimeSecondsInt r retries * word_of_int Second)"

definition IntoFailed ::
  "u64 \<Rightarrow> worker_id \<Rightarrow> time \<Rightarrow> json_obj option \<Rightarrow> Task \<Rightarrow> task_error + Task" where
  "IntoFailed r byWorker at failure t =
     (case check_claim byWorker t of
        Inl e \<Rightarrow> Inl e
      | Inr lc \<Rightarrow>
          (let t' = (if RemainingAttempts t > 0
                     then t\<lparr>tRunAt := time_add at (waitTimeDuration r (retriesSoFar t)),
                            tLastEnqueuedAt := at,
                            tState := FAILED\<rparr>
                     else t\<lparr>tState := DEAD\<rparr>)
           in Inr (t'\<lparr>tLastClaimed := Some (lc\<lparr>lcResult :=
                Some \<lparr>resAt = at, resFailure = failure, resSuccess = None\<rparr>\<rparr>)\<rparr>)))"

definition IntoUnClaimed :: "worker_id \<Rightarrow> time \<Rightarrow> Task \<Rightarrow> task_error + Task" where
  "IntoUnClaimed byWorkerId at t =
     (case check_claim byWorkerId t of
        Inl e \<Rightarrow> Inl e
      | Inr lc \<Rightarrow>
          Inr (t\<lparr>tState := QUEUED, tAttempted := tAttempted t - 1, tLastEnqueuedAt := at\<rparr>))"

end
