(* ===== verification/EsCommon.thy ===== *)
theory EsCommon
  imports TaskModel
begin

text \<open>
  The Elasticsearch side shared by the services: the response types of
  \<open>internal/infra/elasticsearch/common/models.go\<close>, and the client library as a parameter.

  A request of the client library (\<open>esapi\<close>) is a function of the parameter record
  \<open>es_client\<close>: it takes the fields the code fills in and the state of the world \<open>'w\<close>
  (Elasticsearch, the clock, the random source), and returns the new world with the reply.
  Nothing is assumed of these functions here; a theorem that needs the documented behaviour
  of Elasticsearch names it as a hypothesis. Other servers and workers are part of the world:
  a request function may also reflect what they did in the meantime.
\<close>

section \<open>Replies\<close>

text \<open>
  \<open>NoResponse\<close> is an error of \<open>Do\<close>; otherwise the status code, and the body as
  \<open>json.Decoder\<close> delivers it (\<open>None\<close> if it cannot be decoded into the expected type).
\<close>

datatype 'a es_reply = NoResponse | Response int "'a option"

definition status_2xx :: "int \<Rightarrow> bool" where
  "status_2xx s \<longleftrightarrow> 200 \<le> s \<and> s \<le> 299"

record EsCreateResponse =
  crID :: string
  crSeqNum :: u64
  crPrimaryTerm :: u64

definition EsCreateResponse_Version :: "EsCreateResponse \<Rightarrow> Version" where
  "EsCreateResponse_Version r = \<lparr>SeqNum = crSeqNum r, PrimaryTerm = crPrimaryTerm r\<rparr>"

record EsUpdateResponse =
  urIndex :: string
  urID :: string
  urSeqNum :: u64
  urPrimaryTerm :: u64
  urResult :: string

definition EsUpdateResponse_Version :: "EsUpdateResponse \<Rightarrow> Version" where
  "EsUpdateResponse_Version r = \<lparr>SeqNum = urSeqNum r, PrimaryTerm = urPrimaryTerm r\<rparr>"

record PersistedMetadata =
  pmCreatedAt :: time
  pmModifiedAt :: time

record EsBulkResponseItemInfo =
  biIndex :: string
  biID :: string
  biSeqNum :: u64
  biPrimaryTerm :: u64
  biResult :: string
  biStatus :: nat

record EsBulkResponseItem =
  itIndex :: "EsBulkResponseItemInfo option"
  itDelete :: "EsBulkResponseItemInfo option"
  itCreate :: "EsBulkResponseItemInfo option"
  itUpdate :: "EsBulkResponseItemInfo option"

record EsBulkResponse =
  brTook :: u64
  brErrors :: bool
  brItems :: "EsBulkResponseItem list"

text \<open>
  \<open>Info\<close> reads the first field that is set; with none set the dereference of \<open>Update\<close>
  panics, which is \<open>None\<close>.
\<close>

definition Info :: "EsBulkResponseItem \<Rightarrow> EsBulkResponseItemInfo option" where
  "Info i =
     (case itIndex i of Some x \<Rightarrow> Some x | None \<Rightarrow>
     (case itDelete i of Some x \<Rightarrow> Some x | None \<Rightarrow>
     (case itCreate i of Some x \<Rightarrow> Some x | None \<Rightarrow> itUpdate i)))"

definition IsOk :: "EsBulkResponseItemInfo \<Rightarrow> bool" where
  "IsOk i \<longleftrightarrow> 200 \<le> biStatus i \<and> biStatus i \<le> 299"

definition ItemInfo_Version :: "EsBulkResponseItemInfo \<Rightarrow> Version" where
  "ItemInfo_Version i = \<lparr>SeqNum = biSeqNum i, PrimaryTerm = biPrimaryTerm i\<rparr>"

text \<open>\<open>response.Items[idx].Info()\<close>: \<open>None\<close> where the index or the item makes it panic.\<close>

definition item_info :: "EsBulkResponse \<Rightarrow> nat \<Rightarrow> EsBulkResponseItemInfo option" where
  "item_info r idx = (if idx < length (brItems r) then Info (brItems r ! idx) else None)"

section \<open>Documents and bulk operations\<close>

record 'd es_hit =
  hID :: string
  hIndex :: string
  hSeqNum :: u64
  hPrimaryTerm :: u64
  hSource :: 'd

definition hit_version :: "'d es_hit \<Rightarrow> Version" where
  "hit_version h = \<lparr>SeqNum = hSeqNum h, PrimaryTerm = hPrimaryTerm h\<rparr>"

text \<open>
  The lines of a bulk body: an index operation with optimistic-locking data, a delete with
  it, and an index operation without an id, as the code builds them.
\<close>

datatype 'd bulk_op =
    BulkIndex string string u64 u64 'd   \<comment> \<open>id, index, \<open>if_seq_no\<close>, \<open>if_primary_term\<close>, document\<close>
  | BulkDelete string string u64 u64
  | BulkInsert string 'd

section \<open>The client library and the environment\<close>

record 'w sys =
  getUTC :: "'w \<Rightarrow> 'w \<times> time"
  Sleep :: "duration \<Rightarrow> 'w \<Rightarrow> 'w"
  new_uuid :: "'w \<Rightarrow> 'w \<times> string"

text \<open>
  \<open>IndexRequest\<close> takes the locking data as Go \<open>int\<close>s (\<open>esapi.IntPtr(int(..))\<close>), primary
  term first; \<open>None\<close> is an unconditional write.
\<close>

record ('w, 'd) es_client = "'w sys" +
  CreateRequest :: "string \<Rightarrow> string \<Rightarrow> 'd \<Rightarrow> 'w \<Rightarrow> 'w \<times> EsCreateResponse es_reply"
  GetRequest :: "string \<Rightarrow> string \<Rightarrow> 'w \<Rightarrow> 'w \<times> 'd es_hit es_reply"
  IndexRequest ::
    "string \<Rightarrow> string \<Rightarrow> 'd \<Rightarrow> (int \<times> int) option \<Rightarrow> 'w \<Rightarrow> 'w \<times> EsUpdateResponse es_reply"
  SearchRequest :: "string list \<Rightarrow> json \<Rightarrow> 'w \<Rightarrow> 'w \<times> 'd es_hit list es_reply"
  ScrollSearchRequest ::
    "duration \<Rightarrow> string list \<Rightarrow> json \<Rightarrow> 'w \<Rightarrow> 'w \<times> (string \<times> 'd es_hit list) es_reply"
  ScrollRequest :: "duration \<Rightarrow> string \<Rightarrow> 'w \<Rightarrow> 'w \<times> (string \<times> 'd es_hit list) es_reply"
  ClearScrollRequest :: "string list \<Rightarrow> 'w \<Rightarrow> 'w \<times> unit es_reply"
  BulkRequest :: "'d bulk_op list \<Rightarrow> 'w \<Rightarrow> 'w \<times> EsBulkResponse es_reply"
  CountRequest :: "string list \<Rightarrow> json \<Rightarrow> 'w \<Rightarrow> 'w \<times> u64 es_reply"
  IndicesRefreshRequest :: "string list \<Rightarrow> 'w \<Rightarrow> 'w \<times> unit es_reply"

definition IntPtr :: "u64 \<Rightarrow> int" where
  "IntPtr x = sint x"

lemma IntPtr_inject [simp]: "IntPtr x = IntPtr y \<longleftrightarrow> x = y"
  by (auto simp: IntPtr_def intro: signed_word_eqI)

section \<open>Scrolling\<close>

text \<open>
  A scroll session reads batches until one is empty: \<open>scanTasks\<close> and
  \<open>scanRecurringTasks\<close> are the same loop over their own hits. \<open>next\<close> is the scroll request
  with response handling, \<open>doWithBatch\<close> the callback on a batch; both may fail. The loop may
  run for ever if Elasticsearch never returns an empty batch, so it is a
  \<open>partial_function (option)\<close>. The result carries the scroll ids seen, for the deferred
  \<open>clearScroll\<close>.
\<close>

partial_function (option) scan_loop ::
  "(string \<Rightarrow> 'w \<Rightarrow> 'w \<times> ('e + string \<times> 'a list)) \<Rightarrow>
   ('a list \<Rightarrow> 's \<Rightarrow> 'w \<Rightarrow> 'w \<times> ('e + 's)) \<Rightarrow>
   string \<Rightarrow> 'a list \<Rightarrow> string list \<Rightarrow> 's \<Rightarrow> 'w \<Rightarrow> ('w \<times> string list \<times> ('e + 's)) option" where
  "scan_loop next doWithBatch scrollId batch scrollIds acc w =
     (if batch = [] then Some (w, scrollIds, Inr acc)
      else case doWithBatch batch acc w of
          (w1, Inl e) \<Rightarrow> Some (w1, scrollIds, Inl e)
        | (w1, Inr acc') \<Rightarrow>
            (case next scrollId w1 of
               (w2, Inl e) \<Rightarrow> Some (w2, scrollIds, Inl e)
             | (w2, Inr (scrollId', batch')) \<Rightarrow>
                 scan_loop next doWithBatch scrollId' batch' (scrollIds @ [scrollId']) acc' w2))"

end
