(* ===== verification/TaskLifecycle.thy ===== *)
theory TaskLifecycle
  imports TaskModel
begin

text \<open>
  What the operations of \<open>TaskModel\<close> promise. The four operations on a claimed task share
  one contract, the locale \<open>claimed_op\<close>; the labelled step relation \<open>task_step\<close> has one
  rule per method, and the life of a task is a run of it from a freshly created task.
\<close>

section \<open>The contract of the operations on a claimed task\<close>

definition owner :: "Task \<Rightarrow> worker_id option" where
  "owner t = map_option lcWorkerId (tLastClaimed t)"

text \<open>The fields no operation on an existing task writes.\<close>

definition same_task :: "Task \<Rightarrow> Task \<Rightarrow> bool" where
  "same_task t t' \<longleftrightarrow>
     tID t' = tID t \<and> tQueue t' = tQueue t \<and> tRetryTimes t' = tRetryTimes t \<and>
     tKind t' = tKind t \<and> tPriority t' = tPriority t \<and>
     tProcessingTimeout t' = tProcessingTimeout t \<and> tArgs t' = tArgs t \<and>
     tContext t' = tContext t \<and> tMetadata t' = tMetadata t \<and>
     tRecurringTaskId t' = tRecurringTaskId t"

lemma same_task_refl [simp]: "same_task t t"
  by (simp add: same_task_def)

lemma same_task_trans: "same_task t u \<Longrightarrow> same_task u v \<Longrightarrow> same_task t v"
  by (simp add: same_task_def)

named_theorems task_defs "the operations of the task model, unfolded"

lemmas [task_defs] = IntoClaimed_def ReportIn_def IntoDone_def IntoFailed_def IntoUnClaimed_def

lemma check_claim_Inr_iff:
  "check_claim w t = Inr lc \<longleftrightarrow> tState t = CLAIMED \<and> tLastClaimed t = Some lc \<and> lcWorkerId lc = w"
  by (auto simp: check_claim_def split: option.splits)

lemma check_claim_Inl_iff:
  "check_claim w t = Inl e \<longleftrightarrow>
     (if tState t \<noteq> CLAIMED then e = NotClaimed (tID t) (tState t)
      else owner t \<noteq> Some w \<and> e = NotOwnedByWorker (tID t) w)"
  by (auto simp: check_claim_def owner_def split: option.splits)

locale claimed_op =
  fixes f :: "worker_id \<Rightarrow> Task \<Rightarrow> task_error + Task"
  assumes rejects: "check_claim w t = Inl e \<Longrightarrow> f w t = Inl e"
    and frame: "f w t = Inr t' \<Longrightarrow> same_task t t'"
    and keeps_owner: "f w t = Inr t' \<Longrightarrow> owner t' = owner t"
begin

lemma not_claimed: "tState t \<noteq> CLAIMED \<Longrightarrow> f w t = Inl (NotClaimed (tID t) (tState t))"
  by (rule rejects) (simp add: check_claim_Inl_iff)

lemma not_owner:
  "tState t = CLAIMED \<Longrightarrow> owner t \<noteq> Some w \<Longrightarrow> f w t = Inl (NotOwnedByWorker (tID t) w)"
  by (rule rejects) (simp add: check_claim_Inl_iff)

lemma success:
  assumes "f w t = Inr t'"
  shows "tState t = CLAIMED \<and> owner t = Some w \<and> owner t' = Some w \<and> same_task t t'"
proof -
  have "check_claim w t \<noteq> Inl e" for e using rejects assms by fastforce
  then obtain lc where "check_claim w t = Inr lc" by (cases "check_claim w t") auto
  then show ?thesis
    using frame [OF assms] keeps_owner [OF assms]
    by (auto simp: check_claim_Inr_iff owner_def)
qed

end

interpretation report_op: claimed_op "\<lambda>w. ReportIn w d at"
  by unfold_locales
    (auto simp: task_defs same_task_def owner_def check_claim_Inr_iff
      split: sum.splits option.splits if_splits)

interpretation done_op: claimed_op "\<lambda>w. IntoDone w at s"
  by unfold_locales
    (auto simp: task_defs same_task_def owner_def check_claim_Inr_iff split: sum.splits)

interpretation failed_op: claimed_op "\<lambda>w. IntoFailed r w at f"
  by unfold_locales
    (auto simp: task_defs same_task_def owner_def check_claim_Inr_iff Let_def split: sum.splits)

interpretation unclaim_op: claimed_op "\<lambda>w. IntoUnClaimed w at"
  by unfold_locales
    (auto simp: task_defs same_task_def owner_def check_claim_Inr_iff split: sum.splits)

text \<open>
  C8: a worker can change a claimed task only while it owns the claim. For a task that is
  not claimed, all four operations (report in, done, failed, unclaim) return \<open>NotClaimed\<close>
  with its state; for a task claimed by another worker they return \<open>NotOwnedByWorker\<close>.
\<close>

theorem only_owner_acts:
  shows "(tState t \<noteq> CLAIMED \<longrightarrow>
      {ReportIn w d at t, IntoDone w at s t, IntoFailed r w at f t, IntoUnClaimed w at t}
        = {Inl (NotClaimed (tID t) (tState t))})
    \<and> (tState t = CLAIMED \<and> owner t \<noteq> Some w \<longrightarrow>
      {ReportIn w d at t, IntoDone w at s t, IntoFailed r w at f t, IntoUnClaimed w at t}
        = {Inl (NotOwnedByWorker (tID t) w)})"
  by (simp add: report_op.not_claimed done_op.not_claimed failed_op.not_claimed unclaim_op.not_claimed
      report_op.not_owner done_op.not_owner failed_op.not_owner unclaim_op.not_owner)

section \<open>Functional behaviour on the owner's claim\<close>

lemma IntoClaimed_Inr_iff:
  "IntoClaimed w at t = Inr t' \<longleftrightarrow> tState t \<in> {QUEUED, FAILED} \<and>
     t' = t\<lparr>tState := CLAIMED, tAttempted := tAttempted t + 1,
            tLastClaimed := Some \<lparr>lcWorkerId = w, lcClaimedAt = at,
              lcTimesOutAt = time_add at (tProcessingTimeout t),
              lcLastReport = None, lcResult = None\<rparr>\<rparr>"
  by (auto simp: IntoClaimed_def)

lemma ReportIn_Inr_iff:
  "ReportIn w d at t = Inr t' \<longleftrightarrow> (\<exists>lc. check_claim w t = Inr lc \<and>
     (\<forall>r. lcLastReport lc = Some r \<longrightarrow> repAt r \<le> at) \<and>
     t' = t\<lparr>tLastClaimed := Some (lc\<lparr>lcLastReport := Some \<lparr>repAt = at, repData = d\<rparr>,
       lcTimesOutAt := time_add at (tProcessingTimeout t)\<rparr>)\<rparr>)"
  by (auto simp: ReportIn_def go_time split: sum.splits option.splits if_splits)

lemma IntoDone_Inr_iff:
  "IntoDone w at s t = Inr t' \<longleftrightarrow> (\<exists>lc. check_claim w t = Inr lc \<and>
     t' = t\<lparr>tState := DONE, tLastClaimed := Some (lc\<lparr>lcResult :=
       Some \<lparr>resAt = at, resFailure = None, resSuccess = s\<rparr>\<rparr>)\<rparr>)"
  by (auto simp: IntoDone_def split: sum.splits)

lemma IntoUnClaimed_Inr_iff:
  "IntoUnClaimed w at t = Inr t' \<longleftrightarrow> (\<exists>lc. check_claim w t = Inr lc \<and>
     t' = t\<lparr>tState := QUEUED, tAttempted := tAttempted t - 1, tLastEnqueuedAt := at\<rparr>)"
  by (auto simp: IntoUnClaimed_def split: sum.splits)

definition failed_claim :: "time \<Rightarrow> json_obj option \<Rightarrow> LastClaimed \<Rightarrow> LastClaimed" where
  "failed_claim at f lc = lc\<lparr>lcResult := Some \<lparr>resAt = at, resFailure = f, resSuccess = None\<rparr>\<rparr>"

lemma IntoFailed_Inr_iff:
  "IntoFailed r w at f t = Inr t' \<longleftrightarrow> (\<exists>lc. check_claim w t = Inr lc \<and>
     t' = (if RemainingAttempts t > 0
           then t\<lparr>tRunAt := time_add at (waitTimeDuration r (retriesSoFar t)),
                  tLastEnqueuedAt := at, tState := FAILED,
                  tLastClaimed := Some (failed_claim at f lc)\<rparr>
           else t\<lparr>tState := DEAD, tLastClaimed := Some (failed_claim at f lc)\<rparr>))"
  by (auto simp: IntoFailed_def Let_def failed_claim_def split: sum.splits)

lemmas task_iffs = IntoClaimed_Inr_iff ReportIn_Inr_iff IntoDone_Inr_iff IntoUnClaimed_Inr_iff
  IntoFailed_Inr_iff

text \<open>
  A report by the owner is accepted exactly when it is not older than the last one;
  it then becomes the last report, moves the time-out to its own time plus the processing
  timeout, and changes neither the state nor the number of attempts. An older one is
  rejected with both times.
\<close>

theorem ReportIn_extends_claim:
  assumes "tState t = CLAIMED" and "tLastClaimed t = Some lc" and "lcWorkerId lc = w"
  shows "(case lcLastReport lc of
       Some r \<Rightarrow> if at < repAt r then ReportIn w d at t = Inl (ReportFromThePast (tID t) at (repAt r))
                 else (\<exists>t'. ReportIn w d at t = Inr t')
     | None \<Rightarrow> (\<exists>t'. ReportIn w d at t = Inr t'))
   \<and> (\<forall>t'. ReportIn w d at t = Inr t' \<longrightarrow>
        tState t' = CLAIMED \<and> tAttempted t' = tAttempted t \<and>
        (\<exists>lc'. tLastClaimed t' = Some lc' \<and> lcClaimedAt lc' = lcClaimedAt lc \<and>
           lcLastReport lc' = Some \<lparr>repAt = at, repData = d\<rparr> \<and>
           lcTimesOutAt lc' = at + tProcessingTimeout t))"
proof -
  from assms have "check_claim w t = Inr lc" by (simp add: check_claim_Inr_iff)
  then show ?thesis
    using assms(1) by (auto simp: ReportIn_def go_time split: option.splits if_splits)
qed


section \<open>Attempts\<close>

text \<open>
  The retry budget does not wrap: \<open>RetryTimes + 1\<close> is not 0. (For the one budget where it
  wraps, \<open>2 ^ 64 - 1\<close>, no attempt is ever left: \<open>RemainingAttempts_wraps\<close>.)
\<close>

definition budget_ok :: "Task \<Rightarrow> bool" where
  "budget_ok t \<longleftrightarrow> unat (tRetryTimes t) < 2 ^ 64 - 1"

lemma RemainingAttempts_unat:
  assumes "budget_ok t"
  shows "unat (RemainingAttempts t) = unat (tRetryTimes t) + 1 - unat (tAttempted t)"
proof -
  have b: "unat (tRetryTimes t + 1) = unat (tRetryTimes t) + 1"
    using assms by (simp add: budget_ok_def word_succ_unat)
  show ?thesis
    by (auto simp: RemainingAttempts_def b word_less_nat_alt unat_sub_if')
qed

lemma RemainingAttempts_wraps:
  assumes "\<not> budget_ok t"
  shows "RemainingAttempts t = 0"
proof -
  have "tRetryTimes t + 1 = 0"
  proof (rule ccontr)
    assume "tRetryTimes t + 1 \<noteq> 0"
    then have "unat (tRetryTimes t + 1) = Suc (unat (tRetryTimes t))"
      using unatSuc [of "tRetryTimes t"] by (simp add: add.commute)
    moreover have "unat (tRetryTimes t + 1) < 2 ^ 64"
      using unsigned_less [of "tRetryTimes t + 1"] by simp
    ultimately show False using assms by (simp add: budget_ok_def)
  qed
  then show ?thesis by (auto simp: RemainingAttempts_def word_gt_0)
qed

lemma RemainingAttempts_pos_iff:
  "budget_ok t \<Longrightarrow> RemainingAttempts t > 0 \<longleftrightarrow> unat (tAttempted t) \<le> unat (tRetryTimes t)"
  using RemainingAttempts_unat [of t] by (simp add: word_less_nat_alt) linarith


section \<open>The life of a task\<close>

datatype task_event =
    Claimed worker_id time
  | Reported worker_id "json_obj option" time
  | Done worker_id time "json_obj option"
  | Failed u64 worker_id time "json_obj option"
  | UnClaimed worker_id time

text \<open>One step is one method that returned no error.\<close>

inductive task_step :: "Task \<Rightarrow> task_event \<Rightarrow> Task \<Rightarrow> bool" where
  step_claim: "IntoClaimed w at t = Inr t' \<Longrightarrow> task_step t (Claimed w at) t'"
| step_report: "ReportIn w d at t = Inr t' \<Longrightarrow> task_step t (Reported w d at) t'"
| step_done: "IntoDone w at s t = Inr t' \<Longrightarrow> task_step t (Done w at s) t'"
| step_fail: "IntoFailed r w at f t = Inr t' \<Longrightarrow> task_step t (Failed r w at f) t'"
| step_unclaim: "IntoUnClaimed w at t = Inr t' \<Longrightarrow> task_step t (UnClaimed w at) t'"

inductive_simps task_step_simps:
  "task_step t (Claimed w at) t'"
  "task_step t (Reported w d at) t'"
  "task_step t (Done w at s) t'"
  "task_step t (Failed r w at f) t'"
  "task_step t (UnClaimed w at) t'"

inductive_cases task_stepE: "task_step t e t'"

inductive task_run :: "Task \<Rightarrow> task_event list \<Rightarrow> Task \<Rightarrow> bool" where
  run_nil: "task_run t [] t"
| run_snoc: "task_run t es u \<Longrightarrow> task_step u e v \<Longrightarrow> task_run t (es @ [e]) v"

inductive_cases task_run_snocE: "task_run t (es @ [e]) v"

text \<open>A freshly created task, as \<open>Create\<close> stores it.\<close>

definition fresh :: "Task \<Rightarrow> bool" where
  "fresh t \<longleftrightarrow> tState t = QUEUED \<and> tAttempted t = 0 \<and> tLastClaimed t = None"

text \<open>
  The invariant. A task that can be claimed has attempts left; any other has used between
  one and \<open>RetryTimes + 1\<close>; a dead one has used all. A claimed task has an owner and no
  result yet, a finished one a result of its own kind only.
\<close>

definition claim_result :: "Task \<Rightarrow> (json_obj option \<times> json_obj option) option" where
  "claim_result t = Option.bind (tLastClaimed t)
     (\<lambda>lc. map_option (\<lambda>r. (resFailure r, resSuccess r)) (lcResult lc))"

definition attempts_ok :: "Task \<Rightarrow> bool" where
  "attempts_ok t \<longleftrightarrow>
     (case tState t of
        QUEUED \<Rightarrow> unat (tAttempted t) \<le> unat (tRetryTimes t)
      | FAILED \<Rightarrow> 1 \<le> unat (tAttempted t) \<and> unat (tAttempted t) \<le> unat (tRetryTimes t)
      | DEAD \<Rightarrow> unat (tAttempted t) = unat (tRetryTimes t) + 1
      | _ \<Rightarrow> 1 \<le> unat (tAttempted t) \<and> unat (tAttempted t) \<le> unat (tRetryTimes t) + 1)"

definition claim_ok :: "Task \<Rightarrow> bool" where
  "claim_ok t \<longleftrightarrow>
     (case tState t of
        QUEUED \<Rightarrow> True
      | CLAIMED \<Rightarrow> tLastClaimed t \<noteq> None \<and> claim_result t = None
      | DONE \<Rightarrow> (\<exists>s. claim_result t = Some (None, s))
      | _ \<Rightarrow> (\<exists>f. claim_result t = Some (f, None)))"

definition task_inv :: "Task \<Rightarrow> bool" where
  "task_inv t \<longleftrightarrow> attempts_ok t \<and> claim_ok t"

lemma task_step_same: "task_step t e t' \<Longrightarrow> same_task t t'"
  by (auto elim!: task_step.cases simp: IntoClaimed_Inr_iff same_task_def
      dest: report_op.frame done_op.frame failed_op.frame unclaim_op.frame)

lemma same_task_budget: "same_task t t' \<Longrightarrow> budget_ok t' \<longleftrightarrow> budget_ok t"
  by (simp add: same_task_def budget_ok_def)

lemma attempts_step:
  assumes "task_step t e t'" and "budget_ok t" and "attempts_ok t"
  shows "attempts_ok t' \<and> int (unat (tAttempted t')) =
     (case e of Claimed _ _ \<Rightarrow> int (unat (tAttempted t)) + 1
      | UnClaimed _ _ \<Rightarrow> int (unat (tAttempted t)) - 1
      | _ \<Rightarrow> int (unat (tAttempted t)))"
  using assms(1)
proof cases
  case (step_claim w at)
  then have "unat (tAttempted t) \<le> unat (tRetryTimes t)"
    using assms(3) by (auto simp: IntoClaimed_Inr_iff attempts_ok_def)
  then have "unat (tAttempted t + 1) = unat (tAttempted t) + 1"
    using assms(2) by (intro word_succ_unat) (simp add: budget_ok_def)
  then show ?thesis
    using step_claim assms(3) by (auto simp: IntoClaimed_Inr_iff attempts_ok_def)
next
  case (step_report w d at)
  then show ?thesis
    using assms(3) by (auto simp: ReportIn_Inr_iff check_claim_Inr_iff attempts_ok_def)
next
  case (step_done w at s)
  then show ?thesis
    using assms(3) by (auto simp: IntoDone_Inr_iff check_claim_Inr_iff attempts_ok_def)
next
  case (step_fail r w at f)
  then show ?thesis
    using assms(3) RemainingAttempts_pos_iff [OF assms(2)]
    by (auto simp: IntoFailed_Inr_iff check_claim_Inr_iff attempts_ok_def)
next
  case (step_unclaim w at)
  then have pos: "1 \<le> unat (tAttempted t)" "tState t = CLAIMED"
    using assms(3) by (auto simp: IntoUnClaimed_Inr_iff check_claim_Inr_iff attempts_ok_def)
  then have "unat (tAttempted t - 1) = unat (tAttempted t) - 1"
    by (intro word_pred_unat) (simp add: word_less_nat_alt)
  then show ?thesis
    using step_unclaim assms(3) pos by (auto simp: IntoUnClaimed_Inr_iff attempts_ok_def)
qed

lemma claim_step: "task_step t e t' \<Longrightarrow> claim_ok t \<Longrightarrow> claim_ok t'"
  by (auto elim!: task_step.cases simp: task_iffs check_claim_Inr_iff claim_ok_def
      claim_result_def failed_claim_def split: if_splits)

lemma task_step_inv:
  "task_step t e t' \<Longrightarrow> budget_ok t \<Longrightarrow> task_inv t \<Longrightarrow> task_inv t' \<and> budget_ok t'"
  using attempts_step claim_step task_step_same same_task_budget by (metis task_inv_def)

lemma fresh_inv: "fresh t \<Longrightarrow> task_inv t"
  by (simp add: fresh_def task_inv_def attempts_ok_def claim_ok_def)

lemma task_run_inv:
  "task_run t es t' \<Longrightarrow> fresh t \<Longrightarrow> budget_ok t \<Longrightarrow> task_inv t' \<and> budget_ok t' \<and> same_task t t'"
proof (induction rule: task_run.induct)
  case (run_nil t)
  then show ?case by (simp add: fresh_inv)
next
  case (run_snoc t es u e v)
  then show ?case
    using task_step_inv [of u e v] task_step_same [of u e v] same_task_trans [of t u v] by blast
qed


section \<open>Counting attempts\<close>

definition claims :: "task_event list \<Rightarrow> nat" where
  "claims es = length (filter (\<lambda>e. case e of Claimed _ _ \<Rightarrow> True | _ \<Rightarrow> False) es)"

definition unclaims :: "task_event list \<Rightarrow> nat" where
  "unclaims es = length (filter (\<lambda>e. case e of UnClaimed _ _ \<Rightarrow> True | _ \<Rightarrow> False) es)"

lemma task_run_attempted:
  "task_run t es t' \<Longrightarrow> fresh t \<Longrightarrow> budget_ok t \<Longrightarrow>
     int (unat (tAttempted t')) = int (claims es) - int (unclaims es)"
proof (induction rule: task_run.induct)
  case (run_nil t)
  then show ?case by (simp add: fresh_def claims_def unclaims_def)
next
  case (run_snoc t es u e v)
  then have "task_inv u" "budget_ok u" using task_run_inv by blast+
  then show ?case
    using run_snoc attempts_step [of u e v]
    by (cases e) (auto simp: task_inv_def claims_def unclaims_def)
qed

text \<open>
  C7: in every run of a task from its creation, the number of attempts recorded is
  the number of claims less the number of unclaims; it never exceeds \<open>RetryTimes + 1\<close>, and
  a task is dead only when it has reached it. (The budget must not be \<open>2 ^ 64 - 1\<close>, for
  which \<open>RetryTimes + 1\<close> wraps to 0.)
\<close>

theorem attempts_within_budget:
  assumes "task_run t es t'" and "fresh t" and "budget_ok t"
  shows "unat (tAttempted t') + unclaims es = claims es \<and>
    claims es \<le> unat (tRetryTimes t) + 1 + unclaims es \<and>
    (tState t' = DEAD \<longrightarrow> claims es = unat (tRetryTimes t) + 1 + unclaims es)"
proof -
  have inv: "attempts_ok t'" "tRetryTimes t' = tRetryTimes t"
    using task_run_inv [OF assms] by (simp_all add: task_inv_def same_task_def)
  have "int (unat (tAttempted t')) = int (claims es) - int (unclaims es)"
    using task_run_attempted assms by blast
  then have "unat (tAttempted t') + unclaims es = claims es" by linarith
  then show ?thesis
    using inv by (auto simp: attempts_ok_def split: State.splits)
qed

text \<open>
  C24: in every run of a task from its creation, what is recorded of the last claim fits the
  state: a claimed task has an owner and no result, a done one a result without a failure,
  a failed or dead one a result without a success; the fields that identify and describe
  the task are those it was created with.
\<close>

theorem recorded_result_fits_state:
  assumes "task_run t es t'" and "fresh t" and "budget_ok t"
  shows "same_task t t' \<and>
    (case tState t' of
        QUEUED \<Rightarrow> True
      | CLAIMED \<Rightarrow> owner t' \<noteq> None \<and> claim_result t' = None
      | DONE \<Rightarrow> (\<exists>s. claim_result t' = Some (None, s))
      | FAILED \<Rightarrow> (\<exists>f. claim_result t' = Some (f, None))
      | DEAD \<Rightarrow> (\<exists>f. claim_result t' = Some (f, None)))"
  using task_run_inv [OF assms]
  by (auto simp: task_inv_def claim_ok_def owner_def split: State.splits)

lemma result_states:
  "IntoClaimed w at t = Inr t' \<Longrightarrow> tState t \<in> {QUEUED, FAILED} \<and> tState t' = CLAIMED"
  "ReportIn w d at t = Inr t' \<Longrightarrow> tState t = CLAIMED \<and> tState t' = CLAIMED"
  "IntoDone w at s t = Inr t' \<Longrightarrow> tState t = CLAIMED \<and> tState t' = DONE"
  "IntoUnClaimed w at t = Inr t' \<Longrightarrow> tState t = CLAIMED \<and> tState t' = QUEUED"
  by (auto simp: task_iffs check_claim_Inr_iff)

lemma IntoFailed_states:
  "IntoFailed r w at f t = Inr t' \<Longrightarrow> tState t = CLAIMED \<and>
     tState t' = (if RemainingAttempts t > 0 then FAILED else DEAD)"
  by (auto simp: IntoFailed_def Let_def check_claim_Inr_iff split: sum.splits)

text \<open>
  The state machine of a task. A step from a state to a different one is one of the six
  transitions of the code: queued or failed to claimed, claimed to queued (unclaim), to
  done, to failed, or to dead; done and dead are final.
\<close>

lemma state_machine:
  assumes "task_step t e t'"
  shows "tState t \<notin> {DONE, DEAD} \<and>
    (tState t, tState t') \<in> {(QUEUED, CLAIMED), (FAILED, CLAIMED), (CLAIMED, QUEUED),
       (CLAIMED, DONE), (CLAIMED, FAILED), (CLAIMED, DEAD), (CLAIMED, CLAIMED)} \<and>
    (tState t' = CLAIMED \<longleftrightarrow> (\<exists>w at. e = Claimed w at) \<or> (\<exists>w d at. e = Reported w d at))"
  using assms
  by (elim task_step.cases)
    (auto dest!: result_states IntoFailed_states split: if_splits)

section \<open>A task that always fails\<close>

text \<open>One attempt: claimed at one time, failed at another, with the draw of the back-off.\<close>

type_synonym attempt = "u64 \<times> worker_id \<times> time \<times> time \<times> json_obj option"

fun fail_cycles :: "attempt list \<Rightarrow> Task \<Rightarrow> task_error + Task" where
  "fail_cycles [] t = Inr t"
| "fail_cycles ((r, w, at, at', f) # xs) t =
     (case IntoClaimed w at t of
        Inl e \<Rightarrow> Inl e
      | Inr t1 \<Rightarrow> (case IntoFailed r w at' f t1 of Inl e \<Rightarrow> Inl e | Inr t2 \<Rightarrow> fail_cycles xs t2))"

lemma fail_cycle_step:
  assumes "budget_ok t" "tState t = QUEUED \<or> tState t = FAILED"
    and "unat (tAttempted t) \<le> unat (tRetryTimes t)"
  shows "\<exists>t1 t2. IntoClaimed w at t = Inr t1 \<and> IntoFailed r w at' f t1 = Inr t2 \<and>
    budget_ok t2 \<and> tRetryTimes t2 = tRetryTimes t \<and> tID t2 = tID t \<and>
    unat (tAttempted t2) = unat (tAttempted t) + 1 \<and>
    tState t2 = (if unat (tAttempted t) = unat (tRetryTimes t) then DEAD else FAILED)"
proof -
  obtain t1 where t1: "IntoClaimed w at t = Inr t1" using assms(2) by (simp add: IntoClaimed_def)
  then have eq: "tState t1 = CLAIMED" "tAttempted t1 = tAttempted t + 1" "same_task t t1"
      "owner t1 = Some w"
    by (auto simp: IntoClaimed_Inr_iff same_task_def owner_def)
  have att: "unat (tAttempted t + 1) = unat (tAttempted t) + 1"
    using assms(1,3) by (intro word_succ_unat) (simp add: budget_ok_def)
  have b1: "budget_ok t1" using eq(3) assms(1) by (simp add: same_task_budget)
  have pos: "RemainingAttempts t1 > 0 \<longleftrightarrow> unat (tAttempted t) + 1 \<le> unat (tRetryTimes t)"
    using RemainingAttempts_pos_iff [OF b1] eq att by (simp add: same_task_def)
  obtain lc where "check_claim w t1 = Inr lc"
    using eq by (auto simp: check_claim_Inr_iff owner_def)
  then obtain t2 where t2: "IntoFailed r w at' f t1 = Inr t2"
    by (simp add: IntoFailed_def Let_def)
  then have "same_task t1 t2" by (rule failed_op.frame)
  then show ?thesis
    using t1 t2 eq b1 pos att assms(3)
    by (intro exI [of _ t1] exI [of _ t2])
      (auto simp: IntoFailed_Inr_iff same_task_def same_task_budget budget_ok_def)
qed

lemma fail_cycles_general:
  assumes "budget_ok t" "tState t = QUEUED \<or> tState t = FAILED"
    and "unat (tAttempted t) \<le> unat (tRetryTimes t)"
  shows "if unat (tAttempted t) + length xs \<le> unat (tRetryTimes t) + 1
     then (\<exists>t'. fail_cycles xs t = Inr t' \<and> unat (tAttempted t') = unat (tAttempted t) + length xs \<and>
            (xs \<noteq> [] \<longrightarrow> tState t' = (if unat (tAttempted t) + length xs = unat (tRetryTimes t) + 1
               then DEAD else FAILED)))
     else fail_cycles xs t = Inl (Unclaimable (tID t) DEAD)"
  using assms
proof (induction xs arbitrary: t)
  case Nil
  then show ?case by simp
next
  case (Cons x xs)
  obtain r w at at' f where x: "x = (r, w, at, at', f)" by (cases x)
  obtain t1 t2 where c: "IntoClaimed w at t = Inr t1" "IntoFailed r w at' f t1 = Inr t2"
      "budget_ok t2" "tRetryTimes t2 = tRetryTimes t" "tID t2 = tID t"
      "unat (tAttempted t2) = unat (tAttempted t) + 1"
      "tState t2 = (if unat (tAttempted t) = unat (tRetryTimes t) then DEAD else FAILED)"
    using fail_cycle_step [OF Cons.prems] by blast
  show ?case
  proof (cases "unat (tAttempted t) = unat (tRetryTimes t)")
    case True
    then show ?thesis
      using c x by (cases xs) (auto simp: IntoClaimed_def)
  next
    case False
    then have "unat (tAttempted t2) \<le> unat (tRetryTimes t2)" using Cons.prems c by simp
    then show ?thesis
      using Cons.IH [of t2] c x False by (cases "xs = []") auto
  qed
qed

text \<open>
  C31: a new task that fails on every attempt is failed (to be retried) after each of the
  first \<open>RetryTimes\<close> failures and dead after the next one; a further claim is refused.
\<close>

theorem always_failing_task_dies:
  assumes "fresh t" and "budget_ok t"
  shows "(0 < length xs \<and> length xs \<le> unat (tRetryTimes t) + 1 \<longrightarrow>
      (\<exists>t'. fail_cycles xs t = Inr t' \<and> unat (tAttempted t') = length xs \<and>
        tState t' = (if length xs = unat (tRetryTimes t) + 1 then DEAD else FAILED)))
    \<and> (unat (tRetryTimes t) + 1 < length xs \<longrightarrow>
      fail_cycles xs t = Inl (Unclaimable (tID t) DEAD))"
  using fail_cycles_general [of t xs] assms by (auto simp: fresh_def split: if_splits)


section \<open>Concrete runs\<close>

definition example_task :: Task where
  "example_task = \<lparr>tID = ''t1'', tQueue = ''run-later'', tRetryTimes = 0, tAttempted = 0,
     tKind = ''sayHello'', tState = QUEUED, tPriority = 0, tRunAt = 0,
     tProcessingTimeout = 30, tArgs = None, tContext = None, tLastClaimed = None,
     tLastEnqueuedAt = 0,
     tMetadata = \<lparr>CreatedAt = 0, ModifiedAt = 0, metaVersion = \<lparr>SeqNum = 1, PrimaryTerm = 1\<rparr>\<rparr>,
     tRecurringTaskId = None\<rparr>"

definition example_claimed :: Task where
  "example_claimed = example_task\<lparr>tState := CLAIMED, tAttempted := 1,
     tLastClaimed := Some \<lparr>lcWorkerId = ''w1'', lcClaimedAt = 5, lcTimesOutAt = 35,
       lcLastReport = None, lcResult = None\<rparr>\<rparr>"

definition example_dead :: Task where
  "example_dead = example_claimed\<lparr>tState := DEAD,
     tLastClaimed := Some \<lparr>lcWorkerId = ''w1'', lcClaimedAt = 5, lcTimesOutAt = 35,
       lcLastReport = None,
       lcResult = Some \<lparr>resAt = 9, resFailure = None, resSuccess = None\<rparr>\<rparr>\<rparr>"

lemma example_ok: "fresh example_task" "budget_ok example_task"
  by (simp_all add: fresh_def budget_ok_def example_task_def)

lemma example_claim: "IntoClaimed ''w1'' 5 example_task = Inr example_claimed"
  by (simp add: IntoClaimed_def example_claimed_def example_task_def go_time)

lemma example_fail: "IntoFailed 3 ''w1'' 9 None example_claimed = Inr example_dead"
  by (simp add: IntoFailed_def check_claim_def example_dead_def example_claimed_def
      example_task_def RemainingAttempts_def)

lemma example_run:
  "task_run example_task ([] @ [Claimed ''w1'' 5] @ [Failed 3 ''w1'' 9 None]) example_dead"
  unfolding append_assoc [symmetric]
  by (rule run_snoc [OF run_snoc [OF run_nil]])
    (rule task_step.intros example_claim example_fail)+

theorem only_owner_acts_witness:
  "tState example_task \<noteq> CLAIMED \<and> owner example_claimed \<noteq> Some ''w2'' \<and>
   IntoDone ''w1'' 7 None example_task = Inl (NotClaimed ''t1'' QUEUED) \<and>
   IntoDone ''w2'' 7 None example_claimed = Inl (NotOwnedByWorker ''t1'' ''w2'')"
  using only_owner_acts [where t = example_task and w = "''w1''" and at = 7 and s = None]
    only_owner_acts [where t = example_claimed and w = "''w2''" and at = 7 and s = None]
  by (simp add: example_task_def example_claimed_def owner_def)

theorem ReportIn_extends_claim_witness:
  "\<exists>t'. ReportIn ''w1'' None 20 example_claimed = Inr t' \<and> tState t' = CLAIMED"
proof -
  have h: "tState example_claimed = CLAIMED"
    "tLastClaimed example_claimed = Some \<lparr>lcWorkerId = ''w1'', lcClaimedAt = 5,
       lcTimesOutAt = 35, lcLastReport = None, lcResult = None\<rparr>"
    by (simp_all add: example_claimed_def)
  show ?thesis
    using ReportIn_extends_claim [OF h, where at = 20 and d = None] by auto
qed

theorem attempts_within_budget_witness:
  "task_run example_task [Claimed ''w1'' 5, Failed 3 ''w1'' 9 None] example_dead \<and>
   tState example_dead = DEAD \<and> claims [Claimed ''w1'' 5, Failed 3 ''w1'' 9 None] = 1"
  using example_run attempts_within_budget [OF example_run example_ok]
  by (simp add: example_dead_def claims_def)

theorem recorded_result_fits_state_witness:
  "same_task example_task example_dead \<and> (\<exists>f. claim_result example_dead = Some (f, None))"
  using recorded_result_fits_state [OF example_run example_ok]
  by (simp add: example_dead_def)

lemma state_machine_witness:
  "task_step example_task (Claimed ''w1'' 5) example_claimed \<and> tState example_task \<notin> {DONE, DEAD}"
  using step_claim [OF example_claim] state_machine [OF step_claim [OF example_claim]] by blast

theorem always_failing_task_dies_witness:
  "\<exists>t'. fail_cycles [(3, ''w1'', 5, 9, None)] example_task = Inr t' \<and> tState t' = DEAD"
proof -
  have "tRetryTimes example_task = 0" by (simp add: example_task_def)
  then show ?thesis
    using always_failing_task_dies [OF example_ok, of "[(3, ''w1'', 5, 9, None)]"]
    by (auto simp del: fail_cycles.simps)
qed

end
