(* ===== verification/EsTaskPersist.thy ===== *)
theory EsTaskPersist
  imports EsCommon TaskLifecycle
begin

text \<open>
  The persisted form of a task in \<open>internal/infra/elasticsearch/task/service.go\<close>: the
  document types, the conversions in both directions, the JSON document a marshalled task is
  (field names from the struct tags, \<open>omitempty\<close> fields left out when nil), and the bulk
  operations built from tasks. The document stores the remaining attempts, the domain model
  the attempts made; the round-trip theorems say what that costs.
\<close>

section \<open>Document types\<close>

record persistedReport =
  prAt :: time
  prData :: "json_obj option"

record persistedResult =
  psAt :: time
  psFailure :: "json_obj option"
  psSuccess :: "json_obj option"

record persistedLastClaimed =
  plWorkerId :: string
  plClaimedAt :: time
  plTimesOutAt :: time
  plLastReport :: "persistedReport option"
  plResult :: "persistedResult option"

record PersistedTaskData =
  pId :: string
  pQueue :: string
  pRetryTimes :: u64
  pRemainingAttempts :: u64
  pKind :: string
  pState :: State
  pRunAt :: time
  pProcessingTimeout :: duration
  pPriority :: int
  pArgs :: "json_obj option"
  pContext :: "json_obj option"
  pLastEnqueuedAt :: time
  pLastClaimed :: "persistedLastClaimed option"
  pMetadata :: PersistedMetadata
  pRecurringTaskId :: "string option"

type_synonym task_hit = "PersistedTaskData es_hit"

section \<open>Conversions\<close>

definition result_toDomain :: "persistedResult \<Rightarrow> Result" where
  "result_toDomain r = \<lparr>resAt = psAt r, resFailure = psFailure r, resSuccess = psSuccess r\<rparr>"

definition report_toDomain :: "persistedReport \<Rightarrow> Report" where
  "report_toDomain r = \<lparr>repAt = prAt r, repData = prData r\<rparr>"

definition lastClaimed_toDomain :: "persistedLastClaimed \<Rightarrow> LastClaimed" where
  "lastClaimed_toDomain l = \<lparr>lcWorkerId = plWorkerId l, lcClaimedAt = plClaimedAt l,
     lcTimesOutAt = plTimesOutAt l,
     lcLastReport = map_option report_toDomain (plLastReport l),
     lcResult = map_option result_toDomain (plResult l)\<rparr>"

definition toDomainTask :: "PersistedTaskData \<Rightarrow> Version \<Rightarrow> Task" where
  "toDomainTask p version = \<lparr>tID = pId p, tQueue = pQueue p, tRetryTimes = pRetryTimes p,
     tAttempted = pRetryTimes p + 1 - pRemainingAttempts p,
     tKind = pKind p, tState = pState p, tPriority = pPriority p, tRunAt = pRunAt p,
     tProcessingTimeout = pProcessingTimeout p, tArgs = pArgs p, tContext = pContext p,
     tLastClaimed = map_option lastClaimed_toDomain (pLastClaimed p),
     tLastEnqueuedAt = pLastEnqueuedAt p,
     tMetadata = \<lparr>CreatedAt = pmCreatedAt (pMetadata p), ModifiedAt = pmModifiedAt (pMetadata p),
       metaVersion = version\<rparr>,
     tRecurringTaskId = pRecurringTaskId p\<rparr>"

definition ToDomainTask :: "task_hit \<Rightarrow> Task" where
  "ToDomainTask resp = toDomainTask (hSource resp) (hit_version resp)"

definition result_toPersisted :: "Result \<Rightarrow> persistedResult" where
  "result_toPersisted r = \<lparr>psAt = resAt r, psFailure = resFailure r, psSuccess = resSuccess r\<rparr>"

definition report_toPersisted :: "Report \<Rightarrow> persistedReport" where
  "report_toPersisted r = \<lparr>prAt = repAt r, prData = repData r\<rparr>"

definition lastClaimed_toPersisted :: "LastClaimed \<Rightarrow> persistedLastClaimed" where
  "lastClaimed_toPersisted l = \<lparr>plWorkerId = lcWorkerId l, plClaimedAt = lcClaimedAt l,
     plTimesOutAt = lcTimesOutAt l,
     plLastReport = map_option report_toPersisted (lcLastReport l),
     plResult = map_option result_toPersisted (lcResult l)\<rparr>"

definition ToPersistedTask :: "Task \<Rightarrow> PersistedTaskData" where
  "ToPersistedTask t = \<lparr>pId = tID t, pQueue = tQueue t, pRetryTimes = tRetryTimes t,
     pRemainingAttempts = tRetryTimes t + 1 - tAttempted t,
     pKind = tKind t, pState = tState t, pRunAt = tRunAt t,
     pProcessingTimeout = tProcessingTimeout t, pPriority = tPriority t, pArgs = tArgs t,
     pContext = tContext t, pLastEnqueuedAt = tLastEnqueuedAt t,
     pLastClaimed = map_option lastClaimed_toPersisted (tLastClaimed t),
     pMetadata = \<lparr>pmCreatedAt = CreatedAt (tMetadata t), pmModifiedAt = ModifiedAt (tMetadata t)\<rparr>,
     pRecurringTaskId = tRecurringTaskId t\<rparr>"

definition newTask_toPersisted :: "task_id \<Rightarrow> time \<Rightarrow> NewTask \<Rightarrow> PersistedTaskData" where
  "newTask_toPersisted taskId now n = \<lparr>pId = taskId, pQueue = nQueue n,
     pRetryTimes = nRetryTimes n, pRemainingAttempts = nRetryTimes n + 1,
     pKind = nKind n, pState = QUEUED, pRunAt = nRunAt n,
     pProcessingTimeout = nProcessingTimeout n, pPriority = nPriority n, pArgs = nArgs n,
     pContext = nContext n, pLastEnqueuedAt = now, pLastClaimed = None,
     pMetadata = \<lparr>pmCreatedAt = now, pmModifiedAt = now\<rparr>,
     pRecurringTaskId = nRecurringTaskId n\<rparr>"

named_theorems persist_defs "the conversions, unfolded"

lemmas [persist_defs] = result_toDomain_def report_toDomain_def lastClaimed_toDomain_def
  toDomainTask_def result_toPersisted_def report_toPersisted_def lastClaimed_toPersisted_def
  ToPersistedTask_def

section \<open>Round trips\<close>

lemma leaf_roundtrips [simp]:
  "result_toDomain (result_toPersisted r) = r"
  "result_toPersisted (result_toDomain pr) = pr"
  "report_toDomain (report_toPersisted q) = q"
  "report_toPersisted (report_toDomain pq) = pq"
  by (simp_all add: persist_defs)

lemma lastClaimed_roundtrip [simp]:
  "lastClaimed_toDomain (lastClaimed_toPersisted l) = l"
  "lastClaimed_toPersisted (lastClaimed_toDomain pl) = pl"
  by (simp_all add: lastClaimed_toDomain_def lastClaimed_toPersisted_def option.map_comp o_def
      option.map_ident)

lemma toDomain_ToPersisted [simp]:
  "toDomainTask (ToPersistedTask t) v = t\<lparr>tMetadata := (tMetadata t)\<lparr>metaVersion := v\<rparr>\<rparr>"
  by (simp add: toDomainTask_def ToPersistedTask_def option.map_comp o_def option.map_ident)

lemma ToPersisted_toDomain [simp]: "ToPersistedTask (toDomainTask p v) = p"
  by (simp add: toDomainTask_def ToPersistedTask_def option.map_comp o_def option.map_ident)

text \<open>
  C32: storing a task and reading it back gives the same task with the version it was
  read at, and re-storing a document that was read gives the same document: the attempts made
  and the remaining attempts determine each other even when the subtraction wraps.
\<close>

theorem persist_roundtrip:
  "toDomainTask (ToPersistedTask t) v = t\<lparr>tMetadata := (tMetadata t)\<lparr>metaVersion := v\<rparr>\<rparr> \<and>
   ToPersistedTask (toDomainTask p v) = p"
  by simp

lemma ToPersistedTask_version [simp]:
  "ToPersistedTask (t\<lparr>tMetadata := (tMetadata t)\<lparr>metaVersion := v\<rparr>\<rparr>) = ToPersistedTask t"
  by (simp add: ToPersistedTask_def)

lemma ToPersistedTask_eqD:
  "ToPersistedTask t = ToPersistedTask t' \<Longrightarrow>
     t' = t\<lparr>tMetadata := (tMetadata t)\<lparr>metaVersion := metaVersion (tMetadata t')\<rparr>\<rparr>"
proof -
  assume eq: "ToPersistedTask t = ToPersistedTask t'"
  have "t' = toDomainTask (ToPersistedTask t') (metaVersion (tMetadata t'))"
    by simp
  then show ?thesis
    by (simp add: eq [symmetric])
qed

text \<open>
  The document's remaining attempts are what \<open>RemainingAttempts\<close> computes, as long
  as the attempts made do not exceed the budget (\<open>attempts_within_budget\<close>); and a task read
  from a document just created is fresh.
\<close>

theorem persisted_remaining_attempts:
  assumes "unat (tAttempted t) \<le> unat (tRetryTimes t) + 1" and "budget_ok t"
  shows "pRemainingAttempts (ToPersistedTask t) = RemainingAttempts t \<and>
    fresh (toDomainTask (newTask_toPersisted i now n) v)"
proof -
  have "unat (tRetryTimes t + 1) = unat (tRetryTimes t) + 1"
    using assms(2) by (simp add: budget_ok_def word_succ_unat)
  then have "\<not> tRetryTimes t + 1 < tAttempted t"
    using assms(1) by (simp add: word_less_nat_alt)
  then show ?thesis
    by (simp add: ToPersistedTask_def RemainingAttempts_def fresh_def toDomainTask_def
        newTask_toPersisted_def)
qed

theorem persisted_remaining_attempts_witness:
  "pRemainingAttempts (ToPersistedTask example_claimed) = RemainingAttempts example_claimed"
proof -
  have h: "unat (tAttempted example_claimed) \<le> unat (tRetryTimes example_claimed) + 1"
    "budget_ok example_claimed"
    by (simp_all add: example_claimed_def example_task_def budget_ok_def)
  show ?thesis using persisted_remaining_attempts [OF h] by blast
qed

section \<open>The JSON document\<close>

definition opt_field :: "string \<Rightarrow> ('a \<Rightarrow> json) \<Rightarrow> 'a option \<Rightarrow> json_obj" where
  "opt_field k f v = (case v of None \<Rightarrow> [] | Some x \<Rightarrow> [(k, f x)])"

definition report_json :: "persistedReport \<Rightarrow> json" where
  "report_json r = JObj ([(''at'', JTime (prAt r))] @ opt_field ''data'' JObj (prData r))"

definition result_json :: "persistedResult \<Rightarrow> json" where
  "result_json r = JObj ([(''at'', JTime (psAt r))]
     @ opt_field ''failure'' JObj (psFailure r) @ opt_field ''success'' JObj (psSuccess r))"

definition lastClaimed_json :: "persistedLastClaimed \<Rightarrow> json" where
  "lastClaimed_json l = JObj ([(''worker_id'', JStr (plWorkerId l)),
     (''claimed_at'', JTime (plClaimedAt l)), (''times_out_at'', JTime (plTimesOutAt l))]
     @ opt_field ''last_report'' report_json (plLastReport l)
     @ opt_field ''result'' result_json (plResult l))"

definition metadata_json :: "PersistedMetadata \<Rightarrow> json" where
  "metadata_json md = JObj [(''created_at'', JTime (pmCreatedAt md)),
     (''modified_at'', JTime (pmModifiedAt md))]"

definition persisted_json :: "PersistedTaskData \<Rightarrow> json" where
  "persisted_json p = JObj ([(''id'', JStr (pId p)), (''queue'', JStr (pQueue p)),
     (''retry_times'', JNum (uint (pRetryTimes p))),
     (''remaining_attempts'', JNum (uint (pRemainingAttempts p))),
     (''kind'', JStr (pKind p)), (''state'', State_MarshalJSON (pState p)),
     (''run_at'', JTime (pRunAt p)), (''processing_timeout'', JNum (pProcessingTimeout p)),
     (''priority'', JNum (pPriority p))]
     @ opt_field ''args'' JObj (pArgs p) @ opt_field ''context'' JObj (pContext p)
     @ [(''last_enqueued_at'', JTime (pLastEnqueuedAt p))]
     @ opt_field ''last_claimed'' lastClaimed_json (pLastClaimed p)
     @ [(''metadata'', metadata_json (pMetadata p))]
     @ opt_field ''recurring_task_id'' JStr (pRecurringTaskId p))"

section \<open>Bulk operations\<close>

definition buildUpdateBulkOp :: "Task \<Rightarrow> PersistedTaskData bulk_op" where
  "buildUpdateBulkOp t = BulkIndex (tID t) (BuildIndexName (tQueue t))
     (SeqNum (metaVersion (tMetadata t))) (PrimaryTerm (metaVersion (tMetadata t)))
     (ToPersistedTask t)"

definition buildTaskArchival :: "Task \<Rightarrow> PersistedTaskData bulk_op list" where
  "buildTaskArchival t =
     [BulkDelete (tID t) (BuildIndexName (tQueue t))
        (SeqNum (metaVersion (tMetadata t))) (PrimaryTerm (metaVersion (tMetadata t))),
      BulkInsert TasquesArchiveIndex (ToPersistedTask t)]"

text \<open>The NDJSON bodies, one operation after the other (marshalling these values cannot fail).\<close>

definition buildTasksBulkUpdateNdJson :: "Task list \<Rightarrow> PersistedTaskData bulk_op list" where
  "buildTasksBulkUpdateNdJson ts = map buildUpdateBulkOp ts"

definition buildTasksBulkArchiveNdJson :: "Task list \<Rightarrow> PersistedTaskData bulk_op list" where
  "buildTasksBulkArchiveNdJson ts = concat (map buildTaskArchival ts)"

end
