(* ===== verification/EsQueries.thy ===== *)
theory EsQueries
  imports EsTaskPersist
begin

text \<open>
  The search bodies the task service sends (\<open>build..SearchBody\<close> and the like in
  \<open>internal/infra/elasticsearch/task/service.go\<close>), as the JSON values the Go map literals are.
  What a query means is Elasticsearch's: a matcher \<open>m\<close> of a query clause against a document
  is a parameter, and \<open>dsl_ok\<close> states the documented meaning of the clauses the code uses.
  Under it, each query selects exactly the tasks it is for.
\<close>

section \<open>Query clauses\<close>

definition q_term :: "string \<Rightarrow> json \<Rightarrow> json" where
  "q_term f v = JObj [(''term'', JObj [(f, v)])]"

definition q_range :: "string \<Rightarrow> string \<Rightarrow> json \<Rightarrow> json" where
  "q_range f cmp v = JObj [(''range'', JObj [(f, JObj [(cmp, v)])])]"

definition q_bool :: "string \<Rightarrow> json \<Rightarrow> json" where
  "q_bool occur v = JObj [(''bool'', JObj [(occur, v)])]"

definition sort_by :: "string \<Rightarrow> string \<Rightarrow> json" where
  "sort_by f order = JObj [(f, JObj [(''order'', JStr order)])]"

definition state_term :: "State \<Rightarrow> json" where
  "state_term s = q_term ''state'' (JStr (State_String s))"

section \<open>The search bodies\<close>

definition buildClaimableQueryBody :: "u64 \<Rightarrow> time \<Rightarrow> json" where
  "buildClaimableQueryBody limit nowUtc = JObj [
     (''from'', JNum 0),
     (''size'', JNum (uint limit)),
     (''seq_no_primary_term'', JBool True),
     (''sort'', JArr [sort_by ''priority'' ''desc'', sort_by ''run_at'' ''asc'',
        sort_by ''remaining_attempts'' ''desc'']),
     (''query'', q_bool ''filter'' (q_bool ''must'' (JArr [
        q_range ''run_at'' ''lte'' (JTime nowUtc),
        q_range ''remaining_attempts'' ''gt'' (JNum 0),
        q_bool ''should'' (JArr [state_term QUEUED, state_term FAILED])])))]"

definition buildTimedOutSearchBody :: "time \<Rightarrow> u64 \<Rightarrow> json" where
  "buildTimedOutSearchBody nowUtc pageSize = JObj [
     (''size'', JNum (uint pageSize)),
     (''seq_no_primary_term'', JBool True),
     (''sort'', JArr [sort_by ''run_at'' ''asc'']),
     (''query'', q_bool ''filter'' (q_bool ''must'' (JArr [
        q_range ''last_claimed.times_out_at'' ''lte'' (JTime nowUtc),
        state_term CLAIMED])))]"

definition buildArchivableSearchBody :: "time \<Rightarrow> u64 \<Rightarrow> json" where
  "buildArchivableSearchBody archiveFinishedBefore pageSize = JObj [
     (''size'', JNum (uint pageSize)),
     (''seq_no_primary_term'', JBool True),
     (''sort'', JArr [sort_by ''last_claimed.result.at'' ''asc'', sort_by ''run_at'' ''asc'',
        sort_by ''metadata.created_at'' ''asc'']),
     (''query'', q_bool ''filter'' (q_bool ''must'' (JArr [
        q_range ''last_claimed.result.at'' ''lte'' (JTime archiveFinishedBefore),
        q_bool ''should'' (JArr [state_term DONE, state_term DEAD])])))]"

definition buildOutstandingTasksCountQuery :: "recurring_id \<Rightarrow> json" where
  "buildOutstandingTasksCountQuery recurringTaskId = JObj [
     (''query'', q_bool ''filter'' (q_bool ''must'' (JArr [
        q_term ''recurring_task_id.keyword'' (JStr recurringTaskId),
        q_bool ''should'' (JArr [state_term QUEUED, state_term FAILED, state_term CLAIMED])])))]"

section \<open>The documented meaning of the clauses\<close>

text \<open>A field of a document, by its path; a dotted name is split at the dots.\<close>

fun json_field :: "string list \<Rightarrow> json \<Rightarrow> json option" where
  "json_field [] j = Some j"
| "json_field (k # ks) (JObj kvs) = Option.bind (map_of kvs k) (json_field ks)"
| "json_field (k # ks) _ = None"

fun split_dots :: "string \<Rightarrow> string list" where
  "split_dots [] = [[]]"
| "split_dots (c # cs) =
     (if c = CHR ''.'' then [] # split_dots cs
      else case split_dots cs of [] \<Rightarrow> [[c]] | s # ss \<Rightarrow> (c # s) # ss)"

definition doc_field :: "json \<Rightarrow> string \<Rightarrow> json option" where
  "doc_field d f = json_field (split_dots f) d"

definition query_of :: "json \<Rightarrow> json" where
  "query_of body = (case json_field [''query''] body of Some q \<Rightarrow> q | None \<Rightarrow> JNull)"

text \<open>
  A \<open>date\<close> field is kept as milliseconds since the epoch. A \<open>.keyword\<close> sub-field holds the
  string of its parent unless it is longer than the template's \<open>ignore_above\<close> of 512.
\<close>

definition date_ms :: "time \<Rightarrow> int" where
  "date_ms t = t div 1000000"

definition dsl_ok :: "(json \<Rightarrow> json \<Rightarrow> bool) \<Rightarrow> bool" where
  "dsl_ok m \<longleftrightarrow>
     (\<forall>q d. m (q_bool ''filter'' q) d \<longleftrightarrow> m q d) \<and>
     (\<forall>qs d. m (q_bool ''must'' (JArr qs)) d \<longleftrightarrow> (\<forall>q \<in> set qs. m q d)) \<and>
     (\<forall>qs d. qs \<noteq> [] \<longrightarrow> (m (q_bool ''should'' (JArr qs)) d \<longleftrightarrow> (\<exists>q \<in> set qs. m q d))) \<and>
     (\<forall>qs d. m (q_bool ''must_not'' (JArr qs)) d \<longleftrightarrow> (\<forall>q \<in> set qs. \<not> m q d)) \<and>
     (\<forall>f s d. \<not> suffix ''.keyword'' f \<longrightarrow>
        (m (q_term f (JStr s)) d \<longleftrightarrow> doc_field d f = Some (JStr s))) \<and>
     (\<forall>f s d. length s \<le> 512 \<longrightarrow>
        (m (q_term (f @ ''.keyword'') (JStr s)) d \<longleftrightarrow> doc_field d f = Some (JStr s))) \<and>
     (\<forall>f b d. m (q_term f (JBool b)) d \<longleftrightarrow> doc_field d f = Some (JBool b)) \<and>
     (\<forall>f t d. m (q_range f ''lte'' (JTime t)) d \<longleftrightarrow>
        (\<exists>t'. doc_field d f = Some (JTime t') \<and> date_ms t' \<le> date_ms t)) \<and>
     (\<forall>f n d. m (q_range f ''gt'' (JNum n)) d \<longleftrightarrow>
        (\<exists>k. doc_field d f = Some (JNum k) \<and> n < k)) \<and>
     (\<forall>f d. m (JObj [(''exists'', JObj [(''field'', JStr f)])]) d \<longleftrightarrow>
        (\<exists>v. doc_field d f = Some v \<and> v \<noteq> JNull))"

lemma dsl_simps:
  assumes "dsl_ok m"
  shows "m (q_bool ''filter'' q) d \<longleftrightarrow> m q d"
    and "m (q_bool ''must'' (JArr qs)) d \<longleftrightarrow> (\<forall>q \<in> set qs. m q d)"
    and "qs \<noteq> [] \<Longrightarrow> m (q_bool ''should'' (JArr qs)) d \<longleftrightarrow> (\<exists>q \<in> set qs. m q d)"
    and "m (q_bool ''must_not'' (JArr qs)) d \<longleftrightarrow> (\<forall>q \<in> set qs. \<not> m q d)"
    and "\<not> suffix ''.keyword'' f \<Longrightarrow> m (q_term f (JStr s)) d \<longleftrightarrow> doc_field d f = Some (JStr s)"
    and "m (q_term f (JBool b)) d \<longleftrightarrow> doc_field d f = Some (JBool b)"
    and "m (q_range f ''lte'' (JTime t)) d \<longleftrightarrow>
        (\<exists>t'. doc_field d f = Some (JTime t') \<and> date_ms t' \<le> date_ms t)"
    and "m (q_range f ''gt'' (JNum n)) d \<longleftrightarrow> (\<exists>k. doc_field d f = Some (JNum k) \<and> n < k)"
    and "m (JObj [(''exists'', JObj [(''field'', JStr f)])]) d \<longleftrightarrow>
        (\<exists>v. doc_field d f = Some v \<and> v \<noteq> JNull)"
  using assms by (simp_all add: dsl_ok_def)

lemma dsl_keyword:
  "dsl_ok m \<Longrightarrow> length s \<le> 512 \<Longrightarrow>
     m (q_term (f @ ''.keyword'') (JStr s)) d \<longleftrightarrow> doc_field d f = Some (JStr s)"
  by (simp add: dsl_ok_def)

text \<open>An instance of the matcher, evaluating the clauses; it shows that \<open>dsl_ok\<close> can hold.\<close>

fun dsl_instance :: "json \<Rightarrow> json \<Rightarrow> bool" where
  "dsl_instance q d =
     (case q of JObj [(k, v)] \<Rightarrow>
        if k = ''bool'' then
          (case v of JObj [(b, a)] \<Rightarrow>
             if b = ''filter'' then dsl_instance a d
             else (case a of JArr qs \<Rightarrow>
                 if b = ''must'' then (\<forall>q \<in> set qs. dsl_instance q d)
                 else if b = ''should'' then (\<exists>q \<in> set qs. dsl_instance q d)
                 else if b = ''must_not'' then (\<forall>q \<in> set qs. \<not> dsl_instance q d)
                 else False
               | _ \<Rightarrow> False)
           | _ \<Rightarrow> False)
        else if k = ''term'' then
          (case v of JObj [(f, x)] \<Rightarrow>
             (case x of
                JStr s \<Rightarrow> doc_field d (if suffix ''.keyword'' f then take (length f - 8) f else f)
                  = Some (JStr s)
              | JBool b \<Rightarrow> doc_field d f = Some (JBool b)
              | _ \<Rightarrow> False)
           | _ \<Rightarrow> False)
        else if k = ''range'' then
          (case v of JObj [(f, JObj [(cmp, x)])] \<Rightarrow>
             (case (doc_field d f, x) of
                (Some (JTime t'), JTime t) \<Rightarrow> cmp = ''lte'' \<and> date_ms t' \<le> date_ms t
              | (Some (JNum n'), JNum n) \<Rightarrow> cmp = ''gt'' \<and> n < n'
              | _ \<Rightarrow> False)
           | _ \<Rightarrow> False)
        else if k = ''exists'' then
          (case v of JObj [(_, JStr f)] \<Rightarrow>
             (case doc_field d f of Some v \<Rightarrow> v \<noteq> JNull | None \<Rightarrow> False)
           | _ \<Rightarrow> False)
        else False
      | _ \<Rightarrow> False)"

declare dsl_instance.simps [simp del]

lemma dsl_instance_ok: "dsl_ok dsl_instance"
  unfolding dsl_ok_def
  by (intro conjI allI impI)
    (auto simp: dsl_instance.simps q_bool_def q_term_def q_range_def suffix_def
      split: option.splits json.splits)

section \<open>What the queries select\<close>

lemma doc_fields [simp]:
  "doc_field (persisted_json p) ''run_at'' = Some (JTime (pRunAt p))"
  "doc_field (persisted_json p) ''remaining_attempts'' = Some (JNum (uint (pRemainingAttempts p)))"
  "doc_field (persisted_json p) ''state'' = Some (JStr (State_String (pState p)))"
  "doc_field (persisted_json p) ''recurring_task_id'' = map_option JStr (pRecurringTaskId p)"
  by (auto simp: doc_field_def persisted_json_def opt_field_def State_MarshalJSON_def
      split: option.splits)

lemma State_String_inject [simp]: "State_String s = State_String t \<longleftrightarrow> s = t"
  by (cases s; cases t) simp_all

lemma claim_fields [simp]:
  "doc_field (persisted_json p) ''last_claimed.times_out_at'' =
     map_option (\<lambda>l. JTime (plTimesOutAt l)) (pLastClaimed p)"
  "doc_field (persisted_json p) ''last_claimed.result.at'' =
     Option.bind (pLastClaimed p) (\<lambda>l. map_option (\<lambda>r. JTime (psAt r)) (plResult l))"
  by (auto simp: doc_field_def persisted_json_def lastClaimed_json_def result_json_def
      opt_field_def split: option.splits)

lemma state_term_iff [simp]:
  "dsl_ok m \<Longrightarrow> m (state_term s) (persisted_json p) \<longleftrightarrow> pState p = s"
  by (auto simp: state_term_def dsl_simps suffix_def)

lemmas body_defs = buildClaimableQueryBody_def buildTimedOutSearchBody_def
  buildArchivableSearchBody_def buildOutstandingTasksCountQuery_def

text \<open>
  C17: under the documented meaning of its clauses, the claim query selects a stored task
  exactly when it is due (to the millisecond), has attempts left, and is queued or failed;
  and a task read from such a document is one \<open>IntoClaimed\<close> accepts.
\<close>

theorem claimable_query_selects:
  assumes "dsl_ok m"
  shows "(m (query_of (buildClaimableQueryBody limit now)) (persisted_json p) \<longleftrightarrow>
      date_ms (pRunAt p) \<le> date_ms now \<and> 0 < pRemainingAttempts p \<and>
      pState p \<in> {QUEUED, FAILED})
    \<and> (m (query_of (buildClaimableQueryBody limit now)) (persisted_json p) \<longrightarrow>
      (\<exists>t. IntoClaimed w at (toDomainTask p v) = Inr t))"
proof -
  have "m (query_of (buildClaimableQueryBody limit now)) (persisted_json p) \<longleftrightarrow>
      date_ms (pRunAt p) \<le> date_ms now \<and> 0 < pRemainingAttempts p \<and>
      pState p \<in> {QUEUED, FAILED}"
    using assms
    by (simp add: query_of_def buildClaimableQueryBody_def dsl_simps word_less_def)
  then show ?thesis by (simp add: IntoClaimed_Inr_iff toDomainTask_def)
qed

theorem claimable_query_selects_witness:
  "dsl_instance (query_of (buildClaimableQueryBody 10 5000000))
     (persisted_json (ToPersistedTask example_task))"
  using claimable_query_selects [OF dsl_instance_ok, of 10 5000000 "ToPersistedTask example_task"]
  by (simp add: ToPersistedTask_def example_task_def date_ms_def)

text \<open>
  The reaper's query selects exactly the claimed tasks whose time-out has passed, the
  archiver's exactly the done and dead tasks whose result is old enough.
\<close>

theorem reap_and_archive_queries_select:
  assumes "dsl_ok m"
  shows "(m (query_of (buildTimedOutSearchBody now page)) (persisted_json p) \<longleftrightarrow>
      pState p = CLAIMED \<and>
      (\<exists>l. pLastClaimed p = Some l \<and> date_ms (plTimesOutAt l) \<le> date_ms now))
    \<and> (m (query_of (buildArchivableSearchBody before page)) (persisted_json p) \<longleftrightarrow>
      pState p \<in> {DONE, DEAD} \<and>
      (\<exists>l r. pLastClaimed p = Some l \<and> plResult l = Some r \<and> date_ms (psAt r) \<le> date_ms before))"
  using assms
  by (auto simp: query_of_def buildTimedOutSearchBody_def buildArchivableSearchBody_def dsl_simps
      Option.bind_eq_Some_conv)

theorem reap_and_archive_queries_select_witness:
  "dsl_instance (query_of (buildTimedOutSearchBody 50 10))
     (persisted_json (ToPersistedTask example_claimed)) \<and>
   dsl_instance (query_of (buildArchivableSearchBody 50 10))
     (persisted_json (ToPersistedTask example_dead))"
  using reap_and_archive_queries_select [OF dsl_instance_ok, where now = 50 and before = 50 and
      page = 10 and p = "ToPersistedTask example_claimed"]
    reap_and_archive_queries_select [OF dsl_instance_ok, where now = 50 and before = 50 and
      page = 10 and p = "ToPersistedTask example_dead"]
  by (simp add: ToPersistedTask_def example_claimed_def example_dead_def
      lastClaimed_toPersisted_def result_toPersisted_def date_ms_def)

lemma outstanding_selects:
  assumes "dsl_ok m" and "length rid \<le> 512"
  shows "m (query_of (buildOutstandingTasksCountQuery rid)) (persisted_json p) \<longleftrightarrow>
    pRecurringTaskId p = Some rid \<and> pState p \<notin> {DONE, DEAD}"
proof -
  have "m (q_term (''recurring_task_id'' @ ''.keyword'') (JStr rid)) (persisted_json p) \<longleftrightarrow>
      pRecurringTaskId p = Some rid"
    by (simp add: dsl_keyword [OF assms] del: append.simps)
  then show ?thesis
    using assms(1)
    by (cases "pState p") (simp_all add: query_of_def buildOutstandingTasksCountQuery_def dsl_simps)
qed

text \<open>
  The outstanding-tasks query selects exactly the tasks of the recurring task that are
  neither done nor dead, for ids of at most 512 characters (longer ones are not indexed).
\<close>

theorem outstanding_query_selects:
  assumes "dsl_ok m" and "length rid \<le> 512"
  shows "m (query_of (buildOutstandingTasksCountQuery rid)) (persisted_json p) \<longleftrightarrow>
    pRecurringTaskId p = Some rid \<and> pState p \<notin> {DONE, DEAD}"
  by (rule outstanding_selects [OF assms])

theorem outstanding_query_selects_witness:
  "dsl_instance (query_of (buildOutstandingTasksCountQuery ''hourly''))
     (persisted_json (ToPersistedTask (example_task\<lparr>tRecurringTaskId := Some ''hourly''\<rparr>)))"
  using outstanding_query_selects [OF dsl_instance_ok, of "''hourly''"
      "ToPersistedTask (example_task\<lparr>tRecurringTaskId := Some ''hourly''\<rparr>)"]
  by (simp add: ToPersistedTask_def example_task_def)

end
