(* ===== verification/Config.thy ===== *)
theory Config
  imports Prelude
begin

text \<open>
  The settings of \<open>internal/config/models.go\<close> that the modelled components read.
\<close>

record Queues =
  LastActivityTrackerMaxSize :: u64
  RefreshIfLastTouchedOver :: duration
  RefreshIfLastTouchedUnder :: duration

record TasksDefaults =
  BlockFor :: duration
  BlockForRetryMinWait :: duration
  BlockForRetryMaxRetries :: u64
  WorkerProcessingTimeout :: duration
  ClaimAmount :: u64
  ClaimAmountSearchMultiplier :: u64
  RetryTimes :: u64
  VersionConflictRetryTimes :: u64

record TasksConf =
  Defaults :: TasksDefaults
  QueuesConf :: Queues

end
