(* ===== verification/EsTaskService.thy ===== *)
theory EsTaskService
  imports EsQueries Config "HOL-Library.Monad_Syntax"
begin

text \<open>
  The task service, \<open>EsService\<close> of \<open>internal/infra/elasticsearch/task/service.go\<close>, the
  implementation of the interface \<open>task.Service\<close>. Each method takes the environment, the
  settings and the world, and returns the new world with the result. The environment adds to
  the client library the random source and the LRU cache of last touched queues (a
  third-party package), which live in the world too. \<open>Claim\<close>, the scans and what calls them
  may loop for ever, so they return an option: \<open>None\<close> when they do not return.
\<close>

section \<open>Environment\<close>

record 'w task_env = "('w, PersistedTaskData) es_client" +
  rand_Intn30 :: "'w \<Rightarrow> 'w \<times> u64"
  lru_Get :: "qname \<Rightarrow> 'w \<Rightarrow> 'w \<times> time option"
  lru_Add :: "qname \<Rightarrow> time \<Rightarrow> 'w \<Rightarrow> 'w"

section \<open>Create and Get\<close>

definition EsCreate :: "'w task_env \<Rightarrow> NewTask \<Rightarrow> 'w \<Rightarrow> 'w \<times> (task_error + Task)" where
  "EsCreate e newTask w =
     (let indexName = BuildIndexName (nQueue newTask);
          (w1, now) = getUTC e w;
          (w2, taskId) = GenerateId (new_uuid e) newTask w1;
          toPersist = newTask_toPersisted taskId now newTask
      in case CreateRequest e indexName taskId toPersist w2 of
           (w3, NoResponse) \<Rightarrow> (w3, Inl ElasticsearchErr)
         | (w3, Response statusCode body) \<Rightarrow>
             (w3, if status_2xx statusCode then
                    (case body of
                       None \<Rightarrow> Inl JsonSerdesErr
                     | Some response \<Rightarrow>
                         Inr (toDomainTask toPersist (EsCreateResponse_Version response)))
                  else if statusCode = 409 then Inl (AlreadyExists taskId)
                  else Inl ElasticsearchErr))"

definition EsGet :: "'w task_env \<Rightarrow> qname \<Rightarrow> task_id \<Rightarrow> 'w \<Rightarrow> 'w \<times> (task_error + Task)" where
  "EsGet e queue taskId w =
     (case GetRequest e (BuildIndexName queue) taskId w of
        (w1, NoResponse) \<Rightarrow> (w1, Inl ElasticsearchErr)
      | (w1, Response statusCode body) \<Rightarrow>
          (w1, if statusCode = 200 then
                 (case body of
                    None \<Rightarrow> Inl JsonSerdesErr
                  | Some response \<Rightarrow> Inr (ToDomainTask response))
               else if statusCode = 404 then Inl (NotFound taskId queue)
               else Inl ElasticsearchErr))"

section \<open>Updates under optimistic locking\<close>

definition set_modified :: "time \<Rightarrow> Task \<Rightarrow> Task" where
  "set_modified at t = t\<lparr>tMetadata := (tMetadata t)\<lparr>ModifiedAt := at\<rparr>\<rparr>"

definition set_version :: "Version \<Rightarrow> Task \<Rightarrow> Task" where
  "set_version v t = t\<lparr>tMetadata := (tMetadata t)\<lparr>metaVersion := v\<rparr>\<rparr>"

definition version_of :: "Task \<Rightarrow> Version" where
  "version_of t = metaVersion (tMetadata t)"

definition lock_data :: "Version \<Rightarrow> int \<times> int" where
  "lock_data v = (IntPtr (PrimaryTerm v), IntPtr (SeqNum v))"

definition getAndUpdate ::
  "'w task_env \<Rightarrow> qname \<Rightarrow> task_id \<Rightarrow> (Task \<Rightarrow> 'w \<Rightarrow> 'w \<times> (task_error + Task)) \<Rightarrow> time \<Rightarrow> 'w \<Rightarrow>
     'w \<times> (task_error + Task)" where
  "getAndUpdate e queue taskId mutate at w =
     (case EsGet e queue taskId w of
        (w1, Inl err) \<Rightarrow> (w1, Inl err)
      | (w1, Inr targetTask) \<Rightarrow>
          (case mutate targetTask w1 of
             (w2, Inl err) \<Rightarrow> (w2, Inl err)
           | (w2, Inr mutated) \<Rightarrow>
               (let updated = set_modified at mutated in
                case IndexRequest e (BuildIndexName queue) taskId (ToPersistedTask updated)
                       (Some (lock_data (version_of updated))) w2 of
                  (w3, NoResponse) \<Rightarrow> (w3, Inl ElasticsearchErr)
                | (w3, Response respStatus body) \<Rightarrow>
                    (w3, if status_2xx respStatus then
                           (case body of
                              None \<Rightarrow> Inl JsonSerdesErr
                            | Some resp \<Rightarrow> Inr (set_version (EsUpdateResponse_Version resp) updated))
                         else if respStatus = 409 then Inl (InvalidVersion taskId)
                         else if respStatus = 404 then Inl (NotFound taskId queue)
                         else Inl ElasticsearchErr))))"

text \<open>
  The retry on a version conflict. It is an \<open>if\<close>, not a loop: with
  \<open>timesRetried < VersionConflictRetryTimes\<close> the update is run once more, and its result is
  returned whatever it is.
\<close>

definition retry_conflict ::
  "TasksConf \<Rightarrow> ('w \<Rightarrow> 'w \<times> (task_error + Task)) \<Rightarrow> 'w \<Rightarrow> 'w \<times> (task_error + Task)" where
  "retry_conflict conf runUpdate w =
     (case runUpdate w of
        (w1, Inl (InvalidVersion i)) \<Rightarrow>
          if 0 < VersionConflictRetryTimes (Defaults conf) then runUpdate w1
          else (w1, Inl (InvalidVersion i))
      | result \<Rightarrow> result)"

definition EsReportIn ::
  "'w task_env \<Rightarrow> TasksConf \<Rightarrow> worker_id \<Rightarrow> qname \<Rightarrow> task_id \<Rightarrow> json_obj option \<Rightarrow> 'w \<Rightarrow>
     'w \<times> (task_error + Task)" where
  "EsReportIn e conf workerId queue taskId newReport w =
     (let (w1, reportedInAt) = getUTC e w
      in retry_conflict conf
           (getAndUpdate e queue taskId
              (\<lambda>t w. (w, ReportIn workerId newReport reportedInAt t)) reportedInAt) w1)"

definition markComplete ::
  "'w task_env \<Rightarrow> TasksConf \<Rightarrow> qname \<Rightarrow> task_id \<Rightarrow>
     (Task \<Rightarrow> time \<Rightarrow> 'w \<Rightarrow> 'w \<times> (task_error + Task)) \<Rightarrow> 'w \<Rightarrow> 'w \<times> (task_error + Task)" where
  "markComplete e conf queue taskId mutate w =
     retry_conflict conf
       (\<lambda>w. let (w1, completedAt) = getUTC e w
             in getAndUpdate e queue taskId (\<lambda>t. mutate t completedAt) completedAt w1) w"

definition EsMarkDone ::
  "'w task_env \<Rightarrow> TasksConf \<Rightarrow> worker_id \<Rightarrow> qname \<Rightarrow> task_id \<Rightarrow> json_obj option \<Rightarrow> 'w \<Rightarrow>
     'w \<times> (task_error + Task)" where
  "EsMarkDone e conf workerId queue taskId success =
     markComplete e conf queue taskId (\<lambda>t at w. (w, IntoDone workerId at success t))"

text \<open>\<open>IntoFailed\<close> draws a random number only for a task it lets retry; otherwise its delay is not computed.\<close>

definition IntoFailed_draw ::
  "'w task_env \<Rightarrow> worker_id \<Rightarrow> time \<Rightarrow> json_obj option \<Rightarrow> Task \<Rightarrow> 'w \<Rightarrow> 'w \<times> (task_error + Task)" where
  "IntoFailed_draw e workerId at failure t w =
     (let retries = (case check_claim workerId t of Inl _ \<Rightarrow> False | Inr _ \<Rightarrow> RemainingAttempts t > 0);
          (w1, r) = (if retries then rand_Intn30 e w else (w, 0))
      in (w1, IntoFailed r workerId at failure t))"

lemma IntoFailed_draw_cases:
  assumes "IntoFailed_draw e wid at d t w = (w', x)"
  obtains r where "x = IntoFailed r wid at d t" and "rand_Intn30 e w = (w', r) \<or> w' = w"
  using assms by (auto simp: IntoFailed_draw_def Let_def split: prod.splits if_splits)

definition EsMarkFailed ::
  "'w task_env \<Rightarrow> TasksConf \<Rightarrow> worker_id \<Rightarrow> qname \<Rightarrow> task_id \<Rightarrow> json_obj option \<Rightarrow> 'w \<Rightarrow>
     'w \<times> (task_error + Task)" where
  "EsMarkFailed e conf workerId queue taskId failure =
     markComplete e conf queue taskId (\<lambda>t at. IntoFailed_draw e workerId at failure t)"

definition EsUnClaim ::
  "'w task_env \<Rightarrow> TasksConf \<Rightarrow> worker_id \<Rightarrow> qname \<Rightarrow> task_id \<Rightarrow> 'w \<Rightarrow> 'w \<times> (task_error + Task)" where
  "EsUnClaim e conf workerId queue taskId w =
     retry_conflict conf
       (\<lambda>w. let (w1, unclaimedAt) = getUTC e w
             in getAndUpdate e queue taskId
                  (\<lambda>t w. (w, IntoUnClaimed workerId unclaimedAt t)) unclaimedAt w1) w"

section \<open>The cache of touched queues, refreshing and counting\<close>

definition markTouched :: "'w task_env \<Rightarrow> qname \<Rightarrow> 'w \<Rightarrow> 'w" where
  "markTouched e name w = (let (w1, now) = getUTC e w in lru_Add e name now w1)"

definition markAllTouched :: "'w task_env \<Rightarrow> qname list \<Rightarrow> 'w \<Rightarrow> 'w" where
  "markAllTouched e names w =
     (let (w1, now) = getUTC e w in fold (\<lambda>name. lru_Add e name now) names w1)"

definition needsRefreshing :: "'w task_env \<Rightarrow> TasksConf \<Rightarrow> qname \<Rightarrow> 'w \<Rightarrow> 'w \<times> bool" where
  "needsRefreshing e conf name w =
     (case lru_Get e name w of
        (w1, Some lastTouched) \<Rightarrow>
          (let (w2, now) = getUTC e w1; diff = time_sub now lastTouched
           in (w2, diff > RefreshIfLastTouchedOver (QueuesConf conf) \<or>
                   diff \<le> RefreshIfLastTouchedUnder (QueuesConf conf)))
      | (w1, None) \<Rightarrow> (w1, True))"

text \<open>The refresh request names the queue itself, not the index built from it.\<close>

definition EsRefreshAsNeeded ::
  "'w task_env \<Rightarrow> TasksConf \<Rightarrow> qname \<Rightarrow> 'w \<Rightarrow> 'w \<times> (task_error + unit)" where
  "EsRefreshAsNeeded e conf name w =
     (case needsRefreshing e conf name w of
        (w1, True) \<Rightarrow>
          (case IndicesRefreshRequest e [name] w1 of
             (w2, NoResponse) \<Rightarrow> (w2, Inl ElasticsearchErr)
           | (w2, Response respStatus _) \<Rightarrow>
               if status_2xx respStatus then (markTouched e name w2, Inr ())
               else (w2, Inl ElasticsearchErr))
      | (w1, False) \<Rightarrow> (w1, Inr ()))"

definition EsOutstandingTasksCount ::
  "'w task_env \<Rightarrow> qname \<Rightarrow> recurring_id \<Rightarrow> 'w \<Rightarrow> 'w \<times> (task_error + u64)" where
  "EsOutstandingTasksCount e queue recurringTaskId w =
     (case CountRequest e [BuildIndexName queue]
             (buildOutstandingTasksCountQuery recurringTaskId) w of
        (w1, NoResponse) \<Rightarrow> (w1, Inl ElasticsearchErr)
      | (w1, Response statusCode body) \<Rightarrow>
          if statusCode = 200 then
            (case body of
               None \<Rightarrow> (w1, Inl JsonSerdesErr)
             | Some count \<Rightarrow> (markTouched e queue w1, Inr count))
          else (w1, Inl ElasticsearchErr))"

end
