(* ===== verification/EsTaskClaim.thy ===== *)
theory EsTaskClaim
  imports EsTaskService
begin

text \<open>
  Claiming tasks: \<open>Claim\<close>, \<open>searchAndClaim\<close>, \<open>searchForClaimables\<close>, \<open>makeClaim\<close> and the bulk
  requests of \<open>internal/infra/elasticsearch/task/service.go\<close>. Go's \<open>int\<close> indices and the
  conversions between \<open>int\<close> and \<open>uint\<close> are kept: slicing out of range panics.
\<close>

section \<open>Bulk requests\<close>

definition sendBulk ::
  "'w task_env \<Rightarrow> PersistedTaskData bulk_op list \<Rightarrow> 'w \<Rightarrow> 'w \<times> (task_error + EsBulkResponse)" where
  "sendBulk e body w =
     (case BulkRequest e body w of
        (w1, NoResponse) \<Rightarrow> (w1, Inl ElasticsearchErr)
      | (w1, Response statusCode resp) \<Rightarrow>
          (w1, if statusCode > 299 then Inl ElasticsearchErr
               else (case resp of None \<Rightarrow> Inl JsonSerdesErr | Some response \<Rightarrow> Inr response)))"

definition bulkUpdateTasks ::
  "'w task_env \<Rightarrow> Task list \<Rightarrow> 'w \<Rightarrow> 'w \<times> (task_error + EsBulkResponse)" where
  "bulkUpdateTasks e tasks = sendBulk e (buildTasksBulkUpdateNdJson tasks)"

definition bulkArchiveTasks ::
  "'w task_env \<Rightarrow> Task list \<Rightarrow> 'w \<Rightarrow> 'w \<times> (task_error + EsBulkResponse)" where
  "bulkArchiveTasks e tasks = sendBulk e (buildTasksBulkArchiveNdJson tasks)"

section \<open>One attempt at claiming a window of tasks\<close>

fun claim_each :: "worker_id \<Rightarrow> time \<Rightarrow> Task list \<Rightarrow> task_error + Task list" where
  "claim_each workerId claimedAt [] = Inr []"
| "claim_each workerId claimedAt (t # ts) =
     (case IntoClaimed workerId claimedAt t of
        Inl err \<Rightarrow> Inl err
      | Inr t' \<Rightarrow> map_result ((#) (set_modified claimedAt t')) (claim_each workerId claimedAt ts))"

text \<open>
  The results are in the order of the request: task number \<open>idx\<close> is claimed when item
  \<open>idx\<close> is ok, and takes its version.
\<close>

fun pick_claimed :: "EsBulkResponse \<Rightarrow> nat \<Rightarrow> Task list \<Rightarrow> task_error + Task list" where
  "pick_claimed resp idx [] = Inr []"
| "pick_claimed resp idx (t # ts) =
     (case item_info resp idx of
        None \<Rightarrow> Inl Panicked
      | Some info \<Rightarrow>
          map_result (\<lambda>rest. if IsOk info then set_version (ItemInfo_Version info) t # rest else rest)
            (pick_claimed resp (Suc idx) ts))"

definition makeClaim ::
  "'w task_env \<Rightarrow> worker_id \<Rightarrow> Task list \<Rightarrow> 'w \<Rightarrow> 'w \<times> (task_error + Task list)" where
  "makeClaim e workerId aboutToClaims w =
     (let (w1, claimedAt) = getUTC e w in
      case claim_each workerId claimedAt aboutToClaims of
        Inl err \<Rightarrow> (w1, Inl err)
      | Inr claimedTasks \<Rightarrow>
          (case bulkUpdateTasks e claimedTasks w1 of
             (w2, Inl err) \<Rightarrow> (w2, Inl err)
           | (w2, Inr resp) \<Rightarrow> (w2, pick_claimed resp 0 claimedTasks)))"

section \<open>Searching\<close>

definition searchForClaimables ::
  "'w task_env \<Rightarrow> qname list \<Rightarrow> u64 \<Rightarrow> 'w \<Rightarrow> 'w \<times> (task_error + Task list)" where
  "searchForClaimables e queues retrieveLimit w =
     (let indices = (if queues = [] then [allTaskqueueQueuesPattern] else map BuildIndexName queues);
          (w1, nowUTC) = getUTC e w
      in case SearchRequest e indices (buildClaimableQueryBody retrieveLimit nowUTC) w1 of
           (w2, NoResponse) \<Rightarrow> (w2, Inl ElasticsearchErr)
         | (w2, Response statusCode body) \<Rightarrow>
             (w2, if statusCode = 200 then
                    (case body of
                       None \<Rightarrow> Inl JsonSerdesErr
                     | Some hits \<Rightarrow> Inr (map ToDomainTask hits))
                  else if statusCode = 404 then Inr []
                  else Inl ElasticsearchErr))"

partial_function (option) search_loop ::
  "'w task_env \<Rightarrow> qname list \<Rightarrow> u64 \<Rightarrow> time \<Rightarrow> duration \<Rightarrow> duration \<Rightarrow> bool \<Rightarrow> Task list \<Rightarrow> 'w \<Rightarrow>
     ('w \<times> (task_error + Task list)) option" where
  "search_loop e queues searchLimit startedAtUTC blockFor retryLoopWait firstTry searchResults w =
     (if searchResults \<noteq> [] then Some (w, Inr searchResults)
      else let (w1, now) = getUTC e w in
        if time_sub now startedAtUTC < blockFor then
          (let w2 = (if firstTry then w1 else Sleep e retryLoopWait w1) in
           case searchForClaimables e queues searchLimit w2 of
             (w3, Inl err) \<Rightarrow> Some (w3, Inl err)
           | (w3, Inr results) \<Rightarrow>
               search_loop e queues searchLimit startedAtUTC blockFor retryLoopWait False results w3)
        else Some (w1, Inr searchResults))"

section \<open>Claiming through a window of the search results\<close>

definition minInt :: "int \<Rightarrow> int \<Rightarrow> int" where
  "minInt x y = (if x < y then x else y)"

text \<open>\<open>xs[a:b]\<close>; \<open>None\<close> where the bounds make it panic.\<close>

definition go_slice :: "'a list \<Rightarrow> int \<Rightarrow> int \<Rightarrow> 'a list option" where
  "go_slice xs a b =
     (if 0 \<le> a \<and> a \<le> b \<and> b \<le> int (length xs)
      then Some (take (nat (b - a)) (drop (nat a) xs)) else None)"

definition targetClaimsLength :: "u64 \<Rightarrow> Task list \<Rightarrow> int" where
  "targetClaimsLength desiredTasks claimed = sint desiredTasks - int (length claimed)"

function claim_window ::
  "'w task_env \<Rightarrow> worker_id \<Rightarrow> u64 \<Rightarrow> Task list \<Rightarrow> int \<Rightarrow> Task list \<Rightarrow> 'w \<Rightarrow>
     'w \<times> (task_error + Task list)" where
  "claim_window e workerId desiredTasks searchResults startIdx claimed w =
     (if of_nat (length claimed) < desiredTasks \<and> startIdx < int (length searchResults) then
        (let target = targetClaimsLength desiredTasks claimed;
             endIdx = minInt (startIdx + target) (int (length searchResults))
         in case go_slice searchResults startIdx endIdx of
              None \<Rightarrow> (w, Inl Panicked)
            | Some aboutToClaims \<Rightarrow>
                (case makeClaim e workerId aboutToClaims w of
                   (w1, Inl err) \<Rightarrow> (w1, Inl err)
                 | (w1, Inr claimedInAttempt) \<Rightarrow>
                     claim_window e workerId desiredTasks searchResults (startIdx + target)
                       (claimed @ claimedInAttempt) w1))
      else (w, Inr claimed))"
  by pat_completeness auto

lemma target_positive:
  assumes "of_nat (length claimed) < desired" and "startIdx < int (length rs)"
    and "go_slice rs startIdx (minInt (startIdx + targetClaimsLength desired claimed)
           (int (length rs))) = Some ys"
  shows "0 < targetClaimsLength desired claimed"
proof -
  let ?t = "targetClaimsLength desired claimed"
  have "0 \<le> ?t" using assms(2,3) by (auto simp: go_slice_def minInt_def split: if_splits)
  moreover have "?t \<noteq> 0"
  proof
    assume "?t = 0"
    then have "(word_of_int (int (length claimed)) :: u64) = word_of_int (sint desired)"
      by (simp add: targetClaimsLength_def)
    then have "of_nat (length claimed) = desired" by simp
    with assms(1) show False by simp
  qed
  ultimately show ?thesis by simp
qed

termination claim_window
proof (relation "measure (\<lambda>(e, w, d, rs, i, c, s). nat (int (length rs) - i))")
qed (auto dest: target_positive)

declare claim_window.simps [simp del]

definition searchAndClaim ::
  "'w task_env \<Rightarrow> TasksConf \<Rightarrow> worker_id \<Rightarrow> qname list \<Rightarrow> u64 \<Rightarrow> time \<Rightarrow> duration \<Rightarrow> duration \<Rightarrow> 'w \<Rightarrow>
     ('w \<times> (task_error + Task list)) option" where
  "searchAndClaim e conf workerId queues desiredTasks startedAtUTC blockFor retryLoopWait w =
     (let searchLimit = ClaimAmountSearchMultiplier (Defaults conf) * desiredTasks in
      case search_loop e queues searchLimit startedAtUTC blockFor retryLoopWait True [] w of
        None \<Rightarrow> None
      | Some (w1, Inl err) \<Rightarrow> Some (w1, Inl err)
      | Some (w1, Inr searchResults) \<Rightarrow>
          Some (claim_window e workerId desiredTasks searchResults 0 []
                  (markAllTouched e queues w1)))"

section \<open>The claim loop\<close>

definition retryWait :: "TasksConf \<Rightarrow> duration \<Rightarrow> duration" where
  "retryWait conf reqBlockFor =
     (let minWait = BlockForRetryMinWait (Defaults conf);
          maxRetries = BlockForRetryMaxRetries (Defaults conf)
      in if maxRetries > 0 then
           (let evenRetryWait = sint ((word_of_int reqBlockFor :: u64) div maxRetries)
            in if evenRetryWait > minWait then evenRetryWait else minWait)
         else minWait)"

partial_function (option) claim_loop ::
  "'w task_env \<Rightarrow> TasksConf \<Rightarrow> worker_id \<Rightarrow> qname list \<Rightarrow> u64 \<Rightarrow> time \<Rightarrow> duration \<Rightarrow> duration \<Rightarrow> bool \<Rightarrow>
     Task list \<Rightarrow> 'w \<Rightarrow> ('w \<times> (task_error + Task list)) option" where
  "claim_loop e conf workerId queues desiredTasks startUTC blockFor wait firstTry allClaimed w =
     (if of_nat (length allClaimed) < desiredTasks then
        (let (w1, now) = getUTC e w in
         if time_sub now startUTC < blockFor then
           (let w2 = (if firstTry then w1 else Sleep e wait w1);
                nextDesiredCount = desiredTasks - of_nat (length allClaimed)
            in Option.bind
                 (searchAndClaim e conf workerId queues nextDesiredCount startUTC blockFor wait w2)
                 (\<lambda>(w3, result).
                    case result of
                      Inl err \<Rightarrow> Some (w3, Inl err)
                    | Inr claimed \<Rightarrow>
                        claim_loop e conf workerId queues desiredTasks startUTC blockFor wait
                          False (allClaimed @ claimed) w3))
         else Some (w1, Inr allClaimed))
      else Some (w, Inr allClaimed))"

definition EsClaim ::
  "'w task_env \<Rightarrow> TasksConf \<Rightarrow> worker_id \<Rightarrow> qname list \<Rightarrow> u64 \<Rightarrow> duration \<Rightarrow> 'w \<Rightarrow>
     ('w \<times> (task_error + Task list)) option" where
  "EsClaim e conf workerId queues desiredTasks blockFor w =
     (let (w1, startUTC) = getUTC e w in
      claim_loop e conf workerId queues desiredTasks startUTC blockFor (retryWait conf blockFor)
        True [] w1)"

end
