(* ===== verification/EsTaskScan.thy ===== *)
theory EsTaskScan
  imports EsTaskClaim
begin

text \<open>
  The scans of \<open>internal/infra/elasticsearch/task/service.go\<close>: \<open>initSearch\<close>, \<open>scroll\<close>,
  \<open>clearScroll\<close> and \<open>scanTasks\<close>, and the two background jobs built on them,
  \<open>ReapTimedOutTasks\<close> and \<open>ArchiveOldTasks\<close>.
\<close>

section \<open>The scroll session\<close>

definition processScrollResp ::
  "(string \<times> task_hit list) es_reply \<Rightarrow> task_error + string \<times> Task list" where
  "processScrollResp rawResp =
     (case rawResp of
        NoResponse \<Rightarrow> Inl ElasticsearchErr
      | Response statusCode body \<Rightarrow>
          if statusCode = 200 then
            (case body of
               None \<Rightarrow> Inl JsonSerdesErr
             | Some (scrollId, hits) \<Rightarrow> Inr (scrollId, map ToDomainTask hits))
          else Inl ElasticsearchErr)"

definition initSearch ::
  "'w task_env \<Rightarrow> json \<Rightarrow> duration \<Rightarrow> 'w \<Rightarrow> 'w \<times> (task_error + string \<times> Task list)" where
  "initSearch e searchBody scrollTtl w =
     (let (w1, rawResp) = ScrollSearchRequest e scrollTtl [allTaskqueueQueuesPattern] searchBody w
      in (w1, processScrollResp rawResp))"

definition scroll ::
  "'w task_env \<Rightarrow> duration \<Rightarrow> string \<Rightarrow> 'w \<Rightarrow> 'w \<times> (task_error + string \<times> Task list)" where
  "scroll e scrollTtl scrollId w =
     (let (w1, rawResp) = ScrollRequest e scrollTtl scrollId w in (w1, processScrollResp rawResp))"

definition clearScroll :: "'w task_env \<Rightarrow> string list \<Rightarrow> 'w \<Rightarrow> 'w \<times> (task_error + unit)" where
  "clearScroll e scrollIds w =
     (if scrollIds \<noteq> [] then
        (case ClearScrollRequest e scrollIds w of
           (w1, NoResponse) \<Rightarrow> (w1, Inl ElasticsearchErr)
         | (w1, Response statusCode _) \<Rightarrow>
             (w1, if statusCode = 200 then Inr () else Inl ElasticsearchErr))
      else (w, Inr ()))"

text \<open>
  The deferred function assigns the error of \<open>clearScroll\<close> to a local variable after the
  result has been returned, so it is lost.
\<close>

definition scanTasks ::
  "'w task_env \<Rightarrow> json \<Rightarrow> duration \<Rightarrow> (Task list \<Rightarrow> 'w \<Rightarrow> 'w \<times> (task_error + unit)) \<Rightarrow> 'w \<Rightarrow>
     ('w \<times> (task_error + unit)) option" where
  "scanTasks e searchBody scrollTtl doWithBatch w =
     (case initSearch e searchBody scrollTtl w of
        (w1, Inl err) \<Rightarrow> Some (w1, Inl err)
      | (w1, Inr (scrollId, tasks)) \<Rightarrow>
          (case scan_loop (scroll e scrollTtl) (\<lambda>ts _. doWithBatch ts) scrollId tasks [scrollId] () w1 of
             None \<Rightarrow> None
           | Some (w2, scrollIds, result) \<Rightarrow> Some (fst (clearScroll e scrollIds w2), result)))"

section \<open>The jobs\<close>

definition timed_out_failure :: json_obj where
  "timed_out_failure = [(''timed_out'', JStr ''Did not finish before claim timeout period'')]"

text \<open>The tasks of a batch that could be failed on behalf of their workers, failed.\<close>

fun time_out_each :: "'w task_env \<Rightarrow> time \<Rightarrow> Task list \<Rightarrow> 'w \<Rightarrow> 'w \<times> Task list" where
  "time_out_each e now [] w = (w, [])"
| "time_out_each e now (t # ts) w =
     (case tLastClaimed t of
        None \<Rightarrow> time_out_each e now ts w
      | Some lc \<Rightarrow>
          (let (w1, failed) = IntoFailed_draw e (lcWorkerId lc) now (Some timed_out_failure) t w;
               (w2, rest) = time_out_each e now ts w1
           in (w2, case failed of Inl _ \<Rightarrow> rest | Inr t' \<Rightarrow> set_modified now t' # rest)))"

definition reap_batch :: "'w task_env \<Rightarrow> time \<Rightarrow> Task list \<Rightarrow> 'w \<Rightarrow> 'w \<times> (task_error + unit)" where
  "reap_batch e now timedOutTasks w =
     (let (w1, aboutToTimeOut) = time_out_each e now timedOutTasks w;
          (w2, sent) = bulkUpdateTasks e aboutToTimeOut w1
      in (w2, map_result (\<lambda>_. ()) sent))"

definition EsReapTimedOutTasks ::
  "'w task_env \<Rightarrow> u64 \<Rightarrow> duration \<Rightarrow> 'w \<Rightarrow> ('w \<times> (task_error + unit)) option" where
  "EsReapTimedOutTasks e scrollSize scrollTtl w =
     (let (w1, now) = getUTC e w in
      scanTasks e (buildTimedOutSearchBody now scrollSize) scrollTtl (reap_batch e now) w1)"

definition archive_batch :: "'w task_env \<Rightarrow> Task list \<Rightarrow> 'w \<Rightarrow> 'w \<times> (task_error + unit)" where
  "archive_batch e archivableTasks w =
     (let (w1, sent) = bulkArchiveTasks e archivableTasks w in (w1, map_result (\<lambda>_. ()) sent))"

definition EsArchiveOldTasks ::
  "'w task_env \<Rightarrow> time \<Rightarrow> u64 \<Rightarrow> duration \<Rightarrow> 'w \<Rightarrow> ('w \<times> (task_error + unit)) option" where
  "EsArchiveOldTasks e archiveCompletedBefore scrollSize scrollTtl w =
     scanTasks e (buildArchivableSearchBody archiveCompletedBefore scrollSize) scrollTtl
       (archive_batch e) w"

end
