(* ===== verification/EsStore.thy ===== *)
theory EsStore
  imports EsTaskScan
begin

text \<open>
  What the services rely on of Elasticsearch, and what optimistic locking gives them.

  Elasticsearch is not part of the program. Its documented behaviour is stated over a ghost
  history: \<open>hist w k\<close> is the list of the writes to the document at \<open>k\<close> (index and id), newest
  first, each with the version it got; a deletion is a write of \<open>None\<close>. Other servers act at
  any moment, so a request may also find writes of theirs in the history; \<open>advances\<close> says that
  a history only grows.
\<close>

section \<open>Histories\<close>

type_synonym doc_key = "string \<times> string"

type_synonym ('w, 'd) history = "'w \<Rightarrow> doc_key \<Rightarrow> ('d option \<times> Version) list"

definition advances :: "('w, 'd) history \<Rightarrow> 'w \<Rightarrow> 'w \<Rightarrow> bool" where
  "advances hist w w' \<longleftrightarrow> (\<forall>k. suffix (hist w k) (hist w' k))"

lemma advances_refl [simp]: "advances hist w w"
  by (simp add: advances_def)

lemma advances_trans [trans]: "advances hist w w' \<Longrightarrow> advances hist w' w'' \<Longrightarrow> advances hist w w''"
  unfolding advances_def using suffix_order.trans by blast

lemma advances_mem: "advances hist w w' \<Longrightarrow> x \<in> set (hist w k) \<Longrightarrow> x \<in> set (hist w' k)"
  unfolding advances_def using set_mono_suffix by blast

text \<open>The document written as version \<open>v'\<close>, on top of version \<open>v\<close>.\<close>

definition written_over ::
  "('w, 'd) history \<Rightarrow> 'w \<Rightarrow> doc_key \<Rightarrow> 'd option \<times> Version \<Rightarrow> 'd option \<times> Version \<Rightarrow> bool" where
  "written_over hist w k old new \<longleftrightarrow>
     (\<exists>later earlier. hist w k = later @ new # old # earlier)"

lemma written_over_advances:
  "written_over hist w k old new \<Longrightarrow> advances hist w w' \<Longrightarrow> written_over hist w' k old new"
  unfolding written_over_def advances_def suffix_def by (metis append.assoc)

lemma written_over_mem:
  "written_over hist w k old new \<Longrightarrow> old \<in> set (hist w k) \<and> new \<in> set (hist w k)"
  by (auto simp: written_over_def)

lemma distinct_split_unique:
  assumes "distinct (map f (xs @ y # ys))" and "xs @ y # ys = xs' @ y' # ys'" and "f y = f y'"
  shows "xs = xs' \<and> y = y' \<and> ys = ys'"
  using assms
proof (induction xs arbitrary: xs')
  case Nil
  then show ?case by (cases xs') auto
next
  case (Cons x xs)
  show ?case
  proof (cases xs')
    case Nil
    then have "x = y'" "xs @ y # ys = ys'" using Cons.prems(2) by simp_all
    then have "f y' \<noteq> f y" using Cons.prems(1) by auto
    then show ?thesis using Cons.prems(3) by simp
  next
    case (Cons z zs)
    then have "x = z" "xs @ y # ys = zs @ y' # ys'" using Cons.prems(2) by simp_all
    then show ?thesis using Cons.IH [of zs] Cons.prems(1,3) Cons by simp
  qed
qed

lemma version_unique:
  assumes "distinct (map snd (h :: ('d option \<times> Version) list))"
    and "(d, v) \<in> set h" and "(d', v) \<in> set h"
  shows "d = d'"
  using assms by (metis eq_key_imp_eq_value map_of_is_SomeI distinct_map inj_on_def prod.inject snd_conv)

text \<open>A version is overwritten once: two writes over it are the same write.\<close>

lemma one_successor:
  assumes "distinct (map snd (hist w k))"
    and "written_over hist w k (d, v) new" and "written_over hist w k (d', v) new'"
  shows "new = new' \<and> d = d'"
proof -
  obtain l e where h: "hist w k = l @ new # (d, v) # e"
    using assms(2) by (auto simp: written_over_def)
  obtain l' e' where h': "hist w k = l' @ new' # (d', v) # e'"
    using assms(3) by (auto simp: written_over_def)
  have "(l @ [new]) @ (d, v) # e = (l' @ [new']) @ (d', v) # e'"
    using h h' by simp
  moreover have "distinct (map snd ((l @ [new]) @ (d, v) # e))"
    using assms(1) h by simp
  ultimately have "l @ [new] = l' @ [new'] \<and> (d, v) = (d', v)"
    using distinct_split_unique [of snd "l @ [new]" "(d, v)" e "l' @ [new']" "(d', v)" e'] by simp
  then show ?thesis by simp
qed

section \<open>The documented behaviour\<close>

text \<open>
  Nothing undoes a write: neither the requests nor the passing of time.
\<close>

definition es_grows :: "('w, 'd, 'm) es_client_scheme \<Rightarrow> ('w, 'd) history \<Rightarrow> bool" where
  "es_grows e hist \<longleftrightarrow> (\<forall>w.
     advances hist w (fst (getUTC e w)) \<and>
     (\<forall>d. advances hist w (Sleep e d w)) \<and>
     advances hist w (fst (new_uuid e w)) \<and>
     (\<forall>ix i d. advances hist w (fst (CreateRequest e ix i d w))) \<and>
     (\<forall>ix i. advances hist w (fst (GetRequest e ix i w))) \<and>
     (\<forall>ix i d l. advances hist w (fst (IndexRequest e ix i d l w))) \<and>
     (\<forall>ixs q. advances hist w (fst (SearchRequest e ixs q w))) \<and>
     (\<forall>ttl ixs q. advances hist w (fst (ScrollSearchRequest e ttl ixs q w))) \<and>
     (\<forall>ttl i. advances hist w (fst (ScrollRequest e ttl i w))) \<and>
     (\<forall>is. advances hist w (fst (ClearScrollRequest e is w))) \<and>
     (\<forall>ops. advances hist w (fst (BulkRequest e ops w))) \<and>
     (\<forall>ixs q. advances hist w (fst (CountRequest e ixs q w))) \<and>
     (\<forall>ixs. advances hist w (fst (IndicesRefreshRequest e ixs w))))"

text \<open>The reply to a bulk request answers its lines in order.\<close>

definition bulk_reply_ok ::
  "('w, 'd) history \<Rightarrow> 'w \<Rightarrow> 'd bulk_op list \<Rightarrow> EsBulkResponse \<Rightarrow> bool" where
  "bulk_reply_ok hist w' ops r \<longleftrightarrow>
     length (brItems r) = length ops \<and> (\<forall>it \<in> set (brItems r). Info it \<noteq> None) \<and>
     (\<forall>j < length ops. \<forall>i ix sn pt d info. ops ! j = BulkIndex i ix sn pt d \<longrightarrow>
        item_info r j = Some info \<longrightarrow> IsOk info \<longrightarrow>
        (\<exists>x. written_over hist w' (ix, i) (x, \<lparr>SeqNum = sn, PrimaryTerm = pt\<rparr>)
               (Some d, ItemInfo_Version info)))"

text \<open>
  Reads return documents that were written, at the version they were written with. A create
  that succeeds writes the document. A write with locking data succeeds only on top of the
  version it names, alone or as an item of a bulk request. The versions of a document are
  never reused.
\<close>

definition es_locks :: "('w, 'd, 'm) es_client_scheme \<Rightarrow> ('w, 'd) history \<Rightarrow> bool" where
  "es_locks e hist \<longleftrightarrow>
     (\<forall>w k. distinct (map snd (hist w k))) \<and>
     (\<forall>w ix i w' h. GetRequest e ix i w = (w', Response 200 (Some h)) \<longrightarrow>
        (Some (hSource h), hit_version h) \<in> set (hist w' (ix, i))) \<and>
     (\<forall>w ixs q w' hs h. SearchRequest e ixs q w = (w', Response 200 (Some hs)) \<longrightarrow> h \<in> set hs \<longrightarrow>
        (Some (hSource h), hit_version h) \<in> set (hist w' (hIndex h, hID h))) \<and>
     (\<forall>w ix i d w' s r. CreateRequest e ix i d w = (w', Response s (Some r)) \<longrightarrow> status_2xx s \<longrightarrow>
        (Some d, EsCreateResponse_Version r) \<in> set (hist w' (ix, i))) \<and>
     (\<forall>w ix i d v w' s r.
        IndexRequest e ix i d (Some (lock_data v)) w = (w', Response s (Some r)) \<longrightarrow> status_2xx s \<longrightarrow>
        (\<exists>x. written_over hist w' (ix, i) (x, v) (Some d, EsUpdateResponse_Version r))) \<and>
     (\<forall>w ops w' s r. BulkRequest e ops w = (w', Response s (Some r)) \<longrightarrow> s \<le> 299 \<longrightarrow>
        bulk_reply_ok hist w' ops r)"

definition task_store :: "'w task_env \<Rightarrow> ('w, PersistedTaskData) history \<Rightarrow> bool" where
  "task_store e hist \<longleftrightarrow> es_grows e hist \<and> es_locks e hist \<and>
     (\<forall>w. advances hist w (fst (rand_Intn30 e w)) \<and>
          (\<forall>q. advances hist w (fst (lru_Get e q w))) \<and>
          (\<forall>q at. advances hist w (lru_Add e q at w)))"

end
