(* ===== verification/EsLocking.thy ===== *)
theory EsLocking
  imports EsStore
begin

text \<open>
  Optimistic locking in the task service: every successful update or claim was computed from
  the version it overwrites, so no update is lost and a version is claimed by one worker.
\<close>

section \<open>The laws as rules\<close>

lemma task_store_advances:
  assumes "task_store e hist"
  shows "advances hist w (fst (getUTC e w))" "advances hist w (Sleep e d w)"
    "advances hist w (fst (GetRequest e ix i w))" "advances hist w (fst (IndexRequest e ix i x l w))"
    "advances hist w (fst (SearchRequest e ixs q w))" "advances hist w (fst (BulkRequest e ops w))"
    "advances hist w (fst (rand_Intn30 e w))" "advances hist w (lru_Add e name at w)"
  using assms by (simp_all add: task_store_def es_grows_def)

lemma task_store_distinct: "task_store e hist \<Longrightarrow> distinct (map snd (hist w k))"
  unfolding task_store_def es_locks_def by (elim conjE) (erule allE, erule allE)

lemma task_store_get:
  "task_store e hist \<Longrightarrow> GetRequest e ix i w = (w', Response 200 (Some h)) \<Longrightarrow>
     (Some (hSource h), hit_version h) \<in> set (hist w' (ix, i))"
  by (simp add: task_store_def es_locks_def)

lemma task_store_search:
  "task_store e hist \<Longrightarrow> SearchRequest e ixs q w = (w', Response 200 (Some hs)) \<Longrightarrow> h \<in> set hs \<Longrightarrow>
     (Some (hSource h), hit_version h) \<in> set (hist w' (hIndex h, hID h))"
  unfolding task_store_def es_locks_def by (elim conjE) (metis (no_types))

lemma task_store_index:
  "task_store e hist \<Longrightarrow>
     IndexRequest e ix i d (Some (lock_data v)) w = (w', Response s (Some r)) \<Longrightarrow> status_2xx s \<Longrightarrow>
     \<exists>x. written_over hist w' (ix, i) (x, v) (Some d, EsUpdateResponse_Version r)"
  unfolding task_store_def es_locks_def by blast

lemma task_store_bulk:
  "task_store e hist \<Longrightarrow> BulkRequest e ops w = (w', Response s (Some r)) \<Longrightarrow> s \<le> 299 \<Longrightarrow>
     bulk_reply_ok hist w' ops r"
  unfolding task_store_def es_locks_def by (elim conjE) (metis (no_types))

section \<open>Updates\<close>

definition task_key :: "Task \<Rightarrow> doc_key" where
  "task_key t = (BuildIndexName (tQueue t), tID t)"

text \<open>The task \<open>t'\<close>, stored as it stands, directly on top of \<open>t\<close>.\<close>

definition updated_over ::
  "('w, PersistedTaskData) history \<Rightarrow> 'w \<Rightarrow> doc_key \<Rightarrow> Task \<Rightarrow> Task \<Rightarrow> bool" where
  "updated_over hist w k t t' \<longleftrightarrow>
     written_over hist w k (Some (ToPersistedTask t), version_of t)
       (Some (ToPersistedTask t'), version_of t')"

lemma updated_over_advances:
  "updated_over hist w k t t' \<Longrightarrow> advances hist w w' \<Longrightarrow> updated_over hist w' k t t'"
  unfolding updated_over_def by (rule written_over_advances)

lemma set_version_simps [simp]:
  "version_of (set_version v t) = v"
  "ToPersistedTask (set_version v t) = ToPersistedTask t"
  "version_of (set_modified at t) = version_of t"
  "set_version (version_of t) t = t"
  by (simp_all add: version_of_def set_version_def set_modified_def ToPersistedTask_def)

lemma ToDomainTask_stored:
  "ToPersistedTask (ToDomainTask h) = hSource h" "version_of (ToDomainTask h) = hit_version h"
  by (simp_all add: ToDomainTask_def version_of_def toDomainTask_def ToPersisted_toDomain [unfolded toDomainTask_def])

lemma EsGet_stored:
  assumes "task_store e hist" and "EsGet e q i w = (w', Inr t)"
  shows "(Some (ToPersistedTask t), version_of t) \<in> set (hist w' (BuildIndexName q, i))
    \<and> advances hist w w'"
proof -
  obtain r where g: "GetRequest e (BuildIndexName q) i w = (w', r)"
    using assms(2) by (auto simp: EsGet_def split: prod.splits es_reply.splits option.splits if_splits)
  with assms(2) obtain h where "r = Response 200 (Some h)" "t = ToDomainTask h"
    by (auto simp: EsGet_def split: es_reply.splits option.splits if_splits)
  then show ?thesis
    using task_store_get [OF assms(1)] task_store_advances(3) [OF assms(1), of w "BuildIndexName q" i] g
    by (simp add: ToDomainTask_stored)
qed

text \<open>
  The heart of \<open>getAndUpdate\<close>. The mutation may read the clock or the random source, but it
  keeps the version of the task.
\<close>

lemma getAndUpdate_no_lost_update:
  assumes store: "task_store e hist"
    and keeps: "\<And>t w w' u. mutate t w = (w', Inr u) \<Longrightarrow> version_of u = version_of t \<and> advances hist w w'"
    and run: "getAndUpdate e q i mutate at w = (w', Inr t')"
  shows "\<exists>t w1 w2 u. mutate t w1 = (w2, Inr u) \<and> t' = set_version (version_of t') (set_modified at u)
    \<and> updated_over hist w' (BuildIndexName q, i) t t' \<and> advances hist w w'"
proof -
  let ?k = "(BuildIndexName q, i)"
  obtain w1 t where get: "EsGet e q i w = (w1, Inr t)"
    using run by (auto simp: getAndUpdate_def split: prod.splits sum.splits)
  obtain w2 u where mut: "mutate t w1 = (w2, Inr u)"
    using run get by (auto simp: getAndUpdate_def split: prod.splits sum.splits)
  let ?u = "set_modified at u"
  obtain s r where ix: "IndexRequest e (BuildIndexName q) i (ToPersistedTask ?u)
        (Some (lock_data (version_of t))) w2 = (w', Response s (Some r))"
      and s: "status_2xx s" and t': "t' = set_version (EsUpdateResponse_Version r) ?u"
    using run get mut keeps [OF mut]
    by (auto simp: getAndUpdate_def Let_def split: prod.splits es_reply.splits option.splits if_splits)
  obtain x where over: "written_over hist w' ?k (x, version_of t)
      (Some (ToPersistedTask ?u), EsUpdateResponse_Version r)"
    using task_store_index [OF store ix s] by blast
  have stored: "(Some (ToPersistedTask t), version_of t) \<in> set (hist w1 ?k)" and adv: "advances hist w w1"
    using EsGet_stored [OF store get] by auto
  have adv2: "advances hist w1 w'"
    using keeps [OF mut] task_store_advances(4) [OF store, of w2 "BuildIndexName q" i] ix
      advances_trans by (metis fst_conv)
  have "x = Some (ToPersistedTask t)"
    using version_unique [OF task_store_distinct [OF store, of w' ?k]]
      written_over_mem [OF over] advances_mem [OF adv2 stored] by blast
  with over t' have "updated_over hist w' ?k t t'"
    by (simp add: updated_over_def)
  then show ?thesis
    using mut t' advances_trans [OF adv adv2] by auto
qed

lemma retry_conflict_result:
  assumes "retry_conflict conf run w = (w', r)"
  shows "\<exists>w0. run w0 = (w', r)"
proof (cases "run w")
  case (Pair w1 r1)
  show ?thesis
  proof (cases "\<exists>i. r1 = Inl (InvalidVersion i) \<and> 0 < VersionConflictRetryTimes (Defaults conf)")
    case True
    then show ?thesis using assms Pair by (auto simp: retry_conflict_def)
  next
    case False
    then have "(w1, r1) = (w', r)"
      using assms Pair
      by (auto simp: retry_conflict_def split: sum.splits task_error.splits if_splits)
    then show ?thesis using Pair by blast
  qed
qed

lemma markComplete_update:
  assumes "markComplete e conf q i mutate w = (w', Inr t')"
  shows "\<exists>w0 at. getAndUpdate e q i (\<lambda>t. mutate t at) at w0 = (w', Inr t')"
  using retry_conflict_result [OF assms [unfolded markComplete_def]]
  by (force simp: Let_def case_prod_beta)

lemma op_version: "same_task t u \<Longrightarrow> version_of u = version_of t"
  by (simp add: same_task_def version_of_def)

text \<open>
  The task \<open>t'\<close> is the result of the operation \<open>f\<close> on a version claimed by the worker, and
  was stored directly on top of that version.
\<close>

definition lawful_update ::
  "('w, PersistedTaskData) history \<Rightarrow> 'w \<Rightarrow> doc_key \<Rightarrow> worker_id \<Rightarrow> time \<Rightarrow>
     (Task \<Rightarrow> task_error + Task) \<Rightarrow> Task \<Rightarrow> bool" where
  "lawful_update hist w k wid at f t' \<longleftrightarrow>
     (\<exists>t u. tState t = CLAIMED \<and> owner t = Some wid \<and> f t = Inr u \<and>
        t' = set_version (version_of t') (set_modified at u) \<and> updated_over hist w k t t')"

lemma getAndUpdate_lawful:
  assumes store: "task_store e hist" and op: "claimed_op f"
    and g: "getAndUpdate e q i (\<lambda>t w. (w, f wid t)) at w = (w', Inr t')"
  shows "lawful_update hist w' (BuildIndexName q, i) wid at (f wid) t'"
proof -
  have keeps: "version_of u = version_of t \<and> advances hist v v'" if "(v, f wid t) = (v', Inr u)" for t v v' u
    using that claimed_op.success [OF op, of wid t u] by (auto dest: op_version)
  obtain t u where "f wid t = Inr u" "t' = set_version (version_of t') (set_modified at u)"
      "updated_over hist w' (BuildIndexName q, i) t t'"
    using getAndUpdate_no_lost_update [OF store _ g] keeps by (metis Pair_inject)
  then show ?thesis
    unfolding lawful_update_def using claimed_op.success [OF op, of wid t u] by blast
qed

lemma getAndUpdate_failed_lawful:
  assumes store: "task_store e hist"
    and g: "getAndUpdate e q i (IntoFailed_draw e wid at d) at w = (w', Inr t')"
  shows "\<exists>r. lawful_update hist w' (BuildIndexName q, i) wid at (IntoFailed r wid at d) t'"
proof -
  have keeps: "version_of u = version_of t \<and> advances hist v v'"
    if "IntoFailed_draw e wid at d t v = (v', Inr u)" for t v v' u
    using that
  proof (cases rule: IntoFailed_draw_cases)
    case (1 r)
    have "version_of u = version_of t" using failed_op.success [OF 1(1) [symmetric]] by (simp add: op_version)
    moreover have "advances hist v v'" using 1(2) task_store_advances(7) [OF store, of v] advances_refl by auto
    ultimately show ?thesis by (rule conjI)
  qed
  obtain t v v' u where "IntoFailed_draw e wid at d t v = (v', Inr u)"
      "t' = set_version (version_of t') (set_modified at u)"
      "updated_over hist w' (BuildIndexName q, i) t t'"
    using getAndUpdate_no_lost_update [OF store keeps g] by blast
  moreover then obtain r where "IntoFailed r wid at d t = Inr u"
    by (metis IntoFailed_draw_cases)
  ultimately show ?thesis
    unfolding lawful_update_def using failed_op.success [of r wid at d t u] by blast
qed

text \<open>The four updates, one by one.\<close>

lemma updates_not_lost_report:
  assumes store: "task_store e hist" and run: "EsReportIn e conf wid q i d w = (w', Inr t')"
  shows "\<exists>at. lawful_update hist w' (BuildIndexName q, i) wid at (ReportIn wid d at) t'"
proof -
  obtain w0 at where "getAndUpdate e q i (\<lambda>t w. (w, ReportIn wid d at t)) at w0 = (w', Inr t')"
    using run retry_conflict_result by (fastforce simp: EsReportIn_def split: prod.splits)
  then show ?thesis using getAndUpdate_lawful [OF store report_op.claimed_op_axioms] by blast
qed

lemma updates_not_lost_done:
  assumes store: "task_store e hist" and run: "EsMarkDone e conf wid q i d w = (w', Inr t')"
  shows "\<exists>at. lawful_update hist w' (BuildIndexName q, i) wid at (IntoDone wid at d) t'"
proof -
  obtain w0 at where "getAndUpdate e q i (\<lambda>t w. (w, IntoDone wid at d t)) at w0 = (w', Inr t')"
    using run by (auto simp: EsMarkDone_def dest: markComplete_update)
  then show ?thesis using getAndUpdate_lawful [OF store done_op.claimed_op_axioms] by blast
qed

lemma updates_not_lost_failed:
  assumes store: "task_store e hist" and run: "EsMarkFailed e conf wid q i d w = (w', Inr t')"
  shows "\<exists>at r. lawful_update hist w' (BuildIndexName q, i) wid at (IntoFailed r wid at d) t'"
proof -
  obtain w0 at where "getAndUpdate e q i (IntoFailed_draw e wid at d) at w0 = (w', Inr t')"
    using run by (auto simp: EsMarkFailed_def dest: markComplete_update)
  then show ?thesis using getAndUpdate_failed_lawful [OF store] by blast
qed

lemma updates_not_lost_unclaim:
  assumes store: "task_store e hist" and run: "EsUnClaim e conf wid q i w = (w', Inr t')"
  shows "\<exists>at. lawful_update hist w' (BuildIndexName q, i) wid at (IntoUnClaimed wid at) t'"
proof -
  obtain w0 at where "getAndUpdate e q i (\<lambda>t w. (w, IntoUnClaimed wid at t)) at w0 = (w', Inr t')"
    using run unfolding EsUnClaim_def using retry_conflict_result by (fastforce split: prod.splits)
  then show ?thesis using getAndUpdate_lawful [OF store unclaim_op.claimed_op_axioms] by blast
qed

text \<open>
  C3: no update is lost. If reporting in, marking done, marking failed or unclaiming
  succeeds, then the task it returns is the result of that operation on a version claimed by
  this worker, and it was stored directly on top of that version in the history of the
  document: nothing was written in between.
\<close>

theorem updates_not_lost:
  fixes hist :: "('w, PersistedTaskData) history"
  assumes store: "task_store e hist"
  shows
    "(EsReportIn e conf wid q i d w = (w', Inr t') \<longrightarrow>
        (\<exists>at. lawful_update hist w' (BuildIndexName q, i) wid at (ReportIn wid d at) t')) \<and>
     (EsMarkDone e conf wid q i d w = (w', Inr t') \<longrightarrow>
        (\<exists>at. lawful_update hist w' (BuildIndexName q, i) wid at (IntoDone wid at d) t')) \<and>
     (EsMarkFailed e conf wid q i d w = (w', Inr t') \<longrightarrow>
        (\<exists>at r. lawful_update hist w' (BuildIndexName q, i) wid at (IntoFailed r wid at d) t')) \<and>
     (EsUnClaim e conf wid q i w = (w', Inr t') \<longrightarrow>
        (\<exists>at. lawful_update hist w' (BuildIndexName q, i) wid at (IntoUnClaimed wid at) t'))"
  by (intro conjI impI)
    (erule updates_not_lost_report [OF store] updates_not_lost_done [OF store]
      updates_not_lost_failed [OF store] updates_not_lost_unclaim [OF store])+

end
