(* ===== verification/EsClaiming.thy ===== *)
theory EsClaiming
  imports EsLocking
begin

text \<open>
  What \<open>Claim\<close> promises: how many tasks it returns, where they come from, that they were
  claimed under optimistic locking, and when it returns at all.
\<close>

section \<open>One batch\<close>

definition claimed_from :: "worker_id \<Rightarrow> Task \<Rightarrow> Task \<Rightarrow> bool" where
  "claimed_from wid t c \<longleftrightarrow>
     (\<exists>at u. IntoClaimed wid at t = Inr u \<and> c = set_version (version_of c) (set_modified at u))"

text \<open>
  The claim \<open>c\<close> of \<open>t\<close>, and the write it was: on top of the version of \<open>t\<close>, if
  Elasticsearch keeps its promises about the history.
\<close>

definition claim_made ::
  "'w task_env \<Rightarrow> ('w, PersistedTaskData) history \<Rightarrow> worker_id \<Rightarrow> 'w \<Rightarrow> Task \<Rightarrow> Task \<Rightarrow> bool" where
  "claim_made e hist wid w t c \<longleftrightarrow> claimed_from wid t c \<and>
     (task_store e hist \<longrightarrow> (\<exists>x. written_over hist w (task_key t) (x, version_of t)
        (Some (ToPersistedTask c), version_of c)))"

definition passes :: "'w task_env \<Rightarrow> ('w, PersistedTaskData) history \<Rightarrow> 'w \<Rightarrow> 'w \<Rightarrow> bool" where
  "passes e hist w w' \<longleftrightarrow> (task_store e hist \<longrightarrow> advances hist w w')"

lemma passes_refl [simp]: "passes e hist w w"
  by (simp add: passes_def)

lemma passes_trans [trans]: "passes e hist w w' \<Longrightarrow> passes e hist w' w'' \<Longrightarrow> passes e hist w w''"
  unfolding passes_def using advances_trans [of hist w w' w''] by simp

lemma passes_requests:
  "passes e hist w (fst (getUTC e w))" "passes e hist w (Sleep e d w)"
  "passes e hist w (fst (SearchRequest e ixs q w))" "passes e hist w (fst (BulkRequest e ops w))"
  "passes e hist w (lru_Add e name at w)"
  by (simp_all add: passes_def task_store_advances)

lemma passes_eq:
  "getUTC e w = (w', at) \<Longrightarrow> passes e hist w w'" "BulkRequest e ops w = (w', r) \<Longrightarrow> passes e hist w w'"
  "SearchRequest e ixs q w = (w', s) \<Longrightarrow> passes e hist w w'"
  using passes_requests(1) [of e hist w] passes_requests(4) [of e hist w ops]
    passes_requests(3) [of e hist w ixs q]
  by simp_all

lemma claim_made_passes: "claim_made e hist wid w t c \<Longrightarrow> passes e hist w w' \<Longrightarrow> claim_made e hist wid w' t c"
  unfolding claim_made_def passes_def
  by (auto elim: written_over_advances)

lemma list_all2_subseq:
  "list_all2 R ts us \<Longrightarrow> subseq us0 us \<Longrightarrow> \<exists>ts0. subseq ts0 ts \<and> list_all2 R ts0 us0"
proof (induction arbitrary: us0 rule: list_all2_induct)
  case Nil
  then show ?case by (auto intro: exI [of _ "[]"])
next
  case (Cons t ts u us)
  show ?case
  proof (cases "\<exists>vs. us0 = u # vs \<and> subseq vs us")
    case True
    then obtain vs where "us0 = u # vs" "subseq vs us" by blast
    moreover obtain ts0 where "subseq ts0 ts" "list_all2 R ts0 vs"
      using Cons.IH [OF \<open>subseq vs us\<close>] by blast
    ultimately show ?thesis using Cons.hyps(1) by (intro exI [of _ "t # ts0"]) simp
  next
    case False
    then have "subseq us0 us" using Cons.prems by (cases us0) (auto split: if_splits)
    from Cons.IH [OF this] obtain ts0 where "subseq ts0 ts" "list_all2 R ts0 us0" by blast
    then show ?thesis by (intro exI [of _ ts0]) (simp add: list_emb_Cons)
  qed
qed

lemma claim_each_Inr:
  "claim_each wid at ts = Inr us \<Longrightarrow>
     list_all2 (\<lambda>t u. \<exists>v. IntoClaimed wid at t = Inr v \<and> u = set_modified at v) ts us"
  by (induction ts arbitrary: us) (auto simp: result_simps split: sum.splits)

lemma pick_claimed_Inr:
  "pick_claimed resp idx us = Inr cs \<Longrightarrow>
     \<exists>us0. subseq us0 us \<and> list_all2 (\<lambda>u c. \<exists>j info. j < length us \<and> u = us ! j \<and>
        item_info resp (idx + j) = Some info \<and> IsOk info \<and>
        c = set_version (ItemInfo_Version info) u) us0 cs"
proof (induction us arbitrary: idx cs)
  case Nil
  then show ?case by (auto intro: exI [of _ "[]"])
next
  case (Cons u us)
  let ?R = "\<lambda>idx us u c. \<exists>j info. j < length us \<and> u = us ! j \<and> item_info resp (idx + j) = Some info \<and>
        IsOk info \<and> c = set_version (ItemInfo_Version info) u"
  obtain info rest where item: "item_info resp idx = Some info"
      and rest: "pick_claimed resp (Suc idx) us = Inr rest"
      and cs: "cs = (if IsOk info then set_version (ItemInfo_Version info) u # rest else rest)"
    using Cons.prems by (auto simp: result_simps split: option.splits)
  obtain us0 where sub: "subseq us0 us" and all: "list_all2 (?R (Suc idx) us) us0 rest"
    using Cons.IH [OF rest] by blast
  have shift: "?R idx (u # us) x c" if r: "?R (Suc idx) us x c" for x c
    using r by (elim exE) (rule_tac x = "Suc j" in exI, auto)
  have all': "list_all2 (?R idx (u # us)) us0 rest"
    using all shift by (rule list_all2_mono)
  show ?case
  proof (cases "IsOk info")
    case True
    have "?R idx (u # us) u (set_version (ItemInfo_Version info) u)"
      using item True by (intro exI [of _ 0] exI [of _ info]) simp
    then show ?thesis using all' sub cs True by (intro exI [of _ "u # us0"]) simp
  next
    case False
    then show ?thesis using all' sub cs by (intro exI [of _ us0]) (auto intro: list_emb_Cons)
  qed
qed

lemma sendBulk_Inr:
  assumes "sendBulk e ops w = (w', Inr r)"
  shows "passes e hist w w' \<and> (task_store e hist \<longrightarrow> bulk_reply_ok hist w' ops r)"
proof -
  obtain s where b: "BulkRequest e ops w = (w', Response s (Some r))" "s \<le> 299"
    using assms
    by (auto simp: sendBulk_def split: prod.splits es_reply.splits option.splits if_splits)
  show ?thesis
    using task_store_bulk [OF _ b] passes_eq(2) [OF b(1)] by simp
qed

lemma written_claim:
  assumes reply: "bulk_reply_ok hist w (buildTasksBulkUpdateNdJson us) r" and j: "j < length us"
    and item: "item_info r j = Some info" "IsOk info"
  shows "\<exists>x. written_over hist w (task_key (us ! j)) (x, version_of (us ! j))
    (Some (ToPersistedTask (us ! j)), ItemInfo_Version info)"
proof -
  have "buildTasksBulkUpdateNdJson us ! j = buildUpdateBulkOp (us ! j)"
    using j by (simp add: buildTasksBulkUpdateNdJson_def)
  then have op: "buildTasksBulkUpdateNdJson us ! j = BulkIndex (tID (us ! j)) (BuildIndexName (tQueue (us ! j)))
      (SeqNum (version_of (us ! j))) (PrimaryTerm (version_of (us ! j))) (ToPersistedTask (us ! j))"
    by (simp add: buildUpdateBulkOp_def version_of_def)
  have len: "j < length (buildTasksBulkUpdateNdJson us)"
    using j by (simp add: buildTasksBulkUpdateNdJson_def)
  have v: "\<lparr>SeqNum = SeqNum v, PrimaryTerm = PrimaryTerm v\<rparr> = v" for v :: Version
    by simp
  show ?thesis
    using reply len op item unfolding bulk_reply_ok_def task_key_def by (metis v)
qed

lemma makeClaim_Inr:
  assumes "makeClaim e wid ts w = (w', Inr cs)"
  shows "passes e hist w w' \<and> (\<exists>ts0. subseq ts0 ts \<and> list_all2 (claim_made e hist wid w') ts0 cs)"
proof -
  obtain w1 at where utc: "getUTC e w = (w1, at)" by fastforce
  then obtain us where each: "claim_each wid at ts = Inr us"
    using assms by (auto simp: makeClaim_def split: sum.splits)
  obtain r where bulk: "bulkUpdateTasks e us w1 = (w', Inr r)" and pick: "pick_claimed r 0 us = Inr cs"
    using assms utc each by (auto simp: makeClaim_def split: prod.splits sum.splits)
  note sent = sendBulk_Inr [OF bulk [unfolded bulkUpdateTasks_def]]
  let ?S = "\<lambda>t u. \<exists>v. IntoClaimed wid at t = Inr v \<and> u = set_modified at v"
  let ?R = "\<lambda>u c. \<exists>j info. j < length us \<and> u = us ! j \<and> item_info r (0 + j) = Some info \<and>
        IsOk info \<and> c = set_version (ItemInfo_Version info) u"
  obtain us0 where us0: "subseq us0 us" "list_all2 ?R us0 cs"
    using pick_claimed_Inr [OF pick] by blast
  obtain ts0 where ts0: "subseq ts0 ts" "list_all2 ?S ts0 us0"
    using list_all2_subseq [OF claim_each_Inr [OF each] us0(1)] by blast
  have "claim_made e hist wid w' t c" if S: "?S t u" and R: "?R u c" for t u c
  proof -
    obtain v where v: "IntoClaimed wid at t = Inr v" "u = set_modified at v" using S by blast
    obtain j info where j: "j < length us" "u = us ! j" "item_info r j = Some info" "IsOk info"
        "c = set_version (ItemInfo_Version info) u" using R by auto
    have "task_key u = task_key t \<and> version_of u = version_of t"
      using v by (auto simp: IntoClaimed_Inr_iff task_key_def version_of_def set_modified_def)
    moreover have "claimed_from wid t c"
      unfolding claimed_from_def using v j(5) by auto
    ultimately show ?thesis
      unfolding claim_made_def using sent written_claim [OF _ j(1,3,4)] j(2,5) by (metis set_version_simps(1,2))
  qed
  then have "list_all2 (claim_made e hist wid w') ts0 cs"
    using list_all2_trans [OF _ ts0(2) us0(2)] by blast
  moreover have "passes e hist w w'"
    using passes_trans [OF passes_eq(1) [OF utc]] sent by simp
  ultimately show ?thesis using ts0(1) by auto
qed

section \<open>The window over the search results\<close>

lemma claims_pass:
  "list_all2 (claim_made e hist wid w) ts cs \<Longrightarrow> passes e hist w w' \<Longrightarrow>
     list_all2 (claim_made e hist wid w') ts cs"
  by (erule list_all2_mono) (rule claim_made_passes)

lemma subseq_drop_window:
  assumes "subseq xs (take n (drop i rs))" and "subseq ys (drop (i + n) rs)"
  shows "subseq (xs @ ys) (drop i rs)"
proof -
  have "drop i rs = take n (drop i rs) @ drop (i + n) rs"
    by (metis add.commute append_take_drop_id drop_drop)
  then show ?thesis using list_emb_append_mono [OF assms] by simp
qed

lemma go_slice_window:
  assumes "0 \<le> i" "i < int (length rs)" "0 < t"
  shows "go_slice rs i (minInt (i + t) (int (length rs))) = Some (take (nat t) (drop (nat i) rs))"
proof (cases "i + t < int (length rs)")
  case True
  then show ?thesis using assms by (simp add: go_slice_def minInt_def)
next
  case False
  then have "length (drop (nat i) rs) \<le> nat t" "length (drop (nat i) rs) \<le> nat (int (length rs) - i)"
    using assms by simp_all
  then show ?thesis using assms False by (simp add: go_slice_def minInt_def)
qed

text \<open>What the step of the window does when it is taken.\<close>

lemma claim_window_step:
  assumes "claim_window e wid n rs i claimed w = (w', Inr cs)" and "0 \<le> i"
    and "of_nat (length claimed) < n" and "i < int (length rs)"
  defines "target \<equiv> targetClaimsLength n claimed"
  obtains w1 new where "0 < target"
    and "makeClaim e wid (take (nat target) (drop (nat i) rs)) w = (w1, Inr new)"
    and "claim_window e wid n rs (i + target) (claimed @ new) w1 = (w', Inr cs)"
proof -
  let ?b = "minInt (i + target) (int (length rs))"
  have unf: "(case go_slice rs i ?b of None \<Rightarrow> (w, Inl Panicked)
      | Some tries \<Rightarrow> (case makeClaim e wid tries w of (w1, Inl err) \<Rightarrow> (w1, Inl err)
          | (w1, Inr new) \<Rightarrow> claim_window e wid n rs (i + target) (claimed @ new) w1)) = (w', Inr cs)"
    using assms(1,3,4) unfolding claim_window.simps [of e wid n rs i claimed w] target_def
    by (simp add: Let_def)
  then obtain tries where slice: "go_slice rs i ?b = Some tries"
    by (cases "go_slice rs i ?b") auto
  with unf obtain w1 new where "makeClaim e wid tries w = (w1, Inr new)"
      "claim_window e wid n rs (i + target) (claimed @ new) w1 = (w', Inr cs)"
    by (auto split: prod.splits sum.splits)
  moreover have pos: "0 < target"
    using target_positive [OF assms(3,4) slice [unfolded target_def]] by (simp add: target_def)
  moreover have "tries = take (nat target) (drop (nat i) rs)"
    using slice go_slice_window [OF assms(2,4) pos] by simp
  ultimately show thesis using that by simp
qed

lemma target_unat:
  assumes "0 < targetClaimsLength n claimed"
  shows "length claimed + nat (targetClaimsLength n claimed) \<le> unat n"
proof -
  have "sint n \<le> uint n"
    unfolding sint_uint signed_take_bit_int_less_eq_self_iff
    using uint_ge_0 [of n] by (rule order_trans [rotated]) simp
  then have "sint n \<le> int (unat n)" by simp
  then show ?thesis using assms unfolding targetClaimsLength_def by linarith
qed

lemma claim_window_Inr:
  assumes "claim_window e wid n rs i claimed w = (w', Inr cs)" and "0 \<le> i"
  shows "passes e hist w w' \<and> (length claimed \<le> unat n \<longrightarrow> length cs \<le> unat n) \<and>
    (\<exists>ts new. cs = claimed @ new \<and> subseq ts (drop (nat i) rs) \<and>
       list_all2 (claim_made e hist wid w') ts new)"
  using assms
proof (induction e wid n rs i claimed w rule: claim_window.induct)
  case (1 e wid n rs i claimed w)
  let ?t = "targetClaimsLength n claimed"
  show ?case
  proof (cases "of_nat (length claimed) < n \<and> i < int (length rs)")
    case False
    then have "w' = w" "cs = claimed"
      using "1.prems"(1) unfolding claim_window.simps [of e wid n rs i claimed w] by auto
    then show ?thesis by (auto intro: exI [of _ "[]"])
  next
    case True
    then obtain w1 new where pos: "0 < ?t"
        and made: "makeClaim e wid (take (nat ?t) (drop (nat i) rs)) w = (w1, Inr new)"
        and rest: "claim_window e wid n rs (i + ?t) (claimed @ new) w1 = (w', Inr cs)"
      using claim_window_step [OF "1.prems"] by blast
    have slice: "go_slice rs i (minInt (i + ?t) (int (length rs))) = Some (take (nat ?t) (drop (nat i) rs))"
      using go_slice_window "1.prems"(2) True pos by blast
    note IH = "1.IH" [OF True refl refl slice made [symmetric] refl rest]
    from makeClaim_Inr [OF made, of hist] obtain ts0
      where p1: "passes e hist w w1" and sub0: "subseq ts0 (take (nat ?t) (drop (nat i) rs))"
        and m0: "list_all2 (claim_made e hist wid w1) ts0 new" by blast
    have "length new \<le> nat ?t"
      using list_all2_lengthD [OF m0] list_emb_length [OF sub0] by simp
    then have len: "length (claimed @ new) \<le> unat n"
      using target_unat [OF pos] by simp
    obtain ts1 new1 where cs: "cs = claimed @ new @ new1" and p2: "passes e hist w1 w'"
        and sub1: "subseq ts1 (drop (nat i + nat ?t) rs)"
        and m1: "list_all2 (claim_made e hist wid w') ts1 new1"
        and fits: "length cs \<le> unat n"
      using IH pos "1.prems"(2) len by (auto simp: nat_add_distrib)
    have "list_all2 (claim_made e hist wid w') (ts0 @ ts1) (new @ new1)"
      using claims_pass [OF m0 p2] m1 by (rule list_all2_appendI)
    then show ?thesis
      using subseq_drop_window [OF sub0 sub1] passes_trans [OF p1 p2] cs fits by auto
  qed
qed

section \<open>Searching and the claim loop\<close>

text \<open>A task that was read: its document is in the history of some key, at its version.\<close>

definition read_from ::
  "'w task_env \<Rightarrow> ('w, PersistedTaskData) history \<Rightarrow> 'w \<Rightarrow> Task \<Rightarrow> bool" where
  "read_from e hist w t \<longleftrightarrow> (task_store e hist \<longrightarrow>
     (\<exists>k. (Some (ToPersistedTask t), version_of t) \<in> set (hist w k)))"

lemma read_from_passes: "read_from e hist w t \<Longrightarrow> passes e hist w w' \<Longrightarrow> read_from e hist w' t"
  unfolding read_from_def passes_def using advances_mem [of hist w w'] by blast

lemma searchForClaimables_passes:
  assumes "searchForClaimables e queues limit w = (w', r)"
  shows "passes e hist w w'"
proof -
  obtain w1 now where utc: "getUTC e w = (w1, now)" by fastforce
  obtain s where s: "SearchRequest e (if queues = [] then [allTaskqueueQueuesPattern]
      else map BuildIndexName queues) (buildClaimableQueryBody limit now) w1 = (w', s)"
    using assms utc
    by (auto simp: searchForClaimables_def Let_def split: prod.splits es_reply.splits)
  show ?thesis by (rule passes_trans [OF passes_eq(1) [OF utc] passes_eq(3) [OF s]])
qed

lemma searchForClaimables_Inr:
  assumes "searchForClaimables e queues limit w = (w', Inr rs)"
  shows "passes e hist w w' \<and> (\<forall>t \<in> set rs. read_from e hist w' t)"
proof -
  let ?ix = "if queues = [] then [allTaskqueueQueuesPattern] else map BuildIndexName queues"
  obtain w1 now where utc: "getUTC e w = (w1, now)" by fastforce
  let ?q = "buildClaimableQueryBody limit now"
  obtain r where s: "SearchRequest e ?ix ?q w1 = (w', r)"
      and cases: "(\<exists>hits. r = Response 200 (Some hits) \<and> rs = map ToDomainTask hits) \<or> rs = []"
    using assms utc
    by (auto simp: searchForClaimables_def Let_def
        split: prod.splits es_reply.splits option.splits if_splits)
  have "\<forall>t \<in> set rs. read_from e hist w' t"
    using cases
  proof (elim disjE exE conjE)
    fix hits assume r: "r = Response 200 (Some hits)" "rs = map ToDomainTask hits"
    then show ?thesis
      using task_store_search [OF _ s [unfolded r(1)], of hist]
      by (auto simp: read_from_def ToDomainTask_stored simp del: split_paired_Ex)
  qed simp
  then show ?thesis using passes_trans [OF passes_eq(1) [OF utc] passes_eq(3) [OF s]] by simp
qed

lemmas search_loop_induct = search_loop.raw_induct [rotated, consumes 1, case_names step]
lemmas claim_loop_induct = claim_loop.raw_induct [rotated, consumes 1, case_names step]

lemma search_loop_result:
  "search_loop e queues limit start blockFor wait firstTry found w = Some y \<Longrightarrow>
     \<forall>t \<in> set found. read_from e hist w t \<Longrightarrow>
     passes e hist w (fst y) \<and> (\<forall>rs. snd y = Inr rs \<longrightarrow> (\<forall>t \<in> set rs. read_from e hist (fst y) t))"
proof (induction rule: search_loop_induct)
  case (step loop e queues limit start blockFor wait firstTry found w y)
  obtain w1 now where utc: "getUTC e w = (w1, now)" by fastforce
  define w2 where "w2 = (if firstTry then w1 else Sleep e wait w1)"
  note p1 = passes_eq(1) [OF utc, of hist]
  have p2: "passes e hist w w2"
    using p1 passes_trans [OF p1 passes_requests(2)] by (simp add: w2_def)
  show ?case
  proof (cases "found \<noteq> [] \<or> \<not> time_sub now start < blockFor")
    case True
    then have "y = (w, Inr found) \<or> y = (w1, Inr found)"
      using step.hyps by (auto simp: utc split: if_splits)
    then show ?thesis using step.prems p1 read_from_passes [OF _ p1] by auto
  next
    case False
    obtain w3 r where s: "searchForClaimables e queues limit w2 = (w3, r)" by fastforce
    show ?thesis
    proof (cases r)
      case (Inl err)
      then have "y = (w3, Inl err)"
        using step.hyps False s by (simp add: utc w2_def)
      then show ?thesis using passes_trans [OF p2 searchForClaimables_passes [OF s]] by simp
    next
      case (Inr rs)
      note found = searchForClaimables_Inr [OF s [unfolded Inr], of hist]
      have "loop e queues limit start blockFor wait False rs w3 = Some y"
        using step.hyps False s Inr by (simp add: utc w2_def)
      from step.IH [OF this] found have "passes e hist w3 (fst y)"
          "\<forall>rs. snd y = Inr rs \<longrightarrow> (\<forall>t \<in> set rs. read_from e hist (fst y) t)" by simp_all
      moreover have "passes e hist w w3" using passes_trans [OF p2] found by simp
      ultimately show ?thesis using passes_trans by simp
    qed
  qed
qed

lemma markAllTouched_passes: "passes e hist w (markAllTouched e names w)"
proof -
  have "passes e hist w (fold (\<lambda>name. lru_Add e name at) names w)" for at w
    by (induction names arbitrary: w) (auto intro: passes_trans [OF passes_requests(5)])
  then show ?thesis
    by (auto simp: markAllTouched_def split: prod.splits dest: passes_eq(1) intro: passes_trans)
qed

text \<open>A claim of this worker, of a task read before.\<close>

definition sound_claim ::
  "'w task_env \<Rightarrow> ('w, PersistedTaskData) history \<Rightarrow> worker_id \<Rightarrow> 'w \<Rightarrow> Task \<Rightarrow> bool" where
  "sound_claim e hist wid w c \<longleftrightarrow> (\<exists>t. claim_made e hist wid w t c \<and> read_from e hist w t)"

lemma sound_claim_passes:
  "sound_claim e hist wid w c \<Longrightarrow> passes e hist w w' \<Longrightarrow> sound_claim e hist wid w' c"
  unfolding sound_claim_def
  by (elim exE conjE) (rule exI, rule conjI, erule (1) claim_made_passes, erule (1) read_from_passes)

lemma searchAndClaim_Inr:
  assumes "searchAndClaim e conf wid queues n start blockFor wait w = Some (w', Inr cs)"
  shows "passes e hist w w' \<and> length cs \<le> unat n \<and> (\<forall>c \<in> set cs. sound_claim e hist wid w' c)"
proof -
  obtain w1 rs where s: "search_loop e queues (ClaimAmountSearchMultiplier (Defaults conf) * n) start
        blockFor wait True [] w = Some (w1, Inr rs)"
      and win: "claim_window e wid n rs 0 [] (markAllTouched e queues w1) = (w', Inr cs)"
    using assms
    by (auto simp: searchAndClaim_def split: option.splits prod.splits sum.splits)
  have p1: "passes e hist w w1" and read: "\<forall>t \<in> set rs. read_from e hist w1 t"
    using search_loop_result [OF s, of hist] by auto
  obtain ts where p2: "passes e hist (markAllTouched e queues w1) w'" and len: "length cs \<le> unat n"
      and ts: "subseq ts rs" "list_all2 (claim_made e hist wid w') ts cs"
    using claim_window_Inr [OF win, of hist] by auto
  have p: "passes e hist w1 w'" using passes_trans [OF markAllTouched_passes p2] .
  have "sound_claim e hist wid w' c" if c: "c \<in> set cs" for c
  proof -
    obtain j where "j < length cs" "cs ! j = c" using c by (auto simp: in_set_conv_nth)
    then have "claim_made e hist wid w' (ts ! j) c" and t: "ts ! j \<in> set ts"
      using list_all2_nthD2 [OF ts(2), of j] list_all2_lengthD [OF ts(2)] by simp_all
    moreover have "ts ! j \<in> set rs" using list_emb_set [OF ts(1) t] by auto
    ultimately show ?thesis
      unfolding sound_claim_def using read read_from_passes [OF _ p] by auto
  qed
  then show ?thesis using passes_trans [OF p1 p] len by blast
qed

lemma claim_loop_result:
  "claim_loop e conf wid queues n start blockFor wait firstTry claimed w = Some y \<Longrightarrow>
     length claimed \<le> unat n \<Longrightarrow> \<forall>c \<in> set claimed. sound_claim e hist wid w c \<Longrightarrow>
     \<forall>cs. snd y = Inr cs \<longrightarrow> length cs \<le> unat n \<and> (\<forall>c \<in> set cs. sound_claim e hist wid (fst y) c)"
proof (induction rule: claim_loop_induct)
  case (step loop e conf wid queues n start blockFor wait firstTry claimed w y)
  obtain w1 now where utc: "getUTC e w = (w1, now)" by fastforce
  define w2 where "w2 = (if firstTry then w1 else Sleep e wait w1)"
  note p1 = passes_eq(1) [OF utc, of hist]
  have p2: "passes e hist w w2"
    using p1 passes_trans [OF p1 passes_requests(2)] by (simp add: w2_def)
  let ?m = "n - of_nat (length claimed)"
  show ?case
  proof (cases "of_nat (length claimed) < n \<and> time_sub now start < blockFor")
    case False
    then have "y = (w, Inr claimed) \<or> y = (w1, Inr claimed)"
      using step.hyps by (auto simp: utc split: if_splits)
    then show ?thesis using step.prems sound_claim_passes [OF _ p1] by auto
  next
    case True
    have "unat n < 2 ^ 64"
      by (rule order_less_le_trans [OF unsigned_less]) simp
    then have small: "length claimed < 2 ^ 64" using step.prems(1) by simp
    then have u: "unat (of_nat (length claimed) :: u64) = length claimed"
      by (simp add: unat_of_nat take_bit_nat_eq_self)
    then have m: "unat ?m = unat n - length claimed"
      using step.prems(1) by (simp add: unat_sub word_le_nat_alt)
    obtain w3 r where s: "searchAndClaim e conf wid queues ?m start blockFor wait w2 = Some (w3, r)"
      using step.hyps True
      by (cases "searchAndClaim e conf wid queues ?m start blockFor wait w2") (auto simp: utc w2_def)
    show ?thesis
    proof (cases r)
      case (Inl err)
      then have "y = (w3, Inl err)" using step.hyps True s by (simp add: utc w2_def)
      then show ?thesis by simp
    next
      case (Inr cs)
      have "loop e conf wid queues n start blockFor wait False (claimed @ cs) w3 = Some y"
        using step.hyps True s Inr by (simp add: utc w2_def)
      note IH = step.IH [OF this]
      have new: "passes e hist w2 w3" "length cs \<le> unat ?m" "\<forall>c \<in> set cs. sound_claim e hist wid w3 c"
        using searchAndClaim_Inr [OF s [unfolded Inr], of hist] by auto
      have "length (claimed @ cs) \<le> unat n" using new(2) m step.prems(1) by simp
      moreover have "\<forall>c \<in> set (claimed @ cs). sound_claim e hist wid w3 c"
        using new(3) step.prems(2) sound_claim_passes [OF _ passes_trans [OF p2 new(1)]] by auto
      ultimately show ?thesis by (rule IH)
    qed
  qed
qed

lemma EsClaim_result:
  assumes "EsClaim e conf wid queues n blockFor w = Some (w', Inr cs)"
  shows "length cs \<le> unat n \<and> (\<forall>c \<in> set cs. sound_claim e hist wid w' c)"
proof -
  obtain w1 start where "claim_loop e conf wid queues n start blockFor (retryWait conf blockFor)
      True [] w1 = Some (w', Inr cs)"
    using assms by (auto simp: EsClaim_def split: prod.splits)
  from claim_loop_result [OF this, of hist] show ?thesis by simp
qed

section \<open>Claims under concurrency\<close>

text \<open>
  Every stored document lies where its own id and queue say: what \<open>EsCreate\<close> and
  \<open>getAndUpdate\<close> write.
\<close>

definition well_placed :: "('w, PersistedTaskData) history \<Rightarrow> bool" where
  "well_placed hist \<longleftrightarrow> (\<forall>w k d v. (Some d, v) \<in> set (hist w k) \<longrightarrow>
     k = (BuildIndexName (pQueue d), pId d))"

lemma claimed_from_cases:
  assumes "claimed_from wid t c"
  obtains at u v where "IntoClaimed wid at t = Inr u" "c = set_version v (set_modified at u)"
  using assms unfolding claimed_from_def by blast

lemma claimed_from_states:
  "claimed_from wid t c \<Longrightarrow> tState t \<in> {QUEUED, FAILED} \<and> tState c = CLAIMED \<and> owner c = Some wid"
  by (erule claimed_from_cases)
    (auto simp: IntoClaimed_Inr_iff set_version_def set_modified_def owner_def)

lemma claimed_from_key: "claimed_from wid t c \<Longrightarrow> task_key c = task_key t"
  by (erule claimed_from_cases)
    (auto simp: IntoClaimed_Inr_iff task_key_def set_modified_def set_version_def)

lemma sound_claim_over:
  assumes store: "task_store e hist" and placed: "well_placed hist"
    and sound: "sound_claim e hist wid w c"
  shows "\<exists>t. claimed_from wid t c \<and> updated_over hist w (task_key c) t c"
proof -
  obtain t x k where made: "claimed_from wid t c"
      and over: "written_over hist w (task_key t) (x, version_of t) (Some (ToPersistedTask c), version_of c)"
      and read: "(Some (ToPersistedTask t), version_of t) \<in> set (hist w k)"
    using sound store by (auto simp: sound_claim_def claim_made_def read_from_def simp del: split_paired_Ex)
  have "k = task_key t"
    using placed read unfolding well_placed_def by (fastforce simp: task_key_def ToPersistedTask_def)
  then have "x = Some (ToPersistedTask t)"
    using version_unique [OF task_store_distinct [OF store, of w k]] read written_over_mem [OF over] by blast
  moreover have "task_key c = task_key t"
    by (rule claimed_from_key [OF made])
  ultimately show ?thesis using made over by (auto simp: updated_over_def)
qed

text \<open>
  C13: \<open>Claim\<close> returns at most as many tasks as were asked for, and each was made by
  \<open>IntoClaimed\<close> from a queued or failed version of the task, stored directly on top of that
  version, and is now claimed by this worker.
\<close>

theorem Claim_sound:
  assumes store: "task_store e hist" and placed: "well_placed hist"
    and claim: "EsClaim e conf wid queues n blockFor w = Some (w', Inr cs)"
  shows "length cs \<le> unat n \<and>
    (\<forall>c \<in> set cs. tState c = CLAIMED \<and> owner c = Some wid \<and>
       (\<exists>t. tState t \<in> {QUEUED, FAILED} \<and> claimed_from wid t c \<and>
            updated_over hist w' (task_key c) t c))"
  using EsClaim_result [OF claim, of hist] sound_claim_over [OF store placed] claimed_from_states
  by blast

text \<open>
  The entry of a task in the history of its document. Of two claims in one history, either they
  are the same write, or between them the task was stored queued or failed again.
\<close>

definition stored :: "Task \<Rightarrow> PersistedTaskData option \<times> Version" where
  "stored t = (Some (ToPersistedTask t), version_of t)"

definition released_between ::
  "('w, PersistedTaskData) history \<Rightarrow> 'w \<Rightarrow> Task \<Rightarrow> Task \<Rightarrow> bool" where
  "released_between hist w c1 c2 \<longleftrightarrow>
     (\<exists>later between earlier t. hist w (task_key c2) = later @ stored c2 # between @ stored c1 # earlier \<and>
        stored t \<in> set between \<and> tState t \<in> {QUEUED, FAILED})"

lemma stored_inject: "stored t = stored t' \<longleftrightarrow> t = t'"
proof
  assume "stored t = stored t'"
  then have "ToPersistedTask t = ToPersistedTask t'" "version_of t = version_of t'"
    by (simp_all add: stored_def)
  moreover have "toDomainTask (ToPersistedTask t) (version_of t) = t" for t
    by (simp add: version_of_def)
  ultimately show "t = t'" by metis
qed simp

lemma ordered_writes:
  assumes d: "distinct h" and h1: "h = l1 @ x1 # y1 # r1" and h2: "h = l2 @ x2 # y2 # r2"
    and ne: "x1 \<noteq> x2" "x1 \<noteq> y2" "x2 \<noteq> y1"
  shows "(\<exists>m. h = l2 @ x2 # (y2 # m) @ x1 # y1 # r1) \<or> (\<exists>m. h = l1 @ x1 # (y1 # m) @ x2 # y2 # r2)"
proof -
  have "x1 \<in> set l2 \<or> x1 \<in> set r2" using h1 h2 ne by (metis in_set_conv_decomp set_append set_ConsD UnE)
  then show ?thesis
  proof
    assume "x1 \<in> set r2"
    then obtain m r where r2: "r2 = m @ x1 # r" by (meson split_list)
    have eq: "l1 @ x1 # (y1 # r1) = (l2 @ x2 # y2 # m) @ x1 # r" using h1 h2 r2 by simp
    have "l1 = l2 @ x2 # y2 # m"
      using distinct_split_unique [of id, OF _ eq refl] d h1 by simp
    then show ?thesis using h1 by auto
  next
    assume "x1 \<in> set l2"
    then obtain p q where l2: "l2 = p @ x1 # q" by (meson split_list)
    have eq: "l1 @ x1 # (y1 # r1) = p @ x1 # (q @ x2 # y2 # r2)" using h1 h2 l2 by simp
    have "l1 = p \<and> y1 # r1 = q @ x2 # y2 # r2"
      using distinct_split_unique [of id, OF _ eq refl] d h1 by simp
    then show ?thesis using h2 l2 ne(3) by (cases q) auto
  qed
qed

text \<open>
  C1: a task is claimed by one worker at a time. Take two successful calls of \<open>Claim\<close>, by
  any workers on any servers, and a task both returned. Once both have answered, the history of
  the task shows either one and the same claim, by one worker, or that the task was released
  (stored as queued or failed) after the one claim and before the other.
\<close>

theorem claims_exclusive:
  assumes store: "task_store e hist" and placed: "well_placed hist"
    and a: "EsClaim e conf a queues n blockFor v = Some (v', Inr xs)" "ca \<in> set xs" "advances hist v' w"
    and b: "EsClaim e conf' b queues' m blockFor' u = Some (u', Inr ys)" "cb \<in> set ys" "advances hist u' w"
    and same: "task_key ca = task_key cb"
  shows "a = b \<and> ca = cb \<or> released_between hist w ca cb \<or> released_between hist w cb ca"
proof -
  let ?h = "hist w (task_key ca)"
  have "sound_claim e hist a w ca" "sound_claim e hist b w cb"
    using EsClaim_result [OF a(1), of hist] EsClaim_result [OF b(1), of hist] a b
      sound_claim_passes [of e hist _ _ _ w] by (auto simp: passes_def)
  then obtain ta tb where ta: "claimed_from a ta ca" "updated_over hist w (task_key ca) ta ca"
      and tb: "claimed_from b tb cb" "updated_over hist w (task_key ca) tb cb"
    using sound_claim_over [OF store placed] same by metis
  note states = claimed_from_states [OF ta(1)] claimed_from_states [OF tb(1)]
  have d: "distinct ?h"
    using task_store_distinct [OF store] distinct_map by blast
  obtain l1 r1 where h1: "?h = l1 @ stored ca # stored ta # r1"
    using ta(2) by (auto simp: updated_over_def written_over_def stored_def)
  obtain l2 r2 where h2: "?h = l2 @ stored cb # stored tb # r2"
    using tb(2) by (auto simp: updated_over_def written_over_def stored_def)
  show ?thesis
  proof (cases "ca = cb")
    case True
    then show ?thesis using states by auto
  next
    case False
    then have ne: "stored ca \<noteq> stored cb" "stored ca \<noteq> stored tb" "stored cb \<noteq> stored ta"
      using states by (auto simp: stored_inject)
    from ordered_writes [OF d h1 h2 ne] show ?thesis
      unfolding released_between_def using states same
      by (elim disjE exE) (metis list.set_intros(1))+
  qed
qed

end
