(* ===== verification/EsClaimReturns.thy ===== *)
theory EsClaimReturns
  imports EsClaiming
begin

text \<open>
  When \<open>Claim\<close> returns, and when it panics. The two loops of \<open>Claim\<close> run until \<open>blockFor\<close> is
  over; they end because the clock advances and they sleep in between. The window over the
  search results slices with Go \<open>int\<close>s converted from the \<open>uint\<close> the caller asks for.
\<close>

section \<open>The clock\<close>

text \<open>
  What is relied on of the clock: it does not run backwards, a reading lies between the
  beginning and the end of the call, and sleeping takes at least as long as asked for.
\<close>

definition clock_ok :: "'w task_env \<Rightarrow> ('w \<Rightarrow> time) \<Rightarrow> bool" where
  "clock_ok e clock \<longleftrightarrow> (\<forall>w.
     clock w \<le> snd (getUTC e w) \<and> snd (getUTC e w) \<le> clock (fst (getUTC e w)) \<and>
     (\<forall>d. clock w \<le> clock (Sleep e d w) \<and> clock w + d \<le> clock (Sleep e d w)) \<and>
     (\<forall>ixs q. clock w \<le> clock (fst (SearchRequest e ixs q w))) \<and>
     (\<forall>ops. clock w \<le> clock (fst (BulkRequest e ops w))) \<and>
     (\<forall>name at. clock w \<le> clock (lru_Add e name at w)))"

lemma clock_utc: "clock_ok e clock \<Longrightarrow> getUTC e w = (w', now) \<Longrightarrow> clock w \<le> now \<and> now \<le> clock w'"
  unfolding clock_ok_def by (metis fst_conv snd_conv)

lemma clock_sleep: "clock_ok e clock \<Longrightarrow> clock w \<le> clock (Sleep e d w) \<and> clock w + d \<le> clock (Sleep e d w)"
  unfolding clock_ok_def by blast

lemma clock_search: "clock_ok e clock \<Longrightarrow> clock w \<le> clock (fst (SearchRequest e ixs q w))"
  unfolding clock_ok_def by blast

lemma clock_bulk: "clock_ok e clock \<Longrightarrow> clock w \<le> clock (fst (BulkRequest e ops w))"
  unfolding clock_ok_def by blast

lemma clock_lru: "clock_ok e clock \<Longrightarrow> clock w \<le> clock (lru_Add e name at w)"
  unfolding clock_ok_def by blast

lemma sendBulk_world: "fst (sendBulk e ops w) = fst (BulkRequest e ops w)"
  by (simp add: sendBulk_def split: prod.splits es_reply.splits)

lemma makeClaim_clock:
  assumes "clock_ok e clock"
  shows "clock w \<le> clock (fst (makeClaim e wid ts w))"
proof -
  obtain w1 now where utc: "getUTC e w = (w1, now)" by fastforce
  have "clock w \<le> clock w1" using clock_utc [OF assms utc] by simp
  moreover have "clock w1 \<le> clock (fst (sendBulk e ops w1))" for ops
    using clock_bulk [OF assms] by (simp add: sendBulk_world)
  ultimately show ?thesis
    by (auto simp: makeClaim_def utc bulkUpdateTasks_def intro: order_trans split: sum.splits prod.splits)
      (metis fst_conv order_trans)+
qed

lemma searchForClaimables_clock:
  assumes "clock_ok e clock"
  shows "clock w \<le> clock (fst (searchForClaimables e queues limit w))"
proof -
  obtain w1 now where utc: "getUTC e w = (w1, now)" by fastforce
  have "fst (searchForClaimables e queues limit w) = fst (SearchRequest e
      (if queues = [] then [allTaskqueueQueuesPattern] else map BuildIndexName queues)
      (buildClaimableQueryBody limit now) w1)"
    by (simp add: searchForClaimables_def utc Let_def split: prod.splits es_reply.splits)
  then show ?thesis
    using clock_utc [OF assms utc] clock_search [OF assms, of w1] by (metis order_trans)
qed

lemma claim_window_clock:
  "clock_ok e clock \<Longrightarrow> clock w \<le> clock (fst (claim_window e wid n rs i claimed w))"
proof (induction e wid n rs i claimed w rule: claim_window.induct)
  case (1 e wid n rs i claimed w)
  let ?t = "targetClaimsLength n claimed"
  show ?case
  proof (cases "of_nat (length claimed) < n \<and> i < int (length rs)")
    case False
    then show ?thesis by (subst claim_window.simps) auto
  next
    case True
    show ?thesis
    proof (cases "go_slice rs i (minInt (i + ?t) (int (length rs)))")
      case None
      then show ?thesis using True by (subst claim_window.simps) simp
    next
      case (Some tries)
      obtain w1 r where made: "makeClaim e wid tries w = (w1, r)" by fastforce
      have c1: "clock w \<le> clock w1"
        using makeClaim_clock [OF "1.prems", of w wid tries] made by simp
      show ?thesis
      proof (cases r)
        case (Inl err)
        then show ?thesis using True Some made c1 by (subst claim_window.simps) simp
      next
        case (Inr new)
        have "clock w1 \<le> clock (fst (claim_window e wid n rs (i + ?t) (claimed @ new) w1))"
          using "1.IH" [OF True refl refl Some made [unfolded Inr, symmetric] refl "1.prems"] by simp
        then show ?thesis using True Some made Inr c1 by (subst claim_window.simps) simp
      qed
    qed
  qed
qed

lemma markAllTouched_clock:
  assumes "clock_ok e clock"
  shows "clock w \<le> clock (markAllTouched e names w)"
proof -
  have "clock w \<le> clock (fold (\<lambda>name. lru_Add e name at) names w)" for at w
    by (induction names arbitrary: w) (auto intro: order_trans [OF clock_lru [OF assms]])
  moreover obtain w1 now where utc: "getUTC e w = (w1, now)" by fastforce
  ultimately show ?thesis
    using clock_utc [OF assms utc] by (auto simp: markAllTouched_def utc intro: order_trans)
qed

section \<open>The loops end\<close>

lemma time_sub_less:
  "b \<le> max_duration \<Longrightarrow> time_sub now start < b \<Longrightarrow> now < start + b"
  by (auto simp: time_sub_def min_duration_def max_duration_def)

lemma search_loop_returns:
  assumes clock: "clock_ok e clock" and wait: "0 < wait" and b: "blockFor \<le> max_duration"
  shows "\<exists>y. search_loop e queues limit start blockFor wait first found w = Some y \<and> clock w \<le> clock (fst y)"
proof (induction "nat (start + blockFor - clock w) + (if first then 1 else 0)"
    arbitrary: first found w rule: less_induct)
  case less
  obtain w1 now where utc: "getUTC e w = (w1, now)" by fastforce
  note c1 = clock_utc [OF clock utc]
  define w2 where "w2 = (if first then w1 else Sleep e wait w1)"
  obtain w3 r where s: "searchForClaimables e queues limit w2 = (w3, r)" by fastforce
  have c2: "clock w1 + (if first then 0 else wait) \<le> clock w2"
    using clock_sleep [OF clock, of w1 wait] by (simp add: w2_def)
  have c3: "clock w2 \<le> clock w3"
    using searchForClaimables_clock [OF clock, of w2 queues limit] s by simp
  show ?case
  proof (cases "found \<noteq> [] \<or> \<not> time_sub now start < blockFor")
    case True
    then show ?thesis using c1 by (subst search_loop.simps) (auto simp: utc)
  next
    case False
    then have running: "now < start + blockFor" using time_sub_less [OF b] by simp
    show ?thesis
    proof (cases r)
      case (Inl err)
      have "clock w \<le> clock w3" using c1 c2 c3 wait by (simp split: if_splits)
      then show ?thesis
        using False s Inl by (subst search_loop.simps) (simp add: utc w2_def)
    next
      case (Inr rs)
      have "nat (start + blockFor - clock w3) + (if False then 1 else 0)
          < nat (start + blockFor - clock w) + (if first then 1 else 0)"
        using c1 c2 c3 wait running by (simp split: if_splits)
      from less [OF this] obtain y where "search_loop e queues limit start blockFor wait False rs w3 = Some y"
          "clock w3 \<le> clock (fst y)" by blast
      moreover have "clock w \<le> clock w3" using c1 c2 c3 wait by (simp split: if_splits)
      ultimately show ?thesis
        using False s Inr by (subst search_loop.simps) (simp add: utc w2_def)
    qed
  qed
qed

lemma searchAndClaim_returns:
  assumes "clock_ok e clock" and "0 < wait" and "blockFor \<le> max_duration"
  shows "\<exists>y. searchAndClaim e conf wid queues n start blockFor wait w = Some y \<and> clock w \<le> clock (fst y)"
proof -
  obtain w1 r where s: "search_loop e queues (ClaimAmountSearchMultiplier (Defaults conf) * n) start
        blockFor wait True [] w = Some (w1, r)" and c1: "clock w \<le> clock w1"
    using search_loop_returns [OF assms] by (metis fst_conv prod.collapse)
  show ?thesis
  proof (cases r)
    case (Inl err)
    then show ?thesis using s c1 by (simp add: searchAndClaim_def)
  next
    case (Inr rs)
    have "clock w1 \<le> clock (fst (claim_window e wid n rs 0 [] (markAllTouched e queues w1)))"
      using markAllTouched_clock [OF assms(1)] claim_window_clock [OF assms(1)] order_trans by blast
    then show ?thesis using s c1 Inr by (simp add: searchAndClaim_def)
  qed
qed

lemma claim_loop_returns:
  assumes clock: "clock_ok e clock" and wait: "0 < wait" and b: "blockFor \<le> max_duration"
  shows "\<exists>y. claim_loop e conf wid queues n start blockFor wait first claimed w = Some y"
proof (induction "nat (start + blockFor - clock w) + (if first then 1 else 0)"
    arbitrary: first claimed w rule: less_induct)
  case less
  obtain w1 now where utc: "getUTC e w = (w1, now)" by fastforce
  note c1 = clock_utc [OF clock utc]
  define w2 where "w2 = (if first then w1 else Sleep e wait w1)"
  let ?m = "n - of_nat (length claimed)"
  obtain w3 r where s: "searchAndClaim e conf wid queues ?m start blockFor wait w2 = Some (w3, r)"
      and c3: "clock w2 \<le> clock w3"
    using searchAndClaim_returns [OF assms] by (metis fst_conv prod.collapse)
  have c2: "clock w1 + (if first then 0 else wait) \<le> clock w2"
    using clock_sleep [OF clock, of w1 wait] by (simp add: w2_def)
  show ?case
  proof (cases "of_nat (length claimed) < n \<and> time_sub now start < blockFor")
    case False
    then show ?thesis by (subst claim_loop.simps) (auto simp: utc)
  next
    case True
    then have running: "now < start + blockFor" using time_sub_less [OF b] by simp
    show ?thesis
    proof (cases r)
      case (Inl err)
      then show ?thesis using True s by (subst claim_loop.simps) (simp add: utc w2_def)
    next
      case (Inr cs)
      have "nat (start + blockFor - clock w3) + (if False then 1 else 0)
          < nat (start + blockFor - clock w) + (if first then 1 else 0)"
        using c1 c2 c3 wait running by (simp split: if_splits)
      from less [OF this] show ?thesis
        using True s Inr by (subst claim_loop.simps) (simp add: utc w2_def)
    qed
  qed
qed

lemma retryWait_min: "BlockForRetryMinWait (Defaults conf) \<le> retryWait conf blockFor"
  by (simp add: retryWait_def Let_def)

text \<open>
  C15: \<open>Claim\<close> returns, with tasks or with an error, if the clock advances and the
  configured minimal wait between retries is positive, whatever Elasticsearch answers.
\<close>

theorem Claim_returns:
  assumes "clock_ok e clock" and "0 < BlockForRetryMinWait (Defaults conf)" and "blockFor \<le> max_duration"
  shows "\<exists>w' r. EsClaim e conf wid queues n blockFor w = Some (w', r)"
  using claim_loop_returns [OF assms(1) order_less_le_trans [OF assms(2) retryWait_min] assms(3)]
  by (simp add: EsClaim_def split: prod.splits)

section \<open>Panics\<close>

lemma makeClaim_no_panic:
  assumes "task_store e hist"
  shows "snd (makeClaim e wid ts w) \<noteq> Inl Panicked"
proof -
  have each: "claim_each wid at us \<noteq> Inl Panicked" for at us
    by (induction us) (auto simp: IntoClaimed_def result_simps split: sum.splits)
  have pick: "pick_claimed r i us \<noteq> Inl Panicked"
    if "i + length us = length (brItems r)" "\<forall>it \<in> set (brItems r). Info it \<noteq> None" for r i us
    using that
  proof (induction us arbitrary: i)
    case (Cons u us)
    then have "item_info r i \<noteq> None" by (auto simp: item_info_def)
    then show ?case using Cons by (auto simp: result_simps)
  qed simp
  have "snd (makeClaim e wid ts w) \<noteq> Inl Panicked"
    if m: "makeClaim e wid ts w = (w', Inl Panicked)" for w'
  proof -
    obtain w1 at where utc: "getUTC e w = (w1, at)" by fastforce
    then obtain us where us: "claim_each wid at ts = Inr us"
      using m each by (auto simp: makeClaim_def split: sum.splits)
    then obtain r where "bulkUpdateTasks e us w1 = (w', Inr r)" "pick_claimed r 0 us = Inl Panicked"
      using m utc by (auto simp: makeClaim_def bulkUpdateTasks_def sendBulk_def
          split: prod.splits sum.splits es_reply.splits option.splits if_splits)
    then show ?thesis
      using sendBulk_Inr [of e _ w1 w' r hist] pick [of 0 us r] assms
      by (auto simp: bulkUpdateTasks_def bulk_reply_ok_def buildTasksBulkUpdateNdJson_def)
  qed
  then show ?thesis by (metis prod.collapse)
qed

text \<open>The window slices in range as long as the number asked for is a positive Go \<open>int\<close>.\<close>

lemma claim_window_no_panic:
  "task_store e hist \<Longrightarrow> unat n < 2 ^ 63 \<Longrightarrow> 0 \<le> i \<Longrightarrow> length claimed \<le> unat n \<Longrightarrow>
     snd (claim_window e wid n rs i claimed w) \<noteq> Inl Panicked"
proof (induction e wid n rs i claimed w rule: claim_window.induct)
  case (1 e wid n rs i claimed w)
  let ?t = "targetClaimsLength n claimed"
  show ?case
  proof (cases "of_nat (length claimed) < n \<and> i < int (length rs)")
    case False
    then show ?thesis by (subst claim_window.simps) auto
  next
    case True
    have "length claimed < 2 ^ 63" using "1.prems" by simp
    then have "unat (of_nat (length claimed) :: u64) = length claimed"
      by (simp add: unat_of_nat take_bit_nat_eq_self)
    then have "length claimed < unat n" using True by (simp add: word_less_nat_alt)
    moreover have "sint n = int (unat n)"
      using "1.prems"(2) by (rule sint_small)
    ultimately have t: "0 < ?t" "length claimed + nat ?t = unat n"
      unfolding targetClaimsLength_def by linarith+
    let ?tries = "take (nat ?t) (drop (nat i) rs)"
    have slice: "go_slice rs i (minInt (i + ?t) (int (length rs))) = Some ?tries"
      using go_slice_window "1.prems"(3) True t(1) by blast
    obtain w1 r where made: "makeClaim e wid ?tries w = (w1, r)" by fastforce
    show ?thesis
    proof (cases r)
      case (Inl err)
      then show ?thesis
        using True slice made makeClaim_no_panic [OF "1.prems"(1), of wid ?tries w]
        by (subst claim_window.simps) simp
    next
      case (Inr new)
      have "length new \<le> nat ?t"
        using makeClaim_Inr [OF made [unfolded Inr], of hist]
        by (auto dest!: list_all2_lengthD list_emb_length)
      then have "snd (claim_window e wid n rs (i + ?t) (claimed @ new) w1) \<noteq> Inl Panicked"
        using "1.IH" [OF True refl refl slice made [unfolded Inr, symmetric] refl] "1.prems" t by simp
      then show ?thesis using True slice made Inr by (subst claim_window.simps) simp
    qed
  qed
qed

lemma searchForClaimables_no_panic: "snd (searchForClaimables e queues l w) \<noteq> Inl Panicked"
  by (simp add: searchForClaimables_def Let_def split: prod.splits es_reply.splits option.splits)

lemma search_loop_no_panic:
  "search_loop e queues l start blockFor wait f found w = Some y \<Longrightarrow> snd y \<noteq> Inl Panicked"
proof (induction rule: search_loop_induct)
  case (step loop e queues l start blockFor wait f found w y)
  obtain w1 now where utc: "getUTC e w = (w1, now)" by fastforce
  obtain w3 r where s: "searchForClaimables e queues l (if f then w1 else Sleep e wait w1) = (w3, r)"
    by fastforce
  then have "r \<noteq> Inl Panicked" using searchForClaimables_no_panic by (metis snd_conv)
  then show ?case
    using step.hyps step.IH by (cases r) (auto simp: utc s split: if_splits)
qed

lemma searchAndClaim_no_panic:
  assumes "task_store e hist" and "unat n < 2 ^ 63"
    and "searchAndClaim e conf wid queues n start blockFor wait w = Some (w', r)"
  shows "r \<noteq> Inl Panicked"
proof -
  obtain w1 r1 where s: "search_loop e queues (ClaimAmountSearchMultiplier (Defaults conf) * n) start
      blockFor wait True [] w = Some (w1, r1)"
    using assms(3) by (auto simp: searchAndClaim_def split: option.splits)
  show ?thesis
  proof (cases r1)
    case (Inl err)
    then show ?thesis using search_loop_no_panic [OF s] s assms(3) by (auto simp: searchAndClaim_def)
  next
    case (Inr rs)
    then have "r = snd (claim_window e wid n rs 0 [] (markAllTouched e queues w1))"
      using s assms(3) by (simp add: searchAndClaim_def)
    then show ?thesis using claim_window_no_panic [OF assms(1,2)] by simp
  qed
qed

lemma claim_loop_no_panic:
  "claim_loop e conf wid queues n start blockFor wait f claimed w = Some y \<Longrightarrow>
     task_store e hist \<Longrightarrow> unat n < 2 ^ 63 \<Longrightarrow> snd y \<noteq> Inl Panicked"
proof (induction rule: claim_loop_induct)
  case (step loop e conf wid queues n start blockFor wait f claimed w y)
  obtain w1 now where utc: "getUTC e w = (w1, now)" by fastforce
  define w2 where "w2 = (if f then w1 else Sleep e wait w1)"
  let ?m = "n - of_nat (length claimed)"
  show ?case
  proof (cases "of_nat (length claimed) < n \<and> time_sub now start < blockFor")
    case False
    then show ?thesis using step.hyps by (auto simp: utc split: if_splits)
  next
    case True
    then have "?m \<le> n" by (simp add: word_sub_le less_imp_le)
    then have m: "unat ?m < 2 ^ 63" using step.prems(2) by (simp add: word_le_nat_alt)
    obtain w3 r where s: "searchAndClaim e conf wid queues ?m start blockFor wait w2 = Some (w3, r)"
      using step.hyps True
      by (cases "searchAndClaim e conf wid queues ?m start blockFor wait w2") (auto simp: utc w2_def)
    show ?thesis
      using step.hyps step.IH step.prems True s searchAndClaim_no_panic [OF step.prems(1) m s]
      by (cases r) (auto simp: utc w2_def)
  qed
qed

text \<open>
  A flag of the world that says whether a search has found a task: every search that answers with hits sets it, and nothing
  else does.
\<close>

definition search_seen :: "'w task_env \<Rightarrow> ('w \<Rightarrow> bool) \<Rightarrow> bool" where
  "search_seen e found \<longleftrightarrow>
     (\<forall>ixs q w. found (fst (SearchRequest e ixs q w)) \<longleftrightarrow>
        found w \<or> (\<exists>hit hits. snd (SearchRequest e ixs q w) = Response 200 (Some (hit # hits)))) \<and>
     (\<forall>w. found (fst (getUTC e w)) = found w) \<and> (\<forall>d w. found (Sleep e d w) = found w) \<and>
     (\<forall>q at w. found (lru_Add e q at w) = found w)"

lemma seen_utc: "search_seen e found \<Longrightarrow> getUTC e w = (w', now) \<Longrightarrow> found w' = found w"
  unfolding search_seen_def by (metis fst_conv)

lemma seen_rules:
  assumes "search_seen e found"
  shows "found (Sleep e d w) = found w" and "found (lru_Add e q at w) = found w"
  using assms unfolding search_seen_def by blast+

lemma seen_search:
  assumes seen: "search_seen e found" and run: "searchForClaimables e queues l w = (w', r)" and before: "\<not> found w"
  shows "found w' \<longleftrightarrow> (\<exists>t ts. r = Inr (t # ts))"
proof -
  let ?ixs = "if queues = [] then [allTaskqueueQueuesPattern] else map BuildIndexName queues"
  obtain w1 now where utc: "getUTC e w = (w1, now)" by fastforce
  obtain w2 rep where s: "SearchRequest e ?ixs (buildClaimableQueryBody l now) w1 = (w2, rep)" by fastforce
  have "\<not> found w1" using seen_utc [OF seen utc] before by simp
  moreover have "found w2 \<longleftrightarrow> found w1 \<or> (\<exists>hit hits. rep = Response 200 (Some (hit # hits)))"
    using seen s unfolding search_seen_def by (metis fst_conv snd_conv)
  moreover have "w' = w2" using run utc s by (auto simp: searchForClaimables_def Let_def split: es_reply.splits)
  moreover have "(\<exists>t ts. r = Inr (t # ts)) \<longleftrightarrow> (\<exists>hit hits. rep = Response 200 (Some (hit # hits)))"
  proof (cases rep)
    case NoResponse
    then show ?thesis using run utc s by (auto simp: searchForClaimables_def Let_def)
  next
    case (Response status body)
    then show ?thesis
      using run utc s
      by (cases body) (auto simp: searchForClaimables_def Let_def Cons_eq_map_conv split: if_splits)
  qed
  ultimately show ?thesis by simp
qed

lemma search_loop_seen:
  "search_loop e queues l start blockFor wait f rs w = Some y \<Longrightarrow> search_seen e found \<Longrightarrow>
     (found w \<longleftrightarrow> rs \<noteq> []) \<Longrightarrow> (found (fst y) \<longleftrightarrow> (\<exists>t ts. snd y = Inr (t # ts)))"
proof (induction rule: search_loop_induct)
  case (step loop e queues l start blockFor wait f rs w y)
  show ?case
  proof (cases "rs = []")
    case False
    then have "y = (w, Inr rs)" using step.hyps by auto
    then show ?thesis using step.prems(2) False by (cases rs) auto
  next
    case True
    obtain w1 now where utc: "getUTC e w = (w1, now)" by fastforce
    have w1: "\<not> found w1" using seen_utc [OF step.prems(1) utc] step.prems(2) True by simp
    define w2 where "w2 = (if f then w1 else Sleep e wait w1)"
    have w2: "\<not> found w2" using w1 seen_rules(1) [OF step.prems(1)] by (simp add: w2_def)
    show ?thesis
    proof (cases "time_sub now start < blockFor")
      case False
      then have "y = (w1, Inr [])" using step.hyps True utc by auto
      then show ?thesis using w1 by simp
    next
      case running: True
      obtain w3 x where s: "searchForClaimables e queues l w2 = (w3, x)" by fastforce
      note found = seen_search [OF step.prems(1) s w2]
      show ?thesis
      proof (cases x)
        case (Inl err)
        then have "y = (w3, Inl err)" using step.hyps True utc running s by (auto simp: w2_def)
        then show ?thesis using found Inl by simp
      next
        case (Inr results)
        then have again: "loop e queues l start blockFor wait False results w3 = Some y"
          using step.hyps True utc running s by (simp add: w2_def)
        have "found w3 \<longleftrightarrow> results \<noteq> []" using found Inr by (cases results) auto
        then show ?thesis by (rule step.IH [OF again step.prems(1)])
      qed
    qed
  qed
qed

lemma markAllTouched_seen:
  assumes "search_seen e found"
  shows "found (markAllTouched e names w) = found w"
proof -
  obtain w1 now where utc: "getUTC e w = (w1, now)" by fastforce
  have "found (fold (\<lambda>name. lru_Add e name now) names v) = found v" for v
    by (induction names arbitrary: v) (simp_all add: seen_rules(2) [OF assms])
  then show ?thesis using seen_utc [OF assms utc] by (simp add: markAllTouched_def utc)
qed

lemma claim_window_huge:
  assumes big: "2 ^ 63 \<le> unat n" and "rs \<noteq> []"
  shows "claim_window e wid n rs 0 [] w = (w, Inl Panicked)"
proof -
  have "n \<noteq> 0" using big by auto
  then show ?thesis
    using sint_big [OF big] \<open>rs \<noteq> []\<close>
    by (subst claim_window.simps)
      (simp add: go_slice_def minInt_def targetClaimsLength_def word_gt_0)
qed

lemma searchAndClaim_huge:
  assumes seen: "search_seen e found" and big: "2 ^ 63 \<le> unat n" and before: "\<not> found w"
    and run: "searchAndClaim e conf wid queues n start blockFor wait w = Some (w', r)"
  shows "(found w' \<longleftrightarrow> r = Inl Panicked) \<and> (\<forall>cs. r = Inr cs \<longrightarrow> cs = [])"
proof -
  obtain w1 x where s: "search_loop e queues (ClaimAmountSearchMultiplier (Defaults conf) * n) start
      blockFor wait True [] w = Some (w1, x)"
    using run by (auto simp: searchAndClaim_def split: option.splits)
  have found: "found w1 \<longleftrightarrow> (\<exists>t ts. x = Inr (t # ts))"
    using search_loop_seen [OF s seen] before by simp
  show ?thesis
  proof (cases x)
    case (Inl err)
    then have "w' = w1" "r = Inl err" using run s by (auto simp: searchAndClaim_def)
    then show ?thesis using found Inl search_loop_no_panic [OF s] by auto
  next
    case (Inr rs)
    then have claim: "(w', r) = claim_window e wid n rs 0 [] (markAllTouched e queues w1)"
      using run s by (simp add: searchAndClaim_def)
    show ?thesis
    proof (cases rs)
      case Nil
      then have "w' = markAllTouched e queues w1" "r = Inr []"
        using claim by (simp_all add: claim_window.simps)
      then show ?thesis using found Inr Nil markAllTouched_seen [OF seen] by simp
    next
      case (Cons t ts)
      then have "rs \<noteq> []" by simp
      then have "w' = markAllTouched e queues w1" "r = Inl Panicked"
        using claim unfolding claim_window_huge [OF big \<open>rs \<noteq> []\<close>] by simp_all
      then show ?thesis using found Inr Cons markAllTouched_seen [OF seen] by auto
    qed
  qed
qed

lemma claim_loop_huge:
  "claim_loop e conf wid queues n start blockFor wait f claimed w = Some y \<Longrightarrow> claimed = [] \<Longrightarrow>
     search_seen e found \<Longrightarrow> 2 ^ 63 \<le> unat n \<Longrightarrow> \<not> found w \<Longrightarrow> (snd y = Inl Panicked \<longleftrightarrow> found (fst y))"
proof (induction rule: claim_loop_induct)
  case (step loop e conf wid queues n start blockFor wait f claimed w y)
  have n: "0 < n" using step.prems(3) by (auto simp: word_gt_0)
  obtain w1 now where utc: "getUTC e w = (w1, now)" by fastforce
  have w1: "\<not> found w1" using seen_utc [OF step.prems(2) utc] step.prems(4) by simp
  define w2 where "w2 = (if f then w1 else Sleep e wait w1)"
  have w2: "\<not> found w2" using w1 seen_rules(1) [OF step.prems(2)] by (simp add: w2_def)
  show ?case
  proof (cases "time_sub now start < blockFor")
    case False
    then have "y = (w1, Inr [])" using step.hyps step.prems(1) utc n by auto
    then show ?thesis using w1 by simp
  next
    case True
    then obtain w3 x where s: "searchAndClaim e conf wid queues n start blockFor wait w2 = Some (w3, x)"
      using step.hyps step.prems(1) utc n
      by (cases "searchAndClaim e conf wid queues n start blockFor wait w2") (auto simp: w2_def)
    note huge = searchAndClaim_huge [OF step.prems(2,3) w2 s]
    show ?thesis
    proof (cases x)
      case (Inl err)
      then have "y = (w3, Inl err)" using step.hyps step.prems(1) utc n True s by (auto simp: w2_def)
      then show ?thesis using huge Inl by simp
    next
      case (Inr cs)
      then have cs: "cs = []" "\<not> found w3" using huge by simp_all
      have "loop e conf wid queues n start blockFor wait False [] w3 = Some y"
        using step.hyps step.prems(1) utc n True s Inr cs(1) by (simp add: w2_def)
      then show ?thesis using step.IH [OF _ refl step.prems(2,3) cs(2)] by simp
    qed
  qed
qed

text \<open>
  C39: a call of \<open>Claim\<close> that returns panics exactly if the worker asked for \<open>2 ^ 63\<close> tasks or more and one of the call's
  searches, the first or a later one, found a task: \<open>int(desiredTasks)\<close> is then negative, and so is the end of the slice.
\<close>

theorem Claim_panics_iff_huge:
  assumes store: "task_store e hist" and seen: "search_seen e found" and before: "\<not> found w"
    and run: "EsClaim e conf wid queues n blockFor w = Some (w', r)"
  shows "r = Inl Panicked \<longleftrightarrow> 2 ^ 63 \<le> unat n \<and> found w'"
proof -
  obtain w1 start where utc: "getUTC e w = (w1, start)" by fastforce
  have loop: "claim_loop e conf wid queues n start blockFor (retryWait conf blockFor) True [] w1 = Some (w', r)"
    using run utc by (simp add: EsClaim_def)
  show ?thesis
  proof (cases "2 ^ 63 \<le> unat n")
    case True
    have "\<not> found w1" using seen_utc [OF seen utc] before by simp
    then show ?thesis using claim_loop_huge [OF loop refl seen True] True by simp
  next
    case False
    then have "r \<noteq> Inl Panicked" using claim_loop_no_panic [OF loop store] by simp
    then show ?thesis using False by simp
  qed
qed

end
