(* ===== verification/TaskService.thy ===== *)
theory TaskService
  imports EsClaimReturns
begin

text \<open>
  The interface \<open>Service\<close> of \<open>internal/domain/task/service.go\<close>, the contract its comments
  state, and the Elasticsearch service as an implementation of it. The API and the recurring
  task manager are written against the interface.
\<close>

section \<open>The interface\<close>

record 'w Service =
  svcCreate :: "NewTask \<Rightarrow> 'w \<Rightarrow> 'w \<times> (task_error + Task)"
  svcGet :: "qname \<Rightarrow> task_id \<Rightarrow> 'w \<Rightarrow> 'w \<times> (task_error + Task)"
  svcClaim ::
    "worker_id \<Rightarrow> qname list \<Rightarrow> u64 \<Rightarrow> duration \<Rightarrow> 'w \<Rightarrow> ('w \<times> (task_error + Task list)) option"
  svcReportIn ::
    "worker_id \<Rightarrow> qname \<Rightarrow> task_id \<Rightarrow> json_obj option \<Rightarrow> 'w \<Rightarrow> 'w \<times> (task_error + Task)"
  svcMarkDone ::
    "worker_id \<Rightarrow> qname \<Rightarrow> task_id \<Rightarrow> json_obj option \<Rightarrow> 'w \<Rightarrow> 'w \<times> (task_error + Task)"
  svcMarkFailed ::
    "worker_id \<Rightarrow> qname \<Rightarrow> task_id \<Rightarrow> json_obj option \<Rightarrow> 'w \<Rightarrow> 'w \<times> (task_error + Task)"
  svcUnClaim :: "worker_id \<Rightarrow> qname \<Rightarrow> task_id \<Rightarrow> 'w \<Rightarrow> 'w \<times> (task_error + Task)"
  svcReapTimedOutTasks :: "u64 \<Rightarrow> duration \<Rightarrow> 'w \<Rightarrow> ('w \<times> (task_error + unit)) option"
  svcArchiveOldTasks :: "time \<Rightarrow> u64 \<Rightarrow> duration \<Rightarrow> 'w \<Rightarrow> ('w \<times> (task_error + unit)) option"
  svcRefreshAsNeeded :: "qname \<Rightarrow> 'w \<Rightarrow> 'w \<times> (task_error + unit)"
  svcOutstandingTasksCount :: "qname \<Rightarrow> recurring_id \<Rightarrow> 'w \<Rightarrow> 'w \<times> (task_error + u64)"

text \<open>\<open>NewService\<close>: the Elasticsearch service.\<close>

definition NewService :: "'w task_env \<Rightarrow> TasksConf \<Rightarrow> 'w Service" where
  "NewService e conf = \<lparr>svcCreate = EsCreate e, svcGet = EsGet e, svcClaim = EsClaim e conf,
     svcReportIn = EsReportIn e conf, svcMarkDone = EsMarkDone e conf,
     svcMarkFailed = EsMarkFailed e conf, svcUnClaim = EsUnClaim e conf,
     svcReapTimedOutTasks = EsReapTimedOutTasks e, svcArchiveOldTasks = EsArchiveOldTasks e,
     svcRefreshAsNeeded = EsRefreshAsNeeded e conf,
     svcOutstandingTasksCount = EsOutstandingTasksCount e\<rparr>"

section \<open>The contract\<close>

text \<open>The errors an update of a claimed task may end with.\<close>

fun update_error :: "task_error \<Rightarrow> bool" where
  "update_error (NotFound _ _) = True"
| "update_error (InvalidVersion _) = True"
| "update_error (NotOwnedByWorker _ _) = True"
| "update_error (NotClaimed _ _) = True"
| "update_error (ReportFromThePast _ _ _) = True"
| "update_error ElasticsearchErr = True"
| "update_error JsonSerdesErr = True"
| "update_error _ = False"

definition fresh_from :: "NewTask \<Rightarrow> Task \<Rightarrow> bool" where
  "fresh_from n t \<longleftrightarrow> tState t = QUEUED \<and> tAttempted t = 0 \<and> tLastClaimed t = None \<and>
     tQueue t = nQueue n \<and> tRetryTimes t = nRetryTimes n \<and> tKind t = nKind n \<and>
     tPriority t = nPriority n \<and> tRunAt t = nRunAt n \<and>
     tProcessingTimeout t = nProcessingTimeout n \<and> tArgs t = nArgs n \<and> tContext t = nContext n \<and>
     tRecurringTaskId t = nRecurringTaskId n \<and> (\<forall>i. nId n = Some i \<longrightarrow> tID t = i)"

definition held_by :: "worker_id \<Rightarrow> Task \<Rightarrow> bool" where
  "held_by wid t \<longleftrightarrow> tState t = CLAIMED \<and> owner t = Some wid"

definition completed_by ::
  "worker_id \<Rightarrow> json_obj option \<Rightarrow> json_obj option \<Rightarrow> Task \<Rightarrow> bool" where
  "completed_by wid failure success t \<longleftrightarrow>
     (\<exists>lc at. tLastClaimed t = Some lc \<and> lcWorkerId lc = wid \<and>
        lcResult lc = Some \<lparr>resAt = at, resFailure = failure, resSuccess = success\<rparr>)"

locale task_service =
  fixes svc :: "'w Service"
  assumes create_ok: "svcCreate svc n w = (w', Inr t) \<Longrightarrow> fresh_from n t"
    and create_err: "svcCreate svc n w = (w', Inl err) \<Longrightarrow>
      (\<exists>i. err = AlreadyExists i) \<or> err = ElasticsearchErr \<or> err = JsonSerdesErr"
    and get_err: "svcGet svc q i w = (w', Inl err) \<Longrightarrow>
      err = NotFound i q \<or> err = ElasticsearchErr \<or> err = JsonSerdesErr"
    and claim_ok: "svcClaim svc wid qs m dur w = Some (w', Inr ts) \<Longrightarrow>
      length ts \<le> unat m \<and> (\<forall>t \<in> set ts. held_by wid t)"
    and report_ok: "svcReportIn svc wid q i d w = (w', Inr t) \<Longrightarrow> held_by wid t"
    and done_ok: "svcMarkDone svc wid q i s w = (w', Inr t) \<Longrightarrow>
      tState t = DONE \<and> completed_by wid None s t"
    and failed_ok: "svcMarkFailed svc wid q i f w = (w', Inr t) \<Longrightarrow>
      (tState t = FAILED \<or> tState t = DEAD) \<and> completed_by wid f None t"
    and unclaim_ok: "svcUnClaim svc wid q i w = (w', Inr t) \<Longrightarrow> tState t = QUEUED \<and> owner t = Some wid"
    and report_err: "svcReportIn svc wid q i d w = (w', Inl err) \<Longrightarrow> update_error err"
    and done_err: "svcMarkDone svc wid q i s w = (w', Inl err) \<Longrightarrow> update_error err"
    and failed_err: "svcMarkFailed svc wid q i f w = (w', Inl err) \<Longrightarrow> update_error err"
    and unclaim_err: "svcUnClaim svc wid q i w = (w', Inl err) \<Longrightarrow> update_error err"

section \<open>The Elasticsearch service keeps it\<close>

lemma EsCreate_ok: "EsCreate e n w = (w', Inr t) \<Longrightarrow> fresh_from n t"
  by (auto simp: EsCreate_def GenerateId_def fresh_from_def toDomainTask_def newTask_toPersisted_def
      Let_def split: prod.splits es_reply.splits option.splits if_splits)

lemma EsCreate_err:
  "EsCreate e n w = (w', Inl err) \<Longrightarrow>
     (\<exists>i. err = AlreadyExists i) \<or> err = ElasticsearchErr \<or> err = JsonSerdesErr"
  by (auto simp: EsCreate_def Let_def split: prod.splits es_reply.splits option.splits if_splits)

lemma EsGet_err:
  "EsGet e q i w = (w', Inl err) \<Longrightarrow> err = NotFound i q \<or> err = ElasticsearchErr \<or> err = JsonSerdesErr"
  by (auto simp: EsGet_def split: prod.splits es_reply.splits option.splits if_splits)

lemma EsClaim_ok:
  "EsClaim e conf wid qs n d w = Some (w', Inr ts) \<Longrightarrow>
     length ts \<le> unat n \<and> (\<forall>t \<in> set ts. held_by wid t)"
  using EsClaim_result [of e conf wid qs n d w w' ts "\<lambda>_ _. []"] claimed_from_states
  by (fastforce simp: sound_claim_def claim_made_def held_by_def)

lemma getAndUpdate_result:
  assumes "getAndUpdate e q i mutate at w = (w', r)"
  shows "(\<exists>t w1 w2 u v. mutate t w1 = (w2, Inr u) \<and> r = Inr (set_version v (set_modified at u)))
    \<or> (\<exists>t w1 w2 err. mutate t w1 = (w2, Inl err) \<and> r = Inl err)
    \<or> (\<exists>err. r = Inl err \<and> update_error err)"
proof -
  obtain w1 g where get: "EsGet e q i w = (w1, g)" by fastforce
  show ?thesis
  proof (cases g)
    case (Inl err)
    then have "update_error err" using EsGet_err [OF get [unfolded Inl]] by auto
    then show ?thesis using assms get Inl by (auto simp: getAndUpdate_def)
  next
    case (Inr t)
    obtain w2 m where mut: "mutate t w1 = (w2, m)" by fastforce
    show ?thesis
    proof (cases m)
      case (Inl err)
      then show ?thesis using assms get mut \<open>g = Inr t\<close> by (auto simp: getAndUpdate_def)
    next
      case (Inr u)
      then show ?thesis
        using assms get mut \<open>g = Inr t\<close>
        by (auto simp: getAndUpdate_def Let_def split: prod.splits es_reply.splits option.splits if_splits)
          blast+
    qed
  qed
qed

lemma check_claim_err: "check_claim wid t = Inl err \<Longrightarrow> update_error err"
  by (auto simp: check_claim_Inl_iff split: if_splits)

lemma op_errors:
  "ReportIn wid d at t = Inl err \<Longrightarrow> update_error err"
  "IntoDone wid at d t = Inl err \<Longrightarrow> update_error err"
  "IntoFailed r wid at d t = Inl err \<Longrightarrow> update_error err"
  "IntoUnClaimed wid at t = Inl err \<Longrightarrow> update_error err"
  by (auto simp: task_defs Let_def check_claim_err split: sum.splits option.splits if_splits)

text \<open>
  One rule for the four updates: the result of an update satisfies \<open>P\<close> if every success and
  every error of the mutation does, and the errors of the store do.
\<close>

lemma update_rule:
  assumes "\<And>t w w' m. mutate t w = (w', m) \<Longrightarrow> case m of Inl err \<Rightarrow> update_error err
      | Inr u \<Rightarrow> (\<forall>v. P (set_version v (set_modified at u)))"
    and "getAndUpdate e q i mutate at w = (w', r)"
  shows "case r of Inl err \<Rightarrow> update_error err | Inr t \<Rightarrow> P t"
  using getAndUpdate_result [OF assms(2)] assms(1) by (fastforce split: sum.splits)

lemma set_simps [simp]:
  "tState (set_version v t) = tState t" "tLastClaimed (set_version v t) = tLastClaimed t"
  "tState (set_modified at t) = tState t" "tLastClaimed (set_modified at t) = tLastClaimed t"
  "owner (set_version v t) = owner t" "owner (set_modified at t) = owner t"
  by (simp_all add: set_version_def set_modified_def owner_def)

lemma EsReportIn_result:
  "EsReportIn e conf wid q i d w = (w', r) \<Longrightarrow>
     case r of Inl err \<Rightarrow> update_error err | Inr t \<Rightarrow> held_by wid t"
  by (auto simp: EsReportIn_def dest!: retry_conflict_result split: prod.splits
      elim!: update_rule [rotated])
    (auto simp: held_by_def op_errors ReportIn_Inr_iff check_claim_Inr_iff owner_def split: sum.splits)

lemma retry_utc:
  "retry_conflict conf (\<lambda>w. let (w1, at) = getUTC e w in f at w1) w = (w', r) \<Longrightarrow>
     \<exists>w1 at. f at w1 = (w', r)"
  by (drule retry_conflict_result) (force simp: Let_def case_prod_beta)

lemma markComplete_result:
  assumes "\<And>t at w w' m. mutate t at w = (w', m) \<Longrightarrow> case m of Inl err \<Rightarrow> update_error err
      | Inr u \<Rightarrow> (\<forall>v. P (set_version v (set_modified at u)))"
    and "markComplete e conf q i mutate w = (w', r)"
  shows "case r of Inl err \<Rightarrow> update_error err | Inr t \<Rightarrow> P t"
proof -
  obtain w1 at where "getAndUpdate e q i (\<lambda>t. mutate t at) at w1 = (w', r)"
    using retry_utc [OF assms(2) [unfolded markComplete_def]] by blast
  from update_rule [OF assms(1) this] show ?thesis .
qed

lemma EsMarkDone_result:
  assumes "EsMarkDone e conf wid q i s w = (w', r)"
  shows "case r of Inl err \<Rightarrow> update_error err | Inr t \<Rightarrow> tState t = DONE \<and> completed_by wid None s t"
  by (rule markComplete_result [OF _ assms [unfolded EsMarkDone_def]])
    (auto simp: completed_by_def op_errors IntoDone_Inr_iff check_claim_Inr_iff split: sum.splits)

lemma EsMarkFailed_result:
  assumes "EsMarkFailed e conf wid q i f w = (w', r)"
  shows "case r of Inl err \<Rightarrow> update_error err
    | Inr t \<Rightarrow> (tState t = FAILED \<or> tState t = DEAD) \<and> completed_by wid f None t"
  by (rule markComplete_result [OF _ assms [unfolded EsMarkFailed_def]])
    (erule IntoFailed_draw_cases, auto simp: completed_by_def op_errors IntoFailed_Inr_iff check_claim_Inr_iff
      failed_claim_def split: sum.splits prod.splits if_splits)

lemma EsUnClaim_result:
  assumes "EsUnClaim e conf wid q i w = (w', r)"
  shows "case r of Inl err \<Rightarrow> update_error err | Inr t \<Rightarrow> tState t = QUEUED \<and> owner t = Some wid"
proof -
  obtain w1 at where g: "getAndUpdate e q i (\<lambda>t w. (w, IntoUnClaimed wid at t)) at w1 = (w', r)"
    using retry_utc [OF assms [unfolded EsUnClaim_def]] by blast
  show ?thesis
    by (rule update_rule [OF _ g])
      (auto simp: op_errors IntoUnClaimed_Inr_iff check_claim_Inr_iff owner_def split: sum.splits)
qed

interpretation es_service: task_service "NewService e conf"
  by unfold_locales
    (auto simp: NewService_def EsClaim_ok dest: EsCreate_ok EsCreate_err EsGet_err EsReportIn_result
      EsMarkDone_result EsMarkFailed_result EsUnClaim_result)

end
