(* ===== verification/TasksApi.thy ===== *)
theory TasksApi
  imports TaskService
begin

text \<open>
  The HTTP API for tasks: the models of \<open>internal/api/models/task\<close> and
  \<open>internal/api/models/common\<close>, the controller of \<open>internal/api/controllers/task\<close>, the
  validators of \<open>internal/infra/server/binding/validation/fields.go\<close> and the handlers of
  \<open>internal/infra/server/routing/tasks/routes_handler.go\<close> with the helpers of
  \<open>internal/infra/server/routing/global.go\<close>.

  The web framework (gin) is a library the handlers call. A request is what a handler reads of
  it: the path parameters, the worker id header, and the body as the JSON decoder delivers it,
  \<open>Inl\<close> with the decoder's message or \<open>Inr\<close> with the value; the validation that binding
  adds is modelled from the struct tags. A response is a status code and a body.
\<close>

section \<open>Models\<close>

record ApiNewTask =
  anID :: "task_id option"
  anQueue :: qname
  anRetryTimes :: "u64 option"
  anKind :: string
  anPriority :: "int option"
  anProcessingTimeout :: "duration option"
  anRunAt :: "time option"
  anArgs :: "json_obj option"
  anContext :: "json_obj option"

record ApiNewReport =
  arData :: "json_obj option"

record ApiReport =
  apAt :: time
  apData :: "json_obj option"

record ApiResult =
  asAt :: time
  asFailure :: "json_obj option"
  asSuccess :: "json_obj option"

text \<open>The queues of a claim are \<open>None\<close> for a missing or \<open>null\<close> field.\<close>

record ApiClaim =
  acQueues :: "qname list option"
  acAmount :: "u64 option"
  acBlockFor :: "duration option"

record ApiLastClaimed =
  alWorkerId :: worker_id
  alClaimedAt :: time
  alTimesOutAt :: time
  alLastReport :: "ApiReport option"
  alResult :: "ApiResult option"

record ApiVersion =
  avSeqNum :: u64
  avPrimaryTerm :: u64

record ApiMetadata =
  amCreatedAt :: time
  amModifiedAt :: time
  amVersion :: ApiVersion

record ApiTask =
  atID :: task_id
  atQueue :: qname
  atRetryTimes :: u64
  atAttempted :: u64
  atKind :: string
  atState :: State
  atPriority :: int
  atProcessingTimeout :: duration
  atRunAt :: time
  atArgs :: "json_obj option"
  atContext :: "json_obj option"
  atLastClaimed :: "ApiLastClaimed option"
  atLastEnqueuedAt :: time
  atMetadata :: ApiMetadata
  atRecurringTaskId :: "recurring_id option"

text \<open>The zero \<open>time.Time\<close>: the first of January of the year 1.\<close>

definition TimeZero :: time where
  "TimeZero = - 62135596800 * 1000000000"

definition ToDomainNewTask :: "ApiNewTask \<Rightarrow> u64 \<Rightarrow> time \<Rightarrow> duration \<Rightarrow> NewTask" where
  "ToDomainNewTask t defaultRetryTimes defaultRunAt defaultProcessingTimeout =
     \<lparr>nId = anID t, nQueue = anQueue t,
      nRetryTimes = (case anRetryTimes t of Some r \<Rightarrow> r | None \<Rightarrow> defaultRetryTimes),
      nKind = anKind t,
      nPriority = (case anPriority t of Some p \<Rightarrow> p | None \<Rightarrow> 0),
      nRunAt = (case anRunAt t of Some r \<Rightarrow> if r \<noteq> TimeZero then r else defaultRunAt | None \<Rightarrow> defaultRunAt),
      nProcessingTimeout = (case anProcessingTimeout t of Some p \<Rightarrow> p | None \<Rightarrow> defaultProcessingTimeout),
      nArgs = anArgs t, nContext = anContext t, nRecurringTaskId = None\<rparr>"

definition FromDomainMetadata :: "Metadata \<Rightarrow> ApiMetadata" where
  "FromDomainMetadata m = \<lparr>amCreatedAt = CreatedAt m, amModifiedAt = ModifiedAt m,
     amVersion = \<lparr>avSeqNum = SeqNum (metaVersion m), avPrimaryTerm = PrimaryTerm (metaVersion m)\<rparr>\<rparr>"

definition FromDomainTask :: "Task \<Rightarrow> ApiTask" where
  "FromDomainTask t = \<lparr>atID = tID t, atQueue = tQueue t, atRetryTimes = tRetryTimes t,
     atAttempted = tAttempted t, atKind = tKind t, atState = tState t, atPriority = tPriority t,
     atProcessingTimeout = tProcessingTimeout t, atRunAt = tRunAt t, atArgs = tArgs t,
     atContext = tContext t,
     atLastClaimed = map_option (\<lambda>l. \<lparr>alWorkerId = lcWorkerId l, alClaimedAt = lcClaimedAt l,
       alTimesOutAt = lcTimesOutAt l,
       alLastReport = map_option (\<lambda>r. \<lparr>apAt = repAt r, apData = repData r\<rparr>) (lcLastReport l),
       alResult = map_option (\<lambda>r. \<lparr>asAt = resAt r, asFailure = resFailure r, asSuccess = resSuccess r\<rparr>)
         (lcResult l)\<rparr>) (tLastClaimed t),
     atLastEnqueuedAt = tLastEnqueuedAt t, atMetadata = FromDomainMetadata (tMetadata t),
     atRecurringTaskId = tRecurringTaskId t\<rparr>"

text \<open>
  The JSON of a duration in \<open>internal/api/models/common/duration.go\<close>, on the raw bytes. \<open>d\<close> is
  the value before. The condition on \<open>err\<close> in the branch for numbers is the code's.
  \<open>ParseDuration\<close> (of package \<open>time\<close>) and \<open>Int64\<close> (a number and maybe an error) are arguments.
\<close>

definition Duration_UnmarshalJSON ::
  "(string \<Rightarrow> string + duration) \<Rightarrow> (string \<Rightarrow> int \<times> string option) \<Rightarrow> string \<Rightarrow> duration \<Rightarrow>
     duration \<times> string option" where
  "Duration_UnmarshalJSON ParseDuration Int64 b d =
     (if hd b = CHR 0x22 then
        (case ParseDuration (butlast (tl b)) of
           Inr duration \<Rightarrow> (duration, None)
         | Inl parseErr \<Rightarrow> (d, Some parseErr))
      else (case Int64 b of (i, err) \<Rightarrow> (if err \<noteq> None then i else d, err)))"

section \<open>Errors\<close>

text \<open>The message of an error is kept as the error it renders.\<close>

datatype message =
    OfTaskError task_error
  | OfNameErrors "name_error list"
  | OfDecoding string
  | NoWorkerId
  | NoSuchRoute

record ApiError =
  errStatusCode :: nat
  errBody :: message

definition api_error :: "nat \<Rightarrow> message \<Rightarrow> ApiError" where
  "api_error status body = \<lparr>errStatusCode = status, errBody = body\<rparr>"

fun handleErr :: "task_error \<Rightarrow> ApiError" where
  "handleErr (NotFound i q) = api_error 404 (OfTaskError (NotFound i q))"
| "handleErr (ReportFromThePast i a b) = api_error 400 (OfTaskError (ReportFromThePast i a b))"
| "handleErr InvalidPersistedData = api_error 500 (OfTaskError InvalidPersistedData)"
| "handleErr (NotClaimed i s) = api_error 400 (OfTaskError (NotClaimed i s))"
| "handleErr (NotOwnedByWorker i w) = api_error 403 (OfTaskError (NotOwnedByWorker i w))"
| "handleErr (InvalidVersion i) = api_error 409 (OfTaskError (InvalidVersion i))"
| "handleErr (AlreadyExists i) = api_error 409 (OfTaskError (AlreadyExists i))"
| "handleErr e = api_error 500 (OfTaskError e)"

section \<open>The controller\<close>

text \<open>\<open>getNow\<close> is the controller's own clock.\<close>

definition to_api :: "'w \<times> (task_error + Task) \<Rightarrow> 'w \<times> (ApiError + ApiTask)" where
  "to_api res =
     (case res of
        (w, Inl err) \<Rightarrow> (w, Inl (handleErr err))
      | (w, Inr t) \<Rightarrow> (w, Inr (FromDomainTask t)))"

definition ctlCreate ::
  "'w Service \<Rightarrow> TasksDefaults \<Rightarrow> ('w \<Rightarrow> 'w \<times> time) \<Rightarrow> ApiNewTask \<Rightarrow> 'w \<Rightarrow> 'w \<times> (ApiError + ApiTask)" where
  "ctlCreate svc conf getNow newTask w =
     (let (w1, now) = getNow w;
          domainNewTask = ToDomainNewTask newTask (RetryTimes conf) now (WorkerProcessingTimeout conf)
      in to_api (svcCreate svc domainNewTask w1))"

definition ctlGet :: "'w Service \<Rightarrow> qname \<Rightarrow> task_id \<Rightarrow> 'w \<Rightarrow> 'w \<times> (ApiError + ApiTask)" where
  "ctlGet svc queue taskId w = to_api (svcGet svc queue taskId w)"

definition ctlClaim ::
  "'w Service \<Rightarrow> worker_id \<Rightarrow> qname list \<Rightarrow> u64 \<Rightarrow> duration \<Rightarrow> 'w \<Rightarrow>
     ('w \<times> (ApiError + ApiTask list)) option" where
  "ctlClaim svc workerId queues number blockFor w =
     (case svcClaim svc workerId queues number blockFor w of
        None \<Rightarrow> None
      | Some (w1, Inl err) \<Rightarrow> Some (w1, Inl (handleErr err))
      | Some (w1, Inr ts) \<Rightarrow> Some (w1, Inr (map FromDomainTask ts)))"

definition ctlReportIn ::
  "'w Service \<Rightarrow> worker_id \<Rightarrow> qname \<Rightarrow> task_id \<Rightarrow> ApiNewReport \<Rightarrow> 'w \<Rightarrow> 'w \<times> (ApiError + ApiTask)" where
  "ctlReportIn svc workerId queue taskId report w =
     to_api (svcReportIn svc workerId queue taskId (arData report) w)"

definition ctlMarkDone ::
  "'w Service \<Rightarrow> worker_id \<Rightarrow> qname \<Rightarrow> task_id \<Rightarrow> json_obj option \<Rightarrow> 'w \<Rightarrow> 'w \<times> (ApiError + ApiTask)" where
  "ctlMarkDone svc workerId queue taskId success w =
     to_api (svcMarkDone svc workerId queue taskId success w)"

definition ctlMarkFailed ::
  "'w Service \<Rightarrow> worker_id \<Rightarrow> qname \<Rightarrow> task_id \<Rightarrow> json_obj option \<Rightarrow> 'w \<Rightarrow> 'w \<times> (ApiError + ApiTask)" where
  "ctlMarkFailed svc workerId queue taskId failure w =
     to_api (svcMarkFailed svc workerId queue taskId failure w)"

definition ctlUnClaim ::
  "'w Service \<Rightarrow> worker_id \<Rightarrow> qname \<Rightarrow> task_id \<Rightarrow> 'w \<Rightarrow> 'w \<times> (ApiError + ApiTask)" where
  "ctlUnClaim svc workerId queue taskId w = to_api (svcUnClaim svc workerId queue taskId w)"

section \<open>Validation\<close>

definition QueueNameValidator :: "(string \<Rightarrow> string) \<Rightarrow> qname \<Rightarrow> bool" where
  "QueueNameValidator ToLower q = (case NameFromString ToLower q of Inl _ \<Rightarrow> False | Inr _ \<Rightarrow> True)"

text \<open>
  \<open>ShouldBindJSON\<close>: decode, then check the tags. \<open>required\<close> refuses an empty string and a nil
  slice, \<open>dive\<close> applies the rest to every element. The text of a validation error is the
  library's.
\<close>

definition bind :: "('a \<Rightarrow> bool) \<Rightarrow> string + 'a \<Rightarrow> string + 'a" where
  "bind valid body =
     (case body of
        Inl msg \<Rightarrow> Inl msg
      | Inr x \<Rightarrow> if valid x then Inr x else Inl ''failed validation'')"

definition valid_new_task :: "(string \<Rightarrow> string) \<Rightarrow> ApiNewTask \<Rightarrow> bool" where
  "valid_new_task ToLower t \<longleftrightarrow>
     anQueue t \<noteq> [] \<and> QueueNameValidator ToLower (anQueue t) \<and> anKind t \<noteq> []"

definition valid_claim :: "(string \<Rightarrow> string) \<Rightarrow> ApiClaim \<Rightarrow> bool" where
  "valid_claim ToLower c \<longleftrightarrow>
     (case acQueues c of None \<Rightarrow> False | Some qs \<Rightarrow> list_all (QueueNameValidator ToLower) qs)"

section \<open>Handlers\<close>

datatype body = TaskBody ApiTask | TasksBody "ApiTask list" | ErrorBody message

record response =
  rspStatus :: nat
  rspBody :: body

definition respond :: "nat \<Rightarrow> body \<Rightarrow> response" where
  "respond status b = \<lparr>rspStatus = status, rspBody = b\<rparr>"

definition HandleApiErr :: "ApiError \<Rightarrow> response" where
  "HandleApiErr err = respond (errStatusCode err) (ErrorBody (errBody err))"

definition HandleJsonSerdesErr :: "string \<Rightarrow> response" where
  "HandleJsonSerdesErr msg = HandleApiErr (api_error 400 (OfDecoding msg))"

definition NoRoute :: response where
  "NoRoute = respond 404 (ErrorBody NoSuchRoute)"

text \<open>\<open>NoMethod\<close> takes its status from \<open>notFoundErr\<close>.\<close>

definition NoMethod :: response where
  "NoMethod = respond 404 (ErrorBody NoSuchRoute)"

text \<open>\<open>strings.TrimSpace\<close> of the header, on the ASCII white space a header may hold.\<close>

definition is_space :: "char \<Rightarrow> bool" where
  "is_space c \<longleftrightarrow> c \<in> {CHR '' '', CHR 0x09, CHR 0x0A, CHR 0x0B, CHR 0x0C, CHR 0x0D}"

definition TrimSpace :: "string \<Rightarrow> string" where
  "TrimSpace s = rev (dropWhile is_space (rev (dropWhile is_space s)))"

definition getWorkerIdOrErr :: "string \<Rightarrow> ApiError + worker_id" where
  "getWorkerIdOrErr header =
     (let workerIdStr = TrimSpace header
      in if length workerIdStr = 0 then Inl (api_error 400 NoWorkerId) else Inr workerIdStr)"

definition badQueueNames :: "name_error list \<Rightarrow> response" where
  "badQueueNames errs = HandleApiErr (api_error 400 (OfNameErrors errs))"

definition answer :: "nat \<Rightarrow> 'w \<times> (ApiError + ApiTask) \<Rightarrow> 'w \<times> response" where
  "answer ok res =
     (case res of
        (w, Inr t) \<Rightarrow> (w, respond ok (TaskBody t))
      | (w, Inl err) \<Rightarrow> (w, HandleApiErr err))"

definition handle_create ::
  "(string \<Rightarrow> string) \<Rightarrow> (ApiNewTask \<Rightarrow> 'w \<Rightarrow> 'w \<times> (ApiError + ApiTask)) \<Rightarrow> string + ApiNewTask \<Rightarrow> 'w \<Rightarrow>
     'w \<times> response" where
  "handle_create ToLower create req w =
     (case bind (valid_new_task ToLower) req of
        Inl err \<Rightarrow> (w, HandleJsonSerdesErr err)
      | Inr newTask \<Rightarrow> answer 201 (create newTask w))"

definition handle_get ::
  "(string \<Rightarrow> string) \<Rightarrow> 'w Service \<Rightarrow> string \<Rightarrow> task_id \<Rightarrow> 'w \<Rightarrow> 'w \<times> response" where
  "handle_get ToLower svc queueStr taskId w =
     (case NameFromString ToLower queueStr of
        Inl err \<Rightarrow> (w, badQueueNames err)
      | Inr queueName \<Rightarrow> answer 200 (ctlGet svc queueName taskId w))"

definition handle_claim ::
  "(string \<Rightarrow> string) \<Rightarrow> 'w Service \<Rightarrow> TasksDefaults \<Rightarrow> string \<Rightarrow> string + ApiClaim \<Rightarrow> 'w \<Rightarrow>
     ('w \<times> response) option" where
  "handle_claim ToLower svc conf header req w =
     (case getWorkerIdOrErr header of
        Inl err \<Rightarrow> Some (w, HandleApiErr err)
      | Inr workerId \<Rightarrow>
          (case bind (valid_claim ToLower) req of
             Inl err \<Rightarrow> Some (w, HandleJsonSerdesErr err)
           | Inr claim \<Rightarrow>
               (let blockFor = (case acBlockFor claim of None \<Rightarrow> BlockFor conf | Some d \<Rightarrow> d);
                    amount = (case acAmount claim of None \<Rightarrow> ClaimAmount conf | Some n \<Rightarrow> n);
                    queues = (case acQueues claim of None \<Rightarrow> [] | Some qs \<Rightarrow> qs)
                in case ctlClaim svc workerId queues amount blockFor w of
                     None \<Rightarrow> None
                   | Some (w1, Inl err) \<Rightarrow> Some (w1, HandleApiErr err)
                   | Some (w1, Inr claimed) \<Rightarrow> Some (w1, respond 200 (TasksBody claimed)))))"

definition handle_unClaim ::
  "(string \<Rightarrow> string) \<Rightarrow> 'w Service \<Rightarrow> string \<Rightarrow> string \<Rightarrow> task_id \<Rightarrow> 'w \<Rightarrow> 'w \<times> response" where
  "handle_unClaim ToLower svc header queueStr taskId w =
     (case NameFromString ToLower queueStr of
        Inl err \<Rightarrow> (w, badQueueNames err)
      | Inr queueName \<Rightarrow>
          (case getWorkerIdOrErr header of
             Inl err \<Rightarrow> (w, HandleApiErr err)
           | Inr workerId \<Rightarrow> answer 200 (ctlUnClaim svc workerId queueName taskId w)))"

text \<open>The three handlers with a body check the queue, then the body, then the worker id.\<close>

definition handle_reportIn ::
  "(string \<Rightarrow> string) \<Rightarrow> 'w Service \<Rightarrow> string \<Rightarrow> string \<Rightarrow> task_id \<Rightarrow> string + ApiNewReport \<Rightarrow> 'w \<Rightarrow>
     'w \<times> response" where
  "handle_reportIn ToLower svc header queueStr taskId req w =
     (case NameFromString ToLower queueStr of
        Inl err \<Rightarrow> (w, badQueueNames err)
      | Inr queueName \<Rightarrow>
          (case bind (\<lambda>_. True) req of
             Inl err \<Rightarrow> (w, HandleJsonSerdesErr err)
           | Inr newReport \<Rightarrow>
               (case getWorkerIdOrErr header of
                  Inl err \<Rightarrow> (w, HandleApiErr err)
                | Inr workerId \<Rightarrow> answer 200 (ctlReportIn svc workerId queueName taskId newReport w))))"

definition handle_markDone ::
  "(string \<Rightarrow> string) \<Rightarrow> 'w Service \<Rightarrow> string \<Rightarrow> string \<Rightarrow> task_id \<Rightarrow> string + json_obj option \<Rightarrow> 'w \<Rightarrow>
     'w \<times> response" where
  "handle_markDone ToLower svc header queueStr taskId req w =
     (case NameFromString ToLower queueStr of
        Inl err \<Rightarrow> (w, badQueueNames err)
      | Inr queueName \<Rightarrow>
          (case bind (\<lambda>_. True) req of
             Inl err \<Rightarrow> (w, HandleJsonSerdesErr err)
           | Inr newResult \<Rightarrow>
               (case getWorkerIdOrErr header of
                  Inl err \<Rightarrow> (w, HandleApiErr err)
                | Inr workerId \<Rightarrow> answer 200 (ctlMarkDone svc workerId queueName taskId newResult w))))"

definition handle_markFailed ::
  "(string \<Rightarrow> string) \<Rightarrow> 'w Service \<Rightarrow> string \<Rightarrow> string \<Rightarrow> task_id \<Rightarrow> string + json_obj option \<Rightarrow> 'w \<Rightarrow>
     'w \<times> response" where
  "handle_markFailed ToLower svc header queueStr taskId req w =
     (case NameFromString ToLower queueStr of
        Inl err \<Rightarrow> (w, badQueueNames err)
      | Inr queueName \<Rightarrow>
          (case bind (\<lambda>_. True) req of
             Inl err \<Rightarrow> (w, HandleJsonSerdesErr err)
           | Inr newResult \<Rightarrow>
               (case getWorkerIdOrErr header of
                  Inl err \<Rightarrow> (w, HandleApiErr err)
                | Inr workerId \<Rightarrow> answer 200 (ctlMarkFailed svc workerId queueName taskId newResult w))))"

section \<open>What a caller may rely on\<close>

lemmas handler_defs = handle_create_def handle_get_def handle_claim_def handle_unClaim_def
  handle_reportIn_def handle_markDone_def handle_markFailed_def

lemmas controller_defs = ctlCreate_def ctlGet_def ctlClaim_def ctlReportIn_def ctlMarkDone_def
  ctlMarkFailed_def ctlUnClaim_def

lemmas reply_defs = respond_def HandleApiErr_def HandleJsonSerdesErr_def badQueueNames_def
  api_error_def

lemma handleErr_status: "update_error err \<Longrightarrow> errStatusCode (handleErr err) \<in> {400, 403, 404, 409, 500}"
  by (cases err) (simp_all add: api_error_def)

lemma getWorkerIdOrErr_Inl: "getWorkerIdOrErr header = Inl err \<Longrightarrow> errStatusCode err = 400"
  by (auto simp: getWorkerIdOrErr_def api_error_def Let_def split: if_splits)

text \<open>The response to the result of an update or a read.\<close>

definition reply_of :: "task_error + Task \<Rightarrow> response" where
  "reply_of r =
     (case r of
        Inl err \<Rightarrow> HandleApiErr (handleErr err)
      | Inr t \<Rightarrow> respond 200 (TaskBody (FromDomainTask t)))"

lemma answer_to_api: "answer 200 (to_api (w, r)) = (w, reply_of r)"
  by (simp add: answer_def to_api_def reply_of_def split: sum.splits)

lemma reply_of_status:
  "(\<And>err. r = Inl err \<Longrightarrow> update_error err) \<Longrightarrow>
     rspStatus (reply_of r) \<in> {200, 400, 403, 404, 409, 500} \<and>
     (rspStatus (reply_of r) = 200 \<longleftrightarrow> (\<exists>t. r = Inr t))"
  using handleErr_status by (cases r) (fastforce simp: reply_of_def reply_defs)+

text \<open>
  A request is refused before it reaches the service (status 400, nothing changed), or it is
  passed on with the queue, the worker and the data it carries.
\<close>

definition handled ::
  "(string \<Rightarrow> string) \<Rightarrow> string \<Rightarrow> string \<Rightarrow> string + 'd \<Rightarrow>
     (worker_id \<Rightarrow> qname \<Rightarrow> 'd \<Rightarrow> 'w \<Rightarrow> 'w \<times> (task_error + Task)) \<Rightarrow> 'w \<Rightarrow> 'w \<times> response \<Rightarrow> bool" where
  "handled L header queueStr req f w res \<longleftrightarrow>
     (if (\<exists>q wid d. NameFromString L queueStr = Inr q \<and> getWorkerIdOrErr header = Inr wid \<and> req = Inr d)
      then (\<exists>q wid d. NameFromString L queueStr = Inr q \<and> getWorkerIdOrErr header = Inr wid \<and> req = Inr d \<and>
              res = (case f wid q d w of (w', r) \<Rightarrow> (w', reply_of r)))
      else fst res = w \<and> rspStatus (snd res) = 400)"

lemma handlers_handled:
  "handled L header queueStr req (\<lambda>wid q d. svcReportIn svc wid q i (arData d)) w
     (handle_reportIn L svc header queueStr i req w)"
  "handled L header queueStr req' (\<lambda>wid q d. svcMarkDone svc wid q i d) w
     (handle_markDone L svc header queueStr i req' w)"
  "handled L header queueStr req' (\<lambda>wid q d. svcMarkFailed svc wid q i d) w
     (handle_markFailed L svc header queueStr i req' w)"
  "handled L header queueStr (Inr ()) (\<lambda>wid q d. svcUnClaim svc wid q i) w
     (handle_unClaim L svc header queueStr i w)"
  using getWorkerIdOrErr_Inl
  by (auto simp: handled_def handler_defs controller_defs bind_def reply_defs answer_to_api
      split: sum.splits prod.splits)

lemma handled_cases:
  assumes h: "handled L header queueStr req f w res" and eq: "res = (w', rsp)"
    and errs: "\<forall>wid q d w' err. f wid q d w = (w', Inl err) \<longrightarrow> update_error err"
  shows "rspStatus rsp \<in> {200, 400, 403, 404, 409, 500} \<and>
    (rspStatus rsp = 200 \<longrightarrow> (\<exists>q wid d t. NameFromString L queueStr = Inr q \<and>
       getWorkerIdOrErr header = Inr wid \<and> req = Inr d \<and> f wid q d w = (w', Inr t) \<and>
       rspBody rsp = TaskBody (FromDomainTask t)))"
proof (cases "\<exists>q wid d. NameFromString L queueStr = Inr q \<and> getWorkerIdOrErr header = Inr wid \<and> req = Inr d")
  case True
  then obtain q wid d where ok: "NameFromString L queueStr = Inr q" "getWorkerIdOrErr header = Inr wid"
      "req = Inr d" and res: "(w', rsp) = (case f wid q d w of (w', r) \<Rightarrow> (w', reply_of r))"
    using h eq unfolding handled_def by auto
  obtain r where call: "f wid q d w = (w', r)" and rsp: "rsp = reply_of r"
    using res by (auto split: prod.splits)
  have "\<And>err. r = Inl err \<Longrightarrow> update_error err" using errs call by blast
  note status = reply_of_status [OF this]
  have "rspStatus rsp = 200 \<Longrightarrow> \<exists>t. r = Inr t \<and> rspBody rsp = TaskBody (FromDomainTask t)"
    using status rsp by (auto simp: reply_of_def respond_def)
  then show ?thesis using ok call status rsp by blast
next
  case False
  then have "rspStatus rsp = 400" using h eq unfolding handled_def by (simp only: if_False snd_conv)
  then show ?thesis by simp
qed

text \<open>What the handlers answer over any service that keeps the contract.\<close>

context task_service
begin

lemma updates_replied:
  "handle_reportIn L svc header queueStr i req w = (w', rsp) \<Longrightarrow>
     rspStatus rsp \<in> {200, 400, 403, 404, 409, 500} \<and>
     (rspStatus rsp = 200 \<longrightarrow> (\<exists>q wid t. NameFromString L queueStr = Inr q \<and>
        getWorkerIdOrErr header = Inr wid \<and> rspBody rsp = TaskBody (FromDomainTask t) \<and> held_by wid t))"
  "handle_markDone L svc header queueStr i req' w = (w', rsp) \<Longrightarrow>
     rspStatus rsp \<in> {200, 400, 403, 404, 409, 500} \<and>
     (rspStatus rsp = 200 \<longrightarrow> (\<exists>q wid d t. NameFromString L queueStr = Inr q \<and>
        getWorkerIdOrErr header = Inr wid \<and> req' = Inr d \<and> rspBody rsp = TaskBody (FromDomainTask t) \<and>
        tState t = DONE \<and> completed_by wid None d t))"
  "handle_markFailed L svc header queueStr i req' w = (w', rsp) \<Longrightarrow>
     rspStatus rsp \<in> {200, 400, 403, 404, 409, 500} \<and>
     (rspStatus rsp = 200 \<longrightarrow> (\<exists>q wid d t. NameFromString L queueStr = Inr q \<and>
        getWorkerIdOrErr header = Inr wid \<and> req' = Inr d \<and> rspBody rsp = TaskBody (FromDomainTask t) \<and>
        (tState t = FAILED \<or> tState t = DEAD) \<and> completed_by wid d None t))"
  "handle_unClaim L svc header queueStr i w = (w', rsp) \<Longrightarrow>
     rspStatus rsp \<in> {200, 400, 403, 404, 409, 500} \<and>
     (rspStatus rsp = 200 \<longrightarrow> (\<exists>q wid t. NameFromString L queueStr = Inr q \<and>
        getWorkerIdOrErr header = Inr wid \<and> rspBody rsp = TaskBody (FromDomainTask t) \<and>
        tState t = QUEUED \<and> owner t = Some wid))"
proof -
  assume "handle_reportIn L svc header queueStr i req w = (w', rsp)"
  from handled_cases [OF handlers_handled(1) this] report_err report_ok
  show "rspStatus rsp \<in> {200, 400, 403, 404, 409, 500} \<and>
     (rspStatus rsp = 200 \<longrightarrow> (\<exists>q wid t. NameFromString L queueStr = Inr q \<and>
        getWorkerIdOrErr header = Inr wid \<and> rspBody rsp = TaskBody (FromDomainTask t) \<and> held_by wid t))"
    by blast
next
  assume "handle_markDone L svc header queueStr i req' w = (w', rsp)"
  from handled_cases [OF handlers_handled(2) this] done_err done_ok
  show "rspStatus rsp \<in> {200, 400, 403, 404, 409, 500} \<and>
     (rspStatus rsp = 200 \<longrightarrow> (\<exists>q wid d t. NameFromString L queueStr = Inr q \<and>
        getWorkerIdOrErr header = Inr wid \<and> req' = Inr d \<and> rspBody rsp = TaskBody (FromDomainTask t) \<and>
        tState t = DONE \<and> completed_by wid None d t))"
    by blast
next
  assume "handle_markFailed L svc header queueStr i req' w = (w', rsp)"
  from handled_cases [OF handlers_handled(3) this] failed_err failed_ok
  show "rspStatus rsp \<in> {200, 400, 403, 404, 409, 500} \<and>
     (rspStatus rsp = 200 \<longrightarrow> (\<exists>q wid d t. NameFromString L queueStr = Inr q \<and>
        getWorkerIdOrErr header = Inr wid \<and> req' = Inr d \<and> rspBody rsp = TaskBody (FromDomainTask t) \<and>
        (tState t = FAILED \<or> tState t = DEAD) \<and> completed_by wid d None t))"
    by blast
next
  assume "handle_unClaim L svc header queueStr i w = (w', rsp)"
  from handled_cases [OF handlers_handled(4) this] unclaim_err unclaim_ok
  show "rspStatus rsp \<in> {200, 400, 403, 404, 409, 500} \<and>
     (rspStatus rsp = 200 \<longrightarrow> (\<exists>q wid t. NameFromString L queueStr = Inr q \<and>
        getWorkerIdOrErr header = Inr wid \<and> rspBody rsp = TaskBody (FromDomainTask t) \<and>
        tState t = QUEUED \<and> owner t = Some wid))"
    by blast
qed

text \<open>Creating: the defaults, and the answer.\<close>

lemma create_replied:
  assumes "handle_create L (ctlCreate svc conf getNow) req w = (w', rsp)"
  shows "rspStatus rsp \<in> {201, 400, 409, 500} \<and>
    (rspStatus rsp = 201 \<longrightarrow> (\<exists>n at t. req = Inr n \<and> valid_new_task L n \<and> snd (getNow w) = at \<and>
       rspBody rsp = TaskBody (FromDomainTask t) \<and>
       fresh_from (ToDomainNewTask n (RetryTimes conf) at (WorkerProcessingTimeout conf)) t))"
proof (cases "\<exists>n. req = Inr n \<and> valid_new_task L n")
  case True
  then obtain n where n: "req = Inr n" "valid_new_task L n" by blast
  obtain w1 at where now: "getNow w = (w1, at)" by fastforce
  let ?n = "ToDomainNewTask n (RetryTimes conf) at (WorkerProcessingTimeout conf)"
  obtain r where call: "svcCreate svc ?n w1 = (w', r)"
      and rsp: "(w', rsp) = answer 201 (to_api (w', r))"
    using assms n now
    by (cases "svcCreate svc ?n w1")
      (auto simp: handle_create_def ctlCreate_def bind_def answer_def to_api_def split: sum.splits)
  show ?thesis
  proof (cases r)
    case (Inl err)
    then show ?thesis
      using rsp create_err [OF call [unfolded Inl]]
      by (auto simp: answer_def to_api_def reply_defs)
  next
    case (Inr t)
    then show ?thesis
      using rsp create_ok [OF call [unfolded Inr]] n now
      by (auto simp: answer_def to_api_def reply_defs)
  qed
next
  case False
  then show ?thesis
    using assms by (auto simp: handle_create_def bind_def reply_defs split: sum.splits if_splits)
qed

lemma claim_replied:
  assumes "handle_claim L svc conf header req w = Some (w', rsp)" and "rspStatus rsp = 200"
  shows "\<exists>wid c ts. getWorkerIdOrErr header = Inr wid \<and> req = Inr c \<and> valid_claim L c \<and>
    rspBody rsp = TasksBody (map FromDomainTask ts) \<and> (\<forall>t \<in> set ts. held_by wid t) \<and>
    length ts \<le> unat (case acAmount c of None \<Rightarrow> ClaimAmount conf | Some n \<Rightarrow> n)"
proof -
  obtain wid where wid: "getWorkerIdOrErr header = Inr wid"
    using assms getWorkerIdOrErr_Inl
    by (cases "getWorkerIdOrErr header") (auto simp: handle_claim_def reply_defs)
  obtain c where c: "req = Inr c" "valid_claim L c"
    using assms wid
    by (cases req) (auto simp: handle_claim_def bind_def reply_defs split: if_splits)
  let ?n = "case acAmount c of None \<Rightarrow> ClaimAmount conf | Some n \<Rightarrow> n"
  let ?qs = "case acQueues c of None \<Rightarrow> [] | Some qs \<Rightarrow> qs"
  let ?d = "case acBlockFor c of None \<Rightarrow> BlockFor conf | Some d \<Rightarrow> d"
  obtain r where call: "svcClaim svc wid ?qs ?n ?d w = Some (w', r)"
    using assms wid c
    by (auto simp: handle_claim_def bind_def ctlClaim_def Let_def split: option.splits sum.splits)
  have "\<exists>ts. r = Inr ts \<and> rspBody rsp = TasksBody (map FromDomainTask ts)"
  proof (cases r)
    case (Inl err)
    then have "rsp = HandleApiErr (handleErr err)"
      using assms(1) wid c call by (simp add: handle_claim_def bind_def ctlClaim_def Let_def)
    moreover have "errStatusCode (handleErr err) \<noteq> 200" by (cases err) (simp_all add: api_error_def)
    ultimately show ?thesis using assms(2) by (simp add: reply_defs)
  next
    case (Inr ts)
    then show ?thesis
      using assms(1) wid c call by (auto simp: handle_claim_def bind_def ctlClaim_def Let_def respond_def)
  qed
  then show ?thesis using claim_ok call wid c by blast
qed

end

section \<open>Properties of the API over the Elasticsearch service\<close>

text \<open>
  C16: marking a task done through the API. The response is 200 only if the queue name is
  valid, the worker identified itself and the body was read; then the task returned is done, with
  this worker's result, and the update was stored directly on top of the version it was computed
  from. Every other outcome is one of the error statuses 400, 403, 404, 409 and 500.
\<close>

theorem markDone_end_to_end:
  assumes store: "task_store e hist"
    and call: "handle_markDone L (NewService e conf) header queueStr i req w = (w', rsp)"
  shows "rspStatus rsp \<in> {200, 400, 403, 404, 409, 500} \<and>
    (rspStatus rsp = 200 \<longrightarrow> (\<exists>q wid d t at. NameFromString L queueStr = Inr q \<and>
       getWorkerIdOrErr header = Inr wid \<and> req = Inr d \<and> rspBody rsp = TaskBody (FromDomainTask t) \<and>
       tState t = DONE \<and> completed_by wid None d t \<and>
       lawful_update hist w' (BuildIndexName q, i) wid at (IntoDone wid at d) t))"
proof -
  have "\<forall>wid q d v err. svcMarkDone (NewService e conf) wid q i d w = (v, Inl err) \<longrightarrow> update_error err"
    by (intro allI impI) (rule es_service.done_err)
  note handled_cases [OF handlers_handled(2) call this]
  moreover have "tState t = DONE \<and> completed_by wid None d t \<and>
      (\<exists>at. lawful_update hist w' (BuildIndexName q, i) wid at (IntoDone wid at d) t)"
    if "svcMarkDone (NewService e conf) wid q i d w = (w', Inr t)" for wid q d t
    using that es_service.done_ok [OF that] updates_not_lost_done [OF store, of conf wid q i d w w' t]
    by (simp add: NewService_def)
  ultimately show ?thesis by blast
qed

text \<open>
  Reporting in, failing and unclaiming through the API: the documented error statuses,
  with 409 and 500 for conflicts and failures of the store, and what a 200 means.
\<close>

theorem update_statuses:
  "(handle_reportIn L (NewService e conf) header queueStr i req w = (w1, rsp1) \<longrightarrow>
     rspStatus rsp1 \<in> {200, 400, 403, 404, 409, 500} \<and>
     (rspStatus rsp1 = 200 \<longrightarrow> (\<exists>wid t. getWorkerIdOrErr header = Inr wid \<and>
        rspBody rsp1 = TaskBody (FromDomainTask t) \<and> held_by wid t))) \<and>
   (handle_markFailed L (NewService e conf) header queueStr i req' w = (w2, rsp2) \<longrightarrow>
     rspStatus rsp2 \<in> {200, 400, 403, 404, 409, 500} \<and>
     (rspStatus rsp2 = 200 \<longrightarrow> (\<exists>wid d t. getWorkerIdOrErr header = Inr wid \<and> req' = Inr d \<and>
        rspBody rsp2 = TaskBody (FromDomainTask t) \<and>
        (tState t = FAILED \<or> tState t = DEAD) \<and> completed_by wid d None t))) \<and>
   (handle_unClaim L (NewService e conf) header queueStr i w = (w3, rsp3) \<longrightarrow>
     rspStatus rsp3 \<in> {200, 400, 403, 404, 409, 500} \<and>
     (rspStatus rsp3 = 200 \<longrightarrow> (\<exists>wid t. getWorkerIdOrErr header = Inr wid \<and>
        rspBody rsp3 = TaskBody (FromDomainTask t) \<and> tState t = QUEUED \<and> owner t = Some wid)))"
  using es_service.updates_replied(1) [of L e conf header queueStr i req w w1 rsp1]
    es_service.updates_replied(3) [of L e conf header queueStr i req' w w2 rsp2]
    es_service.updates_replied(4) [of L e conf header queueStr i w w3 rsp3]
  by blast

text \<open>
  Creating a task through the API answers 201 exactly with a fresh task made from the
  request: queued, never attempted, with the request's queue, kind, arguments and context, and the
  configured retry times and processing timeout, priority 0 and the current time where the request
  leaves them out. A retry of a create with an id in use answers 409.
\<close>

theorem create_defaults:
  assumes "handle_create L (ctlCreate (NewService e cfg) conf getNow) req w = (w', rsp)"
  shows "rspStatus rsp \<in> {201, 400, 409, 500} \<and>
    (rspStatus rsp = 201 \<longrightarrow> (\<exists>n t. req = Inr n \<and> QueueNameValidator L (anQueue n) \<and>
       rspBody rsp = TaskBody (FromDomainTask t) \<and>
       tState t = QUEUED \<and> tAttempted t = 0 \<and> tLastClaimed t = None \<and>
       tQueue t = anQueue n \<and> tKind t = anKind n \<and> tArgs t = anArgs n \<and> tContext t = anContext n \<and>
       (\<forall>i. anID n = Some i \<longrightarrow> tID t = i) \<and>
       tRetryTimes t = (case anRetryTimes n of Some r \<Rightarrow> r | None \<Rightarrow> RetryTimes conf) \<and>
       tPriority t = (case anPriority n of Some p \<Rightarrow> p | None \<Rightarrow> 0) \<and>
       (tRunAt t = snd (getNow w) \<or> anRunAt n = Some (tRunAt t))))"
  using es_service.create_replied [OF assms]
  by (fastforce simp: fresh_from_def ToDomainNewTask_def valid_new_task_def split: option.splits)

text \<open>
  A claim through the API answers 200 with at most the number of tasks asked for (or the
  configured default), all of them claimed by the worker named in the header.
\<close>

theorem claim_through_api:
  assumes "handle_claim L (NewService e cfg) conf header req w = Some (w', rsp)" and "rspStatus rsp = 200"
  shows "\<exists>wid c ts. getWorkerIdOrErr header = Inr wid \<and> req = Inr c \<and>
    rspBody rsp = TasksBody (map FromDomainTask ts) \<and>
    (\<forall>t \<in> set ts. tState t = CLAIMED \<and> owner t = Some wid) \<and>
    length ts \<le> unat (case acAmount c of None \<Rightarrow> ClaimAmount conf | Some n \<Rightarrow> n)"
  using es_service.claim_replied [OF assms] unfolding held_by_def by blast

text \<open>
  A duration given as a JSON number is never read: it is refused if it is not a
  number, and ignored (the value before stays) if it is one; only a string sets it.
\<close>

theorem numeric_duration_ignored:
  assumes "hd b \<noteq> CHR 0x22" and "Int64 b = (k, None)"
  shows "Duration_UnmarshalJSON ParseDuration Int64 b d = (d, None)"
  using assms by (simp add: Duration_UnmarshalJSON_def)

end
