(* ===== verification/EsMemory.thy ===== *)
theory EsMemory
  imports EsStore
begin

text \<open>
  An in-memory store of documents of any type that behaves as the laws of \<open>EsStore\<close> say: the
  instance at which the theorems about the services are applied to concrete inputs. It shows that
  the laws can hold; the theorems themselves are about any store. \<open>P k d\<close> says which documents
  may lie at which key.
\<close>

section \<open>The store\<close>

text \<open>
  The world is the time and the history of every document. A key whose history is not in order
  (versions reused, documents in the wrong place) is out of service.
\<close>

type_synonym 'd mem_world = "time \<times> (doc_key \<Rightarrow> ('d option \<times> Version) list)"

definition key_ok :: "(doc_key \<Rightarrow> 'd \<Rightarrow> bool) \<Rightarrow> doc_key \<Rightarrow> ('d option \<times> Version) list \<Rightarrow> bool" where
  "key_ok P k h \<longleftrightarrow> distinct (map snd h) \<and>
     list_all (\<lambda>x. case fst x of None \<Rightarrow> True | Some d \<Rightarrow> P k d) h"

definition mem_hist :: "(doc_key \<Rightarrow> 'd \<Rightarrow> bool) \<Rightarrow> ('d mem_world, 'd) history" where
  "mem_hist P w k = (if key_ok P k (snd w k) then snd w k else [])"

definition next_version :: "nat \<Rightarrow> Version" where
  "next_version n = \<lparr>SeqNum = of_nat n, PrimaryTerm = 1\<rparr>"

text \<open>A write on top of the current history of the key, if that leaves it in order.\<close>

definition mem_write :: "(doc_key \<Rightarrow> 'd \<Rightarrow> bool) \<Rightarrow> doc_key \<Rightarrow> 'd \<Rightarrow> 'd mem_world \<Rightarrow> 'd mem_world option" where
  "mem_write P k d w =
     (let h = snd w k; h' = (Some d, next_version (length h)) # h in
      if key_ok P k h' then Some (fst w, (snd w)(k := h')) else None)"

definition mem_read :: "(doc_key \<Rightarrow> 'd \<Rightarrow> bool) \<Rightarrow> doc_key \<Rightarrow> 'd mem_world \<Rightarrow> ('d \<times> Version) option" where
  "mem_read P k w = (case mem_hist P w k of (Some d, v) # _ \<Rightarrow> Some (d, v) | _ \<Rightarrow> None)"

definition mem_hit :: "doc_key \<Rightarrow> 'd \<times> Version \<Rightarrow> 'd es_hit" where
  "mem_hit k x = \<lparr>hID = snd k, hIndex = fst k, hSeqNum = SeqNum (snd x),
     hPrimaryTerm = PrimaryTerm (snd x), hSource = fst x\<rparr>"

text \<open>The write under optimistic locking: \<open>None\<close> is a conflict.\<close>

definition mem_locked_write ::
  "(doc_key \<Rightarrow> 'd \<Rightarrow> bool) \<Rightarrow> doc_key \<Rightarrow> 'd \<Rightarrow> int \<times> int \<Rightarrow> 'd mem_world \<Rightarrow> 'd mem_world option" where
  "mem_locked_write P k d l w =
     (case mem_hist P w k of
        [] \<Rightarrow> None
      | (_, v) # _ \<Rightarrow> if lock_data v = l then mem_write P k d w else None)"

definition mem_item :: "string \<Rightarrow> string \<Rightarrow> Version \<Rightarrow> nat \<Rightarrow> EsBulkResponseItem" where
  "mem_item ix i v st = \<lparr>itIndex = Some \<lparr>biIndex = ix, biID = i, biSeqNum = SeqNum v,
       biPrimaryTerm = PrimaryTerm v, biResult = ''updated'', biStatus = st\<rparr>,
     itDelete = None, itCreate = None, itUpdate = None\<rparr>"

definition mem_bulk_reply :: "EsBulkResponseItem \<Rightarrow> EsBulkResponse es_reply" where
  "mem_bulk_reply it = Response 200 (Some \<lparr>brTook = 1, brErrors = False, brItems = [it]\<rparr>)"

text \<open>The documents a search looks at; the store answers it with those that are in service.\<close>

definition mem_client ::
  "(doc_key \<Rightarrow> 'd \<Rightarrow> bool) \<Rightarrow> doc_key list \<Rightarrow> ('d mem_world, 'd) es_client" where
  "mem_client P keys = \<lparr>
     getUTC = (\<lambda>w. ((fst w + 1, snd w), fst w)),
     Sleep = (\<lambda>d w. (fst w + max 0 d, snd w)),
     new_uuid = (\<lambda>w. (w, ''0-1'')),
     CreateRequest = (\<lambda>ix i d w.
       if mem_hist P w (ix, i) \<noteq> [] then (w, Response 409 None)
       else case mem_write P (ix, i) d w of
           None \<Rightarrow> (w, Response 400 None)
         | Some w' \<Rightarrow> (w', Response 201 (Some \<lparr>crID = i, crSeqNum = SeqNum (next_version (length (snd w (ix, i)))),
             crPrimaryTerm = 1\<rparr>))),
     GetRequest = (\<lambda>ix i w. (w, case mem_read P (ix, i) w of
         None \<Rightarrow> Response 404 None | Some x \<Rightarrow> Response 200 (Some (mem_hit (ix, i) x)))),
     IndexRequest = (\<lambda>ix i d l w.
       case (case l of Some l \<Rightarrow> mem_locked_write P (ix, i) d l w | None \<Rightarrow> mem_write P (ix, i) d w) of
           None \<Rightarrow> (w, Response 409 None)
         | Some w' \<Rightarrow> (w', Response 200 (Some \<lparr>urIndex = ix, urID = i,
             urSeqNum = SeqNum (next_version (length (snd w (ix, i)))), urPrimaryTerm = 1,
             urResult = ''updated''\<rparr>))),
     SearchRequest = (\<lambda>ixs q w. (w, Response 200 (Some
         (List.map_filter (\<lambda>k. map_option (mem_hit k) (mem_read P k w)) keys)))),
     ScrollSearchRequest = (\<lambda>ttl ixs q w. (w, Response 200 (Some (''s'',
         List.map_filter (\<lambda>k. map_option (mem_hit k) (mem_read P k w)) keys)))),
     ScrollRequest = (\<lambda>ttl i w. (w, Response 200 (Some (''s'', [])))),
     ClearScrollRequest = (\<lambda>is w. (w, Response 200 None)),
     BulkRequest = (\<lambda>ops w. case ops of
         [BulkIndex i ix sn pt d] \<Rightarrow>
           (let v = next_version (length (snd w (ix, i))) in
            case mem_locked_write P (ix, i) d (lock_data \<lparr>SeqNum = sn, PrimaryTerm = pt\<rparr>) w of
              None \<Rightarrow> (w, mem_bulk_reply (mem_item ix i v 409))
            | Some w' \<Rightarrow> (w', mem_bulk_reply (mem_item ix i v 200)))
       | _ \<Rightarrow> (w, Response 400 None)),
     CountRequest = (\<lambda>ixs q w. (w, Response 200 (Some 0))),
     IndicesRefreshRequest = (\<lambda>ixs w. (w, Response 200 (Some ())))\<rparr>"

section \<open>It satisfies the laws\<close>

lemma mem_write_Some:
  "mem_write P k d w = Some w' \<Longrightarrow> key_ok P k (snd w k) \<and>
     mem_hist P w' k = (Some d, next_version (length (snd w k))) # mem_hist P w k \<and>
     (\<forall>k'. k' \<noteq> k \<longrightarrow> mem_hist P w' k' = mem_hist P w k')"
  by (auto simp: mem_write_def mem_hist_def key_ok_def Let_def split: if_splits)

lemma mem_write_advances: "mem_write P k d w = Some w' \<Longrightarrow> advances (mem_hist P) w w'"
  unfolding advances_def using mem_write_Some [of P k d w w']
  by (metis suffix_ConsI suffix_order.refl)

lemma mem_locked_write_Some:
  "mem_locked_write P k d (lock_data v) w = Some w' \<Longrightarrow>
     advances (mem_hist P) w w' \<and>
     (\<exists>x. written_over (mem_hist P) w' k (x, v) (Some d, next_version (length (snd w k))))"
proof -
  assume lw: "mem_locked_write P k d (lock_data v) w = Some w'"
  then obtain x v0 h where h: "mem_hist P w k = (x, v0) # h" and l: "lock_data v0 = lock_data v"
      and wr: "mem_write P k d w = Some w'"
    by (auto simp: mem_locked_write_def split: list.splits if_splits)
  have "v0 = v" using l by (simp add: lock_data_def)
  then have "mem_hist P w' k = [] @ (Some d, next_version (length (snd w k))) # (x, v) # h"
    using mem_write_Some [OF wr] h by simp
  then show ?thesis
    using mem_write_advances [OF wr] unfolding written_over_def by blast
qed

lemma mem_locked_write_advances: "mem_locked_write P k d l w = Some w' \<Longrightarrow> advances (mem_hist P) w w'"
  by (auto simp: mem_locked_write_def mem_write_advances split: list.splits if_splits)

lemma mem_read_Some: "mem_read P k w = Some (d, v) \<Longrightarrow> (Some d, v) \<in> set (mem_hist P w k)"
  by (auto simp: mem_read_def split: list.splits prod.splits option.splits)

lemma mem_time_advances: "snd w = snd w' \<Longrightarrow> advances (mem_hist P) w w'"
  by (simp add: advances_def mem_hist_def)

lemma mem_distinct: "distinct (map snd (mem_hist P w k))"
  by (simp add: mem_hist_def key_ok_def)

lemma mem_hit_simps [simp]:
  "hSource (mem_hit k x) = fst x" "hit_version (mem_hit k x) = snd x"
  "hIndex (mem_hit k x) = fst k" "hID (mem_hit k x) = snd k"
  by (simp_all add: mem_hit_def hit_version_def)

lemma mem_client_grows: "es_grows (mem_client P keys) (mem_hist P)"
  unfolding es_grows_def
  by (auto simp: mem_client_def mem_time_advances Let_def
      dest: mem_write_advances mem_locked_write_advances
      split: option.splits list.splits bulk_op.splits)

lemma mem_bulk_ok:
  assumes "BulkRequest (mem_client P keys) ops w = (w', Response s (Some r))"
  shows "bulk_reply_ok (mem_hist P) w' ops r"
proof -
  obtain i ix sn pt d where ops: "ops = [BulkIndex i ix sn pt d]"
    using assms by (auto simp: mem_client_def split: list.splits bulk_op.splits)
  let ?v = "\<lparr>SeqNum = sn, PrimaryTerm = pt\<rparr>" and ?n = "next_version (length (snd w (ix, i)))"
  show ?thesis
  proof (cases "mem_locked_write P (ix, i) d (lock_data ?v) w")
    case None
    then show ?thesis
      using assms by (auto simp: ops mem_client_def mem_bulk_reply_def mem_item_def bulk_reply_ok_def
          item_info_def Info_def IsOk_def Let_def)
  next
    case (Some w1)
    then have r: "w' = w1" "brItems r = [mem_item ix i ?n 200]"
      using assms by (auto simp: ops mem_client_def mem_bulk_reply_def Let_def)
    obtain x where x: "written_over (mem_hist P) w1 (ix, i) (x, ?v) (Some d, ?n)"
      using mem_locked_write_Some [OF Some] by blast
    have "item_info r 0 = Some info \<Longrightarrow> ItemInfo_Version info = ?n" for info
      by (auto simp: item_info_def r mem_item_def Info_def ItemInfo_Version_def)
    then show ?thesis
      using x by (auto simp: bulk_reply_ok_def ops r mem_item_def Info_def)
  qed
qed

lemma mem_index_ok:
  assumes "IndexRequest (mem_client P keys) ix i d (Some (lock_data v)) w = (w', Response s (Some r))"
  shows "\<exists>x. written_over (mem_hist P) w' (ix, i) (x, v) (Some d, EsUpdateResponse_Version r)"
proof (cases "mem_locked_write P (ix, i) d (lock_data v) w")
  case None
  then show ?thesis using assms by (simp add: mem_client_def)
next
  case (Some w1)
  then have "w' = w1" "EsUpdateResponse_Version r = next_version (length (snd w (ix, i)))"
    using assms by (auto simp: mem_client_def EsUpdateResponse_Version_def next_version_def)
  then show ?thesis using mem_locked_write_Some [OF Some] by simp
qed

lemma mem_create_ok:
  assumes "CreateRequest (mem_client P keys) ix i d w = (w', Response s (Some r))"
  shows "(Some d, EsCreateResponse_Version r) \<in> set (mem_hist P w' (ix, i))"
proof -
  obtain wr: "mem_write P (ix, i) d w = Some w'"
      and "EsCreateResponse_Version r = next_version (length (snd w (ix, i)))"
    using assms
    by (auto simp: mem_client_def EsCreateResponse_Version_def next_version_def split: option.splits if_splits)
  then show ?thesis using mem_write_Some [OF wr] by simp
qed

lemma mem_search_ok:
  assumes "SearchRequest (mem_client P keys) ixs q w = (w', Response 200 (Some hs))" and "h \<in> set hs"
  shows "(Some (hSource h), hit_version h) \<in> set (mem_hist P w' (hIndex h, hID h))"
proof -
  have "w' = w" and "hs = List.map_filter (\<lambda>k. map_option (mem_hit k) (mem_read P k w)) keys"
    using assms(1) by (auto simp: mem_client_def)
  with assms(2) have "\<exists>k x. mem_read P k w = Some x \<and> h = mem_hit k x"
    by (force simp: List.map_filter_def)
  then obtain k x where "mem_read P k w = Some x" "h = mem_hit k x" by blast
  then show ?thesis
    using mem_read_Some [of P k w "fst x" "snd x"] \<open>w' = w\<close> by simp
qed

lemma mem_get_ok:
  assumes "GetRequest (mem_client P keys) ix i w = (w', Response 200 (Some h))"
  shows "(Some (hSource h), hit_version h) \<in> set (mem_hist P w' (ix, i))"
proof (cases "mem_read P (ix, i) w")
  case None
  then show ?thesis using assms by (simp add: mem_client_def)
next
  case (Some x)
  then have "h = mem_hit (ix, i) x" "w' = w" using assms by (simp_all add: mem_client_def)
  then show ?thesis
    using mem_read_Some [of P "(ix, i)" w "fst x" "snd x"] Some by simp
qed

lemma mem_client_locks: "es_locks (mem_client P keys) (mem_hist P)"
  unfolding es_locks_def
  by (intro conjI allI impI)
    (erule mem_get_ok mem_search_ok mem_create_ok mem_index_ok mem_bulk_ok | rule mem_distinct | assumption)+

end
