(* ===== verification/EsInMemory.thy ===== *)
theory EsInMemory
  imports EsMemory EsClaimReturns
begin

text \<open>
  The theorems of \<open>EsLocking\<close>, \<open>EsClaiming\<close> and \<open>EsClaimReturns\<close> applied to concrete inputs:
  the in-memory store of \<open>EsMemory\<close> holding tasks, each under its own queue and id.
\<close>

section \<open>The store of tasks\<close>

definition task_at :: "doc_key \<Rightarrow> PersistedTaskData \<Rightarrow> bool" where
  "task_at k d \<longleftrightarrow> k = (BuildIndexName (pQueue d), pId d)"

type_synonym task_world = "PersistedTaskData mem_world"

abbreviation task_hist :: "(task_world, PersistedTaskData) history" where
  "task_hist \<equiv> mem_hist task_at"

definition mem_env :: "doc_key list \<Rightarrow> task_world task_env" where
  "mem_env keys = es_client.extend (mem_client task_at keys)
     (task_env.fields (\<lambda>w. (w, 7)) (\<lambda>q w. (w, None)) (\<lambda>q at w. w))"

lemmas mem_env_defs = mem_env_def es_client.defs task_env.defs

lemma mem_well_placed: "well_placed task_hist"
  by (auto simp: well_placed_def mem_hist_def key_ok_def task_at_def list_all_iff split: if_splits)

lemma mem_env_store: "task_store (mem_env keys) task_hist"
  using mem_client_grows [of task_at keys] mem_client_locks [of task_at keys]
  by (simp add: task_store_def es_grows_def es_locks_def mem_env_defs)

section \<open>A task, its queue and two workers\<close>

definition example_conf :: TasksConf where
  "example_conf = \<lparr>Defaults = \<lparr>BlockFor = 10, BlockForRetryMinWait = 1, BlockForRetryMaxRetries = 2,
       WorkerProcessingTimeout = 30, ClaimAmount = 1, ClaimAmountSearchMultiplier = 2,
       RetryTimes = 3, VersionConflictRetryTimes = 500\<rparr>,
     QueuesConf = \<lparr>LastActivityTrackerMaxSize = 100, RefreshIfLastTouchedOver = 5,
       RefreshIfLastTouchedUnder = 1\<rparr>\<rparr>"

definition example_key :: doc_key where
  "example_key = (BuildIndexName ''run-later'', ''t1'')"

definition example_env :: "task_world task_env" where
  "example_env = mem_env [example_key]"

definition example_world :: "Task \<Rightarrow> task_world" where
  "example_world t = (1000, (\<lambda>_. [])(example_key := [(Some (ToPersistedTask t), next_version 0)]))"

lemmas example_store = mem_env_store [of "[example_key]", folded example_env_def]

text \<open>What a call of \<open>Claim\<close> returned and left behind.\<close>

definition claimed_tasks :: "('w \<times> (task_error + Task list)) option \<Rightarrow> Task list" where
  "claimed_tasks r = (case r of Some (w, Inr cs) \<Rightarrow> cs | _ \<Rightarrow> [])"

lemma mem_env_simps [simp]:
  "getUTC (mem_env ks) w = ((fst w + 1, snd w), fst w)"
  "Sleep (mem_env ks) dur w = (fst w + max 0 dur, snd w)"
  "SearchRequest (mem_env ks) ixs q w = (w, Response 200 (Some
      (List.map_filter (\<lambda>k. map_option (mem_hit k) (mem_read task_at k w)) ks)))"
  "GetRequest (mem_env ks) ix i w = (w, case mem_read task_at (ix, i) w of
      None \<Rightarrow> Response 404 None | Some x \<Rightarrow> Response 200 (Some (mem_hit (ix, i) x)))"
  "BulkRequest (mem_env ks) [BulkIndex i ix sn pt d] w =
      (let v = next_version (length (snd w (ix, i))) in
       case mem_locked_write task_at (ix, i) d (lock_data \<lparr>SeqNum = sn, PrimaryTerm = pt\<rparr>) w of
         None \<Rightarrow> (w, mem_bulk_reply (mem_item ix i v 409))
       | Some w' \<Rightarrow> (w', mem_bulk_reply (mem_item ix i v 200)))"
  "lru_Add (mem_env ks) name at w = w"
  "IndexRequest (mem_env ks) ix i d (Some l) w =
      (case mem_locked_write task_at (ix, i) d l w of
         None \<Rightarrow> (w, Response 409 None)
       | Some w' \<Rightarrow> (w', Response 200 (Some \<lparr>urIndex = ix, urID = i,
           urSeqNum = SeqNum (next_version (length (snd w (ix, i)))), urPrimaryTerm = 1,
           urResult = ''updated''\<rparr>)))"
  by (simp_all add: mem_env_defs mem_client_def)

lemma mem_read_example: "mem_read task_at example_key (c, snd (example_world t)) =
    (if example_key = task_key t then Some (ToPersistedTask t, next_version 0) else None)"
  by (simp add: mem_read_def mem_hist_def example_world_def key_ok_def task_at_def task_key_def ToPersistedTask_def)

lemma utc: "getUTC example_env w = ((fst w + 1, snd w), fst w)"
  by (simp add: example_env_def)

lemma example_time: "fst (example_world t) = 1000"
  by (simp add: example_world_def)

lemma example_search:
  "searchForClaimables example_env queues n w =
     ((fst w + 1, snd w), Inr (case mem_read task_at example_key w of None \<Rightarrow> []
        | Some x \<Rightarrow> [ToDomainTask (mem_hit example_key x)]))"
  by (simp add: searchForClaimables_def example_env_def List.map_filter_def mem_read_def mem_hist_def
    split: option.splits)

text \<open>The task as it is read, and the claim of it by \<open>w1\<close> at the time the calls reach it.\<close>

definition example_read :: Task where
  "example_read = set_version (next_version 0) example_task"

definition example_won :: Task where
  "example_won = set_version \<lparr>SeqNum = 1, PrimaryTerm = 1\<rparr> (set_modified 1005 (example_read\<lparr>
     tState := CLAIMED, tAttempted := 1,
     tLastClaimed := Some \<lparr>lcWorkerId = ''w1'', lcClaimedAt = 1005, lcTimesOutAt = 1035,
       lcLastReport = None, lcResult = None\<rparr>\<rparr>))"

lemma example_make_claim:
  "snd (makeClaim example_env ''w1'' [example_read] (1005, snd (example_world example_task)))
   = Inr [example_won]"
  by (simp add: makeClaim_def example_env_def example_read_def example_won_def example_task_def
      bulkUpdateTasks_def sendBulk_def buildTasksBulkUpdateNdJson_def buildUpdateBulkOp_def
      mem_locked_write_def mem_write_def mem_hist_def example_world_def example_key_def key_ok_def task_at_def
      IntoClaimed_def set_version_def set_modified_def ToPersistedTask_def next_version_def
      mem_bulk_reply_def mem_item_def item_info_def Info_def IsOk_def ItemInfo_Version_def go_time
      lastClaimed_toPersisted_def BuildIndexName_def Let_def)

lemma example_claims:
  "\<exists>w'. EsClaim example_env example_conf ''w1'' [] 1 10 (example_world example_task)
     = Some (w', Inr [example_won])"
proof -
  let ?d = "snd (example_world example_task)"
  obtain w' where made: "makeClaim example_env ''w1'' [example_read] (1005, ?d) = (w', Inr [example_won])"
    using example_make_claim by (metis prod.collapse)
  have read: "mem_read task_at example_key (c, ?d) = Some (ToPersistedTask example_task, next_version 0)" for c
    by (simp add: mem_read_example) (simp add: example_key_def example_task_def task_key_def)
  have hit: "ToDomainTask (mem_hit example_key (ToPersistedTask example_task, next_version 0)) = example_read"
    by (simp add: ToDomainTask_def example_read_def set_version_def)
  have window: "claim_window example_env ''w1'' 1 [example_read] 0 [] (1005, ?d) = (w', Inr [example_won])"
    using made
    by (subst claim_window.simps, subst claim_window.simps)
      (simp add: go_slice_def minInt_def targetClaimsLength_def)
  have search: "search_loop example_env [] 2 1000 10 5 True [] (1002, ?d) = Some ((1004, ?d), Inr [example_read])"
    by (subst search_loop.simps, subst search_loop.simps)
      (simp add: utc example_search read hit time_sub_def min_duration_def max_duration_def)
  have once: "searchAndClaim example_env example_conf ''w1'' [] 1 1000 10 5 (1002, ?d) = Some (w', Inr [example_won])"
    by (simp add: searchAndClaim_def example_conf_def search markAllTouched_def utc window)
  have wait: "retryWait example_conf 10 = 5"
    by (simp add: retryWait_def example_conf_def)
  have "claim_loop example_env example_conf ''w1'' [] 1 1000 10 5 True [] (1001, ?d) = Some (w', Inr [example_won])"
    by (subst claim_loop.simps, subst claim_loop.simps)
      (simp add: utc once time_sub_def min_duration_def max_duration_def)
  then show ?thesis
    by (simp add: EsClaim_def utc wait example_world_def)
qed

section \<open>The theorems of \<open>EsLocking\<close> and \<open>EsClaiming\<close> on the example\<close>

theorem Claim_sound_witness:
  "\<exists>w' t. EsClaim example_env example_conf ''w1'' [] 1 10 (example_world example_task)
       = Some (w', Inr [example_won]) \<and>
     claimed_from ''w1'' t example_won \<and> updated_over task_hist w' (task_key example_won) t example_won"
  using example_claims Claim_sound [OF example_store mem_well_placed] by fastforce

theorem claims_exclusive_witness:
  "\<exists>w'. EsClaim example_env example_conf ''w1'' [] 1 10 (example_world example_task)
       = Some (w', Inr [example_won]) \<and>
     (''w1'' = ''w1'' \<and> example_won = example_won \<or>
      released_between task_hist w' example_won example_won \<or> released_between task_hist w' example_won example_won)"
proof -
  obtain w' where "EsClaim example_env example_conf ''w1'' [] 1 10 (example_world example_task)
      = Some (w', Inr [example_won])"
    using example_claims by blast
  moreover have "example_won \<in> set [example_won]" by simp
  ultimately show ?thesis
    using claims_exclusive [OF example_store mem_well_placed _ _ advances_refl _ _ advances_refl refl]
    by blast
qed

text \<open>An update of the claimed task in the store succeeds if the operation does.\<close>

lemma example_update:
  assumes op: "f (set_version (next_version 0) example_claimed) = Inr u"
    and u: "task_key u = example_key" "version_of u = next_version 0"
  shows "\<exists>w'. getAndUpdate example_env ''run-later'' ''t1'' (\<lambda>t w. (w, f t)) at
     (c, snd (example_world example_claimed)) =
     (w', Inr (set_version \<lparr>SeqNum = 1, PrimaryTerm = 1\<rparr> (set_modified at u)))"
proof -
  let ?w = "(c, snd (example_world example_claimed))" and ?t = "set_modified at u"
  have "mem_read task_at example_key ?w = Some (ToPersistedTask example_claimed, next_version 0)"
    by (simp add: mem_read_example)
      (simp add: example_key_def example_claimed_def example_task_def task_key_def)
  then have read: "EsGet example_env ''run-later'' ''t1'' ?w =
      (?w, Inr (set_version (next_version 0) example_claimed))"
    by (simp add: EsGet_def example_env_def example_key_def [symmetric] ToDomainTask_def set_version_def)
  have "task_key ?t = example_key" using u(1) by (simp add: task_key_def set_modified_def)
  then have "mem_locked_write task_at (BuildIndexName ''run-later'', ''t1'') (ToPersistedTask ?t)
      (lock_data (next_version 0)) ?w \<noteq> None"
    by (simp add: mem_locked_write_def mem_hist_def mem_write_def key_ok_def task_at_def example_world_def example_key_def
        task_key_def ToPersistedTask_def example_claimed_def example_task_def next_version_def Let_def)
  then obtain w' where "mem_locked_write task_at (BuildIndexName ''run-later'', ''t1'') (ToPersistedTask ?t)
      (lock_data (next_version 0)) ?w = Some w'"
    by blast
  then have "IndexRequest example_env (BuildIndexName ''run-later'') ''t1'' (ToPersistedTask ?t)
      (Some (lock_data (next_version 0))) ?w =
      (w', Response 200 (Some \<lparr>urIndex = BuildIndexName ''run-later'', urID = ''t1'', urSeqNum = 1,
         urPrimaryTerm = 1, urResult = ''updated''\<rparr>))"
    by (simp add: example_env_def example_world_def example_key_def next_version_def)
  then show ?thesis
    using op u(2) by (simp add: getAndUpdate_def read status_2xx_def EsUpdateResponse_Version_def Let_def)
qed

lemma example_done:
  "\<exists>w' t'. EsMarkDone example_env example_conf ''w1'' ''run-later'' ''t1'' None
     (example_world example_claimed) = (w', Inr t')"
proof -
  have "IntoDone ''w1'' 1000 None (set_version (next_version 0) example_claimed) =
      Inr (set_version (next_version 0) (example_claimed\<lparr>tState := DONE,
        tLastClaimed := Some \<lparr>lcWorkerId = ''w1'', lcClaimedAt = 5, lcTimesOutAt = 35,
          lcLastReport = None, lcResult = Some \<lparr>resAt = 1000, resFailure = None, resSuccess = None\<rparr>\<rparr>\<rparr>))"
    by (simp add: IntoDone_def check_claim_def set_version_def example_claimed_def)
  from example_update [where f = "IntoDone ''w1'' 1000 None" and c = 1001 and at = 1000, OF this]
  obtain w' t' where "getAndUpdate example_env ''run-later'' ''t1'' (\<lambda>t w. (w, IntoDone ''w1'' 1000 None t)) 1000
      (1001, snd (example_world example_claimed)) = (w', Inr t')"
    by (auto simp: task_key_def set_version_def version_of_def example_claimed_def example_task_def example_key_def)
  then show ?thesis
    by (simp add: EsMarkDone_def markComplete_def retry_conflict_def utc example_time)
qed

lemma example_unclaim:
  "\<exists>w' t'. EsUnClaim example_env example_conf ''w1'' ''run-later'' ''t1''
     (example_world example_claimed) = (w', Inr t')"
proof -
  have "IntoUnClaimed ''w1'' 1000 (set_version (next_version 0) example_claimed) =
      Inr (set_version (next_version 0) (example_claimed\<lparr>tState := QUEUED, tAttempted := 0,
        tLastEnqueuedAt := 1000\<rparr>))"
    by (simp add: IntoUnClaimed_def check_claim_def set_version_def example_claimed_def)
  from example_update [where f = "IntoUnClaimed ''w1'' 1000" and c = 1001 and at = 1000, OF this]
  obtain w' t' where "getAndUpdate example_env ''run-later'' ''t1'' (\<lambda>t w. (w, IntoUnClaimed ''w1'' 1000 t)) 1000
      (1001, snd (example_world example_claimed)) = (w', Inr t')"
    by (auto simp: task_key_def set_version_def version_of_def example_claimed_def example_task_def example_key_def)
  then show ?thesis
    by (simp add: EsUnClaim_def retry_conflict_def utc example_time)
qed

theorem updates_not_lost_witness:
  "\<exists>w' t' at. EsMarkDone example_env example_conf ''w1'' ''run-later'' ''t1'' None
       (example_world example_claimed) = (w', Inr t') \<and>
     lawful_update task_hist w' (BuildIndexName ''run-later'', ''t1'') ''w1'' at
       (IntoDone ''w1'' at None) t'"
  using example_done updates_not_lost [OF example_store] by blast

text \<open>Sleeping for a negative time is no sleep at all, so the clock of the example never runs back.\<close>

lemma mem_locked_write_time: "mem_locked_write task_at k d l w = Some w' \<Longrightarrow> fst w' = fst w"
  by (auto simp: mem_locked_write_def mem_write_def Let_def split: list.splits if_splits)

lemma mem_clock: "clock_ok (mem_env keys) fst"
  by (auto simp: clock_ok_def mem_env_defs mem_client_def Let_def
      split: option.splits list.splits bulk_op.splits dest: mem_locked_write_time)

theorem Claim_returns_witness:
  "\<exists>w' r. EsClaim example_env example_conf ''w1'' [] 1 10 (example_world example_task) = Some (w', r)"
proof -
  have "0 < BlockForRetryMinWait (Defaults example_conf)" "10 \<le> max_duration"
    by (simp_all add: example_conf_def max_duration_def)
  then show ?thesis
    using Claim_returns [OF mem_clock] unfolding example_env_def by blast
qed

text \<open>
  A store that always finds the example, and otherwise answers nothing; the world is the flag that says whether it was
  searched.
\<close>

definition found_hit :: task_hit where
  "found_hit = \<lparr>hID = ''t1'', hIndex = BuildIndexName ''run-later'', hSeqNum = 0, hPrimaryTerm = 1,
     hSource = ToPersistedTask example_task\<rparr>"

definition finding_env :: "bool task_env" where
  "finding_env = es_client.extend (sys.extend
     (sys.fields (\<lambda>w. (w, 0)) (\<lambda>d w. w) (\<lambda>w. (w, ''0-1'')))
     (es_client.fields (\<lambda>ix i d w. (w, NoResponse)) (\<lambda>ix i w. (w, NoResponse))
       (\<lambda>ix i d l w. (w, NoResponse)) (\<lambda>ixs q w. (True, Response 200 (Some [found_hit]))) (\<lambda>ttl ixs q w. (w, NoResponse))
       (\<lambda>ttl i w. (w, NoResponse)) (\<lambda>is w. (w, NoResponse)) (\<lambda>ops w. (w, NoResponse))
       (\<lambda>ixs q w. (w, NoResponse)) (\<lambda>ixs w. (w, NoResponse))))
     (task_env.fields (\<lambda>w. (w, 7)) (\<lambda>q w. (w, None)) (\<lambda>q at w. w))"

lemmas finding_defs = finding_env_def es_client.defs sys.defs task_env.defs

definition finding_hist :: "(bool, PersistedTaskData) history" where
  "finding_hist w k = (if k = (BuildIndexName ''run-later'', ''t1'')
     then [(Some (ToPersistedTask example_task), next_version 0)] else [])"

lemma finding_store: "task_store finding_env finding_hist"
proof -
  have same: "advances finding_hist w w'" for w w'
    using advances_refl [of finding_hist w] by (simp add: advances_def finding_hist_def)
  show ?thesis
    by (auto simp: task_store_def es_grows_def es_locks_def same finding_defs)
      (simp_all add: finding_hist_def found_hit_def hit_version_def next_version_def)
qed

lemma finding_seen: "search_seen finding_env (\<lambda>w. w)"
  by (simp add: search_seen_def finding_defs)

text \<open>The claim for \<open>2 ^ 63\<close> tasks finds one and panics.\<close>

theorem Claim_panics_iff_huge_witness:
  "EsClaim finding_env example_conf ''w1'' [] (2 ^ 63) 10 False = Some (True, Inl Panicked)"
proof -
  have utc: "getUTC finding_env w = (w, 0)" and search: "\<exists>t. searchForClaimables finding_env [] l w = (True, Inr [t])" for l w
    by (simp_all add: finding_defs searchForClaimables_def)
  have "\<exists>r. EsClaim finding_env example_conf ''w1'' [] (2 ^ 63) 10 False = Some (True, r)"
  proof -
    have "\<exists>t. search_loop finding_env [] l 0 10 wait True [] False = Some (True, Inr [t])" for l wait
    proof -
      obtain t where "searchForClaimables finding_env [] l False = (True, Inr [t])" using search by blast
      then have "search_loop finding_env [] l 0 10 wait True [] False = Some (True, Inr [t])"
        by (subst search_loop.simps, subst search_loop.simps)
          (simp add: utc time_sub_def min_duration_def max_duration_def)
      then show ?thesis by blast
    qed
    then obtain t where s: "search_loop finding_env [] (ClaimAmountSearchMultiplier (Defaults example_conf) * 2 ^ 63) 0 10
        (retryWait example_conf 10) True [] False = Some (True, Inr [t])" by blast
    have "claim_window finding_env ''w1'' (2 ^ 63) [t] 0 [] True = (True, Inl Panicked)"
      by (rule claim_window_huge) simp_all
    then have "searchAndClaim finding_env example_conf ''w1'' [] (2 ^ 63) 0 10 (retryWait example_conf 10) False
        = Some (True, Inl Panicked)"
      using s by (simp add: searchAndClaim_def markAllTouched_def utc)
    then have "claim_loop finding_env example_conf ''w1'' [] (2 ^ 63) 0 10 (retryWait example_conf 10) True [] False
        = Some (True, Inl Panicked)"
      by (subst claim_loop.simps) (simp add: utc time_sub_def min_duration_def max_duration_def)
    then show ?thesis by (simp add: EsClaim_def utc)
  qed
  then obtain r where r: "EsClaim finding_env example_conf ''w1'' [] (2 ^ 63) 10 False = Some (True, r)" by blast
  have "r = Inl Panicked"
    using Claim_panics_iff_huge [OF finding_store finding_seen _ r] by simp
  with r show ?thesis by simp
qed

end
