(* ===== verification/ApiExamples.thy ===== *)
theory ApiExamples
  imports TasksApi EsInMemory
begin

text \<open>
  The theorems about the API applied to requests against the in-memory store of \<open>EsInMemory\<close>.
\<close>

abbreviation lower :: "string \<Rightarrow> string" where
  "lower \<equiv> map ascii_lower"

abbreviation example_service :: "task_world Service" where
  "example_service \<equiv> NewService example_env example_conf"

lemma example_queue: "NameFromString lower ''run-later'' = Inr ''run-later''"
  by code_simp

lemma example_worker: "getWorkerIdOrErr '' w1'' = Inr ''w1''"
  by code_simp

theorem markDone_end_to_end_witness:
  "\<exists>w' rsp t at. handle_markDone lower example_service '' w1'' ''run-later'' ''t1'' (Inr None)
       (example_world example_claimed) = (w', rsp) \<and> rspStatus rsp = 200 \<and>
     rspBody rsp = TaskBody (FromDomainTask t) \<and> tState t = DONE \<and>
     lawful_update task_hist w' (BuildIndexName ''run-later'', ''t1'') ''w1'' at (IntoDone ''w1'' at None) t"
proof -
  obtain w' t' where run: "EsMarkDone example_env example_conf ''w1'' ''run-later'' ''t1'' None
      (example_world example_claimed) = (w', Inr t')"
    using example_done by blast
  have call: "handle_markDone lower example_service '' w1'' ''run-later'' ''t1'' (Inr None)
      (example_world example_claimed) = (w', respond 200 (TaskBody (FromDomainTask t')))"
    using run by (simp add: handle_markDone_def bind_def example_queue example_worker ctlMarkDone_def
        answer_to_api reply_of_def NewService_def)
  show ?thesis
    using markDone_end_to_end [OF example_store call] call
    by (simp add: respond_def example_queue example_worker) blast
qed

theorem update_statuses_witness:
  "\<exists>w' rsp t. handle_unClaim lower example_service '' w1'' ''run-later'' ''t1''
       (example_world example_claimed) = (w', rsp) \<and> rspStatus rsp = 200 \<and>
     rspBody rsp = TaskBody (FromDomainTask t) \<and> tState t = QUEUED \<and> owner t = Some ''w1''"
proof -
  obtain w' t' where run: "EsUnClaim example_env example_conf ''w1'' ''run-later'' ''t1''
      (example_world example_claimed) = (w', Inr t')"
    using example_unclaim by blast
  have call: "handle_unClaim lower example_service '' w1'' ''run-later'' ''t1''
      (example_world example_claimed) = (w', respond 200 (TaskBody (FromDomainTask t')))"
    using run by (simp add: handle_unClaim_def example_queue example_worker ctlUnClaim_def
        answer_to_api reply_of_def NewService_def)
  note update_statuses [THEN conjunct2, THEN conjunct2, THEN mp, OF call, THEN conjunct2, THEN mp]
  then show ?thesis using call by (simp add: respond_def example_worker)
qed

definition example_request :: ApiNewTask where
  "example_request = \<lparr>anID = Some ''t2'', anQueue = ''run-later'', anRetryTimes = None,
     anKind = ''sayHello'', anPriority = None, anProcessingTimeout = None, anRunAt = None,
     anArgs = None, anContext = None\<rparr>"

lemma example_create:
  "\<exists>w' t. handle_create lower (ctlCreate example_service (Defaults example_conf) (getUTC example_env))
     (Inr example_request) (example_world example_task) = (w', respond 201 (TaskBody t))"
proof -
  have valid: "valid_new_task lower example_request"
    by (simp add: valid_new_task_def QueueNameValidator_def example_request_def example_queue)
  have created: "CreateRequest example_env (BuildIndexName ''run-later'') ''t2'' d (c, snd (example_world example_task))
      = ((c, (snd (example_world example_task))((BuildIndexName ''run-later'', ''t2'') := [(Some d, next_version 0)])),
         Response 201 (Some \<lparr>crID = ''t2'', crSeqNum = SeqNum (next_version 0), crPrimaryTerm = 1\<rparr>))"
    if "pQueue d = ''run-later''" "pId d = ''t2''" for c d
    using that
    by (simp add: example_env_def mem_env_defs mem_client_def mem_hist_def mem_write_def key_ok_def task_at_def example_world_def
        example_key_def next_version_def Let_def)
  show ?thesis
    by (simp add: handle_create_def bind_def valid ctlCreate_def utc NewService_def EsCreate_def GenerateId_def
        ToDomainNewTask_def Let_def)
      (simp add: example_request_def created newTask_toPersisted_def answer_def to_api_def status_2xx_def,
        rule exI, rule refl)
qed

theorem create_defaults_witness:
  "\<exists>w' rsp t. handle_create lower (ctlCreate example_service (Defaults example_conf) (getUTC example_env))
       (Inr example_request) (example_world example_task) = (w', rsp) \<and>
     rspStatus rsp = 201 \<and> rspBody rsp = TaskBody (FromDomainTask t) \<and> tID t = ''t2'' \<and>
     tRetryTimes t = 3 \<and> tRunAt t = 1000"
proof -
  obtain w' t' where call: "handle_create lower
      (ctlCreate example_service (Defaults example_conf) (getUTC example_env))
      (Inr example_request) (example_world example_task) = (w', respond 201 (TaskBody t'))"
    using example_create by blast
  then show ?thesis
    using create_defaults [OF call]
    by (auto simp: example_request_def example_conf_def utc example_time respond_def)
qed

theorem claim_through_api_witness:
  "\<exists>w' rsp ts. handle_claim lower example_service (Defaults example_conf) ''w1''
       (Inr \<lparr>acQueues = Some [], acAmount = None, acBlockFor = None\<rparr>) (example_world example_task)
       = Some (w', rsp) \<and> rspBody rsp = TasksBody (map FromDomainTask ts) \<and>
     (\<forall>t \<in> set ts. owner t = Some ''w1'') \<and> length ts \<le> 1"
proof -
  let ?c = "\<lparr>acQueues = Some [], acAmount = None, acBlockFor = None\<rparr> :: ApiClaim"
  obtain w' where run: "EsClaim example_env example_conf ''w1'' [] 1 10 (example_world example_task)
      = Some (w', Inr [example_won])"
    using example_claims by blast
  have worker: "getWorkerIdOrErr ''w1'' = Inr ''w1''" by code_simp
  have call: "handle_claim lower example_service (Defaults example_conf) ''w1'' (Inr ?c)
      (example_world example_task) = Some (w', respond 200 (TasksBody [FromDomainTask example_won]))"
    using run by (simp add: handle_claim_def worker bind_def valid_claim_def ctlClaim_def NewService_def)
      (simp add: example_conf_def)
  have "rspStatus (respond 200 (TasksBody [FromDomainTask example_won])) = 200" by (simp add: respond_def)
  from claim_through_api [OF call this] call show ?thesis
    by (fastforce simp: worker example_conf_def)
qed

theorem numeric_duration_ignored_witness:
  "Duration_UnmarshalJSON (\<lambda>s. Inl ''invalid'') (\<lambda>b. (5, None)) ''5'' 0 = (0, None)"
  by (rule numeric_duration_ignored) simp_all

end
