(* ===== verification/RecurringModel.thy ===== *)
theory RecurringModel
  imports EsTaskService
begin

text \<open>
  Recurring tasks, \<open>internal/domain/task/recurring\<close>: the models of \<open>models.go\<close>, the errors and
  the results of \<open>service.go\<close>, and the \<open>Service\<close> interface as a record of operations. A
  recurring task is a task definition with a schedule; it is deleted softly, and \<open>LoadedAt\<close>
  says whether the latest change was seen by the scheduling process.
\<close>

section \<open>Models\<close>

record TaskDefinition =
  tdQueue :: qname
  tdRetryTimes :: u64
  tdKind :: string
  tdPriority :: int
  tdProcessingTimeout :: duration
  tdArgs :: "json_obj option"
  tdContext :: "json_obj option"

record NewRTask =
  nrID :: recurring_id
  nrScheduleExpression :: string
  nrTaskDefinition :: TaskDefinition
  nrSkipIfOutstandingTasksExist :: bool

record RTask =
  rtID :: recurring_id
  rtScheduleExpression :: string
  rtTaskDefinition :: TaskDefinition
  rtIsDeleted :: bool
  rtLoadedAt :: "time option"
  rtSkipIfOutstandingTasksExist :: bool
  rtMetadata :: Metadata

definition UpdateSchedule :: "string \<Rightarrow> RTask \<Rightarrow> RTask" where
  "UpdateSchedule expression r = r\<lparr>rtScheduleExpression := expression, rtLoadedAt := None\<rparr>"

definition UpdateTaskDefinition :: "TaskDefinition \<Rightarrow> RTask \<Rightarrow> RTask" where
  "UpdateTaskDefinition def r = r\<lparr>rtTaskDefinition := def, rtLoadedAt := None\<rparr>"

definition IntoDeleted :: "RTask \<Rightarrow> RTask" where
  "IntoDeleted r = r\<lparr>rtIsDeleted := True, rtLoadedAt := None\<rparr>"

definition rt_version :: "RTask \<Rightarrow> Version" where
  "rt_version r = metaVersion (rtMetadata r)"

definition set_rt_version :: "Version \<Rightarrow> RTask \<Rightarrow> RTask" where
  "set_rt_version v r = r\<lparr>rtMetadata := (rtMetadata r)\<lparr>metaVersion := v\<rparr>\<rparr>"

section \<open>Errors and results\<close>

text \<open>The errors of the service; \<open>RPanicked\<close> is a panic, as for tasks.\<close>

datatype recurring_error =
    RAlreadyExists recurring_id
  | RNotFound recurring_id
  | RInvalidVersion recurring_id
  | RInvalidPersistedData
  | RElasticsearchErr
  | RJsonSerdesErr
  | RPanicked

record MultiUpdateResult =
  Successes :: "RTask list"
  VersionConflicts :: "RTask list"
  NotFounds :: "RTask list"
  Others :: "(RTask \<times> string) list"

definition no_updates :: MultiUpdateResult where
  "no_updates = \<lparr>Successes = [], VersionConflicts = [], NotFounds = [], Others = []\<rparr>"

section \<open>The interfaces\<close>

record 'w RService =
  rsCreate :: "NewRTask \<Rightarrow> 'w \<Rightarrow> 'w \<times> (recurring_error + RTask)"
  rsGet :: "recurring_id \<Rightarrow> bool \<Rightarrow> 'w \<Rightarrow> 'w \<times> (recurring_error + RTask)"
  rsDelete :: "recurring_id \<Rightarrow> 'w \<Rightarrow> 'w \<times> (recurring_error + RTask)"
  rsAll :: "'w \<Rightarrow> ('w \<times> (recurring_error + RTask list)) option"
  rsNotLoaded :: "'w \<Rightarrow> ('w \<times> (recurring_error + RTask list)) option"
  rsUpdate :: "RTask \<Rightarrow> 'w \<Rightarrow> 'w \<times> (recurring_error + RTask)"
  rsMarkLoaded :: "RTask list \<Rightarrow> 'w \<Rightarrow> 'w \<times> (recurring_error + MultiUpdateResult)"

text \<open>\<open>Schedule\<close> returns the error, if any; \<open>Unschedule\<close> whether it was scheduled.\<close>

record 'w Scheduler =
  Parse :: "string \<Rightarrow> bool"
  Schedule :: "RTask \<Rightarrow> 'w \<Rightarrow> 'w \<times> string option"
  Unschedule :: "recurring_id \<Rightarrow> 'w \<Rightarrow> 'w \<times> bool"

lemma recurring_updates [simp]:
  "rtID (UpdateSchedule x r) = rtID r" "rtID (UpdateTaskDefinition d r) = rtID r"
  "rtID (IntoDeleted r) = rtID r" "rtID (set_rt_version v r) = rtID r"
  "rtLoadedAt (UpdateSchedule x r) = None" "rtLoadedAt (UpdateTaskDefinition d r) = None"
  "rtLoadedAt (IntoDeleted r) = None" "rtIsDeleted (IntoDeleted r)"
  "rtIsDeleted (set_rt_version v r) = rtIsDeleted r"
  "rt_version (set_rt_version v r) = v"
  "rt_version (UpdateSchedule x r) = rt_version r"
  "rt_version (UpdateTaskDefinition d r) = rt_version r" "rt_version (IntoDeleted r) = rt_version r"
  by (simp_all add: UpdateSchedule_def UpdateTaskDefinition_def IntoDeleted_def set_rt_version_def
      rt_version_def)

end
