(* ===== verification/EsRecurring.thy ===== *)
theory EsRecurring
  imports RecurringModel EsTaskScan EsQueries
begin

text \<open>
  The Elasticsearch service for recurring tasks,
  \<open>internal/infra/elasticsearch/task/recurring/service.go\<close>: documents and conversions, the two
  search bodies, and every operation of the service. The client library is the parameter of
  \<open>EsCommon\<close>, over this service's documents.
\<close>

definition TasquesRecurringTasksIndex :: string where
  "TasquesRecurringTasksIndex = ''.tasques_recurring_tasks''"

section \<open>Documents\<close>

record PersistedTaskDef =
  pdQueue :: string
  pdRetryTimes :: u64
  pdKind :: string
  pdProcessingTimeout :: duration
  pdPriority :: int
  pdArgs :: "json_obj option"
  pdContext :: "json_obj option"

record PersistedRTask =
  prScheduleExpression :: string
  prSkipIfOutstandingTasksExist :: bool
  prTaskDefinition :: PersistedTaskDef
  prIsDeleted :: bool
  prLoadedAt :: "time option"
  prMetadata :: PersistedMetadata

type_synonym recurring_hit = "PersistedRTask es_hit"
type_synonym 'w recurring_env = "('w, PersistedRTask) es_client"

definition domainTaskDefToPersistable :: "TaskDefinition \<Rightarrow> PersistedTaskDef" where
  "domainTaskDefToPersistable def = \<lparr>pdQueue = tdQueue def, pdRetryTimes = tdRetryTimes def,
     pdKind = tdKind def, pdProcessingTimeout = tdProcessingTimeout def,
     pdPriority = tdPriority def, pdArgs = tdArgs def, pdContext = tdContext def\<rparr>"

definition persistedTaskDefToDomainTaskDef :: "PersistedTaskDef \<Rightarrow> TaskDefinition" where
  "persistedTaskDefToDomainTaskDef def = \<lparr>tdQueue = pdQueue def, tdRetryTimes = pdRetryTimes def,
     tdKind = pdKind def, tdPriority = pdPriority def,
     tdProcessingTimeout = pdProcessingTimeout def, tdArgs = pdArgs def, tdContext = pdContext def\<rparr>"

definition newToPersistable :: "time \<Rightarrow> NewRTask \<Rightarrow> PersistedRTask" where
  "newToPersistable now t = \<lparr>prScheduleExpression = nrScheduleExpression t,
     prSkipIfOutstandingTasksExist = nrSkipIfOutstandingTasksExist t,
     prTaskDefinition = domainTaskDefToPersistable (nrTaskDefinition t),
     prIsDeleted = False, prLoadedAt = None,
     prMetadata = \<lparr>pmCreatedAt = now, pmModifiedAt = now\<rparr>\<rparr>"

definition domainToPersistable :: "RTask \<Rightarrow> time \<Rightarrow> PersistedRTask" where
  "domainToPersistable t at = \<lparr>prScheduleExpression = rtScheduleExpression t,
     prSkipIfOutstandingTasksExist = rtSkipIfOutstandingTasksExist t,
     prTaskDefinition = domainTaskDefToPersistable (rtTaskDefinition t),
     prIsDeleted = rtIsDeleted t, prLoadedAt = rtLoadedAt t,
     prMetadata = \<lparr>pmCreatedAt = CreatedAt (rtMetadata t), pmModifiedAt = at\<rparr>\<rparr>"

definition persistedToDomain :: "recurring_id \<Rightarrow> PersistedRTask \<Rightarrow> Version \<Rightarrow> RTask" where
  "persistedToDomain i data version = \<lparr>rtID = i,
     rtScheduleExpression = prScheduleExpression data,
     rtTaskDefinition = persistedTaskDefToDomainTaskDef (prTaskDefinition data),
     rtIsDeleted = prIsDeleted data, rtLoadedAt = prLoadedAt data,
     rtSkipIfOutstandingTasksExist = prSkipIfOutstandingTasksExist data,
     rtMetadata = \<lparr>CreatedAt = pmCreatedAt (prMetadata data),
       ModifiedAt = pmModifiedAt (prMetadata data), metaVersion = version\<rparr>\<rparr>"

definition hit_toDomainTask :: "recurring_hit \<Rightarrow> RTask" where
  "hit_toDomainTask h = persistedToDomain (hID h) (hSource h) (hit_version h)"

text \<open>The marshalled documents.\<close>

definition taskDef_json :: "PersistedTaskDef \<Rightarrow> json" where
  "taskDef_json d = JObj ([(''queue'', JStr (pdQueue d)), (''retry_times'', JNum (uint (pdRetryTimes d))),
     (''kind'', JStr (pdKind d)), (''processing_timeout'', JNum (pdProcessingTimeout d)),
     (''priority'', JNum (pdPriority d))]
     @ opt_field ''args'' JObj (pdArgs d) @ opt_field ''context'' JObj (pdContext d))"

definition recurring_json :: "PersistedRTask \<Rightarrow> json" where
  "recurring_json p = JObj ([(''schedule_expression'', JStr (prScheduleExpression p)),
     (''skip_if_outstanding_tasks_exist'', JBool (prSkipIfOutstandingTasksExist p)),
     (''task_definition'', taskDef_json (prTaskDefinition p)),
     (''is_deleted'', JBool (prIsDeleted p))]
     @ opt_field ''loaded_at'' JTime (prLoadedAt p)
     @ [(''metadata'', metadata_json (prMetadata p))])"

definition buildUndeletedListSearchBody :: "u64 \<Rightarrow> json" where
  "buildUndeletedListSearchBody pageSize = JObj [
     (''size'', JNum (uint pageSize)),
     (''seq_no_primary_term'', JBool True),
     (''sort'', JArr [sort_by ''_id'' ''asc'']),
     (''query'', q_bool ''filter'' (q_bool ''must'' (JArr [
        q_term ''is_deleted'' (JBool False)])))]"

definition buildNotLoadedSinceSearchBody :: "u64 \<Rightarrow> json" where
  "buildNotLoadedSinceSearchBody pageSize = JObj [
     (''size'', JNum (uint pageSize)),
     (''seq_no_primary_term'', JBool True),
     (''sort'', JArr [sort_by ''_id'' ''asc'', sort_by ''metadata.modified_at'' ''asc'']),
     (''query'', q_bool ''filter'' (q_bool ''must'' (JArr [
        q_bool ''must_not'' (JArr [
          JObj [(''exists'', JObj [(''field'', JStr ''loaded_at'')])]])])))]"

definition recurring_bulk_op :: "time \<Rightarrow> RTask \<Rightarrow> PersistedRTask bulk_op" where
  "recurring_bulk_op at t = BulkIndex (rtID t) TasquesRecurringTasksIndex
     (SeqNum (rt_version t)) (PrimaryTerm (rt_version t)) (domainToPersistable t at)"

text \<open>The lines of a bulk request (marshalling these values cannot fail).\<close>

definition buildRTasksBulkUpdateNdJsonBytes :: "RTask list \<Rightarrow> time \<Rightarrow> PersistedRTask bulk_op list" where
  [simp]: "buildRTasksBulkUpdateNdJsonBytes recurringTasks at = map (recurring_bulk_op at) recurringTasks"

section \<open>Reading and writing one recurring task\<close>

definition rGet ::
  "'w recurring_env \<Rightarrow> recurring_id \<Rightarrow> bool \<Rightarrow> 'w \<Rightarrow> 'w \<times> (recurring_error + RTask)" where
  "rGet e i includeSoftDeleted w =
     (case GetRequest e TasquesRecurringTasksIndex i w of
        (w1, NoResponse) \<Rightarrow> (w1, Inl RElasticsearchErr)
      | (w1, Response statusCode body) \<Rightarrow>
          (w1, if statusCode = 200 then
                 (case body of
                    None \<Rightarrow> Inl RJsonSerdesErr
                  | Some resp \<Rightarrow>
                      (let domainModel = hit_toDomainTask resp in
                       if rtIsDeleted domainModel \<and> \<not> includeSoftDeleted then Inl (RNotFound i)
                       else Inr domainModel))
               else if statusCode = 404 then Inl (RNotFound i)
               else Inl RElasticsearchErr))"

text \<open>
  The answer to an index request without locking data, in \<open>Create\<close> (it is decoded into an
  \<open>EsCreateResponse\<close>, which has fewer fields).
\<close>

definition reindex ::
  "'w recurring_env \<Rightarrow> recurring_id \<Rightarrow> PersistedRTask \<Rightarrow> 'w \<Rightarrow> 'w \<times> (recurring_error + RTask)" where
  "reindex e i toPersist w =
     (case IndexRequest e TasquesRecurringTasksIndex i toPersist None w of
        (w1, NoResponse) \<Rightarrow> (w1, Inl RElasticsearchErr)
      | (w1, Response statusCode body) \<Rightarrow>
          (w1, if status_2xx statusCode then
                 (case body of
                    None \<Rightarrow> Inl RJsonSerdesErr
                  | Some r \<Rightarrow> Inr (persistedToDomain i toPersist (EsUpdateResponse_Version r)))
               else Inl RElasticsearchErr))"

definition rCreate ::
  "'w recurring_env \<Rightarrow> NewRTask \<Rightarrow> 'w \<Rightarrow> 'w \<times> (recurring_error + RTask)" where
  "rCreate e t w =
     (let (w1, now) = getUTC e w; toPersist = newToPersistable now t in
      case CreateRequest e TasquesRecurringTasksIndex (nrID t) toPersist w1 of
        (w2, NoResponse) \<Rightarrow> (w2, Inl RElasticsearchErr)
      | (w2, Response statusCode body) \<Rightarrow>
          if status_2xx statusCode then
            (w2, case body of
                   None \<Rightarrow> Inl RJsonSerdesErr
                 | Some r \<Rightarrow> Inr (persistedToDomain (nrID t) toPersist (EsCreateResponse_Version r)))
          else if statusCode = 409 then
            (case rGet e (nrID t) True w2 of
               (w3, Inr existing) \<Rightarrow>
                 if rtIsDeleted existing then reindex e (nrID t) toPersist w3
                 else (w3, Inl (RAlreadyExists (nrID t)))
             | (w3, Inl err) \<Rightarrow> (w3, Inl err))
          else (w2, Inl RElasticsearchErr))"

definition rUpdate ::
  "'w recurring_env \<Rightarrow> RTask \<Rightarrow> 'w \<Rightarrow> 'w \<times> (recurring_error + RTask)" where
  "rUpdate e update w =
     (let (w1, now) = getUTC e w;
          update' = update\<lparr>rtLoadedAt := None\<rparr>;
          toPersist = domainToPersistable update' now
      in case IndexRequest e TasquesRecurringTasksIndex (rtID update') toPersist
                (Some (lock_data (rt_version update'))) w1 of
           (w2, NoResponse) \<Rightarrow> (w2, Inl RElasticsearchErr)
         | (w2, Response respStatus body) \<Rightarrow>
             (w2, if status_2xx respStatus then
                    (case body of
                       None \<Rightarrow> Inl RJsonSerdesErr
                     | Some r \<Rightarrow> Inr (set_rt_version (EsUpdateResponse_Version r) update'))
                  else if respStatus = 409 then Inl (RInvalidVersion (rtID update'))
                  else if respStatus = 404 then Inl (RNotFound (rtID update'))
                  else Inl RElasticsearchErr))"

text \<open>\<open>Update\<close> works on the task \<open>Delete\<close> holds a pointer to, so that one is returned updated.\<close>

definition rDelete ::
  "'w recurring_env \<Rightarrow> recurring_id \<Rightarrow> 'w \<Rightarrow> 'w \<times> (recurring_error + RTask)" where
  "rDelete e i w =
     (case rGet e i False w of
        (w1, Inl err) \<Rightarrow> (w1, Inl err)
      | (w1, Inr existing) \<Rightarrow> rUpdate e (IntoDeleted existing) w1)"

section \<open>Listing\<close>

definition rProcessScrollResp ::
  "(string \<times> recurring_hit list) es_reply \<Rightarrow> recurring_error + string \<times> RTask list" where
  "rProcessScrollResp rawResp =
     (case rawResp of
        NoResponse \<Rightarrow> Inl RElasticsearchErr
      | Response statusCode body \<Rightarrow>
          if statusCode = 200 then
            (case body of
               None \<Rightarrow> Inl RJsonSerdesErr
             | Some (scrollId, hits) \<Rightarrow> Inr (scrollId, map hit_toDomainTask hits))
          else Inl RElasticsearchErr)"

definition rInitSearch ::
  "'w recurring_env \<Rightarrow> json \<Rightarrow> duration \<Rightarrow> 'w \<Rightarrow> 'w \<times> (recurring_error + string \<times> RTask list)" where
  "rInitSearch e searchBody scrollTtl w =
     (let (w1, rawResp) = ScrollSearchRequest e scrollTtl [TasquesRecurringTasksIndex] searchBody w
      in (w1, rProcessScrollResp rawResp))"

definition rScroll ::
  "'w recurring_env \<Rightarrow> duration \<Rightarrow> string \<Rightarrow> 'w \<Rightarrow> 'w \<times> (recurring_error + string \<times> RTask list)" where
  "rScroll e scrollTtl scrollId w =
     (let (w1, rawResp) = ScrollRequest e scrollTtl scrollId w in (w1, rProcessScrollResp rawResp))"

definition rClearScroll ::
  "'w recurring_env \<Rightarrow> string list \<Rightarrow> 'w \<Rightarrow> 'w \<times> (recurring_error + unit)" where
  "rClearScroll e scrollIds w =
     (if scrollIds \<noteq> [] then
        (case ClearScrollRequest e scrollIds w of
           (w1, NoResponse) \<Rightarrow> (w1, Inl RElasticsearchErr)
         | (w1, Response statusCode _) \<Rightarrow>
             (w1, if statusCode = 200 then Inr () else Inl RElasticsearchErr))
      else (w, Inr ()))"

text \<open>
  As for tasks, the error of the deferred \<open>clearScroll\<close> is lost. The callback of both listings
  appends to \<open>found\<close>, so it is the accumulator of the loop.
\<close>

definition scanRecurringTasks ::
  "'w recurring_env \<Rightarrow> json \<Rightarrow> duration \<Rightarrow>
     (RTask list \<Rightarrow> 's \<Rightarrow> 'w \<Rightarrow> 'w \<times> (recurring_error + 's)) \<Rightarrow> 's \<Rightarrow> 'w \<Rightarrow>
     ('w \<times> (recurring_error + 's)) option" where
  "scanRecurringTasks e searchBody scrollTtl doWithBatch acc w =
     (case rInitSearch e searchBody scrollTtl w of
        (w1, Inl err) \<Rightarrow> Some (w1, Inl err)
      | (w1, Inr (scrollId, tasks)) \<Rightarrow>
          (case scan_loop (rScroll e scrollTtl) doWithBatch scrollId tasks [scrollId] acc w1 of
             None \<Rightarrow> None
           | Some (w2, scrollIds, result) \<Rightarrow> Some (fst (rClearScroll e scrollIds w2), result)))"

definition append_found ::
  "RTask list \<Rightarrow> RTask list \<Rightarrow> 'w \<Rightarrow> 'w \<times> (recurring_error + RTask list)" where
  "append_found recurringTasks found w = (w, Inr (found @ recurringTasks))"

definition refreshIndex :: "'w recurring_env \<Rightarrow> 'w \<Rightarrow> 'w \<times> (recurring_error + unit)" where
  "refreshIndex e w =
     (case IndicesRefreshRequest e [TasquesRecurringTasksIndex] w of
        (w1, NoResponse) \<Rightarrow> (w1, Inl RElasticsearchErr)
      | (w1, Response respStatus _) \<Rightarrow>
          (w1, if status_2xx respStatus then Inr () else Inl RElasticsearchErr))"

definition rAll ::
  "'w recurring_env \<Rightarrow> u64 \<Rightarrow> duration \<Rightarrow> 'w \<Rightarrow> ('w \<times> (recurring_error + RTask list)) option" where
  "rAll e scrollPageSize scrollTtl w =
     (case refreshIndex e w of
        (w1, Inl err) \<Rightarrow> Some (w1, Inl err)
      | (w1, Inr _) \<Rightarrow>
          scanRecurringTasks e (buildUndeletedListSearchBody scrollPageSize) scrollTtl append_found [] w1)"

definition rNotLoaded ::
  "'w recurring_env \<Rightarrow> u64 \<Rightarrow> duration \<Rightarrow> 'w \<Rightarrow> ('w \<times> (recurring_error + RTask list)) option" where
  "rNotLoaded e scrollPageSize scrollTtl w =
     scanRecurringTasks e (buildNotLoadedSinceSearchBody scrollPageSize) scrollTtl append_found [] w"

section \<open>Marking as loaded\<close>

text \<open>One item of the bulk response, added to the result.\<close>

definition add_update :: "RTask \<Rightarrow> EsBulkResponseItemInfo \<Rightarrow> MultiUpdateResult \<Rightarrow> MultiUpdateResult" where
  "add_update t info res =
     (if IsOk info then
        res\<lparr>Successes := Successes res @ [set_rt_version (ItemInfo_Version info) t]\<rparr>
      else if biStatus info = 404 then res\<lparr>NotFounds := NotFounds res @ [t]\<rparr>
      else if biStatus info = 409 then res\<lparr>VersionConflicts := VersionConflicts res @ [t]\<rparr>
      else res\<lparr>Others := Others res @ [(t, biResult info)]\<rparr>)"

fun collect_updates ::
  "EsBulkResponse \<Rightarrow> nat \<Rightarrow> RTask list \<Rightarrow> MultiUpdateResult \<Rightarrow> recurring_error + MultiUpdateResult" where
  "collect_updates response idx [] res = Inr res"
| "collect_updates response idx (t # ts) res =
     (case item_info response idx of
        None \<Rightarrow> Inl RPanicked
      | Some info \<Rightarrow> collect_updates response (Suc idx) ts (add_update t info res))"

definition rMarkLoaded ::
  "'w recurring_env \<Rightarrow> RTask list \<Rightarrow> 'w \<Rightarrow> 'w \<times> (recurring_error + MultiUpdateResult)" where
  "rMarkLoaded e toMarks w =
     (let (w1, now) = getUTC e w;
          marked = map (\<lambda>t. t\<lparr>rtLoadedAt := Some now\<rparr>) toMarks
      in case BulkRequest e (buildRTasksBulkUpdateNdJsonBytes marked now) w1 of
           (w2, NoResponse) \<Rightarrow> (w2, Inl RElasticsearchErr)
         | (w2, Response statusCode body) \<Rightarrow>
             (w2, if statusCode > 299 then Inl RElasticsearchErr
                  else (case body of
                          None \<Rightarrow> Inl RJsonSerdesErr
                        | Some response \<Rightarrow> collect_updates response 0 marked no_updates)))"

definition NewRService :: "'w recurring_env \<Rightarrow> u64 \<Rightarrow> duration \<Rightarrow> 'w RService" where
  "NewRService e scrollPageSize scrollTtl = \<lparr>rsCreate = rCreate e, rsGet = rGet e,
     rsDelete = rDelete e, rsAll = rAll e scrollPageSize scrollTtl,
     rsNotLoaded = rNotLoaded e scrollPageSize scrollTtl, rsUpdate = rUpdate e,
     rsMarkLoaded = rMarkLoaded e\<rparr>"

end
