(* ===== verification/RecurringStore.thy ===== *)
theory RecurringStore
  imports EsRecurring EsStore "HOL-Library.Multiset"
begin

text \<open>
  What the recurring task service promises on a store that keeps its word (\<open>EsStore\<close>): documents
  and domain models determine each other, changes are made under optimistic locking and leave the
  task to be loaded again, and marking as loaded never hides a change made in the meantime. A
  listing returns the tasks of all pages.
\<close>

section \<open>Round trips\<close>

named_theorems recurring_defs "the conversions of recurring tasks, unfolded"

lemmas [recurring_defs] = domainTaskDefToPersistable_def persistedTaskDefToDomainTaskDef_def
  domainToPersistable_def persistedToDomain_def newToPersistable_def

lemma taskDef_roundtrips [simp]:
  "persistedTaskDefToDomainTaskDef (domainTaskDefToPersistable d) = d"
  "domainTaskDefToPersistable (persistedTaskDefToDomainTaskDef p) = p"
  by (simp_all add: recurring_defs)

text \<open>
  A recurring task stored and read back is the same task, modified at the time of
  the write and with the version it was read at; a document read and stored again differs in
  the modification time only.
\<close>

theorem recurring_roundtrip:
  "persistedToDomain (rtID t) (domainToPersistable t at) v =
     t\<lparr>rtMetadata := (rtMetadata t)\<lparr>ModifiedAt := at, metaVersion := v\<rparr>\<rparr> \<and>
   domainToPersistable (persistedToDomain i p v) at =
     p\<lparr>prMetadata := (prMetadata p)\<lparr>pmModifiedAt := at\<rparr>\<rparr>"
  by (simp add: domainToPersistable_def persistedToDomain_def)

section \<open>What the listings select\<close>

lemma recurring_fields [simp]:
  "doc_field (recurring_json p) ''is_deleted'' = Some (JBool (prIsDeleted p))"
  "doc_field (recurring_json p) ''loaded_at'' = map_option JTime (prLoadedAt p)"
  by (auto simp: doc_field_def recurring_json_def opt_field_def split: option.splits)

lemma undeleted_selects:
  "dsl_ok m \<Longrightarrow> m (query_of (buildUndeletedListSearchBody n)) (recurring_json p) \<longleftrightarrow> \<not> prIsDeleted p"
  by (simp add: query_of_def buildUndeletedListSearchBody_def dsl_simps)

lemma not_loaded_selects:
  "dsl_ok m \<Longrightarrow> m (query_of (buildNotLoadedSinceSearchBody n)) (recurring_json p) \<longleftrightarrow> prLoadedAt p = None"
  by (cases "prLoadedAt p") (simp_all add: query_of_def buildNotLoadedSinceSearchBody_def dsl_simps)

text \<open>
  Under the documented meaning of the clauses, \<open>All\<close> lists the tasks that are not
  deleted, and \<open>NotLoaded\<close> those, deleted ones included, whose latest change was not seen yet.
\<close>

theorem recurring_queries_select:
  assumes "dsl_ok m"
  shows "(m (query_of (buildUndeletedListSearchBody n)) (recurring_json p) \<longleftrightarrow> \<not> prIsDeleted p) \<and>
    (m (query_of (buildNotLoadedSinceSearchBody n)) (recurring_json p) \<longleftrightarrow> prLoadedAt p = None)"
  using assms by (simp add: undeleted_selects not_loaded_selects)

section \<open>Changes\<close>

definition recurring_store ::
  "'w recurring_env \<Rightarrow> ('w, PersistedRTask) history \<Rightarrow> bool" where
  "recurring_store e hist \<longleftrightarrow> es_grows e hist \<and> es_locks e hist"

lemma recurring_store_get:
  "recurring_store e hist \<Longrightarrow> GetRequest e ix i w = (w', Response 200 (Some h)) \<Longrightarrow>
     (Some (hSource h), hit_version h) \<in> set (hist w' (ix, i))"
  by (simp add: recurring_store_def es_locks_def)

lemma recurring_store_index:
  "recurring_store e hist \<Longrightarrow>
     IndexRequest e ix i d (Some (lock_data v)) w = (w', Response s (Some r)) \<Longrightarrow> status_2xx s \<Longrightarrow>
     \<exists>x. written_over hist w' (ix, i) (x, v) (Some d, EsUpdateResponse_Version r)"
  unfolding recurring_store_def es_locks_def by blast

lemma recurring_store_bulk:
  "recurring_store e hist \<Longrightarrow> BulkRequest e ops w = (w', Response s (Some r)) \<Longrightarrow> s \<le> 299 \<Longrightarrow>
     bulk_reply_ok hist w' ops r"
  unfolding recurring_store_def es_locks_def by (elim conjE) (metis (no_types))

lemma recurring_store_advances:
  assumes "recurring_store e hist"
  shows "advances hist w (fst (getUTC e w))" "advances hist w (fst (GetRequest e ix i w))"
    "advances hist w (fst (IndexRequest e ix i x l w))" "advances hist w (fst (BulkRequest e ops w))"
  using assms by (simp_all add: recurring_store_def es_grows_def)

lemma recurring_store_distinct: "recurring_store e hist \<Longrightarrow> distinct (map snd (hist w k))"
  unfolding recurring_store_def es_locks_def by (elim conjE) (erule allE, erule allE)

definition recurring_key :: "recurring_id \<Rightarrow> doc_key" where
  "recurring_key i = (TasquesRecurringTasksIndex, i)"

text \<open>The task was stored, as it stands, on top of the version \<open>v\<close>.\<close>

definition stored_over ::
  "('w, PersistedRTask) history \<Rightarrow> 'w \<Rightarrow> Version \<Rightarrow> RTask \<Rightarrow> bool" where
  "stored_over hist w v t \<longleftrightarrow>
     (\<exists>at x. written_over hist w (recurring_key (rtID t)) (x, v)
        (Some (domainToPersistable t at), rt_version t))"

lemma domainToPersistable_version [simp]:
  "domainToPersistable (set_rt_version v t) at = domainToPersistable t at"
  by (simp add: domainToPersistable_def set_rt_version_def)

lemma rUpdate_stored:
  assumes store: "recurring_store e hist" and upd: "rUpdate e t w = (w', Inr t')"
  shows "t' = set_rt_version (rt_version t') (t\<lparr>rtLoadedAt := None\<rparr>) \<and>
    stored_over hist w' (rt_version t) t'"
proof -
  obtain w1 now where utc: "getUTC e w = (w1, now)" by fastforce
  let ?t = "t\<lparr>rtLoadedAt := None\<rparr>"
  obtain s r where idx: "IndexRequest e TasquesRecurringTasksIndex (rtID t) (domainToPersistable ?t now)
      (Some (lock_data (rt_version t))) w1 = (w', Response s (Some r))" "status_2xx s"
    and t': "t' = set_rt_version (EsUpdateResponse_Version r) ?t"
    using upd utc
    by (auto simp: rUpdate_def Let_def rt_version_def split: prod.splits es_reply.splits option.splits if_splits)
  show ?thesis
    using recurring_store_index [OF store idx]
    unfolding t' stored_over_def recurring_key_def by auto
qed

text \<open>A get answers with the document asked for.\<close>

definition gets_by_id :: "'w recurring_env \<Rightarrow> bool" where
  "gets_by_id e \<longleftrightarrow>
     (\<forall>ix i w w' h. GetRequest e ix i w = (w', Response 200 (Some h)) \<longrightarrow> hID h = i)"

lemma rGet_found:
  assumes store: "recurring_store e hist" and ids: "gets_by_id e"
    and get: "rGet e i incl w = (w', Inr t)"
  shows "rtID t = i \<and> (rtIsDeleted t \<longrightarrow> incl) \<and>
    (\<exists>p. t = persistedToDomain i p (rt_version t) \<and> (Some p, rt_version t) \<in> set (hist w' (recurring_key i)))"
proof -
  obtain h where g: "GetRequest e TasquesRecurringTasksIndex i w = (w', Response 200 (Some h))"
    and t: "t = hit_toDomainTask h" and d: "rtIsDeleted t \<longrightarrow> incl"
    using get by (auto simp: rGet_def Let_def split: prod.splits es_reply.splits option.splits if_splits)
  have i: "hID h = i" using ids g unfolding gets_by_id_def by blast
  have p: "t = persistedToDomain i (hSource h) (hit_version h)"
    by (simp add: t hit_toDomainTask_def i)
  have v: "rt_version t = hit_version h" "rtID t = i"
    by (simp_all add: p persistedToDomain_def rt_version_def)
  have "(Some (hSource h), rt_version t) \<in> set (hist w' (recurring_key i))"
    using recurring_store_get [OF store g] v by (simp add: recurring_key_def)
  then show ?thesis using p v d by auto
qed

text \<open>A task read, changed and updated: stored directly on top of the document that was read.\<close>

lemma get_then_update:
  assumes store: "recurring_store e hist" and ids: "gets_by_id e"
    and get: "rGet e i False w = (w1, Inr t0)" and upd: "rUpdate e t w1 = (w', Inr t')"
    and t: "rtID t = i" "rt_version t = rt_version t0"
  shows "\<exists>p at. t0 = persistedToDomain i p (rt_version t0) \<and> \<not> prIsDeleted p \<and>
    t' = set_rt_version (rt_version t') (t\<lparr>rtLoadedAt := None\<rparr>) \<and>
    written_over hist w' (recurring_key i) (Some p, rt_version t0)
      (Some (domainToPersistable t' at), rt_version t')"
proof -
  obtain p where p: "t0 = persistedToDomain i p (rt_version t0)" "\<not> rtIsDeleted t0"
    and mem: "(Some p, rt_version t0) \<in> set (hist w1 (recurring_key i))"
    using rGet_found [OF store ids get] by blast
  obtain at x where t': "t' = set_rt_version (rt_version t') (t\<lparr>rtLoadedAt := None\<rparr>)"
    and over: "written_over hist w' (recurring_key (rtID t')) (x, rt_version t0)
      (Some (domainToPersistable t' at), rt_version t')"
    using rUpdate_stored [OF store upd] unfolding stored_over_def t(2) by blast
  have i: "rtID t' = i" by (subst t', simp add: set_rt_version_def t(1))
  have "advances hist w1 w'" using upd recurring_store_advances [OF store]
    by (auto simp: rUpdate_def Let_def split: prod.splits es_reply.splits option.splits if_splits)
      (metis advances_trans fst_conv)+
  then have "(Some p, rt_version t0) \<in> set (hist w' (recurring_key i))"
    using mem by (rule advances_mem)
  moreover have "(x, rt_version t0) \<in> set (hist w' (recurring_key i))"
    using written_over_mem [OF over] i by simp
  ultimately have x: "x = Some p"
    using version_unique [OF recurring_store_distinct [OF store]] by metis
  have "\<not> prIsDeleted p" using p(2) by (subst (asm) p(1), simp add: persistedToDomain_def)
  then show ?thesis using p(1) t' over [unfolded i x] by blast
qed

text \<open>
  C20: a change waits to be seen. A task updated successfully was stored directly on top of
  the version it was read at, and the document is one \<open>NotLoaded\<close> selects. A task deleted
  successfully was stored on top of a version that was not deleted, unchanged but for the
  deletion; \<open>NotLoaded\<close> selects the document, so that the scheduling process learns of the
  deletion, and \<open>All\<close> does not.
\<close>

theorem recurring_changes_pending:
  assumes store: "recurring_store e hist" and ids: "gets_by_id e" and dsl: "dsl_ok m"
  shows "(rUpdate e t w = (w', Inr t') \<longrightarrow>
      (\<exists>x doc. written_over hist w' (recurring_key (rtID t)) (x, rt_version t) (Some doc, rt_version t') \<and>
         m (query_of (buildNotLoadedSinceSearchBody n)) (recurring_json doc) \<and>
         (m (query_of (buildUndeletedListSearchBody n)) (recurring_json doc) \<longleftrightarrow> \<not> rtIsDeleted t))) \<and>
    (rDelete e i w = (w', Inr t') \<longrightarrow>
      (\<exists>p v doc. written_over hist w' (recurring_key i) (Some p, v) (Some doc, rt_version t') \<and>
         \<not> prIsDeleted p \<and> prIsDeleted doc \<and> prTaskDefinition doc = prTaskDefinition p \<and>
         prScheduleExpression doc = prScheduleExpression p \<and>
         m (query_of (buildNotLoadedSinceSearchBody n)) (recurring_json doc) \<and>
         \<not> m (query_of (buildUndeletedListSearchBody n)) (recurring_json doc)))"
proof (intro conjI impI)
  assume "rUpdate e t w = (w', Inr t')"
  from rUpdate_stored [OF store this] obtain at x where
    t': "t' = set_rt_version (rt_version t') (t\<lparr>rtLoadedAt := None\<rparr>)" and
    over: "written_over hist w' (recurring_key (rtID t')) (x, rt_version t)
      (Some (domainToPersistable t' at), rt_version t')"
    unfolding stored_over_def by blast
  have f: "rtID t' = rtID t" "rtIsDeleted t' = rtIsDeleted t" "rtLoadedAt t' = None"
    by (subst t', simp add: set_rt_version_def)+
  show "\<exists>x doc. written_over hist w' (recurring_key (rtID t)) (x, rt_version t) (Some doc, rt_version t') \<and>
         m (query_of (buildNotLoadedSinceSearchBody n)) (recurring_json doc) \<and>
         (m (query_of (buildUndeletedListSearchBody n)) (recurring_json doc) \<longleftrightarrow> \<not> rtIsDeleted t)"
    using over
    by (intro exI [of _ x] exI [of _ "domainToPersistable t' at"])
      (simp add: f undeleted_selects [OF dsl] not_loaded_selects [OF dsl] domainToPersistable_def)
next
  assume "rDelete e i w = (w', Inr t')"
  then obtain w1 t0 where get: "rGet e i False w = (w1, Inr t0)"
    and upd: "rUpdate e (IntoDeleted t0) w1 = (w', Inr t')"
    by (auto simp: rDelete_def split: prod.splits sum.splits)
  have id: "rtID t0 = i" using rGet_found [OF store ids get] by blast
  obtain p at where p: "t0 = persistedToDomain i p (rt_version t0)" "\<not> prIsDeleted p"
    and t': "t' = set_rt_version (rt_version t') ((IntoDeleted t0)\<lparr>rtLoadedAt := None\<rparr>)"
    and over: "written_over hist w' (recurring_key i) (Some p, rt_version t0)
      (Some (domainToPersistable t' at), rt_version t')"
    using get_then_update [OF store ids get upd] id by auto
  have f: "rtID t' = i" "rtIsDeleted t'" "rtLoadedAt t' = None"
    "rtTaskDefinition t' = rtTaskDefinition t0" "rtScheduleExpression t' = rtScheduleExpression t0"
    using id by (subst t', simp add: set_rt_version_def IntoDeleted_def)+
  have d: "prTaskDefinition p = domainTaskDefToPersistable (rtTaskDefinition t0)"
    "prScheduleExpression p = rtScheduleExpression t0"
    by (subst p(1), simp add: persistedToDomain_def)+
  show "\<exists>p v doc. written_over hist w' (recurring_key i) (Some p, v) (Some doc, rt_version t') \<and>
         \<not> prIsDeleted p \<and> prIsDeleted doc \<and> prTaskDefinition doc = prTaskDefinition p \<and>
         prScheduleExpression doc = prScheduleExpression p \<and>
         m (query_of (buildNotLoadedSinceSearchBody n)) (recurring_json doc) \<and>
         \<not> m (query_of (buildUndeletedListSearchBody n)) (recurring_json doc)"
    using over p(2) d
    by (intro exI [of _ p] exI [of _ "rt_version t0"] exI [of _ "domainToPersistable t' at"])
      (simp add: f undeleted_selects [OF dsl] not_loaded_selects [OF dsl] domainToPersistable_def)
qed

text \<open>A creation returns the task asked for, whether it is new or replaces a deleted one.\<close>

lemma rCreate_task:
  assumes "rCreate e n w = (w', Inr t)"
  shows "rtID t = nrID n \<and> rtScheduleExpression t = nrScheduleExpression n \<and>
    rtTaskDefinition t = nrTaskDefinition n \<and>
    rtSkipIfOutstandingTasksExist t = nrSkipIfOutstandingTasksExist n \<and> \<not> rtIsDeleted t \<and> rtLoadedAt t = None"
proof -
  obtain now v where "t = persistedToDomain (nrID n) (newToPersistable now n) v"
    using assms
    by (auto simp: rCreate_def reindex_def Let_def
        split: prod.splits es_reply.splits option.splits sum.splits if_splits)
  then show ?thesis by (simp add: persistedToDomain_def newToPersistable_def)
qed

section \<open>Marking as loaded\<close>

text \<open>The tasks of a result that were not updated, and all its tasks.\<close>

definition not_updated :: "MultiUpdateResult \<Rightarrow> RTask list" where
  "not_updated res = NotFounds res @ VersionConflicts res @ map fst (Others res)"

definition all_updates :: "MultiUpdateResult \<Rightarrow> RTask list" where
  "all_updates res = Successes res @ not_updated res"

lemma add_update_simps:
  "mset (map rtID (all_updates (add_update t info res))) = add_mset (rtID t) (mset (map rtID (all_updates res)))"
  "set (not_updated (add_update t info res)) \<subseteq> insert t (set (not_updated res))"
  "set (Successes (add_update t info res)) = set (Successes res) \<union>
     (if IsOk info then {set_rt_version (ItemInfo_Version info) t} else {})"
  by (auto simp: add_update_def all_updates_def not_updated_def)

lemma collect_updates_Inr:
  "collect_updates resp idx ts res = Inr res' \<Longrightarrow>
     mset (map rtID (all_updates res')) = mset (map rtID (all_updates res)) + mset (map rtID ts) \<and>
     set (not_updated res') \<subseteq> set (not_updated res) \<union> set ts \<and>
     (\<forall>t \<in> set (Successes res'). t \<in> set (Successes res) \<or>
        (\<exists>j info. j < length ts \<and> item_info resp (idx + j) = Some info \<and> IsOk info \<and>
           t = set_rt_version (ItemInfo_Version info) (ts ! j)))"
proof (induction ts arbitrary: idx res)
  case Nil
  then show ?case by simp
next
  case (Cons t ts)
  then obtain info where info: "item_info resp idx = Some info"
    and rest: "collect_updates resp (Suc idx) ts (add_update t info res) = Inr res'"
    by (auto split: option.splits)
  note IH = Cons.IH [OF rest]
  have "u \<in> set (Successes res) \<or> (\<exists>j info. j < length (t # ts) \<and> item_info resp (idx + j) = Some info \<and>
      IsOk info \<and> u = set_rt_version (ItemInfo_Version info) ((t # ts) ! j))"
    if u: "u \<in> set (Successes res')" for u
  proof (cases "u \<in> set (Successes (add_update t info res))")
    case True
    then show ?thesis
      using info by (auto simp: add_update_simps split: if_splits intro: exI [of _ 0])
  next
    case False
    then obtain j info' where "j < length ts" "item_info resp (Suc idx + j) = Some info'" "IsOk info'"
        "u = set_rt_version (ItemInfo_Version info') (ts ! j)"
      using IH u by blast
    then show ?thesis by (intro disjI2 exI [of _ "Suc j"] exI [of _ info']) simp
  qed
  moreover have "set (not_updated res') \<subseteq> set (not_updated res) \<union> set (t # ts)"
    using IH add_update_simps(2) [of t info res] by auto
  moreover have "mset (map rtID (all_updates res')) = mset (map rtID (all_updates res)) + mset (map rtID (t # ts))"
    using IH add_update_simps(1) [of t info res] by simp
  ultimately show ?case by blast
qed

definition mark_at :: "time \<Rightarrow> RTask \<Rightarrow> RTask" where
  "mark_at now t = t\<lparr>rtLoadedAt := Some now\<rparr>"

lemma mark_at_simps [simp]:
  "rtID (mark_at now t) = rtID t" "rtIsDeleted (mark_at now t) = rtIsDeleted t"
  "rt_version (mark_at now t) = rt_version t" "rtLoadedAt (mark_at now t) = Some now"
  by (simp_all add: mark_at_def rt_version_def)

lemma rMarkLoaded_Inr:
  assumes "rMarkLoaded e ts w = (w', Inr res)"
  shows "\<exists>now w1 s resp. BulkRequest e (map (recurring_bulk_op now) (map (mark_at now) ts)) w1 =
      (w', Response s (Some resp)) \<and> s \<le> 299 \<and> collect_updates resp 0 (map (mark_at now) ts) no_updates = Inr res"
proof -
  obtain w1 now where utc: "getUTC e w = (w1, now)" by fastforce
  have mark: "map (\<lambda>t. t\<lparr>rtLoadedAt := Some now\<rparr>) ts = map (mark_at now) ts"
    by (simp add: mark_at_def)
  obtain s resp where "BulkRequest e (map (recurring_bulk_op now) (map (mark_at now) ts)) w1 =
      (w', Response s (Some resp))" "s \<le> 299" "collect_updates resp 0 (map (mark_at now) ts) no_updates = Inr res"
    using assms unfolding rMarkLoaded_def utc Let_def prod.case mark
    by (auto simp del: map_map split: prod.splits es_reply.splits option.splits if_splits)
  then show ?thesis by blast
qed

lemma all_no_updates [simp]: "all_updates no_updates = []" "not_updated no_updates = []" "Successes no_updates = []"
  by (simp_all add: all_updates_def not_updated_def no_updates_def)

text \<open>The ids marked are the ids of the result, each once.\<close>

lemma rMarkLoaded_ids:
  "rMarkLoaded e ts w = (w', Inr res) \<Longrightarrow> mset (map rtID (all_updates res)) = mset (map rtID ts)"
proof -
  assume mark: "rMarkLoaded e ts w = (w', Inr res)"
  obtain now resp where "collect_updates resp 0 (map (mark_at now) ts) no_updates = Inr res"
    using rMarkLoaded_Inr [OF mark] by (elim exE conjE)
  from collect_updates_Inr [OF this] show ?thesis by (simp add: o_def)
qed

text \<open>
  C10: marking as loaded never hides a change. Every task reported as a success is one of
  those passed in, and the mark was stored directly on top of the version passed in: whatever
  changed the task after it was read makes the mark fail, and the change stays to be loaded. Every
  other task is reported once, as a conflict, as missing or as another error.
\<close>

theorem mark_loaded_hides_nothing:
  assumes store: "recurring_store e hist" and mark: "rMarkLoaded e ts w = (w', Inr res)"
  shows "(\<forall>t \<in> set (Successes res). \<exists>t0 \<in> set ts. \<exists>now x.
      t = set_rt_version (rt_version t) (mark_at now t0) \<and>
      written_over hist w' (recurring_key (rtID t0)) (x, rt_version t0)
        (Some (domainToPersistable (mark_at now t0) now), rt_version t)) \<and>
    mset (map rtID (all_updates res)) = mset (map rtID ts)"
proof -
  obtain now w1 s resp where
    bulk: "BulkRequest e (map (recurring_bulk_op now) (map (mark_at now) ts)) w1 = (w', Response s (Some resp))"
      "s \<le> 299" and
    coll: "collect_updates resp 0 (map (mark_at now) ts) no_updates = Inr res"
    using rMarkLoaded_Inr [OF mark] by blast
  have "\<exists>t0 \<in> set ts. \<exists>now x. t = set_rt_version (rt_version t) (mark_at now t0) \<and>
      written_over hist w' (recurring_key (rtID t0)) (x, rt_version t0)
        (Some (domainToPersistable (mark_at now t0) now), rt_version t)"
    if t: "t \<in> set (Successes res)" for t
  proof -
    obtain j info where j: "j < length ts" and info: "item_info resp j = Some info" "IsOk info"
      and eq: "t = set_rt_version (ItemInfo_Version info) (mark_at now (ts ! j))"
      using collect_updates_Inr [OF coll] t by fastforce
    have op: "map (recurring_bulk_op now) (map (mark_at now) ts) ! j = BulkIndex (rtID (ts ! j))
        TasquesRecurringTasksIndex (SeqNum (rt_version (ts ! j))) (PrimaryTerm (rt_version (ts ! j)))
        (domainToPersistable (mark_at now (ts ! j)) now)"
      using j by (simp add: recurring_bulk_op_def)
    have "\<exists>x. written_over hist w' (TasquesRecurringTasksIndex, rtID (ts ! j))
        (x, \<lparr>SeqNum = SeqNum (rt_version (ts ! j)), PrimaryTerm = PrimaryTerm (rt_version (ts ! j))\<rparr>)
        (Some (domainToPersistable (mark_at now (ts ! j)) now), ItemInfo_Version info)"
      using recurring_store_bulk [OF store bulk] j op info
      unfolding bulk_reply_ok_def by (metis length_map)
    moreover have "\<lparr>SeqNum = SeqNum (rt_version (ts ! j)), PrimaryTerm = PrimaryTerm (rt_version (ts ! j))\<rparr>
        = rt_version (ts ! j)" by simp
    ultimately show ?thesis
      using j by (intro bexI [of _ "ts ! j"] exI [of _ now]) (auto simp only: eq recurring_key_def
          recurring_updates nth_mem)
  qed
  then show ?thesis using rMarkLoaded_ids [OF mark] by blast
qed

end
