(* ===== verification/Scans.thy ===== *)
theory Scans
  imports RecurringStore EsLocking
begin

text \<open>
  The scans of both services, and the jobs built on them: a scan that succeeds has handled every
  page of the scroll, in order, up to the first empty one; a listing returns the tasks of all
  pages; and the reaper fails every claim of a page on behalf of its worker.
\<close>

section \<open>Scroll sessions\<close>

text \<open>
  The run of a scan that meets no error: the pages handled and the scroll ids seen after the
  first one.
\<close>

inductive scan_session ::
  "(string \<Rightarrow> 'w \<Rightarrow> 'w \<times> ('e + string \<times> 'a list)) \<Rightarrow> ('a list \<Rightarrow> 's \<Rightarrow> 'w \<Rightarrow> 'w \<times> ('e + 's)) \<Rightarrow>
   string \<Rightarrow> 'a list \<Rightarrow> 's \<Rightarrow> 'w \<Rightarrow> 'a list list \<Rightarrow> string list \<Rightarrow> 's \<Rightarrow> 'w \<Rightarrow> bool"
  for "next" and f where
  session_end: "scan_session next f sid [] acc w [] [] acc w"
| session_page: "batch \<noteq> [] \<Longrightarrow> f batch acc w = (w1, Inr acc1) \<Longrightarrow> next sid w1 = (w2, Inr (sid', batch')) \<Longrightarrow>
    scan_session next f sid' batch' acc1 w2 pages sids acc' w' \<Longrightarrow>
    scan_session next f sid batch acc w (batch # pages) (sid' # sids) acc' w'"

inductive_cases session_cases: "scan_session next f sid batch acc w pages sids acc' w'"

lemma session_scan_loop:
  "scan_session next f sid batch acc w pages sids acc' w' \<Longrightarrow>
     scan_loop next f sid batch ids acc w = Some (w', ids @ sids, Inr acc')"
proof (induction arbitrary: ids rule: scan_session.induct)
  case session_end
  then show ?case by (simp add: scan_loop.simps)
next
  case (session_page batch acc w w1 acc1 sid w2 sid' batch' pages sids acc' w')
  then show ?case by (subst scan_loop.simps) simp
qed

lemmas scan_loop_induct = scan_loop.raw_induct [rotated, consumes 1, case_names step]

lemma scan_loop_session:
  "scan_loop next f sid batch ids acc w = Some y \<Longrightarrow> snd (snd y) = Inr acc' \<Longrightarrow>
     \<exists>pages sids. scan_session next f sid batch acc w pages sids acc' (fst y) \<and> fst (snd y) = ids @ sids"
proof (induction rule: scan_loop_induct)
  case (step loop "next" f sid batch ids acc w y)
  show ?case
  proof (cases "batch = []")
    case True
    then have "y = (w, ids, Inr acc)" using step.hyps by simp
    then show ?thesis using True step.prems session_end [of "next" f sid acc w] by auto
  next
    case False
    then obtain w1 acc1 w2 sid' batch' where
      page: "f batch acc w = (w1, Inr acc1)" "next sid w1 = (w2, Inr (sid', batch'))" and
      rest: "loop next f sid' batch' (ids @ [sid']) acc1 w2 = Some y"
      using step.hyps step.prems by (auto split: prod.splits sum.splits)
    from step.IH [OF rest step.prems] obtain pages sids where
      s: "scan_session next f sid' batch' acc1 w2 pages sids acc' (fst y)" "fst (snd y) = (ids @ [sid']) @ sids"
      by blast
    have "scan_session next f sid batch acc w (batch # pages) (sid' # sids) acc' (fst y)"
      using False page s(1) by (rule session_page)
    moreover have "fst (snd y) = ids @ (sid' # sids)" using s(2) by simp
    ultimately show ?thesis by blast
  qed
qed

lemma scan_loop_iff:
  "(\<exists>sids. scan_loop next f sid batch ids acc w = Some (w', ids @ sids, Inr acc')) \<longleftrightarrow>
     (\<exists>pages sids. scan_session next f sid batch acc w pages sids acc' w')"
  using scan_loop_session [of "next" f sid batch ids acc w _ acc'] session_scan_loop
  by fastforce

section \<open>The listings\<close>

lemma append_session:
  "scan_session next append_found sid batch acc w pages sids acc' w' \<Longrightarrow> acc' = acc @ concat pages"
  by (induction rule: scan_session.induct) (auto simp: append_found_def)

text \<open>The pages of a listing: the first reply of the scroll, and the replies that follow it.\<close>

definition lists ::
  "'w recurring_env \<Rightarrow> json \<Rightarrow> duration \<Rightarrow> 'w \<Rightarrow> RTask list list \<Rightarrow> bool" where
  "lists e body ttl w pages \<longleftrightarrow>
     (\<exists>w1 sid batch sids w2. rInitSearch e body ttl w = (w1, Inr (sid, batch)) \<and>
        scan_session (rScroll e ttl) append_found sid batch [] w1 pages sids (concat pages) w2)"

lemma scan_lists:
  "(\<exists>w'. scanRecurringTasks e body ttl append_found [] w = Some (w', Inr found)) \<longleftrightarrow>
     (\<exists>pages. lists e body ttl w pages \<and> found = concat pages)"
proof
  assume "\<exists>w'. scanRecurringTasks e body ttl append_found [] w = Some (w', Inr found)"
  then obtain w1 sid batch w2 ids where init: "rInitSearch e body ttl w = (w1, Inr (sid, batch))"
    and loop: "scan_loop (rScroll e ttl) append_found sid batch [sid] [] w1 = Some (w2, ids, Inr found)"
    by (auto simp: scanRecurringTasks_def split: prod.splits sum.splits option.splits)
  obtain pages sids where s: "scan_session (rScroll e ttl) append_found sid batch [] w1 pages sids found w2"
    using scan_loop_session [OF loop] by auto
  have "found = concat pages" using append_session [OF s] by simp
  with init s show "\<exists>pages. lists e body ttl w pages \<and> found = concat pages"
    unfolding lists_def by blast
next
  assume "\<exists>pages. lists e body ttl w pages \<and> found = concat pages"
  then obtain pages w1 sid batch sids w2 where init: "rInitSearch e body ttl w = (w1, Inr (sid, batch))"
    and s: "scan_session (rScroll e ttl) append_found sid batch [] w1 pages sids found w2"
    unfolding lists_def by blast
  show "\<exists>w'. scanRecurringTasks e body ttl append_found [] w = Some (w', Inr found)"
    using init session_scan_loop [OF s, of "[sid]"] by (simp add: scanRecurringTasks_def)
qed

text \<open>
  \<open>All\<close> returns the tasks of all pages of its search, from the first to the one before
  the first empty page, and it returns them exactly if no request of the session fails; so does
  \<open>NotLoaded\<close>.
\<close>

theorem recurring_listings_complete:
  "((\<exists>w'. rAll e n ttl w = Some (w', Inr found)) \<longleftrightarrow>
      (\<exists>w1 pages. refreshIndex e w = (w1, Inr ()) \<and>
         lists e (buildUndeletedListSearchBody n) ttl w1 pages \<and> found = concat pages)) \<and>
   ((\<exists>w'. rNotLoaded e n ttl w = Some (w', Inr found)) \<longleftrightarrow>
      (\<exists>pages. lists e (buildNotLoadedSinceSearchBody n) ttl w pages \<and> found = concat pages))"
proof (rule conjI)
  obtain w1 r where ref: "refreshIndex e w = (w1, r)" by fastforce
  show "(\<exists>w'. rAll e n ttl w = Some (w', Inr found)) \<longleftrightarrow>
      (\<exists>w1 pages. refreshIndex e w = (w1, Inr ()) \<and>
         lists e (buildUndeletedListSearchBody n) ttl w1 pages \<and> found = concat pages)"
    using scan_lists [of e "buildUndeletedListSearchBody n" ttl w1 found]
    by (cases r) (simp_all add: rAll_def ref)
next
  show "(\<exists>w'. rNotLoaded e n ttl w = Some (w', Inr found)) \<longleftrightarrow>
      (\<exists>pages. lists e (buildNotLoadedSinceSearchBody n) ttl w pages \<and> found = concat pages)"
    using scan_lists [of e "buildNotLoadedSinceSearchBody n" ttl w found] by (simp add: rNotLoaded_def)
qed

section \<open>The reaper\<close>

lemma session_pages:
  "scan_session next f sid batch acc w pages sids acc' w' \<Longrightarrow> ts \<in> set pages \<Longrightarrow>
     ts \<noteq> [] \<and> (\<exists>a v v' a'. f ts a v = (v', Inr a'))"
  by (induction rule: scan_session.induct) auto

lemma session_complete:
  "scan_session next f sid batch acc w pages sids acc' w' \<Longrightarrow>
     (pages = [] \<longleftrightarrow> batch = []) \<and> (batch \<noteq> [] \<longrightarrow> hd pages = batch)"
  by (induction rule: scan_session.induct) auto

text \<open>The task \<open>t\<close>, failed on behalf of the worker that holds it.\<close>

definition timed_out :: "time \<Rightarrow> Task \<Rightarrow> Task \<Rightarrow> bool" where
  "timed_out now t u \<longleftrightarrow> (\<exists>r wid u0. owner t = Some wid \<and>
     IntoFailed r wid now (Some timed_out_failure) t = Inr u0 \<and> u = set_modified now u0)"

lemma timed_out_state:
  "timed_out now t u \<Longrightarrow> tState u = (if RemainingAttempts t > 0 then FAILED else DEAD) \<and>
     owner u = owner t \<and> task_key u = task_key t \<and> version_of u = version_of t"
  by (auto simp: timed_out_def IntoFailed_def check_claim_def owner_def task_key_def version_of_def
      set_modified_def Let_def split: if_splits option.splits)

lemma claimed_can_time_out:
  "tState t = CLAIMED \<Longrightarrow> tLastClaimed t = Some lc \<Longrightarrow>
     IntoFailed_draw e (lcWorkerId lc) now d t w = (w', r) \<Longrightarrow>
     \<exists>u k. r = Inr u \<and> IntoFailed k (lcWorkerId lc) now d t = Inr u"
  by (erule IntoFailed_draw_cases) (auto simp: IntoFailed_def check_claim_def Let_def)

lemma time_out_each_all:
  "\<forall>t \<in> set ts. tState t = CLAIMED \<and> tLastClaimed t \<noteq> None \<Longrightarrow> time_out_each e now ts w = (w', us) \<Longrightarrow>
     list_all2 (timed_out now) ts us"
proof (induction ts arbitrary: w w' us)
  case Nil
  then show ?case by simp
next
  case (Cons t ts)
  obtain lc where lc: "tLastClaimed t = Some lc" "tState t = CLAIMED" using Cons.prems(1) by auto
  obtain w1 r where d: "IntoFailed_draw e (lcWorkerId lc) now (Some timed_out_failure) t w = (w1, r)"
    by fastforce
  obtain u k where u: "r = Inr u" "IntoFailed k (lcWorkerId lc) now (Some timed_out_failure) t = Inr u"
    using claimed_can_time_out [OF lc(2,1) d] by blast
  obtain w2 rest where rest: "time_out_each e now ts w1 = (w2, rest)" by fastforce
  have "us = set_modified now u # rest" using Cons.prems(2) lc d u rest by simp
  moreover have "timed_out now t (set_modified now u)"
    using u(2) lc(1) unfolding timed_out_def owner_def by auto
  ultimately show ?case using Cons.IH [OF _ rest] Cons.prems(1) by simp
qed

lemma reap_batch_sends:
  assumes store: "task_store e hist" and reap: "reap_batch e now ts w = (w', Inr ())"
    and claimed: "\<forall>t \<in> set ts. tState t = CLAIMED \<and> tLastClaimed t \<noteq> None"
  shows "\<exists>us v s r. list_all2 (timed_out now) ts us \<and>
    BulkRequest e (map buildUpdateBulkOp us) v = (w', Response s (Some r)) \<and>
    (\<forall>j < length ts. \<forall>info. item_info r j = Some info \<longrightarrow> IsOk info \<longrightarrow>
       (\<exists>x. written_over hist w' (task_key (ts ! j)) (x, version_of (ts ! j))
          (Some (ToPersistedTask (us ! j)), ItemInfo_Version info)))"
proof -
  obtain v us where each: "time_out_each e now ts w = (v, us)" by fastforce
  obtain s r where bulk: "BulkRequest e (map buildUpdateBulkOp us) v = (w', Response s (Some r))" "s \<le> 299"
    using reap each
    by (auto simp: reap_batch_def Let_def bulkUpdateTasks_def sendBulk_def buildTasksBulkUpdateNdJson_def
        result_simps split: prod.splits es_reply.splits option.splits if_splits)
  have all: "list_all2 (timed_out now) ts us" by (rule time_out_each_all [OF claimed each])
  have "\<exists>x. written_over hist w' (task_key (ts ! j)) (x, version_of (ts ! j))
      (Some (ToPersistedTask (us ! j)), ItemInfo_Version info)"
    if j: "j < length ts" and info: "item_info r j = Some info" "IsOk info" for j info
  proof -
    have l: "j < length us" using j list_all2_lengthD [OF all] by simp
    have t: "task_key (us ! j) = task_key (ts ! j)" "version_of (us ! j) = version_of (ts ! j)"
      using timed_out_state list_all2_nthD [OF all j] by blast+
    have "map buildUpdateBulkOp us ! j = BulkIndex (tID (us ! j)) (BuildIndexName (tQueue (us ! j)))
        (SeqNum (version_of (us ! j))) (PrimaryTerm (version_of (us ! j))) (ToPersistedTask (us ! j))"
      using l by (simp add: buildUpdateBulkOp_def version_of_def)
    then have "\<exists>x. written_over hist w' (task_key (us ! j)) (x, \<lparr>SeqNum = SeqNum (version_of (us ! j)),
        PrimaryTerm = PrimaryTerm (version_of (us ! j))\<rparr>)
        (Some (ToPersistedTask (us ! j)), ItemInfo_Version info)"
      using task_store_bulk [OF store bulk] l info
      unfolding bulk_reply_ok_def task_key_def by (metis length_map)
    moreover have "\<lparr>SeqNum = SeqNum (version_of (us ! j)), PrimaryTerm = PrimaryTerm (version_of (us ! j))\<rparr>
        = version_of (us ! j)" by simp
    ultimately show ?thesis by (simp only: t)
  qed
  then show ?thesis using all bulk by blast
qed

text \<open>
  C18: when the reaper succeeds it has handled every page of the search for timed-out claims,
  and of a page of claims it has sent every one, failed on behalf of the worker that holds it: as
  failed if it may be retried, as dead if not. Each that Elasticsearch accepts was stored directly
  on top of the version searched, so a worker that reported in or finished first is not overruled.
\<close>

theorem reaper_fails_timed_out:
  assumes store: "task_store e hist" and reap: "EsReapTimedOutTasks e n ttl w = Some (w', Inr ())"
  shows "\<exists>w1 now w2 sid batch sids pages w3. getUTC e w = (w1, now) \<and>
    initSearch e (buildTimedOutSearchBody now n) ttl w1 = (w2, Inr (sid, batch)) \<and>
    scan_session (scroll e ttl) (\<lambda>ts _. reap_batch e now ts) sid batch () w2 pages sids () w3 \<and>
    (\<forall>ts \<in> set pages. (\<forall>t \<in> set ts. tState t = CLAIMED \<and> tLastClaimed t \<noteq> None) \<longrightarrow>
       (\<exists>us v v' s r. list_all2 (timed_out now) ts us \<and>
          list_all2 (\<lambda>t u. tState u = (if RemainingAttempts t > 0 then FAILED else DEAD) \<and> owner u = owner t) ts us \<and>
          BulkRequest e (map buildUpdateBulkOp us) v = (v', Response s (Some r)) \<and>
          (\<forall>j < length ts. \<forall>info. item_info r j = Some info \<longrightarrow> IsOk info \<longrightarrow>
             (\<exists>x. written_over hist v' (task_key (ts ! j)) (x, version_of (ts ! j))
                (Some (ToPersistedTask (us ! j)), ItemInfo_Version info)))))"
proof -
  obtain w1 now where utc: "getUTC e w = (w1, now)" by fastforce
  obtain w2 sid batch w3 ids where init: "initSearch e (buildTimedOutSearchBody now n) ttl w1 = (w2, Inr (sid, batch))"
    and loop: "scan_loop (scroll e ttl) (\<lambda>ts _. reap_batch e now ts) sid batch [sid] () w2 = Some (w3, ids, Inr ())"
    using reap utc
    by (auto simp: EsReapTimedOutTasks_def scanTasks_def split: prod.splits sum.splits option.splits)
  obtain pages sids where
    s: "scan_session (scroll e ttl) (\<lambda>ts _. reap_batch e now ts) sid batch () w2 pages sids () w3"
    using scan_loop_session [OF loop] by auto
  have "\<exists>us v v' s r. list_all2 (timed_out now) ts us \<and>
      list_all2 (\<lambda>t u. tState u = (if RemainingAttempts t > 0 then FAILED else DEAD) \<and> owner u = owner t) ts us \<and>
      BulkRequest e (map buildUpdateBulkOp us) v = (v', Response s (Some r)) \<and>
      (\<forall>j < length ts. \<forall>info. item_info r j = Some info \<longrightarrow> IsOk info \<longrightarrow>
         (\<exists>x. written_over hist v' (task_key (ts ! j)) (x, version_of (ts ! j))
            (Some (ToPersistedTask (us ! j)), ItemInfo_Version info)))"
    if ts: "ts \<in> set pages" "\<forall>t \<in> set ts. tState t = CLAIMED \<and> tLastClaimed t \<noteq> None" for ts
  proof -
    obtain v v' where "reap_batch e now ts v = (v', Inr ())" using session_pages [OF s ts(1)] by auto
    from reap_batch_sends [OF store this ts(2)] obtain us v0 s r where us: "list_all2 (timed_out now) ts us"
      and sent: "BulkRequest e (map buildUpdateBulkOp us) v0 = (v', Response s (Some r))"
        "\<forall>j < length ts. \<forall>info. item_info r j = Some info \<longrightarrow> IsOk info \<longrightarrow>
         (\<exists>x. written_over hist v' (task_key (ts ! j)) (x, version_of (ts ! j))
            (Some (ToPersistedTask (us ! j)), ItemInfo_Version info))"
      by blast
    have "list_all2 (\<lambda>t u. tState u = (if RemainingAttempts t > 0 then FAILED else DEAD) \<and> owner u = owner t) ts us"
      by (rule list_all2_mono [OF us]) (simp add: timed_out_state)
    with us sent show ?thesis by blast
  qed
  then show ?thesis using utc init s by blast
qed

end
