(* ===== verification/Archiver.thy ===== *)
theory Archiver
  imports Scans
begin

text \<open>
  The archiver (\<open>ArchiveOldTasks\<close> of \<open>internal/infra/elasticsearch/task/service.go\<close>): every task
  of a page is sent as two lines of one bulk request, a deletion under optimistic locking and an
  insertion into the archive. What is deleted is exactly what is sent to the archive; but nothing
  ties the two lines together, and the replies to them are not read.
\<close>

section \<open>The documented behaviour it relies on\<close>

text \<open>
  The service opens its scrolls on the pattern of the queues, so what they return are documents
  of queues.
\<close>

definition found_in_queue :: "('w, 'd) history \<Rightarrow> 'w \<Rightarrow> 'd es_hit \<Rightarrow> bool" where
  "found_in_queue hist w h \<longleftrightarrow> (Some (hSource h), hit_version h) \<in> set (hist w (hIndex h, hID h)) \<and>
     prefix TasquesQueuePrefix (hIndex h)"

text \<open>A document of a queue lies at its own key: the indices of the queues have no other writers.\<close>

definition queues_placed :: "('w, PersistedTaskData) history \<Rightarrow> bool" where
  "queues_placed hist \<longleftrightarrow> (\<forall>w k d v. (Some d, v) \<in> set (hist w k) \<longrightarrow> prefix TasquesQueuePrefix (fst k) \<longrightarrow>
     k = (BuildIndexName (pQueue d), pId d))"

text \<open>
  A line of a bulk request whose reply is a success has been applied: a deletion with locking
  data on top of the version it names, an insertion under an id of its own.
\<close>

definition bulk_applied :: "('w, 'd) history \<Rightarrow> 'w \<Rightarrow> 'd bulk_op \<Rightarrow> EsBulkResponseItemInfo \<Rightarrow> bool" where
  "bulk_applied hist w op info =
     (case op of
        BulkIndex i ix sn pt d \<Rightarrow>
          (\<exists>x. written_over hist w (ix, i) (x, \<lparr>SeqNum = sn, PrimaryTerm = pt\<rparr>) (Some d, ItemInfo_Version info))
      | BulkDelete i ix sn pt \<Rightarrow>
          (\<exists>x. written_over hist w (ix, i) (x, \<lparr>SeqNum = sn, PrimaryTerm = pt\<rparr>) (None, ItemInfo_Version info))
      | BulkInsert ix d \<Rightarrow> (Some d, ItemInfo_Version info) \<in> set (hist w (ix, biID info)))"

definition archive_store :: "'w task_env \<Rightarrow> ('w, PersistedTaskData) history \<Rightarrow> bool" where
  "archive_store e hist \<longleftrightarrow> task_store e hist \<and> queues_placed hist \<and>
     (\<forall>ttl q w w' sid hs h. ScrollSearchRequest e ttl [allTaskqueueQueuesPattern] q w = (w', Response 200 (Some (sid, hs))) \<longrightarrow>
        h \<in> set hs \<longrightarrow> found_in_queue hist w' h) \<and>
     (\<forall>ttl i w w' sid hs h. ScrollRequest e ttl i w = (w', Response 200 (Some (sid, hs))) \<longrightarrow>
        h \<in> set hs \<longrightarrow> found_in_queue hist w' h) \<and>
     (\<forall>w ops w' s r. BulkRequest e ops w = (w', Response s (Some r)) \<longrightarrow> s \<le> 299 \<longrightarrow>
        (\<forall>j < length ops. \<forall>info. item_info r j = Some info \<longrightarrow> IsOk info \<longrightarrow> bulk_applied hist w' (ops ! j) info))"

lemma archive_store_rules:
  assumes "archive_store e hist"
  shows "task_store e hist" "queues_placed hist"
    and "ScrollSearchRequest e ttl [allTaskqueueQueuesPattern] q w = (w', Response 200 (Some (sid, hs))) \<Longrightarrow>
      h \<in> set hs \<Longrightarrow> found_in_queue hist w' h"
    and "ScrollRequest e ttl i w = (w', Response 200 (Some (sid, hs))) \<Longrightarrow> h \<in> set hs \<Longrightarrow> found_in_queue hist w' h"
    and "BulkRequest e ops w = (w', Response s (Some r)) \<Longrightarrow> s \<le> 299 \<Longrightarrow> j < length ops \<Longrightarrow>
      item_info r j = Some info \<Longrightarrow> IsOk info \<Longrightarrow> bulk_applied hist w' (ops ! j) info"
  using assms unfolding archive_store_def by (elim conjE, metis (no_types))+

lemma task_store_grows:
  "task_store e hist \<Longrightarrow> advances hist w (fst (ScrollRequest e ttl i w))"
  "task_store e hist \<Longrightarrow> advances hist w (fst (ClearScrollRequest e is w))"
  by (simp_all add: task_store_def es_grows_def)

section \<open>One page\<close>

lemma version_eta: "\<lparr>SeqNum = SeqNum v, PrimaryTerm = PrimaryTerm v\<rparr> = (v :: Version)"
  by simp

lemma archival_lines:
  "length (buildTasksBulkArchiveNdJson ts) = 2 * length ts"
  "j < length ts \<Longrightarrow> buildTasksBulkArchiveNdJson ts ! (2 * j) = BulkDelete (tID (ts ! j)) (BuildIndexName (tQueue (ts ! j)))
     (SeqNum (version_of (ts ! j))) (PrimaryTerm (version_of (ts ! j)))"
  "j < length ts \<Longrightarrow> buildTasksBulkArchiveNdJson ts ! (2 * j + 1) =
     BulkInsert TasquesArchiveIndex (ToPersistedTask (ts ! j))"
proof (induction ts arbitrary: j)
  case (Cons t ts)
  { case 1 then show ?case using Cons by (simp add: buildTasksBulkArchiveNdJson_def buildTaskArchival_def) }
  { case 2 then show ?case using Cons(2) [of "j - 1"]
      by (cases j) (simp_all add: buildTasksBulkArchiveNdJson_def buildTaskArchival_def version_of_def) }
  { case 3 then show ?case using Cons(3) [of "j - 1"]
      by (cases j) (simp_all add: buildTasksBulkArchiveNdJson_def buildTaskArchival_def) }
qed (simp_all add: buildTasksBulkArchiveNdJson_def)

text \<open>The tasks of a page, as they were read: each is a document in the store at its version.\<close>

definition page_stored :: "('w, PersistedTaskData) history \<Rightarrow> 'w \<Rightarrow> Task list \<Rightarrow> bool" where
  "page_stored hist w ts \<longleftrightarrow>
     (\<forall>t \<in> set ts. (Some (ToPersistedTask t), version_of t) \<in> set (hist w (task_key t)))"

text \<open>
  The page was sent in one request, two lines for each task. A task whose deletion was accepted
  was deleted as it had been read, and one whose insertion was accepted is in the archive as it
  had been read.
\<close>

definition page_archived ::
  "'w task_env \<Rightarrow> ('w, PersistedTaskData) history \<Rightarrow> 'w \<Rightarrow> Task list \<Rightarrow> bool" where
  "page_archived e hist w' ts \<longleftrightarrow>
     (\<exists>v v' s r. BulkRequest e (buildTasksBulkArchiveNdJson ts) v = (v', Response s (Some r)) \<and>
        advances hist v' w' \<and> length (brItems r) = 2 * length ts \<and>
        (\<forall>j < length ts.
           (\<exists>deletion. item_info r (2 * j) = Some deletion \<and> (IsOk deletion \<longrightarrow>
              written_over hist w' (task_key (ts ! j)) (Some (ToPersistedTask (ts ! j)), version_of (ts ! j))
                (None, ItemInfo_Version deletion))) \<and>
           (\<exists>insertion. item_info r (2 * j + 1) = Some insertion \<and> (IsOk insertion \<longrightarrow>
              (\<exists>i. (Some (ToPersistedTask (ts ! j)), ItemInfo_Version insertion)
                 \<in> set (hist w' (TasquesArchiveIndex, i)))))))"

lemma page_archived_advances:
  "page_archived e hist v ts \<Longrightarrow> advances hist v w \<Longrightarrow> page_archived e hist w ts"
  unfolding page_archived_def
  by (elim exE conjE, intro exI conjI, assumption, erule (1) advances_trans, assumption)
    (meson written_over_advances advances_mem)

lemma sent_archive:
  "archive_batch e ts w = (w', Inr ()) \<longleftrightarrow>
     (\<exists>s r. BulkRequest e (buildTasksBulkArchiveNdJson ts) w = (w', Response s (Some r)) \<and> s \<le> 299)"
  by (auto simp: archive_batch_def bulkArchiveTasks_def sendBulk_def Let_def result_simps
      split: prod.splits es_reply.splits option.splits if_splits)

lemma batch_archived:
  assumes store: "archive_store e hist" and sent: "archive_batch e ts w = (w', Inr ())"
    and read: "page_stored hist w ts"
  shows "page_archived e hist w' ts"
proof -
  let ?ops = "buildTasksBulkArchiveNdJson ts"
  note laws = archive_store_rules [OF store]
  obtain s r where bulk: "BulkRequest e ?ops w = (w', Response s (Some r))" "s \<le> 299"
    using sent unfolding sent_archive by blast
  have reply: "length (brItems r) = 2 * length ts" "\<forall>it \<in> set (brItems r). Info it \<noteq> None"
    using task_store_bulk [OF laws(1) bulk] by (simp_all add: bulk_reply_ok_def archival_lines)
  have answered: "\<exists>info. item_info r (2 * j) = Some info" "\<exists>info. item_info r (2 * j + 1) = Some info"
    if "j < length ts" for j
    using that reply by (auto simp: item_info_def)
  have deleted: "written_over hist w' (task_key (ts ! j)) (Some (ToPersistedTask (ts ! j)), version_of (ts ! j)) (None, ItemInfo_Version info)"
    if j: "j < length ts" and ok: "item_info r (2 * j) = Some info" "IsOk info" for j info
  proof -
    have "bulk_applied hist w' (?ops ! (2 * j)) info"
      by (rule laws(5) [OF bulk _ ok]) (use j in \<open>simp add: archival_lines\<close>)
    then obtain x where x: "written_over hist w' (task_key (ts ! j)) (x, version_of (ts ! j)) (None, ItemInfo_Version info)"
      using j version_eta by (auto simp: bulk_applied_def archival_lines task_key_def)
    have "(Some (ToPersistedTask (ts ! j)), version_of (ts ! j)) \<in> set (hist w' (task_key (ts ! j)))"
      using read j advances_mem [OF task_store_advances(6) [OF laws(1), of w ?ops, unfolded bulk fst_conv]]
      by (simp add: page_stored_def)
    then have "x = Some (ToPersistedTask (ts ! j))"
      using version_unique [OF task_store_distinct [OF laws(1)]] written_over_mem [OF x] by blast
    with x show ?thesis by simp
  qed
  have inserted: "\<exists>i. (Some (ToPersistedTask (ts ! j)), ItemInfo_Version info) \<in> set (hist w' (TasquesArchiveIndex, i))"
    if j: "j < length ts" and ok: "item_info r (2 * j + 1) = Some info" "IsOk info" for j info
  proof -
    have "bulk_applied hist w' (?ops ! (2 * j + 1)) info"
      by (rule laws(5) [OF bulk _ ok]) (use j in \<open>simp add: archival_lines\<close>)
    then show ?thesis using archival_lines(3) [OF j] by (auto simp: bulk_applied_def)
  qed
  show ?thesis
    unfolding page_archived_def
  proof (rule exI [of _ w], rule exI [of _ w'], rule exI [of _ s], rule exI [of _ r], intro conjI allI impI)
    show "BulkRequest e ?ops w = (w', Response s (Some r))" "length (brItems r) = 2 * length ts"
      by (fact bulk(1), fact reply(1))
    fix j
    assume j: "j < length ts"
    obtain deletion insertion where items: "item_info r (2 * j) = Some deletion" "item_info r (2 * j + 1) = Some insertion"
      using answered [OF j] by blast
    show "\<exists>deletion. item_info r (2 * j) = Some deletion \<and> (IsOk deletion \<longrightarrow>
        written_over hist w' (task_key (ts ! j)) (Some (ToPersistedTask (ts ! j)), version_of (ts ! j))
          (None, ItemInfo_Version deletion))"
      using items(1) deleted [OF j items(1)] by (intro exI [of _ deletion]) blast
    show "\<exists>insertion. item_info r (2 * j + 1) = Some insertion \<and> (IsOk insertion \<longrightarrow>
        (\<exists>i. (Some (ToPersistedTask (ts ! j)), ItemInfo_Version insertion) \<in> set (hist w' (TasquesArchiveIndex, i))))"
      using items(2) inserted [OF j items(2)] by (intro exI [of _ insertion]) blast
  qed simp
qed

section \<open>The whole run\<close>

lemma hits_stored:
  assumes placed: "queues_placed hist" and hits: "\<And>h. h \<in> set hs \<Longrightarrow> found_in_queue hist w h"
  shows "page_stored hist w (map ToDomainTask hs)"
proof -
  have "(Some (hSource h), hit_version h) \<in> set (hist w (task_key (ToDomainTask h)))" if "h \<in> set hs" for h
  proof -
    have f: "(Some (hSource h), hit_version h) \<in> set (hist w (hIndex h, hID h))" "prefix TasquesQueuePrefix (hIndex h)"
      using hits [OF that] by (simp_all add: found_in_queue_def)
    then have "(hIndex h, hID h) = (BuildIndexName (pQueue (hSource h)), pId (hSource h))"
      using placed unfolding queues_placed_def by (metis fst_conv)
    moreover have "task_key (ToDomainTask h) = (BuildIndexName (pQueue (hSource h)), pId (hSource h))"
      by (simp add: task_key_def ToDomainTask_def toDomainTask_def)
    ultimately show ?thesis using f(1) by simp
  qed
  then show ?thesis by (auto simp: page_stored_def ToDomainTask_stored)
qed

lemma processed_hits:
  "processScrollResp raw = Inr (sid, ts) \<longleftrightarrow> (\<exists>hs. raw = Response 200 (Some (sid, hs)) \<and> ts = map ToDomainTask hs)"
  by (auto simp: processScrollResp_def split: es_reply.splits option.splits if_splits)

lemma scroll_stored:
  "archive_store e hist \<Longrightarrow> scroll e ttl sid w = (w', Inr (sid', ts)) \<Longrightarrow> page_stored hist w' ts \<and> advances hist w w'"
  using task_store_grows(1) [OF archive_store_rules(1), of e hist w ttl sid]
  by (auto simp: scroll_def processed_hits split: prod.splits
      intro!: hits_stored archive_store_rules(2) dest: archive_store_rules(4))

lemma search_stored:
  "archive_store e hist \<Longrightarrow> initSearch e q ttl w = (w', Inr (sid, ts)) \<Longrightarrow> page_stored hist w' ts"
  by (auto simp: initSearch_def processed_hits split: prod.splits
      intro!: hits_stored archive_store_rules(2) dest: archive_store_rules(3))

lemma archive_batch_advances:
  "archive_store e hist \<Longrightarrow> archive_batch e ts w = (w', Inr ()) \<Longrightarrow> advances hist w w'"
  using task_store_advances(6) [OF archive_store_rules(1), of e hist w "buildTasksBulkArchiveNdJson ts"]
  by (auto simp: sent_archive)

lemma session_archived:
  assumes store: "archive_store e hist"
  shows "scan_session (scroll e ttl) (\<lambda>ts _. archive_batch e ts) sid batch acc w pages sids acc' w' \<Longrightarrow>
    page_stored hist w batch \<Longrightarrow> (\<forall>ts \<in> set pages. page_archived e hist w' ts) \<and> advances hist w w'"
proof (induction rule: scan_session.induct)
  case (session_page batch acc w w1 acc1 sid w2 sid' batch' pages sids acc' w')
  have next_page: "page_stored hist w2 batch'" "advances hist w1 w2"
    using scroll_stored [OF store session_page.hyps(3)] by simp_all
  have rest: "\<forall>ts \<in> set pages. page_archived e hist w' ts" "advances hist w2 w'"
    using session_page.IH [OF next_page(1)] by simp_all
  have "page_archived e hist w1 batch"
    using batch_archived [OF store _ session_page.prems, of w1] session_page.hyps(2) by simp
  then have "page_archived e hist w' batch"
    by (rule page_archived_advances) (rule advances_trans [OF next_page(2) rest(2)])
  moreover have "advances hist w w1"
    using archive_batch_advances [OF store, of batch w w1] session_page.hyps(2) by simp
  ultimately show ?case
    using rest advances_trans [OF _ advances_trans [OF next_page(2) rest(2)]] by simp
qed simp

text \<open>
  C19: a run of the archiver that succeeds has handled every page of its search, in order, up to
  the first empty one. Each page went out as one request, and when the run is over, every task
  whose deletion was accepted is deleted, and every task whose insertion was accepted is in the
  archive, both in exactly the state in which the task was found: what is deleted is what was sent
  to the archive, never a state the task took in the meantime.
\<close>

theorem archiver_moves_tasks:
  assumes store: "archive_store e hist" and run: "EsArchiveOldTasks e before n ttl w = Some (w', Inr ())"
  shows "\<exists>w1 w2 sid batch pages sids.
    initSearch e (buildArchivableSearchBody before n) ttl w = (w1, Inr (sid, batch)) \<and>
    scan_session (scroll e ttl) (\<lambda>ts _. archive_batch e ts) sid batch () w1 pages sids () w2 \<and>
    (pages = [] \<longleftrightarrow> batch = []) \<and> (\<forall>ts \<in> set pages. page_archived e hist w' ts)"
proof -
  let ?q = "buildArchivableSearchBody before n"
  obtain w1 sid batch w2 ids where init: "initSearch e ?q ttl w = (w1, Inr (sid, batch))"
    and loop: "scan_loop (scroll e ttl) (\<lambda>ts _. archive_batch e ts) sid batch [sid] () w1 = Some (w2, ids, Inr ())"
    and last: "w' = fst (clearScroll e ids w2)"
    using run by (auto simp: EsArchiveOldTasks_def scanTasks_def split: prod.splits sum.splits option.splits)
  obtain pages sids where
    s: "scan_session (scroll e ttl) (\<lambda>ts _. archive_batch e ts) sid batch () w1 pages sids () w2"
    using scan_loop_session [OF loop] by auto
  have adv: "advances hist w2 w'"
    using task_store_grows(2) [OF archive_store_rules(1) [OF store], of w2 ids]
    by (auto simp: last clearScroll_def split: prod.splits es_reply.splits)
  have pages: "\<forall>ts \<in> set pages. page_archived e hist w' ts"
    using session_archived [OF store s search_stored [OF store init]] page_archived_advances [OF _ adv] by simp
  have "pages = [] \<longleftrightarrow> batch = []" using session_complete [OF s] by simp
  then show ?thesis using init s pages by (intro exI conjI)
qed

text \<open>The replies to the lines are not read: whatever they are, a page is a success.\<close>

lemma archive_replies_unread:
  "(\<exists>r. BulkRequest e (buildTasksBulkArchiveNdJson ts) w = (w', Response 200 (Some r))) \<Longrightarrow>
     archive_batch e ts w = (w', Inr ())"
  by (auto simp: sent_archive)

end
