(* ===== verification/ArchiverExamples.thy ===== *)
theory ArchiverExamples
  imports Archiver EsInMemory
begin

text \<open>
  The archiver run against the in-memory store of \<open>EsMemory\<close>, extended by the requests of the
  archiver: one run that moves a task, and one that loses it and succeeds all the same.
\<close>

section \<open>The store\<close>

definition mem_delete ::
  "(doc_key \<Rightarrow> 'd \<Rightarrow> bool) \<Rightarrow> doc_key \<Rightarrow> int \<times> int \<Rightarrow> 'd mem_world \<Rightarrow> 'd mem_world option" where
  "mem_delete P k l w =
     (case mem_hist P w k of
        [] \<Rightarrow> None
      | (_, v) # _ \<Rightarrow>
          (let h' = (None, next_version (length (snd w k))) # snd w k in
           if lock_data v = l \<and> key_ok P k h' then Some (fst w, (snd w)(k := h')) else None))"

definition deleted_item :: "string \<Rightarrow> string \<Rightarrow> Version \<Rightarrow> nat \<Rightarrow> EsBulkResponseItem" where
  "deleted_item ix i v st = \<lparr>itIndex = None, itDelete = Some \<lparr>biIndex = ix, biID = i, biSeqNum = SeqNum v,
       biPrimaryTerm = PrimaryTerm v, biResult = ''deleted'', biStatus = st\<rparr>,
     itCreate = None, itUpdate = None\<rparr>"

text \<open>The archived document gets the id of the task; the archive takes what \<open>P\<close> admits there.\<close>

definition archive_bulk ::
  "(doc_key \<Rightarrow> 'd \<Rightarrow> bool) \<Rightarrow> 'd bulk_op list \<Rightarrow> 'd mem_world \<Rightarrow> 'd mem_world \<times> EsBulkResponse es_reply" where
  "archive_bulk P ops w =
     (case ops of
        [BulkDelete i ix sn pt, BulkInsert ix' d] \<Rightarrow>
          (let (w1, st1) = (case mem_delete P (ix, i) (lock_data \<lparr>SeqNum = sn, PrimaryTerm = pt\<rparr>) w of
                              None \<Rightarrow> (w, 409) | Some w1 \<Rightarrow> (w1, 200));
               (w2, st2) = (case mem_write P (ix', i) d w1 of None \<Rightarrow> (w1, 400) | Some w2 \<Rightarrow> (w2, 201))
           in (w2, Response 200 (Some \<lparr>brTook = 1, brErrors = st1 \<noteq> 200 \<or> st2 \<noteq> 201,
                 brItems = [deleted_item ix i (next_version (length (snd w (ix, i)))) st1,
                   mem_item ix' i (next_version (length (snd w1 (ix', i)))) st2]\<rparr>)))
      | _ \<Rightarrow> (w, Response 400 None))"

definition archive_env :: "(doc_key \<Rightarrow> PersistedTaskData \<Rightarrow> bool) \<Rightarrow> task_world task_env" where
  "archive_env P = es_client.extend ((mem_client P [example_key])\<lparr>BulkRequest := archive_bulk P\<rparr>)
     (task_env.fields (\<lambda>w. (w, 7)) (\<lambda>q w. (w, None)) (\<lambda>q at w. w))"

section \<open>It satisfies the laws\<close>

lemma mem_delete_Some:
  "mem_delete P k (lock_data v) w = Some w' \<Longrightarrow>
     advances (mem_hist P) w w' \<and>
     (\<exists>x. written_over (mem_hist P) w' k (x, v) (None, next_version (length (snd w k))))"
proof -
  assume del: "mem_delete P k (lock_data v) w = Some w'"
  then obtain x v0 h where h: "mem_hist P w k = (x, v0) # h" and l: "lock_data v0 = lock_data v"
    by (auto simp: mem_delete_def Let_def split: list.splits if_splits)
  have v: "v0 = v" using l by (simp add: lock_data_def)
  have w': "mem_hist P w' k = (None, next_version (length (snd w k))) # mem_hist P w k"
      "k' \<noteq> k \<Longrightarrow> mem_hist P w' k' = mem_hist P w k'" for k'
    using del by (auto simp: mem_delete_def mem_hist_def key_ok_def Let_def split: list.splits if_splits)
  then have "advances (mem_hist P) w w'"
    unfolding advances_def by (metis suffix_ConsI suffix_order.refl)
  moreover have "mem_hist P w' k = [] @ (None, next_version (length (snd w k))) # (x, v) # h"
    using w'(1) h v by simp
  ultimately show ?thesis unfolding written_over_def by blast
qed

lemma archive_bulk_applied:
  assumes "archive_bulk P ops w = (w', Response s (Some r))"
  shows "advances (mem_hist P) w w' \<and> length (brItems r) = length ops \<and> (\<forall>it \<in> set (brItems r). Info it \<noteq> None) \<and>
    (\<forall>j < length ops. \<forall>info. item_info r j = Some info \<longrightarrow> IsOk info \<longrightarrow> bulk_applied (mem_hist P) w' (ops ! j) info)"
proof -
  obtain i ix sn pt ix' d where ops: "ops = [BulkDelete i ix sn pt, BulkInsert ix' d]"
    using assms by (auto simp: archive_bulk_def split: list.splits bulk_op.splits)
  define v where "v = \<lparr>SeqNum = sn, PrimaryTerm = pt\<rparr>"
  define n where "n = next_version (length (snd w (ix, i)))"
  obtain w1 st1 where del: "(case mem_delete P (ix, i) (lock_data v) w of None \<Rightarrow> (w, 409) | Some w1 \<Rightarrow> (w1, 200)) = (w1, st1 :: nat)"
    by fastforce
  define m where "m = next_version (length (snd w1 (ix', i)))"
  obtain w2 st2 where ins: "(case mem_write P (ix', i) d w1 of None \<Rightarrow> (w1, 400) | Some w2 \<Rightarrow> (w2, 201)) = (w2, st2 :: nat)"
    by fastforce
  have r: "w' = w2" "brItems r = [deleted_item ix i n st1, mem_item ix' i m st2]"
    using assms del ins by (auto simp: ops archive_bulk_def v_def n_def m_def Let_def)
  have one: "advances (mem_hist P) w w1"
    "st1 = 200 \<Longrightarrow> \<exists>x. written_over (mem_hist P) w1 (ix, i) (x, v) (None, n)"
    using del mem_delete_Some [of P "(ix, i)" v w] by (auto simp: n_def split: option.splits)
  have two: "advances (mem_hist P) w1 w2" "st2 = 201 \<Longrightarrow> (Some d, m) \<in> set (mem_hist P w2 (ix', i))"
    using ins mem_write_Some [of P "(ix', i)" d w1] mem_write_advances [of P "(ix', i)" d w1]
    by (auto simp: m_def split: option.splits)
  have deleted: "st1 = 200 \<Longrightarrow> \<exists>x. written_over (mem_hist P) w2 (ix, i) (x, v) (None, n)"
    using one(2) written_over_advances [OF _ two(1)] by blast
  have st: "st1 \<in> {200, 409}" "st2 \<in> {201, 400}" using del ins by (auto split: option.splits)
  have "bulk_applied (mem_hist P) w2 (ops ! 0) info" if "item_info r 0 = Some info" "IsOk info" for info
    using that st deleted
    by (auto simp: bulk_applied_def ops r item_info_def deleted_item_def Info_def IsOk_def ItemInfo_Version_def
        v_def [symmetric] version_eta)
  moreover have "bulk_applied (mem_hist P) w2 (ops ! 1) info" if "item_info r 1 = Some info" "IsOk info" for info
    using that st two(2)
    by (auto simp: bulk_applied_def ops r item_info_def mem_item_def Info_def IsOk_def ItemInfo_Version_def version_eta)
  moreover have "j < length ops \<longleftrightarrow> j = 0 \<or> j = 1" for j by (auto simp: ops)
  ultimately show ?thesis
    using advances_trans [OF one(1) two(1)] by (auto simp: r ops deleted_item_def mem_item_def Info_def)
qed

lemma archive_bulk_refused: "archive_bulk P ops w = (w', NoResponse) \<or> archive_bulk P ops w = (w', Response s None) \<Longrightarrow> w' = w"
  by (auto simp: archive_bulk_def Let_def split: list.splits bulk_op.splits prod.splits)

lemma archive_bulk_advances: "advances (mem_hist P) w (fst (archive_bulk P ops w))"
proof (cases "archive_bulk P ops w")
  case (Pair w' reply)
  show ?thesis
  proof (cases reply)
    case NoResponse
    then show ?thesis using Pair archive_bulk_refused [of P ops w w'] by simp
  next
    case (Response s body)
    then show ?thesis
      using Pair archive_bulk_refused [of P ops w w' s] archive_bulk_applied [of P ops w w' s]
      by (cases body) simp_all
  qed
qed

lemma archive_bulk_ok: "archive_bulk P ops w = (w', Response s (Some r)) \<Longrightarrow> bulk_reply_ok (mem_hist P) w' ops r"
  unfolding bulk_reply_ok_def
  by (drule archive_bulk_applied) (auto simp: bulk_applied_def dest!: spec)

lemma es_grows_bulk:
  assumes "es_grows e hist" and "\<And>w ops. advances hist w (fst (b ops w))"
  shows "es_grows (e\<lparr>BulkRequest := b\<rparr>) hist"
  using assms by (simp add: es_grows_def)

lemma es_locks_bulk:
  assumes "es_locks e hist"
    and "\<And>w ops w' s r. b ops w = (w', Response s (Some r)) \<Longrightarrow> s \<le> 299 \<Longrightarrow> bulk_reply_ok hist w' ops r"
  shows "es_locks (e\<lparr>BulkRequest := b\<rparr>) hist"
  using assms by (simp add: es_locks_def)

lemma archive_env_store:
  assumes "\<And>k d. P k d \<Longrightarrow> prefix TasquesQueuePrefix (fst k) \<Longrightarrow> task_at k d"
  shows "archive_store (archive_env P) (mem_hist P)"
proof -
  let ?e = "archive_env P" and ?c = "(mem_client P [example_key])\<lparr>BulkRequest := archive_bulk P\<rparr>"
  have "es_grows ?c (mem_hist P)" by (rule es_grows_bulk [OF mem_client_grows archive_bulk_advances])
  moreover have "es_locks ?c (mem_hist P)" by (rule es_locks_bulk [OF mem_client_locks archive_bulk_ok])
  ultimately have store: "task_store ?e (mem_hist P)"
    by (simp add: task_store_def es_grows_def es_locks_def archive_env_def es_client.defs task_env.defs)
  have placed: "queues_placed (mem_hist P)"
    using assms by (fastforce simp: queues_placed_def mem_hist_def key_ok_def list_all_iff task_at_def)
  have searched: "ScrollSearchRequest ?e ttl ixs q w = (w, Response 200 (Some (''s'',
      case mem_read P example_key w of None \<Rightarrow> [] | Some x \<Rightarrow> [mem_hit example_key x])))" for ttl ixs q w
    by (simp add: archive_env_def es_client.defs mem_client_def List.map_filter_def split: option.split)
  have hits: "found_in_queue (mem_hist P) w (mem_hit example_key x)" if "mem_read P example_key w = Some x" for w x
    using that mem_read_Some [of P example_key w "fst x" "snd x"]
    by (simp add: found_in_queue_def example_key_def BuildIndexName_def)
  show ?thesis
    unfolding archive_store_def
  proof (intro conjI allI impI)
    fix ttl q w w' sid hs h
    assume "ScrollSearchRequest ?e ttl [allTaskqueueQueuesPattern] q w = (w', Response 200 (Some (sid, hs)))" "h \<in> set hs"
    then show "found_in_queue (mem_hist P) w' h"
      by (auto simp: searched split: option.splits intro: hits)
  next
    fix ttl i w w' sid hs h
    assume "ScrollRequest ?e ttl i w = (w', Response 200 (Some (sid, hs)))" "h \<in> set hs"
    then show "found_in_queue (mem_hist P) w' h"
      by (simp add: archive_env_def es_client.defs mem_client_def)
  next
    fix w ops w' s r j info
    assume "BulkRequest ?e ops w = (w', Response s (Some r))" "j < length ops" "item_info r j = Some info" "IsOk info"
    then show "bulk_applied (mem_hist P) w' (ops ! j) info"
      using archive_bulk_applied [of P ops w w' s r] by (simp add: archive_env_def es_client.defs)
  qed (use store placed in simp_all)
qed

section \<open>Two runs\<close>

text \<open>An archive that takes documents, and one that refuses them all.\<close>

definition archive_open :: "doc_key \<Rightarrow> PersistedTaskData \<Rightarrow> bool" where
  "archive_open k d \<longleftrightarrow> fst k = TasquesArchiveIndex \<or> task_at k d"

lemma archive_envs:
  "archive_store (archive_env archive_open) (mem_hist archive_open)"
  "archive_store (archive_env task_at) task_hist"
  by (rule archive_env_store, auto simp: archive_open_def TasquesArchiveIndex_def TasquesQueuePrefix_def)+

definition example_lines :: "PersistedTaskData bulk_op list" where
  "example_lines = buildTasksBulkArchiveNdJson [set_version (next_version 0) example_dead]"

lemma example_found:
  assumes "mem_read P example_key (example_world example_dead) = Some (ToPersistedTask example_dead, next_version 0)"
  shows "initSearch (archive_env P) body ttl (example_world example_dead)
    = (example_world example_dead, Inr (''s'', [set_version (next_version 0) example_dead]))"
  by (simp add: initSearch_def processScrollResp_def archive_env_def es_client.defs mem_client_def
      List.map_filter_def assms) (simp add: ToDomainTask_def set_version_def)

lemma archiver_run:
  assumes read: "mem_read P example_key (example_world example_dead) = Some (ToPersistedTask example_dead, next_version 0)"
    and sent: "archive_bulk P example_lines (example_world example_dead) = (w', Response 200 (Some r))"
  shows "EsArchiveOldTasks (archive_env P) before n ttl (example_world example_dead) = Some (w', Inr ())"
proof -
  let ?t = "set_version (next_version 0) example_dead" and ?w = "example_world example_dead"
  note init = example_found [OF read]
  have batch: "archive_batch (archive_env P) [?t] ?w = (w', Inr ())"
    using sent by (simp add: sent_archive example_lines_def archive_env_def es_client.defs)
  have next_page: "scroll (archive_env P) ttl ''s'' w' = (w', Inr (''s'', []))"
    and cleared: "fst (clearScroll (archive_env P) ids w') = w'" for ids
    by (simp_all add: scroll_def clearScroll_def processScrollResp_def archive_env_def es_client.defs mem_client_def)
  have "scan_loop (scroll (archive_env P) ttl) (\<lambda>ts _. archive_batch (archive_env P) ts) ''s'' [?t] [''s''] () ?w
      = Some (w', [''s'', ''s''], Inr ())"
    by (subst scan_loop.simps, subst scan_loop.simps) (simp add: batch next_page)
  then show ?thesis by (simp add: EsArchiveOldTasks_def scanTasks_def init cleared)
qed

lemmas example_archive_defs = example_world_def example_key_def mem_hist_def key_ok_def task_at_def archive_open_def
  ToPersistedTask_def example_dead_def example_claimed_def example_task_def example_lines_def
  buildTasksBulkArchiveNdJson_def buildTaskArchival_def set_version_def archive_bulk_def mem_delete_def
  mem_write_def next_version_def lock_data_def BuildIndexName_def TasquesQueuePrefix_def TasquesArchiveIndex_def

lemma example_reads:
  "mem_read task_at example_key (example_world example_dead) = Some (ToPersistedTask example_dead, next_version 0)"
  "mem_read archive_open example_key (example_world example_dead) = Some (ToPersistedTask example_dead, next_version 0)"
  by (simp_all add: mem_read_def example_archive_defs)

lemma example_archived:
  "\<exists>w' r. archive_bulk archive_open example_lines (example_world example_dead) = (w', Response 200 (Some r))"
  by (simp add: example_archive_defs Let_def)

text \<open>
  With an archive that refuses the document, the run of the archiver succeeds, the task is
  deleted, and nothing is in the archive: it is lost.
\<close>

lemma archiver_loses_task:
  "\<exists>w'. archive_store (archive_env task_at) task_hist \<and>
     EsArchiveOldTasks (archive_env task_at) before n ttl (example_world example_dead) = Some (w', Inr ()) \<and>
     fst (hd (task_hist (example_world example_dead) example_key)) = Some (ToPersistedTask example_dead) \<and>
     fst (hd (task_hist w' example_key)) = None \<and> (\<forall>i. task_hist w' (TasquesArchiveIndex, i) = [])"
proof -
  have "\<exists>w' r. archive_bulk task_at example_lines (example_world example_dead) = (w', Response 200 (Some r)) \<and>
      fst (hd (task_hist w' example_key)) = None \<and> (\<forall>i. task_hist w' (TasquesArchiveIndex, i) = [])"
    by (simp add: example_archive_defs Let_def)
  moreover have "fst (hd (task_hist (example_world example_dead) example_key)) = Some (ToPersistedTask example_dead)"
    by (simp add: example_archive_defs)
  ultimately show ?thesis
    using archiver_run [OF example_reads(1)] archive_envs(2) by blast
qed

theorem archiver_moves_tasks_witness:
  "\<exists>w'. EsArchiveOldTasks (archive_env archive_open) 50 10 5 (example_world example_dead) = Some (w', Inr ()) \<and>
    page_archived (archive_env archive_open) (mem_hist archive_open) w' [set_version (next_version 0) example_dead]"
proof -
  let ?batch = "[set_version (next_version 0) example_dead]"
  obtain w' where run: "EsArchiveOldTasks (archive_env archive_open) 50 10 5 (example_world example_dead) = Some (w', Inr ())"
    using archiver_run [OF example_reads(2)] example_archived by blast
  from archiver_moves_tasks [OF archive_envs(1) run] obtain pages sids w2 where
    s: "scan_session (scroll (archive_env archive_open) 5) (\<lambda>ts _. archive_batch (archive_env archive_open) ts) ''s'' ?batch ()
        (example_world example_dead) pages sids () w2"
    and pages: "pages \<noteq> []" "\<forall>ts \<in> set pages. page_archived (archive_env archive_open) (mem_hist archive_open) w' ts"
    unfolding example_found [OF example_reads(2)] by auto
  have "?batch \<in> set pages" using session_complete [OF s] pages(1) hd_in_set by fastforce
  with run pages(2) show ?thesis by blast
qed

end
