(* ===== verification/LeaderLock.thy ===== *)
theory LeaderLock
  imports EsStore
begin

text \<open>
  The leader lock of \<open>internal/infra/elasticsearch/leader/lock.go\<close>: a polling state machine
  around one document, updated under optimistic locking. \<open>loop_body\<close> is the code between
  \<open>stateLock.Lock\<close> and \<open>stateLock.Unlock\<close>; the states of all processes change by it, by
  \<open>Start\<close> and by \<open>Stop\<close>. Tracing and logging are left out.
\<close>

section \<open>State\<close>

type_synonym processId = string

datatype lock_state = CHECKER | PRETENDER | USURPER | LEADER | STOPPED

record leaderData =
  LeaderId :: processId
  ldAt :: time
  ldLease :: duration

record esLeaderInfo =
  liID :: string
  liSeqNum :: u64
  liPrimaryTerm :: u64
  liSource :: leaderData

definition info_version :: "esLeaderInfo \<Rightarrow> Version" where
  "info_version i = \<lparr>SeqNum = liSeqNum i, PrimaryTerm = liPrimaryTerm i\<rparr>"

record EsLock =
  leaderLockDockId :: string
  lkProcessId :: processId
  lkState :: lock_state
  loopInterval :: duration
  leaderLockLease :: duration
  stashedDoc :: "esLeaderInfo option"

datatype lock_error = LockNotFound | LockConflict | LockElasticsearchErr | LockJsonSerdesErr

type_synonym 'w lock_client = "('w, leaderData) es_client"

definition LockIndexName :: string where
  "LockIndexName = ''.tasques_leader_locks''"

definition buildProcessId :: "('w \<Rightarrow> 'w \<times> string) \<Rightarrow> string \<Rightarrow> 'w \<Rightarrow> 'w \<times> processId" where
  "buildProcessId uuid docId w =
     (case uuid w of (w1, u) \<Rightarrow> (w1, docId @ ''-'' @ filter (\<lambda>c. c \<noteq> CHR ''-'') u))"

definition NewLeaderLock ::
  "('w \<Rightarrow> 'w \<times> string) \<Rightarrow> string \<Rightarrow> duration \<Rightarrow> duration \<Rightarrow> 'w \<Rightarrow> 'w \<times> EsLock" where
  "NewLeaderLock uuid leaderLockDocId interval lease w =
     (case buildProcessId uuid leaderLockDocId w of
        (w1, pid) \<Rightarrow> (w1, \<lparr>leaderLockDockId = leaderLockDocId, lkProcessId = pid, lkState = CHECKER,
           loopInterval = interval, leaderLockLease = lease, stashedDoc = None\<rparr>))"

definition IsLeader :: "EsLock \<Rightarrow> bool" where
  "IsLeader l \<longleftrightarrow> lkState l = LEADER"

section \<open>Requests\<close>

definition getLeaderDoc :: "'w lock_client \<Rightarrow> EsLock \<Rightarrow> 'w \<Rightarrow> 'w \<times> (lock_error + esLeaderInfo)" where
  "getLeaderDoc e l w =
     (case GetRequest e LockIndexName (leaderLockDockId l) w of
        (w1, NoResponse) \<Rightarrow> (w1, Inl LockElasticsearchErr)
      | (w1, Response statusCode body) \<Rightarrow>
          (w1, if statusCode = 200 then
                 (case body of
                    None \<Rightarrow> Inl LockJsonSerdesErr
                  | Some h \<Rightarrow> Inr \<lparr>liID = hID h, liSeqNum = hSeqNum h,
                      liPrimaryTerm = hPrimaryTerm h, liSource = hSource h\<rparr>)
               else if statusCode = 404 then Inl LockNotFound
               else Inl LockElasticsearchErr))"

definition leader_data :: "EsLock \<Rightarrow> time \<Rightarrow> leaderData" where
  "leader_data l now = \<lparr>LeaderId = lkProcessId l, ldAt = now, ldLease = leaderLockLease l\<rparr>"

definition submitNameForLeader ::
  "'w lock_client \<Rightarrow> EsLock \<Rightarrow> 'w \<Rightarrow> 'w \<times> (lock_error + esLeaderInfo)" where
  "submitNameForLeader e l w =
     (let (w1, now) = getUTC e w; data = leader_data l now in
      case CreateRequest e LockIndexName (leaderLockDockId l) data w1 of
        (w2, NoResponse) \<Rightarrow> (w2, Inl LockElasticsearchErr)
      | (w2, Response statusCode body) \<Rightarrow>
          (w2, if status_2xx statusCode then
                 (case body of
                    None \<Rightarrow> Inl LockJsonSerdesErr
                  | Some r \<Rightarrow> Inr \<lparr>liID = crID r, liSeqNum = crSeqNum r,
                      liPrimaryTerm = crPrimaryTerm r, liSource = data\<rparr>)
               else if statusCode = 409 then Inl LockConflict
               else Inl LockElasticsearchErr))"

definition jostleForLeader ::
  "'w lock_client \<Rightarrow> EsLock \<Rightarrow> u64 \<Rightarrow> u64 \<Rightarrow> 'w \<Rightarrow> 'w \<times> (lock_error + esLeaderInfo)" where
  "jostleForLeader e l primaryT seqNo w =
     (let (w1, now) = getUTC e w; data = leader_data l now in
      case IndexRequest e LockIndexName (leaderLockDockId l) data
             (Some (IntPtr primaryT, IntPtr seqNo)) w1 of
        (w2, NoResponse) \<Rightarrow> (w2, Inl LockElasticsearchErr)
      | (w2, Response statusCode body) \<Rightarrow>
          (w2, if status_2xx statusCode then
                 (case body of
                    None \<Rightarrow> Inl LockJsonSerdesErr
                  | Some r \<Rightarrow> Inr \<lparr>liID = urID r, liSeqNum = urSeqNum r,
                      liPrimaryTerm = urPrimaryTerm r, liSource = data\<rparr>)
               else if statusCode = 404 then Inl LockNotFound
               else if statusCode = 409 then Inl LockConflict
               else Inl LockElasticsearchErr))"

section \<open>The loop\<close>

definition lock_to :: "lock_state \<Rightarrow> esLeaderInfo option \<Rightarrow> EsLock \<Rightarrow> EsLock" where
  "lock_to s d l = l\<lparr>stashedDoc := d, lkState := s\<rparr>"

text \<open>
  One pass of the \<open>switch\<close>: the lock after it, and \<open>loopMinWait\<close>; \<open>None\<close> ends the loop.
\<close>

definition loop_body :: "'w lock_client \<Rightarrow> EsLock \<Rightarrow> 'w \<Rightarrow> 'w \<times> EsLock \<times> duration option" where
  "loop_body e l w =
     (case lkState l of
        LEADER \<Rightarrow>
          (case stashedDoc l of
             Some d \<Rightarrow>
               (case jostleForLeader e l (liPrimaryTerm d) (liSeqNum d) w of
                  (w1, Inl LockNotFound) \<Rightarrow> (w1, lock_to PRETENDER None l, Some 0)
                | (w1, Inl _) \<Rightarrow> (w1, lock_to CHECKER None l, Some (loopInterval l))
                | (w1, Inr r) \<Rightarrow> (w1, lock_to LEADER (Some r) l, Some (loopInterval l)))
           | None \<Rightarrow> (w, lock_to CHECKER None l, Some (loopInterval l)))
      | PRETENDER \<Rightarrow>
          (case submitNameForLeader e l w of
             (w1, Inl _) \<Rightarrow> (w1, lock_to CHECKER None l, Some (loopInterval l))
           | (w1, Inr r) \<Rightarrow> (w1, lock_to LEADER (Some r) l, Some (loopInterval l)))
      | CHECKER \<Rightarrow>
          (case getLeaderDoc e l w of
             (w1, Inl LockNotFound) \<Rightarrow> (w1, lock_to PRETENDER None l, Some 0)
           | (w1, Inl _) \<Rightarrow> (w1, lock_to CHECKER None l, Some (loopInterval l))
           | (w1, Inr r) \<Rightarrow>
               if LeaderId (liSource r) = lkProcessId l
               then (w1, lock_to LEADER (Some r) l, Some 0)
               else (w1, lock_to USURPER (Some r) l, Some (ldLease (liSource r))))
      | USURPER \<Rightarrow>
          (case stashedDoc l of
             Some d \<Rightarrow>
               (case jostleForLeader e l (liPrimaryTerm d) (liSeqNum d) w of
                  (w1, Inl LockNotFound) \<Rightarrow> (w1, lock_to PRETENDER None l, Some 0)
                | (w1, Inl _) \<Rightarrow> (w1, lock_to CHECKER None l, Some (loopInterval l))
                | (w1, Inr r) \<Rightarrow> (w1, lock_to LEADER (Some r) l, Some 0))
           | None \<Rightarrow> (w, lock_to CHECKER None l, Some (loopInterval l)))
      | STOPPED \<Rightarrow> (w, l, None))"

text \<open>The rest of the pass: sleep what is left of \<open>loopMinWait\<close>.\<close>

definition wait_rest :: "'w lock_client \<Rightarrow> time \<Rightarrow> duration \<Rightarrow> 'w \<Rightarrow> 'w" where
  "wait_rest e loopStartTime loopMinWait w =
     (if loopMinWait > 0 then
        (let (w1, loopEndTime) = getUTC e w;
             waitTime = wrap64 (loopMinWait - time_sub loopEndTime loopStartTime)
         in if waitTime > 0 then Sleep e waitTime w1 else w1)
      else w)"

definition loop_pass :: "'w lock_client \<Rightarrow> EsLock \<Rightarrow> 'w \<Rightarrow> 'w \<times> EsLock \<times> bool" where
  "loop_pass e l w =
     (let (w1, loopStartTime) = getUTC e w in
      case loop_body e l w1 of
        (w2, l', None) \<Rightarrow> (w2, l', False)
      | (w2, l', Some loopMinWait) \<Rightarrow> (wait_rest e loopStartTime loopMinWait w2, l', True))"

text \<open>\<open>Start\<close> (which also spawns the loop) and \<open>Stop\<close>.\<close>

definition lock_Start :: "EsLock \<Rightarrow> EsLock" where
  "lock_Start l = l\<lparr>lkState := CHECKER\<rparr>"

definition lock_Stop :: "EsLock \<Rightarrow> EsLock" where
  "lock_Stop l = l\<lparr>lkState := STOPPED\<rparr>"

end
