(* ===== verification/LeaderSafety.thy ===== *)
theory LeaderSafety
  imports LeaderLock
begin

text \<open>
  What the leader lock guarantees: at most one process holds the newest version of the lock
  document, a leader that has been replaced steps down at its next pass, and nobody usurps the
  lock before the lease in the document has passed unrenewed.
\<close>

section \<open>Laws of the store, for the lock document\<close>

definition lock_store :: "'w lock_client \<Rightarrow> ('w, leaderData) history \<Rightarrow> bool" where
  "lock_store e hist \<longleftrightarrow> es_grows e hist \<and> es_locks e hist"

definition lock_key :: "EsLock \<Rightarrow> doc_key" where
  "lock_key l = (LockIndexName, leaderLockDockId l)"

definition info_entry :: "esLeaderInfo \<Rightarrow> leaderData option \<times> Version" where
  "info_entry i = (Some (liSource i), info_version i)"

lemma lock_store_distinct: "lock_store e hist \<Longrightarrow> distinct (map snd (hist w k))"
  unfolding lock_store_def es_locks_def by (elim conjE) (erule allE, erule allE)

lemma lock_store_advances:
  assumes "lock_store e hist"
  shows "advances hist w (fst (getUTC e w))" "advances hist w (fst (GetRequest e ix i w))"
    "advances hist w (fst (CreateRequest e ix i d w))" "advances hist w (fst (IndexRequest e ix i d l w))"
  using assms by (simp_all add: lock_store_def es_grows_def)

lemma getLeaderDoc_Inr:
  assumes "lock_store e hist" and "getLeaderDoc e l w = (w', Inr r)"
  shows "info_entry r \<in> set (hist w' (lock_key l))"
proof -
  obtain h where g: "GetRequest e LockIndexName (leaderLockDockId l) w = (w', Response 200 (Some h))"
      and r: "r = \<lparr>liID = hID h, liSeqNum = hSeqNum h, liPrimaryTerm = hPrimaryTerm h, liSource = hSource h\<rparr>"
    using assms(2)
    by (auto simp: getLeaderDoc_def split: prod.splits es_reply.splits option.splits if_splits)
  have "(Some (hSource h), hit_version h) \<in> set (hist w' (LockIndexName, leaderLockDockId l))"
    using assms(1) g unfolding lock_store_def es_locks_def by simp
  then show ?thesis by (simp add: info_entry_def info_version_def hit_version_def lock_key_def r)
qed

lemma submitNameForLeader_Inr:
  assumes "lock_store e hist" and "submitNameForLeader e l w = (w', Inr r)"
  shows "LeaderId (liSource r) = lkProcessId l \<and> info_entry r \<in> set (hist w' (lock_key l))"
proof -
  obtain w1 now where utc: "getUTC e w = (w1, now)" by fastforce
  let ?d = "leader_data l now"
  obtain s c where g: "CreateRequest e LockIndexName (leaderLockDockId l) ?d w1 = (w', Response s (Some c))"
      and s: "status_2xx s"
      and r: "r = \<lparr>liID = crID c, liSeqNum = crSeqNum c, liPrimaryTerm = crPrimaryTerm c, liSource = ?d\<rparr>"
    using assms(2) utc
    by (auto simp: submitNameForLeader_def Let_def
        split: prod.splits es_reply.splits option.splits if_splits)
  have "(Some ?d, EsCreateResponse_Version c) \<in> set (hist w' (LockIndexName, leaderLockDockId l))"
    using assms(1) g s unfolding lock_store_def es_locks_def by (elim conjE) metis
  then show ?thesis
    by (simp add: info_entry_def info_version_def EsCreateResponse_Version_def lock_key_def r leader_data_def)
qed

lemma jostleForLeader_Inr:
  assumes "lock_store e hist"
    and "jostleForLeader e l (liPrimaryTerm d) (liSeqNum d) w = (w', Inr r)"
  shows "LeaderId (liSource r) = lkProcessId l \<and> advances hist w w' \<and>
    (\<exists>x. written_over hist w' (lock_key l) (x, info_version d) (info_entry r))"
proof -
  obtain w1 now where utc: "getUTC e w = (w1, now)" by fastforce
  let ?d = "leader_data l now"
  obtain s c where g: "IndexRequest e LockIndexName (leaderLockDockId l) ?d
        (Some (lock_data (info_version d))) w1 = (w', Response s (Some c))"
      and s: "status_2xx s"
      and r: "r = \<lparr>liID = urID c, liSeqNum = urSeqNum c, liPrimaryTerm = urPrimaryTerm c, liSource = ?d\<rparr>"
    using assms(2) utc
    by (auto simp: jostleForLeader_def lock_data_def info_version_def Let_def
        split: prod.splits es_reply.splits option.splits if_splits)
  have "\<exists>x. written_over hist w' (lock_key l) (x, info_version d) (Some ?d, EsUpdateResponse_Version c)"
    using assms(1) g s unfolding lock_store_def es_locks_def lock_key_def by (elim conjE) metis
  moreover have "advances hist w w'"
    using lock_store_advances(1) [OF assms(1), of w] lock_store_advances(4) [OF assms(1), of w1
        LockIndexName "leaderLockDockId l" ?d "Some (lock_data (info_version d))"] utc g
      advances_trans [of hist w w1 w'] by simp
  ultimately show ?thesis
    by (simp add: info_entry_def info_version_def EsUpdateResponse_Version_def r leader_data_def)
qed

lemma jostleForLeader_stored:
  fixes d :: esLeaderInfo
  assumes "lock_store e hist" and "jostleForLeader e l (liPrimaryTerm d) (liSeqNum d) w = (w', Inr r)"
  shows "info_entry r \<in> set (hist w' (lock_key l)) \<and> LeaderId (liSource r) = lkProcessId l"
  using jostleForLeader_Inr [OF assms] written_over_mem [of hist w' "lock_key l"] by blast

section \<open>Every process\<close>

text \<open>
  A leader has stashed a document of its own that was written; a usurper one of another process.
  The branches the code calls impossible are never taken.
\<close>

definition stash_ok :: "('w, leaderData) history \<Rightarrow> 'w \<Rightarrow> EsLock \<Rightarrow> bool" where
  "stash_ok hist w l \<longleftrightarrow>
     (case lkState l of
        LEADER \<Rightarrow> (\<exists>i. stashedDoc l = Some i \<and> info_entry i \<in> set (hist w (lock_key l)) \<and>
          LeaderId (liSource i) = lkProcessId l)
      | USURPER \<Rightarrow> (\<exists>i. stashedDoc l = Some i \<and> info_entry i \<in> set (hist w (lock_key l)) \<and>
          LeaderId (liSource i) \<noteq> lkProcessId l)
      | _ \<Rightarrow> True)"

definition lock_frame :: "EsLock \<Rightarrow> EsLock \<Rightarrow> bool" where
  "lock_frame l l' \<longleftrightarrow> leaderLockDockId l' = leaderLockDockId l \<and> lkProcessId l' = lkProcessId l \<and>
     loopInterval l' = loopInterval l \<and> leaderLockLease l' = leaderLockLease l"

lemma lock_to_simps [simp]:
  "lkState (lock_to s d l) = s" "stashedDoc (lock_to s d l) = d"
  "lkProcessId (lock_to s d l) = lkProcessId l" "lock_key (lock_to s d l) = lock_key l"
  "lock_frame l (lock_to s d l)" "lock_frame l l"
  by (simp_all add: lock_to_def lock_key_def lock_frame_def)

lemma stash_ok_advances: "stash_ok hist w l \<Longrightarrow> advances hist w w' \<Longrightarrow> stash_ok hist w' l"
  unfolding stash_ok_def by (auto split: lock_state.splits dest: advances_mem)

lemma loop_body_frame: "loop_body e l w = (w', l', r) \<Longrightarrow> lock_frame l l'"
  by (auto simp: loop_body_def split: lock_state.splits option.splits prod.splits sum.splits
      lock_error.splits if_splits)

lemma loop_body_stash:
  assumes store: "lock_store e hist" and ok: "stash_ok hist w l" and body: "loop_body e l w = (w', l', r)"
  shows "stash_ok hist w' l'"
proof (cases "lkState l")
  case CHECKER
  obtain w1 g where get: "getLeaderDoc e l w = (w1, g)" by fastforce
  then show ?thesis
    using body CHECKER getLeaderDoc_Inr [OF store, of l w w1]
    by (auto simp: loop_body_def stash_ok_def split: sum.splits lock_error.splits if_splits)
next
  case PRETENDER
  obtain w1 g where sub: "submitNameForLeader e l w = (w1, g)" by fastforce
  then show ?thesis
    using body PRETENDER submitNameForLeader_Inr [OF store, of l w w1]
    by (auto simp: loop_body_def stash_ok_def split: sum.splits)
next
  case LEADER
  then obtain d where d: "stashedDoc l = Some d" using ok by (auto simp: stash_ok_def)
  obtain w1 g where j: "jostleForLeader e l (liPrimaryTerm d) (liSeqNum d) w = (w1, g)" by fastforce
  then show ?thesis
    using body LEADER d jostleForLeader_stored [OF store, of l d w w1]
    by (auto simp: loop_body_def stash_ok_def split: sum.splits lock_error.splits)
next
  case USURPER
  then obtain d where d: "stashedDoc l = Some d" using ok by (auto simp: stash_ok_def)
  obtain w1 g where j: "jostleForLeader e l (liPrimaryTerm d) (liSeqNum d) w = (w1, g)" by fastforce
  then show ?thesis
    using body USURPER d jostleForLeader_stored [OF store, of l d w w1]
    by (auto simp: loop_body_def stash_ok_def split: sum.splits lock_error.splits)
next
  case STOPPED
  then show ?thesis using body by (auto simp: loop_body_def stash_ok_def)
qed

text \<open>
  The document a leader or a usurper builds on has been overwritten by another process: its
  next update cannot succeed.
\<close>

definition overtaken :: "('w, leaderData) history \<Rightarrow> 'w \<Rightarrow> EsLock \<Rightarrow> bool" where
  "overtaken hist w l \<longleftrightarrow> (\<exists>i x d v. stashedDoc l = Some i \<and>
     written_over hist w (lock_key l) (x, info_version i) (Some d, v) \<and> LeaderId d \<noteq> lkProcessId l)"

lemma overtaken_update_fails:
  assumes store: "lock_store e hist" and d: "stashedDoc l = Some d" and over: "overtaken hist w l"
  shows "jostleForLeader e l (liPrimaryTerm d) (liSeqNum d) w \<noteq> (w', Inr r)"
proof
  assume run: "jostleForLeader e l (liPrimaryTerm d) (liSeqNum d) w = (w', Inr r)"
  note j = jostleForLeader_Inr [OF store run]
  obtain x y v where other: "written_over hist w (lock_key l) (x, info_version d) (Some y, v)"
      and y: "LeaderId y \<noteq> lkProcessId l"
    using over d by (auto simp: overtaken_def)
  have "written_over hist w' (lock_key l) (x, info_version d) (Some y, v)"
    using written_over_advances [OF other] j by blast
  moreover obtain x' where "written_over hist w' (lock_key l) (x', info_version d) (info_entry r)"
    using j by blast
  ultimately have "(Some y, v) = info_entry r"
    using one_successor [where hist = hist and w = w' and k = "lock_key l"]
      lock_store_distinct [OF store] by blast
  then show False using j y by (simp add: info_entry_def)
qed

text \<open>
  A leader that has been replaced, or a usurper that came too late, does not become
  (or stay) the leader: if another process has written over the version it stashed, its next pass
  ends in another state, whatever Elasticsearch answers.
\<close>

theorem overtaken_steps_down:
  assumes store: "lock_store e hist" and state: "lkState l = LEADER \<or> lkState l = USURPER"
    and over: "overtaken hist w l" and body: "loop_body e l w = (w', l', r)"
  shows "lkState l' \<in> {CHECKER, PRETENDER} \<and> stashedDoc l' = None"
proof -
  obtain d where d: "stashedDoc l = Some d" using over by (auto simp: overtaken_def)
  obtain w1 g where j: "jostleForLeader e l (liPrimaryTerm d) (liSeqNum d) w = (w1, g)" by fastforce
  then obtain err where "g = Inl err"
    using overtaken_update_fails [OF store d over, of w1] by (cases g) auto
  then show ?thesis
    using state body d j by (auto simp: loop_body_def split: lock_error.splits)
qed

section \<open>All processes together\<close>

text \<open>
  The processes of a deployment, by process id, and the world. A step is one pass of the loop of
  one process, a start or stop, or time passing, in which anything may be written by others.
\<close>

type_synonym 'w deployment = "'w \<times> (processId \<Rightarrow> EsLock)"

inductive lock_step ::
  "'w lock_client \<Rightarrow> ('w, leaderData) history \<Rightarrow> 'w deployment \<Rightarrow> 'w deployment \<Rightarrow> bool"
  for e hist where
  step_loop: "loop_body e (ls p) w = (w', l', r) \<Longrightarrow> lock_step e hist (w, ls) (w', ls(p := l'))"
| step_start: "lock_step e hist (w, ls) (w, ls(p := lock_Start (ls p)))"
| step_stop: "lock_step e hist (w, ls) (w, ls(p := lock_Stop (ls p)))"
| step_time: "advances hist w w' \<Longrightarrow> lock_step e hist (w, ls) (w', ls)"

inductive lock_run ::
  "'w lock_client \<Rightarrow> ('w, leaderData) history \<Rightarrow> 'w deployment \<Rightarrow> 'w deployment \<Rightarrow> bool"
  for e hist where
  run_refl: "lock_run e hist s s"
| run_more: "lock_run e hist s u \<Longrightarrow> lock_step e hist u v \<Longrightarrow> lock_run e hist s v"

inductive_cases lock_stepE: "lock_step e hist (w, ls) s"

text \<open>Before anything runs: every process under its own id, on the same document.\<close>

definition just_created :: "string \<Rightarrow> (processId \<Rightarrow> EsLock) \<Rightarrow> bool" where
  "just_created docId ls \<longleftrightarrow> (\<forall>p. lkProcessId (ls p) = p \<and> leaderLockDockId (ls p) = docId \<and>
     lkState (ls p) = CHECKER \<and> stashedDoc (ls p) = None)"

definition deployment_ok ::
  "('w, leaderData) history \<Rightarrow> string \<Rightarrow> 'w deployment \<Rightarrow> bool" where
  "deployment_ok hist docId s \<longleftrightarrow> (\<forall>p. lkProcessId (snd s p) = p \<and>
     leaderLockDockId (snd s p) = docId \<and> stash_ok hist (fst s) (snd s p))"

lemma jostle_advances:
  "lock_store e hist \<Longrightarrow> advances hist w (fst (jostleForLeader e l pt sn w))"
proof -
  assume store: "lock_store e hist"
  obtain w1 now where utc: "getUTC e w = (w1, now)" by fastforce
  have "fst (jostleForLeader e l pt sn w) = fst (IndexRequest e LockIndexName (leaderLockDockId l)
      (leader_data l now) (Some (IntPtr pt, IntPtr sn)) w1)"
    by (simp add: jostleForLeader_def utc Let_def split: prod.splits es_reply.splits)
  moreover have "advances hist w w1" using lock_store_advances(1) [OF store, of w] utc by simp
  ultimately show ?thesis
    using lock_store_advances(4) [OF store, of w1] advances_trans [of hist w w1] by simp
qed

lemma submit_advances: "lock_store e hist \<Longrightarrow> advances hist w (fst (submitNameForLeader e l w))"
proof -
  assume store: "lock_store e hist"
  obtain w1 now where utc: "getUTC e w = (w1, now)" by fastforce
  have "fst (submitNameForLeader e l w) = fst (CreateRequest e LockIndexName (leaderLockDockId l)
      (leader_data l now) w1)"
    by (simp add: submitNameForLeader_def utc Let_def split: prod.splits es_reply.splits)
  moreover have "advances hist w w1" using lock_store_advances(1) [OF store, of w] utc by simp
  ultimately show ?thesis
    using lock_store_advances(3) [OF store, of w1] advances_trans [of hist w w1] by simp
qed

lemma get_advances: "lock_store e hist \<Longrightarrow> advances hist w (fst (getLeaderDoc e l w))"
proof -
  assume store: "lock_store e hist"
  have "fst (getLeaderDoc e l w) = fst (GetRequest e LockIndexName (leaderLockDockId l) w)"
    by (simp add: getLeaderDoc_def split: prod.splits es_reply.splits)
  then show ?thesis using lock_store_advances(2) [OF store] by simp
qed

lemma loop_body_world:
  "fst (loop_body e l w) \<in> {w, fst (submitNameForLeader e l w), fst (getLeaderDoc e l w)} \<union>
     {fst (jostleForLeader e l pt sn w) | pt sn. True}"
  by (auto simp: loop_body_def split: lock_state.splits option.splits prod.splits sum.splits
      lock_error.splits) (metis fst_conv)+

lemma loop_body_advances: "lock_store e hist \<Longrightarrow> advances hist w (fst (loop_body e l w))"
  using loop_body_world [of e l w] jostle_advances [of e hist w l] submit_advances [of e hist w l]
    get_advances [of e hist w l] by auto

lemma lock_step_ok:
  assumes store: "lock_store e hist" and step: "lock_step e hist s s'"
    and ok: "deployment_ok hist docId s"
  shows "deployment_ok hist docId s'"
  using step ok
proof (induction rule: lock_step.induct)
  case (step_loop ls p w w' l' r)
  have "advances hist w w'" using loop_body_advances [OF store, of w "ls p"] step_loop(1) by simp
  moreover have "stash_ok hist w' l'"
    using loop_body_stash [OF store _ step_loop(1)] step_loop(2) by (simp add: deployment_ok_def)
  moreover have "lock_frame (ls p) l'" by (rule loop_body_frame [OF step_loop(1)])
  ultimately show ?case
    using step_loop(2) by (auto simp: deployment_ok_def lock_frame_def intro: stash_ok_advances)
next
  case (step_time w w' ls)
  then show ?case by (auto simp: deployment_ok_def intro: stash_ok_advances)
qed (auto simp: deployment_ok_def lock_Start_def lock_Stop_def stash_ok_def)

lemma lock_run_ok:
  assumes "lock_store e hist"
  shows "lock_run e hist s s' \<Longrightarrow> deployment_ok hist docId s \<Longrightarrow> deployment_ok hist docId s'"
  by (induction rule: lock_run.induct) (auto dest: lock_step_ok [OF assms])

lemma just_created_ok: "just_created docId ls \<Longrightarrow> deployment_ok hist docId (w, ls)"
  by (simp add: just_created_def deployment_ok_def stash_ok_def)

text \<open>A leader that holds the newest version of the document: the one whose renewal can succeed.\<close>

definition holds_lock :: "('w, leaderData) history \<Rightarrow> 'w \<Rightarrow> EsLock \<Rightarrow> bool" where
  "holds_lock hist w l \<longleftrightarrow> IsLeader l \<and> hist w (lock_key l) \<noteq> [] \<and>
     map_option info_version (stashedDoc l) = Some (snd (hd (hist w (lock_key l))))"

text \<open>
  C4: mutual exclusion. Whatever the processes of a deployment do and however their passes
  interleave, at most one of them is a leader holding the newest version of the lock document.
\<close>

theorem one_leader:
  assumes store: "lock_store e hist" and init: "just_created docId ls0"
    and run: "lock_run e hist (w0, ls0) (w, ls)"
    and p: "holds_lock hist w (ls p)" and q: "holds_lock hist w (ls q)"
  shows "p = q"
proof -
  let ?k = "(LockIndexName, docId)"
  have ok: "deployment_ok hist docId (w, ls)"
    using lock_run_ok [OF store run just_created_ok [OF init]] .
  have "\<exists>d. (Some d, snd (hd (hist w ?k))) \<in> set (hist w ?k) \<and> LeaderId d = x"
    if h: "holds_lock hist w (ls x)" for x
  proof -
    have key: "lock_key (ls x) = ?k" and "stash_ok hist w (ls x)" and pid: "lkProcessId (ls x) = x"
      using ok by (simp_all add: deployment_ok_def lock_key_def)
    then obtain i where i: "stashedDoc (ls x) = Some i" "info_entry i \<in> set (hist w ?k)"
        "LeaderId (liSource i) = x"
      using h by (auto simp: holds_lock_def IsLeader_def stash_ok_def)
    then show ?thesis using h key by (auto simp: holds_lock_def info_entry_def)
  qed
  then show "p = q"
    using p q version_unique [OF lock_store_distinct [OF store, of w ?k]] by blast
qed

section \<open>The lease\<close>

text \<open>The clock as in \<open>clock_ok\<close>, for what the lock uses.\<close>

definition lock_clock_ok :: "'w lock_client \<Rightarrow> ('w \<Rightarrow> time) \<Rightarrow> bool" where
  "lock_clock_ok e clock \<longleftrightarrow> (\<forall>w.
     clock w \<le> snd (getUTC e w) \<and> snd (getUTC e w) \<le> clock (fst (getUTC e w)) \<and>
     (\<forall>d. clock w + d \<le> clock (Sleep e d w)) \<and>
     (\<forall>ix i. clock w \<le> clock (fst (GetRequest e ix i w))))"

lemma wait_rest_clock:
  assumes clock: "lock_clock_ok e clock" and start: "start \<le> clock w"
    and d: "0 < d" "d \<le> max_duration" and w': "w' = wait_rest e start d w"
  shows "start + d \<le> clock w'"
proof -
  obtain w1 stop where utc: "getUTC e w = (w1, stop)" by fastforce
  then have c: "clock w \<le> stop" "stop \<le> clock w1"
    using clock unfolding lock_clock_ok_def by (metis fst_conv snd_conv)+
  have range: "0 \<le> time_sub stop start" "time_sub stop start \<le> max_duration"
    "time_sub stop start \<le> stop - start"
    using c start by (auto simp: time_sub_def min_duration_def max_duration_def)
  have rest: "wrap64 (d - time_sub stop start) = d - time_sub stop start"
    by (rule wrap64_id) (use range d in \<open>simp_all add: max_duration_def\<close>)
  show ?thesis
  proof (cases "0 < d - time_sub stop start")
    case True
    have "clock w1 + (d - time_sub stop start) \<le> clock (Sleep e (d - time_sub stop start) w1)"
      using clock unfolding lock_clock_ok_def by blast
    then show ?thesis
      using w' True rest range(3) c d(1) by (simp add: wait_rest_def utc Let_def)
  next
    case False
    then show ?thesis
      using w' rest range(3) c d(1) by (simp add: wait_rest_def utc Let_def)
  qed
qed

text \<open>
  C30: a process that finds another leader's document does not try to usurp the lock before
  that leader's lease is over: its next pass starts at least the lease after this one.
\<close>

theorem usurper_waits_lease:
  assumes clock: "lock_clock_ok e clock"
    and state: "lkState l = CHECKER" and pass: "loop_pass e l w = (w', l', goes_on)"
    and usurps: "lkState l' = USURPER"
  shows "goes_on \<and> (\<exists>i. stashedDoc l' = Some i \<and> LeaderId (liSource i) \<noteq> lkProcessId l \<and>
    (0 < ldLease (liSource i) \<and> ldLease (liSource i) \<le> max_duration \<longrightarrow>
       clock w + ldLease (liSource i) \<le> clock w'))"
proof -
  obtain w1 start where utc: "getUTC e w = (w1, start)" by fastforce
  obtain w2 g where get: "getLeaderDoc e l w1 = (w2, g)" by fastforce
  have c: "clock w \<le> start" "start \<le> clock w1"
    using clock utc unfolding lock_clock_ok_def by (metis fst_conv snd_conv)+
  have "fst (getLeaderDoc e l w1) = fst (GetRequest e LockIndexName (leaderLockDockId l) w1)"
    by (simp add: getLeaderDoc_def split: prod.splits es_reply.splits)
  then have c2: "clock w1 \<le> clock w2"
    using clock get unfolding lock_clock_ok_def by (metis fst_conv)
  obtain i where i: "g = Inr i" "LeaderId (liSource i) \<noteq> lkProcessId l"
      "l' = lock_to USURPER (Some i) l" "w' = wait_rest e start (ldLease (liSource i)) w2" "goes_on"
    using pass state usurps utc get
    by (auto simp: loop_pass_def loop_body_def split: sum.splits lock_error.splits if_splits)
  show ?thesis
    using i wait_rest_clock [OF clock _ _ _ i(4)] c c2 by auto
qed

text \<open>
  An abandoned lock is taken over: if the document found is another process's and the
  update over that version is accepted after the wait, or there is no document and the create is
  accepted, the process leads after its second pass.
\<close>

theorem takeover:
  assumes "lkState l = CHECKER"
    and "loop_body e l w = (w1, l1, r1)" and "loop_body e l1 w2 = (w3, l3, r3)"
  shows "(getLeaderDoc e l w = (w1, Inr i) \<and> LeaderId (liSource i) \<noteq> lkProcessId l \<and>
      jostleForLeader e l1 (liPrimaryTerm i) (liSeqNum i) w2 = (w3, Inr j) \<longrightarrow>
        IsLeader l3 \<and> stashedDoc l3 = Some j) \<and>
    (getLeaderDoc e l w = (w1, Inl LockNotFound) \<and> submitNameForLeader e l1 w2 = (w3, Inr j) \<longrightarrow>
        IsLeader l3 \<and> stashedDoc l3 = Some j)"
  using assms by (auto simp: loop_body_def IsLeader_def)

end
