(* ===== verification/LeaderExamples.thy ===== *)
theory LeaderExamples
  imports LeaderSafety EsMemory
begin

text \<open>
  The theorems of \<open>LeaderSafety\<close> on concrete deployments over the in-memory store.
\<close>

definition lock_client :: "leaderData mem_world lock_client" where
  "lock_client = mem_client (\<lambda>_ _. True) []"

abbreviation lock_hist :: "(leaderData mem_world, leaderData) history" where
  "lock_hist \<equiv> mem_hist (\<lambda>_ _. True)"

lemma lock_client_store: "lock_store lock_client lock_hist"
  by (simp add: lock_store_def lock_client_def mem_client_grows mem_client_locks)

lemma lock_client_clock: "lock_clock_ok lock_client fst"
  by (simp add: lock_clock_ok_def lock_client_def mem_client_def)

definition example_lock :: "processId \<Rightarrow> EsLock" where
  "example_lock p = \<lparr>leaderLockDockId = ''leader'', lkProcessId = p, lkState = CHECKER,
     loopInterval = 5, leaderLockLease = 10, stashedDoc = None\<rparr>"

definition lock_doc :: "processId \<Rightarrow> time \<Rightarrow> leaderData" where
  "lock_doc p at = \<lparr>LeaderId = p, ldAt = at, ldLease = 10\<rparr>"

definition lock_world :: "(leaderData option \<times> Version) list \<Rightarrow> leaderData mem_world" where
  "lock_world h = (100, (\<lambda>_. [])((LockIndexName, ''leader'') := h))"

definition lock_info :: "processId \<Rightarrow> time \<Rightarrow> nat \<Rightarrow> esLeaderInfo" where
  "lock_info p at n = \<lparr>liID = ''leader'', liSeqNum = of_nat n, liPrimaryTerm = 1, liSource = lock_doc p at\<rparr>"

lemmas lock_examples = example_lock_def lock_doc_def lock_world_def lock_info_def info_version_def

lemmas lock_requests = loop_body_def getLeaderDoc_def submitNameForLeader_def jostleForLeader_def
  leader_data_def lock_client_def mem_client_def mem_hist_def mem_read_def mem_write_def
  mem_locked_write_def key_ok_def mem_hit_def next_version_def status_2xx_def lock_to_def

text \<open>The document of \<open>a\<close>, written over by \<open>b\<close>.\<close>

theorem overtaken_steps_down_witness:
  "\<exists>w' l' r. loop_body lock_client
       (example_lock ''a''\<lparr>lkState := LEADER, stashedDoc := Some (lock_info ''a'' 90 0)\<rparr>)
       (lock_world [(Some (lock_doc ''b'' 95), next_version 1), (Some (lock_doc ''a'' 90), next_version 0)])
       = (w', l', r) \<and> lkState l' \<in> {CHECKER, PRETENDER} \<and> stashedDoc l' = None"
proof -
  let ?l = "example_lock ''a''\<lparr>lkState := LEADER, stashedDoc := Some (lock_info ''a'' 90 0)\<rparr>"
  let ?w = "lock_world [(Some (lock_doc ''b'' 95), next_version 1), (Some (lock_doc ''a'' 90), next_version 0)]"
  have "lock_hist ?w (lock_key ?l) = [] @ (Some (lock_doc ''b'' 95), next_version 1) #
      (Some (lock_doc ''a'' 90), info_version (lock_info ''a'' 90 0)) # []"
    by (simp add: mem_hist_def key_ok_def lock_key_def lock_examples next_version_def)
  then have "written_over lock_hist ?w (lock_key ?l)
      (Some (lock_doc ''a'' 90), info_version (lock_info ''a'' 90 0)) (Some (lock_doc ''b'' 95), next_version 1)"
    unfolding written_over_def by blast
  moreover have "stashedDoc ?l = Some (lock_info ''a'' 90 0)"
    and "LeaderId (lock_doc ''b'' 95) \<noteq> lkProcessId ?l"
    by (simp_all add: lock_examples)
  ultimately have "overtaken lock_hist ?w ?l" unfolding overtaken_def by blast
  moreover have "lkState ?l = LEADER \<or> lkState ?l = USURPER" by simp
  moreover obtain w' l' r where "loop_body lock_client ?l ?w = (w', l', r)" by (metis prod_cases3)
  ultimately show ?thesis using overtaken_steps_down [OF lock_client_store] by blast
qed

text \<open>With no document, \<open>a\<close> leads after two passes, and \<open>b\<close> does not.\<close>

lemma lock_first_pass:
  "loop_body lock_client (example_lock p) (lock_world []) =
     (lock_world [], example_lock p\<lparr>lkState := PRETENDER\<rparr>, Some 0)"
  by (simp add: lock_requests lock_examples Let_def)

lemma lock_second_pass:
  "loop_body lock_client (example_lock p\<lparr>lkState := PRETENDER\<rparr>) (lock_world []) =
     ((101, snd (lock_world [(Some (lock_doc p 100), next_version 0)])),
      example_lock p\<lparr>lkState := LEADER, stashedDoc := Some (lock_info p 100 0)\<rparr>, Some 5)"
  by (simp add: lock_requests lock_examples Let_def)

theorem one_leader_witness:
  "\<exists>w ls. lock_run lock_client lock_hist (lock_world [], example_lock) (w, ls) \<and>
     holds_lock lock_hist w (ls ''a'') \<and> \<not> holds_lock lock_hist w (ls ''b'')"
proof -
  let ?l = "example_lock ''a''\<lparr>lkState := LEADER, stashedDoc := Some (lock_info ''a'' 100 0)\<rparr>"
  let ?w = "(101, snd (lock_world [(Some (lock_doc ''a'' 100), next_version 0)]))"
  have "lock_step lock_client lock_hist (lock_world [], example_lock)
      (lock_world [], example_lock(''a'' := example_lock ''a''\<lparr>lkState := PRETENDER\<rparr>))"
    by (rule step_loop [OF lock_first_pass])
  moreover have "lock_step lock_client lock_hist
      (lock_world [], example_lock(''a'' := example_lock ''a''\<lparr>lkState := PRETENDER\<rparr>))
      (?w, (example_lock(''a'' := example_lock ''a''\<lparr>lkState := PRETENDER\<rparr>))(''a'' := ?l))"
    by (rule step_loop) (simp add: lock_second_pass)
  ultimately have run: "lock_run lock_client lock_hist (lock_world [], example_lock)
      (?w, (example_lock(''a'' := example_lock ''a''\<lparr>lkState := PRETENDER\<rparr>))(''a'' := ?l))"
    by (intro run_more [OF run_more [OF run_refl]])
  let ?ls = "(example_lock(''a'' := example_lock ''a''\<lparr>lkState := PRETENDER\<rparr>))(''a'' := ?l)"
  have a: "holds_lock lock_hist ?w (?ls ''a'')"
    by (simp add: holds_lock_def IsLeader_def mem_hist_def key_ok_def lock_key_def lock_examples next_version_def)
  have init: "just_created ''leader'' example_lock"
    by (simp add: just_created_def example_lock_def)
  have "\<not> holds_lock lock_hist ?w (?ls ''b'')"
    using one_leader [OF lock_client_store init run a, of "''b''"] by auto
  then show ?thesis using run a by blast
qed

theorem usurper_waits_lease_witness:
  "\<exists>w' l' goes_on. loop_pass lock_client (example_lock ''b'')
       (lock_world [(Some (lock_doc ''a'' 90), next_version 0)]) = (w', l', goes_on) \<and>
     lkState l' = USURPER \<and> 100 + 10 \<le> fst w'"
proof -
  let ?w = "lock_world [(Some (lock_doc ''a'' 90), next_version 0)]"
  obtain w' l' goes_on where pass: "loop_pass lock_client (example_lock ''b'') ?w = (w', l', goes_on)"
    by (metis prod_cases3)
  have l': "lkState l' = USURPER" "stashedDoc l' = Some (lock_info ''a'' 90 0)"
    using pass by (auto simp: loop_pass_def lock_requests lock_examples)
  have "lkState (example_lock ''b'') = CHECKER" by (simp add: example_lock_def)
  from usurper_waits_lease [OF lock_client_clock this pass l'(1)] l'
  have "fst ?w + 10 \<le> fst w'"
    by (simp add: lock_info_def lock_doc_def max_duration_def)
  then show ?thesis using pass l' by (auto simp: lock_world_def)
qed

theorem takeover_witness:
  "\<exists>w3 l3 r3 j. loop_body lock_client (example_lock ''a''\<lparr>lkState := PRETENDER\<rparr>) (lock_world []) = (w3, l3, r3) \<and>
     IsLeader l3 \<and> stashedDoc l3 = Some j"
proof -
  have "lkState (example_lock ''a'') = CHECKER" by (simp add: example_lock_def)
  note takeover [OF this lock_first_pass lock_second_pass]
  moreover have "getLeaderDoc lock_client (example_lock ''a'') (lock_world []) = (lock_world [], Inl LockNotFound)"
    by (simp add: lock_requests lock_examples Let_def)
  moreover have "submitNameForLeader lock_client (example_lock ''a''\<lparr>lkState := PRETENDER\<rparr>) (lock_world []) =
      ((101, snd (lock_world [(Some (lock_doc ''a'' 100), next_version 0)])), Inr (lock_info ''a'' 100 0))"
    by (simp add: lock_requests lock_examples Let_def)
  ultimately have "IsLeader (example_lock ''a''\<lparr>lkState := LEADER, stashedDoc := Some (lock_info ''a'' 100 0)\<rparr>)
      \<and> stashedDoc (example_lock ''a''\<lparr>lkState := LEADER, stashedDoc := Some (lock_info ''a'' 100 0)\<rparr>)
        = Some (lock_info ''a'' 100 0)"
    by blast
  then show ?thesis using lock_second_pass by blast
qed

end
