(* ===== verification/Backoff.thy ===== *)
theory Backoff
  imports TaskLifecycle
begin

text \<open>
  The delay before a failed task runs again (\<open>IntoFailed\<close> in
  \<open>internal/domain/task/models.go\<close>). The code means Faktory's exponential formula
  \<open>15 + n ^ 4 + rand(30) * (n + 1)\<close>, but \<open>^\<close> is exclusive or in Go: the theorems give the
  delay it computes, which grows linearly with the number of attempts.
\<close>

lemma xor4_word: "(x::u64) XOR 4 = (if bit x 2 then x - 4 else x + 4)"
proof -
  have "x XOR 4 = flip_bit 2 x" by (simp add: flip_bit_eq_xor push_bit_eq_mult)
  also have "\<dots> = (if bit x 2 then x - 4 else x + 4)"
    by (simp add: flip_bit_eq_if set_bit_eq unset_bit_eq)
  finally show ?thesis .
qed

lemma bit2_ge: "bit (x::u64) 2 \<Longrightarrow> 4 \<le> x"
proof (rule ccontr)
  assume b: "bit x 2" and "\<not> 4 \<le> x"
  then have "unat x < 4" by (simp add: word_le_nat_alt)
  moreover have "bit (unat x) 2" using b by (simp add: bit_unsigned_iff)
  ultimately show False by (simp add: bit_iff_odd)
qed

lemma waitTimeSecondsInt_unat:
  assumes n: "unat n < 2 ^ 28" and r: "unat r < 30"
  shows "unat (waitTimeSecondsInt r n) =
    (if bit (15 + n) 2 then 11 + unat n else 19 + unat n) + unat r * (unat n + 1)"
proof -
  have m: "unat r * (unat n + 1) \<le> 29 * 2 ^ 28"
    using n r by (intro mult_le_mono) simp_all
  have n15: "unat (15 + n) = 15 + unat n" using n by (simp add: unat_word_ariths)
  have x: "unat ((15 + n) XOR 4) = (if bit (15 + n) 2 then 11 + unat n else 19 + unat n)"
    using n n15 bit2_ge [of "15 + n"]
    by (simp add: xor4_word unat_sub) (simp add: unat_word_ariths)
  have n1: "unat (n + 1) = unat n + 1" using n by (simp add: unat_word_ariths)
  have p: "unat (r * (n + 1)) = unat r * (unat n + 1)"
    using m by (simp add: unat_word_ariths(2) n1)
  show ?thesis
    unfolding waitTimeSecondsInt_def using n m
    by (subst unat_word_ariths(1)) (simp add: x p)
qed

lemma waitTimeDuration_eq:
  assumes n: "unat n < 2 ^ 28" and r: "unat r < 30"
  shows "waitTimeDuration r n = int (unat (waitTimeSecondsInt r n)) * Second"
proof -
  let ?s = "waitTimeSecondsInt r n"
  have m: "unat r * (unat n + 1) \<le> 29 * 2 ^ 28"
    using n r by (intro mult_le_mono) simp_all
  have b: "unat ?s < 2 ^ 33"
    using n m by (simp add: waitTimeSecondsInt_unat [OF n r])
  let ?i = "int (unat ?s) * Second"
  have "int (unat ?s) < int (2 ^ 33)" using b by (simp only: of_nat_less_iff)
  then have u: "uint ?s < 2 ^ 33" by simp
  have "?s * word_of_int Second = (word_of_int ?i :: u64)"
    by (simp add: of_int_mult)
  then have "waitTimeDuration r n = sint (word_of_int ?i :: u64)"
    by (simp only: waitTimeDuration_def)
  also have "\<dots> = signed_take_bit 63 ?i"
    using int_word_sint [where 'a = 64, of ?i] by (simp add: signed_take_bit_eq_take_bit_shift take_bit_eq_mod)
  also have "\<dots> = ?i"
  proof (rule signed_take_bit_int_eq_self)
    show "- (2 ^ 63) \<le> ?i" by (rule order_trans [of _ 0]) (simp_all add: Second_def)
    show "?i < 2 ^ 63" using u by (simp add: Second_def)
  qed
  finally show ?thesis .
qed

text \<open>The formula the code, its comments and the README mean: what the delay after \<open>n\<close> retries would be for a draw \<open>r\<close>.\<close>

definition documented_delay :: "nat \<Rightarrow> nat \<Rightarrow> nat" where
  "documented_delay r n = 15 + n ^ 4 + r * (n + 1)"

lemma xor4_nat: "(15 + n :: nat) XOR 4 = (if bit (15 + n) 2 then 11 + n else 19 + n)" if "n < 2 ^ 28"
proof -
  let ?n = "word_of_nat n :: u64"
  have n: "unat ?n = n" using that by (simp add: unat_of_nat)
  have n15: "unat (15 + ?n) = 15 + n" using that n by (simp add: unat_word_ariths)
  have "unat ((15 + ?n) XOR 4) = (15 + n) XOR 4" by (simp add: unsigned_xor_eq n15)
  moreover have "unat ((15 + ?n) XOR 4) = (if bit (15 + ?n) 2 then 11 + n else 19 + n)"
    using that n n15 bit2_ge [of "15 + ?n"]
    by (simp add: xor4_word unat_sub) (simp add: unat_word_ariths)
  moreover have "bit (unat (15 + ?n)) 2 = bit (15 + ?n) 2" by (simp add: bit_unsigned_iff)
  ultimately show ?thesis by (simp add: n15)
qed

lemma waitTimeSecondsInt_exact:
  assumes "unat n < 2 ^ 28" and "unat r < 30"
  shows "unat (waitTimeSecondsInt r n) = ((15 + unat n) XOR 4) + unat r * (unat n + 1)"
proof -
  have "unat (15 + n) = 15 + unat n" using assms(1) by (simp add: unat_word_ariths)
  moreover have "bit (unat (15 + n)) 2 = bit (15 + n) 2" by (simp add: bit_unsigned_iff)
  ultimately have "bit (15 + n) 2 = bit (15 + unat n) 2" by simp
  then show ?thesis by (simp add: waitTimeSecondsInt_unat [OF assms] xor4_nat [OF assms(1)])
qed

lemma delay_below_documented:
  assumes n: "2 \<le> n" "n < 2 ^ 28"
  shows "((15 + n) XOR 4) + r * (n + 1) < documented_delay r n"
    and "4 \<le> n \<Longrightarrow> r < 30 \<Longrightarrow> ((15 + n) XOR 4) + r * (n + 1) < documented_delay 0 n"
proof -
  have x: "(15 + n) XOR 4 \<le> 19 + n" using xor4_nat [OF n(2)] by simp
  have four: "k ^ 3 * n \<le> n ^ 4" if "k \<le> n" for k
    using mult_le_mono1 [OF power_mono [OF that, of 3], of n] by (simp add: power_numeral_reduce)
  show "((15 + n) XOR 4) + r * (n + 1) < documented_delay r n"
  proof (cases "n = 2")
    case True
    have "(17 :: nat) XOR 4 = 21" by simp
    then show ?thesis by (simp add: True documented_delay_def)
  next
    case False
    then have "27 * n \<le> n ^ 4" using four [of 3] n by simp
    then show ?thesis using x n by (simp add: documented_delay_def)
  qed
  show "((15 + n) XOR 4) + r * (n + 1) < documented_delay 0 n" if "4 \<le> n" "r < 30"
  proof -
    have "r * (n + 1) \<le> 29 * (n + 1)" using that(2) by (intro mult_le_mono1) simp
    moreover have "64 * n \<le> n ^ 4" using four [of 4] that(1) by simp
    ultimately show ?thesis using x that by (simp add: documented_delay_def)
  qed
qed

text \<open>
  C37: when a claimed task fails with attempts left, the delay until it is due again is computed without 64-bit
  overflow, for up to \<open>2 ^ 28\<close> attempts: for \<open>n\<close> retries so far and the number \<open>r\<close> drawn it is
  \<open>((15 + n) XOR 4) + r * (n + 1)\<close> seconds after the failure, which lies between \<open>11 + n\<close> and \<open>48 + 30 * n\<close>. This is not the
  exponential delay that the README and the comments promise: from two retries on it is shorter than
  that one for the same draw, and from four on shorter than that one can ever be. The time of the failure is
  recorded as the time the task was enqueued.
\<close>

theorem IntoFailed_backoff:
  assumes failed: "IntoFailed r w at f t = Inr t'" "tState t' = FAILED"
    and attempts: "unat (tAttempted t) = n + 1" "n < 2 ^ 28" and r: "unat r < 30"
  shows "\<exists>k. tRunAt t' = at + int k * Second \<and> tLastEnqueuedAt t' = at \<and>
    k = ((15 + n) XOR 4) + unat r * (n + 1) \<and> 11 + n \<le> k \<and> k \<le> 48 + 30 * n \<and>
    (2 \<le> n \<longrightarrow> k < documented_delay (unat r) n) \<and> (4 \<le> n \<longrightarrow> k < documented_delay 0 n)"
proof -
  let ?n = "retriesSoFar t" and ?k = "((15 + n) XOR 4) + unat r * (n + 1)"
  have "0 < tAttempted t" using attempts(1) by (simp add: word_less_nat_alt)
  then have un: "unat ?n = n" using attempts(1) by (simp add: retriesSoFar_def word_pred_unat)
  have lt: "unat ?n < 2 ^ 28" using un attempts(2) by simp
  have "waitTimeDuration r ?n = int ?k * Second"
    using waitTimeDuration_eq [OF lt r] by (simp only: waitTimeSecondsInt_exact [OF lt r] un)
  then have "tRunAt t' = at + int ?k * Second \<and> tLastEnqueuedAt t' = at"
    using failed by (auto simp: IntoFailed_Inr_iff go_time split: if_splits)
  moreover have "unat r * (n + 1) \<le> 29 * (n + 1)" using r by (intro mult_le_mono1) simp
  then have "11 + n \<le> ?k" "?k \<le> 48 + 30 * n" using xor4_nat [OF attempts(2)] by simp_all
  ultimately show ?thesis using delay_below_documented [OF _ attempts(2), of "unat r"] r by (intro exI [of _ ?k]) simp
qed

theorem IntoFailed_backoff_witness:
  "\<exists>t' k. IntoFailed 29 ''w1'' 100 None (example_claimed\<lparr>tRetryTimes := 9, tAttempted := 5\<rparr>) = Inr t' \<and>
     tRunAt t' = 100 + int k * Second \<and> k = 168 \<and> k < documented_delay 0 4"
proof -
  let ?t = "example_claimed\<lparr>tRetryTimes := 9, tAttempted := 5\<rparr>"
  obtain t' where t': "IntoFailed 29 ''w1'' 100 None ?t = Inr t'" "tState t' = FAILED"
    by (simp add: IntoFailed_def check_claim_def example_claimed_def example_task_def
        RemainingAttempts_def)
  have h: "unat (tAttempted ?t) = 4 + 1" "(4 :: nat) < 2 ^ 28" "unat (29::u64) < 30" by simp_all
  have "((15 + 4 :: nat) XOR 4) + 29 * (4 + 1) = 168" by simp
  then show ?thesis using t'(1) IntoFailed_backoff [OF t' h] by auto
qed

end
