(* ===== verification/TaskWrites.thy ===== *)
theory TaskWrites
  imports Archiver TaskService
begin

text \<open>
  What a server writes. Every request may meet writes of other servers; \<open>R\<close>, a parameter, is
  what these do to the documents, one write at a time. Each method of the task service, whatever
  it returns and whichever of its requests fail, changes the documents only by moves of \<open>R\<close> and by
  writes of its own that are lawful: a new task, a task replaced by the result of a method of the
  domain model on the very version that is overwritten, and the two lines of the archiver.
  \<open>TaskHistory\<close> puts servers together by taking for \<open>R\<close> what this theory shows of each of them.
\<close>

section \<open>The documents and how a request changes them\<close>

type_synonym 'd documents = "doc_key \<Rightarrow> ('d option \<times> Version) list"

definition longer :: "'d documents \<Rightarrow> 'd documents \<Rightarrow> bool" where
  "longer H H' \<longleftrightarrow> (\<forall>k. suffix (H k) (H' k))"

definition queue_key :: "doc_key \<Rightarrow> bool" where
  "queue_key k \<longleftrightarrow> prefix TasquesQueuePrefix (fst k)"

text \<open>In the indices of the queues a document lies where its own queue and id say.\<close>

definition placed :: "PersistedTaskData documents \<Rightarrow> bool" where
  "placed H \<longleftrightarrow> (\<forall>k d v. queue_key k \<longrightarrow> (Some d, v) \<in> set (H k) \<longrightarrow>
     k = (BuildIndexName (pQueue d), pId d))"

text \<open>Writes to one document: unless it exists, over a version, and a deletion of a version.\<close>

definition write_new :: "doc_key \<Rightarrow> 'd \<Rightarrow> 'd documents \<Rightarrow> 'd documents \<Rightarrow> bool" where
  "write_new k d H H' \<longleftrightarrow> (H k = [] \<or> fst (hd (H k)) = None) \<and>
     (\<exists>v'. H' = H(k := (Some d, v') # H k))"

definition write_over :: "doc_key \<Rightarrow> Version \<Rightarrow> 'd option \<Rightarrow> 'd documents \<Rightarrow> 'd documents \<Rightarrow> bool" where
  "write_over k v x H H' \<longleftrightarrow> (\<exists>y h v'. H k = (y, v) # h \<and> H' = H(k := (x, v') # H k))"

text \<open>The line of a bulk request, applied.\<close>

definition write_line :: "'d bulk_op \<Rightarrow> 'd documents \<Rightarrow> 'd documents \<Rightarrow> bool" where
  "write_line op =
     (case op of
        BulkIndex i ix sn pt d \<Rightarrow> write_over (ix, i) \<lparr>SeqNum = sn, PrimaryTerm = pt\<rparr> (Some d)
      | BulkDelete i ix sn pt \<Rightarrow> write_over (ix, i) \<lparr>SeqNum = sn, PrimaryTerm = pt\<rparr> None
      | BulkInsert ix d \<Rightarrow> (\<lambda>H H'. \<exists>i. write_new (ix, i) d H H'))"

text \<open>The lines of a bulk request are applied in order, or refused, others writing in between.\<close>

fun write_lines :: "('d documents \<Rightarrow> 'd documents \<Rightarrow> bool) \<Rightarrow> 'd bulk_op list \<Rightarrow>
    'd documents \<Rightarrow> 'd documents \<Rightarrow> bool" where
  "write_lines R [] = R\<^sup>*\<^sup>*"
| "write_lines R (op # ops) = R\<^sup>*\<^sup>* OO (write_line op)\<^sup>=\<^sup>= OO write_lines R ops"

section \<open>The documented behaviour of the store\<close>

text \<open>Others only add to the documents, and put those of the queues in their places.\<close>

definition rely :: "(PersistedTaskData documents \<Rightarrow> PersistedTaskData documents \<Rightarrow> bool) \<Rightarrow> bool" where
  "rely R \<longleftrightarrow> (\<forall>H H'. R H H' \<longrightarrow> longer H H' \<and> (placed H \<longrightarrow> placed H'))"

text \<open>
  A request that is not a write changes nothing itself. A write is applied or not, whatever the
  reply says.
\<close>

definition others_only :: "('d documents \<Rightarrow> 'd documents \<Rightarrow> bool) \<Rightarrow> ('w, 'd) history \<Rightarrow> 'w \<Rightarrow> 'w \<Rightarrow> bool" where
  "others_only R hist w w' \<longleftrightarrow> R\<^sup>*\<^sup>* (hist w) (hist w')"

definition quiet_requests ::
  "'w task_env \<Rightarrow> ('w, PersistedTaskData) history \<Rightarrow>
     (PersistedTaskData documents \<Rightarrow> PersistedTaskData documents \<Rightarrow> bool) \<Rightarrow> bool" where
  "quiet_requests e hist R \<longleftrightarrow> (\<forall>w.
     others_only R hist w (fst (getUTC e w)) \<and>
     (\<forall>d. others_only R hist w (Sleep e d w)) \<and>
     others_only R hist w (fst (new_uuid e w)) \<and>
     others_only R hist w (fst (rand_Intn30 e w)) \<and>
     (\<forall>q. others_only R hist w (fst (lru_Get e q w))) \<and>
     (\<forall>q at. others_only R hist w (lru_Add e q at w)) \<and>
     (\<forall>ix i. others_only R hist w (fst (GetRequest e ix i w))) \<and>
     (\<forall>ixs q. others_only R hist w (fst (SearchRequest e ixs q w))) \<and>
     (\<forall>ttl ixs q. others_only R hist w (fst (ScrollSearchRequest e ttl ixs q w))) \<and>
     (\<forall>ttl i. others_only R hist w (fst (ScrollRequest e ttl i w))) \<and>
     (\<forall>is. others_only R hist w (fst (ClearScrollRequest e is w))) \<and>
     (\<forall>ixs q. others_only R hist w (fst (CountRequest e ixs q w))) \<and>
     (\<forall>ixs. others_only R hist w (fst (IndicesRefreshRequest e ixs w))))"

definition write_requests ::
  "'w task_env \<Rightarrow> ('w, PersistedTaskData) history \<Rightarrow>
     (PersistedTaskData documents \<Rightarrow> PersistedTaskData documents \<Rightarrow> bool) \<Rightarrow> bool" where
  "write_requests e hist R \<longleftrightarrow> (\<forall>w.
     (\<forall>ix i d. (R\<^sup>*\<^sup>* OO (write_new (ix, i) d)\<^sup>=\<^sup>= OO R\<^sup>*\<^sup>*)
        (hist w) (hist (fst (CreateRequest e ix i d w)))) \<and>
     (\<forall>ix i d v. (R\<^sup>*\<^sup>* OO (write_over (ix, i) v (Some d))\<^sup>=\<^sup>= OO R\<^sup>*\<^sup>*)
        (hist w) (hist (fst (IndexRequest e ix i d (Some (lock_data v)) w)))) \<and>
     (\<forall>ops. write_lines R ops (hist w) (hist (fst (BulkRequest e ops w)))))"

text \<open>A search of queues finds documents of queues.\<close>

definition finds_in_queues :: "'w task_env \<Rightarrow> ('w, PersistedTaskData) history \<Rightarrow> bool" where
  "finds_in_queues e hist \<longleftrightarrow>
     (\<forall>ixs q w w' hs h. SearchRequest e ixs q w = (w', Response 200 (Some hs)) \<longrightarrow>
        (\<forall>ix \<in> set ixs. prefix TasquesQueuePrefix ix) \<longrightarrow> h \<in> set hs \<longrightarrow> found_in_queue hist w' h) \<and>
     (\<forall>ttl q w w' sid hs h.
        ScrollSearchRequest e ttl [allTaskqueueQueuesPattern] q w = (w', Response 200 (Some (sid, hs))) \<longrightarrow>
        h \<in> set hs \<longrightarrow> found_in_queue hist w' h) \<and>
     (\<forall>ttl i w w' sid hs h. ScrollRequest e ttl i w = (w', Response 200 (Some (sid, hs))) \<longrightarrow>
        h \<in> set hs \<longrightarrow> found_in_queue hist w' h)"

definition shared_store ::
  "'w task_env \<Rightarrow> ('w, PersistedTaskData) history \<Rightarrow>
     (PersistedTaskData documents \<Rightarrow> PersistedTaskData documents \<Rightarrow> bool) \<Rightarrow> bool" where
  "shared_store e hist R \<longleftrightarrow> task_store e hist \<and> rely R \<and> quiet_requests e hist R \<and>
     write_requests e hist R \<and> finds_in_queues e hist"

section \<open>Lawful writes\<close>

text \<open>
  The fields \<open>ModifiedAt\<close> and the version are set beside the methods of the domain model; a
  task is overwritten as the version it was computed from.
\<close>

inductive task_write :: "PersistedTaskData documents \<Rightarrow> PersistedTaskData documents \<Rightarrow> bool" where
  write_created: "write_new (BuildIndexName (nQueue n), i) (newTask_toPersisted i now n) H H' \<Longrightarrow>
    task_write H H'"
| write_stepped: "hd (H (task_key t)) = (Some (ToPersistedTask t), version_of t) \<Longrightarrow> task_step t ev u \<Longrightarrow>
    write_over (task_key t) (version_of t) (Some (ToPersistedTask (set_modified at u))) H H' \<Longrightarrow>
    task_write H H'"
| write_deleted: "hd (H (task_key t)) = (Some (ToPersistedTask t), version_of t) \<Longrightarrow>
    write_over (task_key t) (version_of t) None H H' \<Longrightarrow> task_write H H'"
| write_archived: "write_new (TasquesArchiveIndex, i) d H H' \<Longrightarrow> task_write H H'"

text \<open>Moves of others and lawful writes of its own.\<close>

definition moves :: "(PersistedTaskData documents \<Rightarrow> PersistedTaskData documents \<Rightarrow> bool) \<Rightarrow>
    PersistedTaskData documents \<Rightarrow> PersistedTaskData documents \<Rightarrow> bool" where
  "moves R = (sup R task_write)\<^sup>*\<^sup>*"

lemma moves_refl [simp]: "moves R H H"
  by (simp add: moves_def)

lemma moves_trans [trans]: "moves R H H' \<Longrightarrow> moves R H' H'' \<Longrightarrow> moves R H H''"
  by (simp add: moves_def)

lemma moves_others: "R\<^sup>*\<^sup>* H H' \<Longrightarrow> moves R H H'"
  unfolding moves_def by (rule rtranclp_mono [THEN predicate2D, rotated]) auto

lemma moves_own: "task_write H H' \<Longrightarrow> moves R H H'"
  unfolding moves_def by (rule r_into_rtranclp) simp

section \<open>What moves keep\<close>

lemma longer_refl [simp]: "longer H H"
  by (simp add: longer_def)

lemma longer_trans: "longer H H' \<Longrightarrow> longer H' H'' \<Longrightarrow> longer H H''"
  unfolding longer_def using suffix_order.trans by blast

lemma longer_upd: "longer H (H(k := x # H k))"
  by (auto simp: longer_def suffix_ConsI)

lemma write_new_longer: "write_new k d H H' \<Longrightarrow> longer H H'"
  by (auto simp: write_new_def longer_def suffix_ConsI)

lemma write_over_longer: "write_over k v x H H' \<Longrightarrow> longer H H'"
  by (auto simp: write_over_def longer_def suffix_ConsI)

lemma write_line_longer: "write_line op H H' \<Longrightarrow> longer H H'"
  by (cases op) (auto simp: write_line_def dest: write_new_longer write_over_longer)

lemma task_write_longer: "task_write H H' \<Longrightarrow> longer H H'"
  by (auto elim!: task_write.cases dest: write_new_longer write_over_longer)

lemma archive_not_queue: "\<not> queue_key (TasquesArchiveIndex, i)"
  by (simp add: queue_key_def TasquesArchiveIndex_def TasquesQueuePrefix_def)

lemma placed_upd:
  "placed H \<Longrightarrow> (\<And>d. x = Some d \<Longrightarrow> queue_key k \<Longrightarrow> k = (BuildIndexName (pQueue d), pId d)) \<Longrightarrow>
     placed (H(k := (x, v) # H k))"
  unfolding placed_def by (metis (no_types, lifting) fun_upd_apply prod.inject set_ConsD)

lemma task_step_key: "task_step t ev u \<Longrightarrow> task_key (set_modified at u) = task_key t"
  using task_step_same [of t ev u] by (simp add: same_task_def task_key_def set_modified_def)

lemma task_key_placed: "task_key t = (BuildIndexName (pQueue (ToPersistedTask t)), pId (ToPersistedTask t))"
  by (simp add: task_key_def ToPersistedTask_def)

lemma task_write_placed: "task_write H H' \<Longrightarrow> placed H \<Longrightarrow> placed H'"
proof (induction rule: task_write.induct)
  case (write_created n i now H H')
  then show ?case
    by (auto simp: write_new_def newTask_toPersisted_def intro!: placed_upd)
next
  case (write_stepped H t ev u at H')
  have "task_key t = (BuildIndexName (pQueue (ToPersistedTask (set_modified at u))), pId (ToPersistedTask (set_modified at u)))"
    using task_step_key [OF write_stepped(2), of at] task_key_placed by metis
  then show ?case
    using write_stepped(3,4) by (auto simp: write_over_def simp del: fun_upd_apply intro!: placed_upd)
next
  case (write_deleted H t H')
  then show ?case by (auto simp: write_over_def simp del: fun_upd_apply intro!: placed_upd)
next
  case (write_archived i d H H')
  then show ?case
    by (auto simp: write_new_def archive_not_queue simp del: fun_upd_apply intro!: placed_upd)
qed

lemma moves_keep:
  assumes "rely R" and "moves R H H'"
  shows "longer H H' \<and> (placed H \<longrightarrow> placed H')"
  using assms(2) unfolding moves_def
proof (induction rule: rtranclp_induct)
  case (step H1 H2)
  have "longer H1 H2 \<and> (placed H1 \<longrightarrow> placed H2)"
    using step.hyps(2) assms(1) task_write_longer task_write_placed by (auto simp: rely_def)
  then show ?case using step.IH longer_trans by blast
qed simp

section \<open>Writes over what was read\<close>

definition read_in :: "PersistedTaskData documents \<Rightarrow> Task \<Rightarrow> bool" where
  "read_in H t \<longleftrightarrow> (Some (ToPersistedTask t), version_of t) \<in> set (H (task_key t))"

lemma read_in_longer: "read_in H t \<Longrightarrow> longer H H' \<Longrightarrow> read_in H' t"
  unfolding read_in_def longer_def using set_mono_suffix by blast

lemma distinct_longer: "distinct (map snd (H' k)) \<Longrightarrow> longer H H' \<Longrightarrow> distinct (map snd (H k))"
  unfolding longer_def suffix_def by (metis distinct_append map_append)

text \<open>Versions being unique, a write over the version of a task that was read is over that task.\<close>

lemma over_as_read:
  assumes over: "write_over (task_key t) (version_of t) x H H'" and read: "read_in H t"
    and unique: "distinct (map snd (H (task_key t)))"
  shows "hd (H (task_key t)) = (Some (ToPersistedTask t), version_of t)"
proof -
  obtain y h where h: "H (task_key t) = (y, version_of t) # h"
    using over by (auto simp: write_over_def)
  then have "y = Some (ToPersistedTask t)"
    using version_unique [OF unique, of y "version_of t" "Some (ToPersistedTask t)"] read
    by (simp add: read_in_def)
  with h show ?thesis by simp
qed

definition lawful_line :: "PersistedTaskData documents \<Rightarrow> PersistedTaskData bulk_op \<Rightarrow> bool" where
  "lawful_line H op \<longleftrightarrow>
     (\<exists>t ev u at. read_in H t \<and> task_step t ev u \<and> op = buildUpdateBulkOp (set_modified at u)) \<or>
     (\<exists>t. read_in H t \<and> op \<in> set (buildTaskArchival t))"

lemma lawful_line_longer: "lawful_line H op \<Longrightarrow> longer H H' \<Longrightarrow> lawful_line H' op"
  unfolding lawful_line_def using read_in_longer by blast

lemma step_version: "task_step t ev u \<Longrightarrow> version_of (set_modified at u) = version_of t"
  using task_step_same [of t ev u] by (simp add: op_version)

lemma line_write:
  assumes law: "lawful_line H op" and w: "write_line op H H'" and d: "\<And>k. distinct (map snd (H k))"
  shows "task_write H H'"
  using law unfolding lawful_line_def
proof (elim disjE exE conjE)
  fix t ev u at
  assume t: "read_in H t" "task_step t ev u" "op = buildUpdateBulkOp (set_modified at u)"
  have "write_over (task_key (set_modified at u)) (version_of (set_modified at u))
      (Some (ToPersistedTask (set_modified at u))) H H'"
    using w t(3) by (simp add: write_line_def buildUpdateBulkOp_def task_key_def version_of_def version_eta)
  then have over: "write_over (task_key t) (version_of t) (Some (ToPersistedTask (set_modified at u))) H H'"
    by (simp only: task_step_key [OF t(2)] step_version [OF t(2)])
  show ?thesis by (rule write_stepped [OF over_as_read [OF over t(1) d] t(2) over])
next
  fix t
  assume t: "read_in H t" "op \<in> set (buildTaskArchival t)"
  then consider "write_over (task_key t) (version_of t) None H H'"
    | i where "write_new (TasquesArchiveIndex, i) (ToPersistedTask t) H H'"
    using w by (auto simp: write_line_def buildTaskArchival_def task_key_def version_of_def version_eta)
  then show ?thesis
  proof cases
    case 1
    show ?thesis by (rule write_deleted [OF over_as_read [OF 1 t(1) d] 1])
  next
    case 2
    then show ?thesis by (rule write_archived)
  qed
qed

lemma lines_move:
  "write_lines R ops H H' \<Longrightarrow> rely R \<Longrightarrow> \<forall>op \<in> set ops. lawful_line H op \<Longrightarrow>
     (\<And>k. distinct (map snd (H' k))) \<Longrightarrow> moves R H H'"
proof (induction ops arbitrary: H)
  case Nil
  then show ?case by (simp add: moves_others)
next
  case (Cons op ops)
  then obtain H1 H2 where R: "R\<^sup>*\<^sup>* H H1" and w: "write_line op H1 H2 \<or> H2 = H1" and rest: "write_lines R ops H2 H'"
    by auto
  have l1: "longer H H1" using moves_keep [OF Cons.prems(2) moves_others [OF R]] by simp
  have l2: "longer H1 H2" using w write_line_longer by auto
  have m2: "moves R H2 H'"
    using Cons.prems(3) lawful_line_longer [OF _ longer_trans [OF l1 l2]]
    by (intro Cons.IH [OF rest Cons.prems(2) _ Cons.prems(4)]) simp
  have "longer H1 H'" using longer_trans [OF l2] moves_keep [OF Cons.prems(2) m2] by blast
  then have d: "distinct (map snd (H1 k))" for k
    using distinct_longer [of H' k H1] Cons.prems(4) by blast
  have "moves R H1 H2"
    using w line_write [where op = op, OF _ _ d] lawful_line_longer [where op = op, OF _ l1] Cons.prems(3)
      moves_own [of H1 H2 R] by auto
  then show ?case using moves_others [OF R] m2 moves_trans by blast
qed

section \<open>The requests as rules\<close>

definition goes ::
  "(PersistedTaskData documents \<Rightarrow> PersistedTaskData documents \<Rightarrow> bool) \<Rightarrow>
     ('w, PersistedTaskData) history \<Rightarrow> 'w \<Rightarrow> 'w \<Rightarrow> bool" where
  "goes R hist w w' \<longleftrightarrow> moves R (hist w) (hist w')"

lemma goes_refl [simp]: "goes R hist w w"
  by (simp add: goes_def)

lemma goes_trans [trans]: "goes R hist w w' \<Longrightarrow> goes R hist w' w'' \<Longrightarrow> goes R hist w w''"
  unfolding goes_def by (rule moves_trans)

lemma shared_store_rules:
  assumes "shared_store e hist R"
  shows "task_store e hist" "rely R" "quiet_requests e hist R" "write_requests e hist R" "finds_in_queues e hist"
  using assms by (simp_all add: shared_store_def)

lemma shared_keeps:
  assumes "shared_store e hist R" and "goes R hist w w'"
  shows "placed (hist w) \<Longrightarrow> placed (hist w')" "read_in (hist w) t \<Longrightarrow> read_in (hist w') t"
  using moves_keep [OF shared_store_rules(2) [OF assms(1)]] assms(2) read_in_longer
  unfolding goes_def by blast+

lemma found_rules:
  assumes "shared_store e hist R"
  shows "SearchRequest e ixs body w = (w', Response 200 (Some hs)) \<Longrightarrow>
      \<forall>ix \<in> set ixs. prefix TasquesQueuePrefix ix \<Longrightarrow> h \<in> set hs \<Longrightarrow> found_in_queue hist w' h"
    and "ScrollSearchRequest e ttl [allTaskqueueQueuesPattern] body w = (w', Response 200 (Some (sid, hs))) \<Longrightarrow>
      h \<in> set hs \<Longrightarrow> found_in_queue hist w' h"
    and "ScrollRequest e ttl i w = (w', Response 200 (Some (sid, hs))) \<Longrightarrow> h \<in> set hs \<Longrightarrow> found_in_queue hist w' h"
  using shared_store_rules(5) [OF assms] unfolding finds_in_queues_def by (elim conjE, metis (no_types))+

lemma others_go: "others_only R hist w w' \<Longrightarrow> goes R hist w w'"
  by (simp add: others_only_def goes_def moves_others)

lemma quiet_goes:
  assumes "shared_store e hist R"
  shows "goes R hist w (fst (getUTC e w))" "goes R hist w (Sleep e d w)"
    "goes R hist w (fst (new_uuid e w))" "goes R hist w (fst (rand_Intn30 e w))"
    "goes R hist w (fst (lru_Get e q w))" "goes R hist w (lru_Add e q at w)"
    "goes R hist w (fst (GetRequest e ix i w))" "goes R hist w (fst (SearchRequest e ixs body w))"
    "goes R hist w (fst (ScrollSearchRequest e ttl ixs body w))" "goes R hist w (fst (ScrollRequest e ttl i w))"
    "goes R hist w (fst (ClearScrollRequest e is w))" "goes R hist w (fst (CountRequest e ixs body w))"
    "goes R hist w (fst (IndicesRefreshRequest e ixs w))"
  using shared_store_rules(3) [OF assms] unfolding quiet_requests_def by (auto intro: others_go)

lemma quiet_eqs:
  assumes "shared_store e hist R"
  shows "getUTC e w = (w', at) \<Longrightarrow> goes R hist w w'" "rand_Intn30 e w = (w', r) \<Longrightarrow> goes R hist w w'"
    "GetRequest e ix i w = (w', g) \<Longrightarrow> goes R hist w w'" "SearchRequest e ixs body w = (w', f) \<Longrightarrow> goes R hist w w'"
    "ScrollSearchRequest e ttl ixs body w = (w', s) \<Longrightarrow> goes R hist w w'"
    "ScrollRequest e ttl i w = (w', s) \<Longrightarrow> goes R hist w w'" "lru_Get e q w = (w', l) \<Longrightarrow> goes R hist w w'"
    "ClearScrollRequest e is w = (w', c) \<Longrightarrow> goes R hist w w'" "new_uuid e w = (w', u) \<Longrightarrow> goes R hist w w'"
    "CountRequest e ixs body w = (w', n) \<Longrightarrow> goes R hist w w'"
    "IndicesRefreshRequest e ixs w = (w', c) \<Longrightarrow> goes R hist w w'"
  using quiet_goes [OF assms] by (metis fst_conv)+

lemma create_goes:
  assumes "shared_store e hist R"
  shows "goes R hist w (fst (CreateRequest e (BuildIndexName (nQueue n)) i (newTask_toPersisted i now n) w))"
proof -
  let ?w = "fst (CreateRequest e (BuildIndexName (nQueue n)) i (newTask_toPersisted i now n) w)"
  have "(R\<^sup>*\<^sup>* OO (write_new (BuildIndexName (nQueue n), i) (newTask_toPersisted i now n))\<^sup>=\<^sup>= OO R\<^sup>*\<^sup>*)
      (hist w) (hist ?w)"
    using shared_store_rules(4) [OF assms] unfolding write_requests_def by blast
  then obtain H1 H2 where "R\<^sup>*\<^sup>* (hist w) H1" "R\<^sup>*\<^sup>* H2 (hist ?w)"
      "write_new (BuildIndexName (nQueue n), i) (newTask_toPersisted i now n) H1 H2 \<or> H1 = H2"
    by auto
  then show ?thesis
    unfolding goes_def using moves_others moves_own [OF write_created] moves_trans by metis
qed

lemma index_goes:
  assumes store: "shared_store e hist R" and read: "read_in (hist w) t" and key: "task_key t = (ix, i)"
    and step: "task_step t ev u"
  shows "goes R hist w (fst (IndexRequest e ix i (ToPersistedTask (set_modified at u))
    (Some (lock_data (version_of t))) w))"
proof -
  let ?d = "Some (ToPersistedTask (set_modified at u))"
  let ?w = "fst (IndexRequest e ix i (ToPersistedTask (set_modified at u)) (Some (lock_data (version_of t))) w)"
  note rely = shared_store_rules(2) [OF store]
  have "(R\<^sup>*\<^sup>* OO (write_over (ix, i) (version_of t) ?d)\<^sup>=\<^sup>= OO R\<^sup>*\<^sup>*) (hist w) (hist ?w)"
    using shared_store_rules(4) [OF store] unfolding write_requests_def by blast
  then obtain H1 H2 where R: "R\<^sup>*\<^sup>* (hist w) H1" "R\<^sup>*\<^sup>* H2 (hist ?w)"
      and own: "write_over (task_key t) (version_of t) ?d H1 H2 \<or> H1 = H2"
    by (auto simp: key)
  have l: "longer (hist w) H1" "longer H2 (hist ?w)"
    using moves_keep [OF rely moves_others] R by blast+
  have "longer H1 H2" using own by (elim disjE) (rule write_over_longer, assumption, simp)
  then have "longer H1 (hist ?w)" using l(2) by (rule longer_trans)
  then have d: "distinct (map snd (H1 (task_key t)))"
    by (rule distinct_longer [OF task_store_distinct [OF shared_store_rules(1) [OF store]]])
  have "task_write H1 H2" if over: "write_over (task_key t) (version_of t) ?d H1 H2"
    by (rule write_stepped [OF over_as_read [OF over read_in_longer [OF read l(1)] d] step over])
  then have "moves R H1 H2" using own moves_own by auto
  then show ?thesis
    unfolding goes_def using moves_others [OF R(1)] moves_others [OF R(2)] moves_trans by blast
qed

lemma bulk_goes:
  assumes store: "shared_store e hist R" and law: "\<forall>op \<in> set ops. lawful_line (hist w) op"
  shows "goes R hist w (fst (BulkRequest e ops w))"
  unfolding goes_def
proof (rule lines_move [OF _ shared_store_rules(2) [OF store] law])
  show "write_lines R ops (hist w) (hist (fst (BulkRequest e ops w)))"
    using shared_store_rules(4) [OF store] unfolding write_requests_def by blast
  show "distinct (map snd (hist (fst (BulkRequest e ops w)) k))" for k
    by (rule task_store_distinct [OF shared_store_rules(1) [OF store]])
qed

section \<open>Creating and updating\<close>

lemma EsCreate_goes:
  assumes store: "shared_store e hist R"
  shows "goes R hist w (fst (EsCreate e n w))"
proof -
  obtain w1 now where utc: "getUTC e w = (w1, now)" by fastforce
  obtain w2 i where gen: "GenerateId (new_uuid e) n w1 = (w2, i)" by fastforce
  have g: "goes R hist w1 w2"
    using gen quiet_eqs(9) [OF store] by (auto simp: GenerateId_def split: option.splits prod.splits)
  have "fst (EsCreate e n w) = fst (CreateRequest e (BuildIndexName (nQueue n)) i (newTask_toPersisted i now n) w2)"
    by (simp add: EsCreate_def utc gen Let_def split: prod.splits es_reply.splits)
  then show ?thesis
    using goes_trans [OF goes_trans [OF quiet_eqs(1) [OF store utc] g] create_goes [OF store]] by simp
qed

lemma EsGet_goes:
  assumes store: "shared_store e hist R" and get: "EsGet e q i w = (w', r)"
  shows "goes R hist w w'"
    and "placed (hist w) \<Longrightarrow> r = Inr t \<Longrightarrow> read_in (hist w') t \<and> task_key t = (BuildIndexName q, i)"
proof -
  obtain g where g: "GetRequest e (BuildIndexName q) i w = (w', g)"
    using get by (auto simp: EsGet_def split: prod.splits es_reply.splits option.splits if_splits)
  show goes: "goes R hist w w'" by (rule quiet_eqs(3) [OF store g])
  assume placed: "placed (hist w)" and r: "r = Inr t"
  have here: "(Some (ToPersistedTask t), version_of t) \<in> set (hist w' (BuildIndexName q, i))"
    using EsGet_stored [OF shared_store_rules(1) [OF store] get [unfolded r]] by simp
  have "queue_key (BuildIndexName q, i)" by (simp add: queue_key_def BuildIndexName_def)
  then have "task_key t = (BuildIndexName q, i)"
    using shared_keeps(1) [OF store goes placed] here unfolding placed_def task_key_placed by metis
  then show "read_in (hist w') t \<and> task_key t = (BuildIndexName q, i)"
    using here by (simp add: read_in_def)
qed

text \<open>What \<open>getAndUpdate\<close> asks of a mutation: a method of the domain model.\<close>

definition lawful_mutation ::
  "(PersistedTaskData documents \<Rightarrow> PersistedTaskData documents \<Rightarrow> bool) \<Rightarrow> ('w, PersistedTaskData) history \<Rightarrow>
     (Task \<Rightarrow> 'w \<Rightarrow> 'w \<times> (task_error + Task)) \<Rightarrow> bool" where
  "lawful_mutation R hist mutate \<longleftrightarrow> (\<forall>t w w' r. mutate t w = (w', r) \<longrightarrow>
     goes R hist w w' \<and> (\<forall>u. r = Inr u \<longrightarrow> (\<exists>ev. task_step t ev u)))"

lemma getAndUpdate_goes:
  assumes store: "shared_store e hist R" and law: "lawful_mutation R hist mutate" and placed: "placed (hist w)"
  shows "goes R hist w (fst (getAndUpdate e q i mutate at w))"
proof -
  obtain w1 g where get: "EsGet e q i w = (w1, g)" by fastforce
  note go1 = EsGet_goes(1) [OF store get]
  show ?thesis
  proof (cases g)
    case (Inl err)
    then show ?thesis using get go1 by (simp add: getAndUpdate_def)
  next
    case (Inr t)
    obtain w2 m where mut: "mutate t w1 = (w2, m)" by fastforce
    then have go2: "goes R hist w1 w2" and step: "\<And>u. m = Inr u \<Longrightarrow> \<exists>ev. task_step t ev u"
      using law unfolding lawful_mutation_def by blast+
    have read: "read_in (hist w2) t" "task_key t = (BuildIndexName q, i)"
      using EsGet_goes(2) [OF store get placed Inr] shared_keeps(2) [OF store go2] by simp_all
    show ?thesis
    proof (cases m)
      case (Inl err)
      then show ?thesis using get mut Inr goes_trans [OF go1 go2] by (simp add: getAndUpdate_def)
    next
      case (Inr u)
      then obtain ev where ev: "task_step t ev u" using step by blast
      have "fst (getAndUpdate e q i mutate at w) = fst (IndexRequest e (BuildIndexName q) i
          (ToPersistedTask (set_modified at u)) (Some (lock_data (version_of t))) w2)"
        using get mut \<open>g = Inr t\<close> Inr step_version [OF ev, of at]
        by (simp add: getAndUpdate_def Let_def split: prod.splits es_reply.splits)
      then show ?thesis
        using goes_trans [OF goes_trans [OF go1 go2] index_goes [OF store read ev]] by simp
    qed
  qed
qed

lemma retry_goes:
  assumes store: "shared_store e hist R" and run: "\<And>w. placed (hist w) \<Longrightarrow> goes R hist w (fst (run w))"
    and placed: "placed (hist w)"
  shows "goes R hist w (fst (retry_conflict conf run w))"
proof -
  obtain w1 r where r: "run w = (w1, r)" by fastforce
  then have go1: "goes R hist w w1" using run [OF placed] by simp
  have "fst (retry_conflict conf run w) = w1 \<or> fst (retry_conflict conf run w) = fst (run w1)"
    by (auto simp: retry_conflict_def r split: sum.splits task_error.splits)
  then show ?thesis using go1 goes_trans [OF go1 run [OF shared_keeps(1) [OF store go1 placed]]] by metis
qed

lemma lawful_updates:
  assumes store: "shared_store e hist R"
  shows "lawful_mutation R hist (\<lambda>t w. (w, ReportIn wid d at t))"
    and "lawful_mutation R hist (\<lambda>t w. (w, IntoDone wid at d t))"
    and "lawful_mutation R hist (\<lambda>t w. (w, IntoUnClaimed wid at t))"
    and "lawful_mutation R hist (IntoFailed_draw e wid at d)"
  unfolding lawful_mutation_def
  by (auto intro: task_step.intros goes_refl elim!: IntoFailed_draw_cases dest: quiet_eqs(2) [OF store])

lemma markComplete_goes:
  assumes store: "shared_store e hist R" and law: "\<And>at. lawful_mutation R hist (\<lambda>t. mutate t at)"
    and placed: "placed (hist w)"
  shows "goes R hist w (fst (markComplete e conf q i mutate w))"
  unfolding markComplete_def
proof (rule retry_goes [OF store _ placed])
  fix w assume p: "placed (hist w)"
  obtain w1 at where utc: "getUTC e w = (w1, at)" by fastforce
  note go = quiet_eqs(1) [OF store utc]
  show "goes R hist w (fst (let (w1, at) = getUTC e w in getAndUpdate e q i (\<lambda>t. mutate t at) at w1))"
    using goes_trans [OF go getAndUpdate_goes [OF store law shared_keeps(1) [OF store go p]]]
    by (simp add: utc)
qed

lemma updates_go:
  assumes store: "shared_store e hist R" and placed: "placed (hist w)"
  shows "goes R hist w (fst (EsReportIn e conf wid q i d w))" "goes R hist w (fst (EsMarkDone e conf wid q i d w))"
    "goes R hist w (fst (EsMarkFailed e conf wid q i d w))" "goes R hist w (fst (EsUnClaim e conf wid q i w))"
proof -
  obtain w1 at where utc: "getUTC e w = (w1, at)" by fastforce
  note go = quiet_eqs(1) [OF store utc]
  show "goes R hist w (fst (EsReportIn e conf wid q i d w))"
    using goes_trans [OF go retry_goes [OF store getAndUpdate_goes [OF store lawful_updates(1) [OF store]]
        shared_keeps(1) [OF store go placed]]]
    by (simp add: EsReportIn_def utc)
  show "goes R hist w (fst (EsMarkDone e conf wid q i d w))"
    unfolding EsMarkDone_def by (rule markComplete_goes [OF store lawful_updates(2) [OF store] placed])
  show "goes R hist w (fst (EsMarkFailed e conf wid q i d w))"
    unfolding EsMarkFailed_def by (rule markComplete_goes [OF store lawful_updates(4) [OF store] placed])
  show "goes R hist w (fst (EsUnClaim e conf wid q i w))"
    unfolding EsUnClaim_def
    using markComplete_goes [OF store lawful_updates(3) [OF store] placed] unfolding markComplete_def .
qed

section \<open>Claiming\<close>

definition all_read :: "('w, PersistedTaskData) history \<Rightarrow> 'w \<Rightarrow> Task list \<Rightarrow> bool" where
  "all_read hist w ts \<longleftrightarrow> (\<forall>t \<in> set ts. read_in (hist w) t)"

lemma all_read_goes: "shared_store e hist R \<Longrightarrow> goes R hist w w' \<Longrightarrow> all_read hist w ts \<Longrightarrow> all_read hist w' ts"
  unfolding all_read_def by (intro ballI shared_keeps(2)) auto

lemma hits_read:
  assumes placed: "placed (hist w)" and found: "\<And>h. h \<in> set hs \<Longrightarrow> found_in_queue hist w h"
  shows "all_read hist w (map ToDomainTask hs)"
proof -
  have "read_in (hist w) (ToDomainTask h)" if "h \<in> set hs" for h
  proof -
    have f: "(Some (hSource h), hit_version h) \<in> set (hist w (hIndex h, hID h))" "queue_key (hIndex h, hID h)"
      using found [OF that] by (simp_all add: found_in_queue_def queue_key_def)
    then have "(hIndex h, hID h) = task_key (ToDomainTask h)"
      using placed unfolding placed_def task_key_placed ToDomainTask_stored by blast
    with f(1) show ?thesis by (simp add: read_in_def ToDomainTask_stored)
  qed
  then show ?thesis by (simp add: all_read_def)
qed

lemma searched_indices:
  "\<forall>ix \<in> set (if queues = [] then [allTaskqueueQueuesPattern] else map BuildIndexName queues).
     prefix TasquesQueuePrefix ix"
  by (simp add: allTaskqueueQueuesPattern_def BuildIndexName_def)

lemma search_goes:
  assumes store: "shared_store e hist R" and run: "searchForClaimables e queues limit w = (w', r)"
    and placed: "placed (hist w)"
  shows "goes R hist w w' \<and> (\<forall>ts. r = Inr ts \<longrightarrow> all_read hist w' ts)"
proof -
  let ?ixs = "if queues = [] then [allTaskqueueQueuesPattern] else map BuildIndexName queues"
  obtain w1 now where utc: "getUTC e w = (w1, now)" by fastforce
  obtain s where s: "SearchRequest e ?ixs (buildClaimableQueryBody limit now) w1 = (w', s)"
      and r: "\<And>ts. r = Inr ts \<Longrightarrow> ts = [] \<or> (\<exists>hs. s = Response 200 (Some hs) \<and> ts = map ToDomainTask hs)"
    using run utc by (auto simp: searchForClaimables_def Let_def split: prod.splits es_reply.splits option.splits if_splits)
  note go = goes_trans [OF quiet_eqs(1) [OF store utc] quiet_eqs(4) [OF store s]]
  have "all_read hist w' ts" if "r = Inr ts" for ts
    using r [OF that]
  proof
    assume "\<exists>hs. s = Response 200 (Some hs) \<and> ts = map ToDomainTask hs"
    then obtain hs where hs: "s = Response 200 (Some hs)" "ts = map ToDomainTask hs" by blast
    show ?thesis
      unfolding hs(2)
      by (rule hits_read, rule shared_keeps(1) [OF store go placed])
        (rule found_rules(1) [OF store s [unfolded hs(1)] searched_indices])
  qed (simp add: all_read_def)
  with go show ?thesis by blast
qed

lemma sendBulk_fst: "fst (sendBulk e ops w) = fst (BulkRequest e ops w)"
  by (simp add: sendBulk_def split: prod.splits es_reply.splits)

text \<open>Tasks that come each from one of those given, by a method of the domain model.\<close>

definition stepped_from :: "Task list \<Rightarrow> Task list \<Rightarrow> bool" where
  "stepped_from ts us \<longleftrightarrow> (\<forall>u \<in> set us. \<exists>t \<in> set ts. \<exists>ev v at. task_step t ev v \<and> u = set_modified at v)"

lemma stepped_from_simps [simp]:
  "stepped_from ts []"
  "stepped_from ts (u # us) \<longleftrightarrow>
     (\<exists>t \<in> set ts. \<exists>ev v at. task_step t ev v \<and> u = set_modified at v) \<and> stepped_from ts us"
  by (simp_all add: stepped_from_def)

lemma updates_lawful:
  "stepped_from ts us \<Longrightarrow> all_read hist w ts \<Longrightarrow>
     \<forall>op \<in> set (buildTasksBulkUpdateNdJson us). lawful_line (hist w) op"
proof (induction us)
  case (Cons u us)
  then obtain t ev v at where "t \<in> set ts" "task_step t ev v" "u = set_modified at v" by auto
  then have "lawful_line (hist w) (buildUpdateBulkOp u)"
    using Cons.prems(2) unfolding lawful_line_def all_read_def by blast
  then show ?case using Cons by (simp add: buildTasksBulkUpdateNdJson_def)
qed (simp add: buildTasksBulkUpdateNdJson_def)

lemma bulkUpdate_goes:
  assumes "shared_store e hist R" and "all_read hist w ts" and "stepped_from ts us"
  shows "goes R hist w (fst (bulkUpdateTasks e us w))"
  unfolding bulkUpdateTasks_def sendBulk_fst
  by (rule bulk_goes [OF assms(1) updates_lawful [OF assms(3,2)]])

lemma stepped_from_more: "stepped_from ts us \<Longrightarrow> stepped_from (t # ts) us"
  unfolding stepped_from_def by (meson list.set_intros(2))

lemma claim_each_stepped: "claim_each wid at ts = Inr us \<Longrightarrow> stepped_from ts us"
proof (induction ts arbitrary: us)
  case (Cons t ts)
  obtain v vs where v: "IntoClaimed wid at t = Inr v" "claim_each wid at ts = Inr vs" "us = set_modified at v # vs"
    using Cons.prems by (auto simp: result_simps split: sum.splits)
  have "\<exists>t \<in> set (t # ts). \<exists>ev u at'. task_step t ev u \<and> set_modified at v = set_modified at' u"
    using step_claim [OF v(1)] by auto
  then show ?case using stepped_from_more [OF Cons.IH [OF v(2)]] by (simp only: v(3) stepped_from_simps)
qed simp

lemma makeClaim_goes:
  assumes store: "shared_store e hist R" and read: "all_read hist w ts"
  shows "goes R hist w (fst (makeClaim e wid ts w))"
proof -
  obtain w1 at where utc: "getUTC e w = (w1, at)" by fastforce
  note go = quiet_eqs(1) [OF store utc]
  show ?thesis
  proof (cases "claim_each wid at ts")
    case (Inl err)
    then show ?thesis using utc go by (simp add: makeClaim_def)
  next
    case (Inr us)
    note sent = bulkUpdate_goes [OF store all_read_goes [OF store go read] claim_each_stepped [OF Inr]]
    have "fst (makeClaim e wid ts w) = fst (bulkUpdateTasks e us w1)"
      by (simp add: makeClaim_def utc Inr split: prod.splits sum.splits)
    then show ?thesis using goes_trans [OF go sent] by simp
  qed
qed

lemma go_slice_set: "go_slice xs a b = Some ys \<Longrightarrow> set ys \<subseteq> set xs"
  by (auto simp: go_slice_def split: if_splits dest: in_set_takeD in_set_dropD)

lemma claim_window_goes:
  "shared_store e hist R \<Longrightarrow> all_read hist w rs \<Longrightarrow>
     goes R hist w (fst (claim_window e wid n rs i claimed w))"
proof (induction e wid n rs i claimed w rule: claim_window.induct)
  case (1 e wid n rs i claimed w)
  let ?t = "targetClaimsLength n claimed"
  show ?case
  proof (cases "of_nat (length claimed) < n \<and> i < int (length rs)")
    case False
    then show ?thesis by (subst claim_window.simps) (auto simp only: if_False fst_conv goes_refl)
  next
    case True
    show ?thesis
    proof (cases "go_slice rs i (minInt (i + ?t) (int (length rs)))")
      case None
      then show ?thesis using True by (subst claim_window.simps) (simp add: Let_def)
    next
      case (Some tries)
      obtain w1 r where made: "makeClaim e wid tries w = (w1, r)" by fastforce
      have "all_read hist w tries" using "1.prems"(2) go_slice_set [OF Some] by (auto simp: all_read_def)
      then have go: "goes R hist w w1" using makeClaim_goes [OF "1.prems"(1), of w tries wid] made by simp
      show ?thesis
      proof (cases r)
        case (Inl err)
        then show ?thesis using True Some made go by (subst claim_window.simps) (simp add: Let_def)
      next
        case (Inr new)
        note IH = "1.IH" [OF True refl refl Some made [symmetric] Inr "1.prems"(1) all_read_goes [OF "1.prems"(1) go "1.prems"(2)]]
        have "claim_window e wid n rs i claimed w = claim_window e wid n rs (i + ?t) (claimed @ new) w1"
          using True Some made Inr by (subst claim_window.simps) (simp add: Let_def)
        then show ?thesis using goes_trans [OF go IH] by simp
      qed
    qed
  qed
qed

lemma search_loop_goes:
  "search_loop e queues limit start blockFor wait firstTry found w = Some y \<Longrightarrow>
     shared_store e hist R \<Longrightarrow> placed (hist w) \<Longrightarrow> all_read hist w found \<Longrightarrow>
     goes R hist w (fst y) \<and> (\<forall>rs. snd y = Inr rs \<longrightarrow> all_read hist (fst y) rs)"
proof (induction rule: search_loop_induct)
  case (step loop e queues limit start blockFor wait firstTry found w y)
  note store = step.prems(1)
  obtain w1 now where utc: "getUTC e w = (w1, now)" by fastforce
  define w2 where "w2 = (if firstTry then w1 else Sleep e wait w1)"
  note go1 = quiet_eqs(1) [OF store utc]
  have go2: "goes R hist w w2"
    using go1 goes_trans [OF go1 quiet_goes(2) [OF store]] by (simp add: w2_def)
  show ?case
  proof (cases "found \<noteq> [] \<or> \<not> time_sub now start < blockFor")
    case True
    then have "y = (w, Inr found) \<or> y = (w1, Inr found)"
      using step.hyps by (auto simp: utc split: if_splits)
    then show ?thesis using step.prems(3) go1 all_read_goes [OF store go1] by auto
  next
    case False
    obtain w3 r where s: "searchForClaimables e queues limit w2 = (w3, r)" by fastforce
    have go3: "goes R hist w w3" "\<forall>ts. r = Inr ts \<longrightarrow> all_read hist w3 ts"
      using search_goes [OF store s shared_keeps(1) [OF store go2 step.prems(2)]] goes_trans [OF go2] by blast+
    show ?thesis
    proof (cases r)
      case (Inl err)
      then have "y = (w3, Inl err)" using step.hyps False s by (simp add: utc w2_def)
      then show ?thesis using go3 by simp
    next
      case (Inr rs)
      have "loop e queues limit start blockFor wait False rs w3 = Some y"
        using step.hyps False s Inr by (simp add: utc w2_def)
      from step.IH [OF this store shared_keeps(1) [OF store go3(1) step.prems(2)]] go3 Inr
      show ?thesis using goes_trans [OF go3(1)] by simp
    qed
  qed
qed

lemma markAllTouched_goes:
  assumes store: "shared_store e hist R"
  shows "goes R hist w (markAllTouched e names w)"
proof -
  have "goes R hist w (fold (\<lambda>name. lru_Add e name at) names w)" for at w
    by (induction names arbitrary: w) (auto intro: goes_trans [OF quiet_goes(6) [OF store]])
  then show ?thesis
    by (auto simp: markAllTouched_def split: prod.splits intro: goes_trans dest: quiet_eqs(1) [OF store])
qed

lemma searchAndClaim_goes:
  assumes store: "shared_store e hist R" and placed: "placed (hist w)"
    and run: "searchAndClaim e conf wid queues n start blockFor wait w = Some (w', r)"
  shows "goes R hist w w'"
proof -
  let ?limit = "ClaimAmountSearchMultiplier (Defaults conf) * n"
  obtain w1 s where s: "search_loop e queues ?limit start blockFor wait True [] w = Some (w1, s)"
    using run by (auto simp: searchAndClaim_def Let_def split: option.splits)
  have found: "goes R hist w w1" "\<forall>rs. s = Inr rs \<longrightarrow> all_read hist w1 rs"
    using search_loop_goes [OF s store placed] by (simp_all add: all_read_def)
  show ?thesis
  proof (cases s)
    case (Inl err)
    then show ?thesis using run s found by (simp add: searchAndClaim_def)
  next
    case (Inr rs)
    note touched = markAllTouched_goes [OF store, of w1 queues]
    have "goes R hist (markAllTouched e queues w1) w'"
      using claim_window_goes [OF store all_read_goes [OF store touched], of rs wid n 0 "[]"] found(2) Inr run s
      by (simp add: searchAndClaim_def)
    then show ?thesis using goes_trans [OF found(1) goes_trans [OF touched]] by blast
  qed
qed

lemma claim_loop_goes:
  "claim_loop e conf wid queues n start blockFor wait firstTry claimed w = Some y \<Longrightarrow>
     shared_store e hist R \<Longrightarrow> placed (hist w) \<Longrightarrow> goes R hist w (fst y)"
proof (induction rule: claim_loop_induct)
  case (step loop e conf wid queues n start blockFor wait firstTry claimed w y)
  note store = step.prems(1)
  obtain w1 now where utc: "getUTC e w = (w1, now)" by fastforce
  define w2 where "w2 = (if firstTry then w1 else Sleep e wait w1)"
  note go1 = quiet_eqs(1) [OF store utc]
  have go2: "goes R hist w w2"
    using go1 goes_trans [OF go1 quiet_goes(2) [OF store]] by (simp add: w2_def)
  let ?m = "n - of_nat (length claimed)"
  show ?case
  proof (cases "of_nat (length claimed) < n \<and> time_sub now start < blockFor")
    case False
    then have "y = (w, Inr claimed) \<or> y = (w1, Inr claimed)"
      using step.hyps by (auto simp: utc split: if_splits)
    then show ?thesis using go1 by auto
  next
    case True
    obtain w3 r where s: "searchAndClaim e conf wid queues ?m start blockFor wait w2 = Some (w3, r)"
      using step.hyps True
      by (cases "searchAndClaim e conf wid queues ?m start blockFor wait w2") (auto simp: utc w2_def)
    note go3 = goes_trans [OF go2 searchAndClaim_goes [OF store shared_keeps(1) [OF store go2 step.prems(2)] s]]
    show ?thesis
    proof (cases r)
      case (Inl err)
      then have "y = (w3, Inl err)" using step.hyps True s by (simp add: utc w2_def)
      then show ?thesis using go3 by simp
    next
      case (Inr cs)
      have "loop e conf wid queues n start blockFor wait False (claimed @ cs) w3 = Some y"
        using step.hyps True s Inr by (simp add: utc w2_def)
      from step.IH [OF this store shared_keeps(1) [OF store go3 step.prems(2)]]
      show ?thesis by (rule goes_trans [OF go3])
    qed
  qed
qed

lemma EsClaim_goes:
  assumes store: "shared_store e hist R" and placed: "placed (hist w)"
    and run: "EsClaim e conf wid queues n blockFor w = Some (w', r)"
  shows "goes R hist w w'"
proof -
  obtain w1 start where utc: "getUTC e w = (w1, start)" by fastforce
  note go = quiet_eqs(1) [OF store utc]
  have "claim_loop e conf wid queues n start blockFor (retryWait conf blockFor) True [] w1 = Some (w', r)"
    using run by (simp add: EsClaim_def utc)
  from claim_loop_goes [OF this store shared_keeps(1) [OF store go placed]]
  show ?thesis using goes_trans [OF go] by simp
qed

section \<open>The scans\<close>

lemma time_out_each_goes:
  assumes store: "shared_store e hist R"
  shows "time_out_each e now ts w = (w', us) \<Longrightarrow> goes R hist w w' \<and> stepped_from ts us"
proof (induction ts arbitrary: w us)
  case Nil
  then show ?case by (simp add: stepped_from_def)
next
  case (Cons t ts)
  show ?case
  proof (cases "tLastClaimed t")
    case None
    then show ?thesis using Cons by (auto simp: stepped_from_def)
  next
    case (Some lc)
    obtain w1 r where failed: "IntoFailed_draw e (lcWorkerId lc) now (Some timed_out_failure) t w = (w1, r)"
      by fastforce
    obtain rest where rest: "time_out_each e now ts w1 = (w', rest)"
        and us: "us = (case r of Inl _ \<Rightarrow> rest | Inr t' \<Rightarrow> set_modified now t' # rest)"
      using Cons.prems Some failed by (auto split: prod.splits)
    have "goes R hist w w1" "\<And>u. r = Inr u \<Longrightarrow> \<exists>ev. task_step t ev u"
      using lawful_updates(4) [OF store] failed unfolding lawful_mutation_def by blast+
    then have "\<exists>t \<in> set (t # ts). \<exists>ev v at. task_step t ev v \<and> set_modified now u = set_modified at v" if "r = Inr u" for u
      using that by auto
    then show ?thesis
      using goes_trans [OF \<open>goes R hist w w1\<close>] Cons.IH [OF rest] stepped_from_more [of ts rest t]
      by (cases r) (simp_all only: us sum.case stepped_from_simps simp_thms)
  qed
qed

lemma reap_batch_goes:
  assumes store: "shared_store e hist R" and read: "all_read hist w ts"
  shows "goes R hist w (fst (reap_batch e now ts w))"
proof -
  obtain w1 us where out: "time_out_each e now ts w = (w1, us)" by fastforce
  have go: "goes R hist w w1" "stepped_from ts us" using time_out_each_goes [OF store out] by simp_all
  show ?thesis
    using goes_trans [OF go(1) bulkUpdate_goes [OF store all_read_goes [OF store go(1) read] go(2)]]
    by (auto simp: reap_batch_def out split: prod.splits)
qed

lemma archive_batch_goes:
  assumes store: "shared_store e hist R" and read: "all_read hist w ts"
  shows "goes R hist w (fst (archive_batch e ts w))"
proof -
  have "\<forall>op \<in> set (buildTasksBulkArchiveNdJson ts). lawful_line (hist w) op"
    using read by (auto simp: buildTasksBulkArchiveNdJson_def all_read_def lawful_line_def)
  from bulk_goes [OF store this] show ?thesis
    by (auto simp: archive_batch_def bulkArchiveTasks_def sendBulk_fst [symmetric] split: prod.splits)
qed

lemma pages_read:
  assumes store: "shared_store e hist R" and placed: "placed (hist w)"
  shows "scroll e ttl sid w = (w', r) \<Longrightarrow> goes R hist w w' \<and> (\<forall>sid' ts. r = Inr (sid', ts) \<longrightarrow> all_read hist w' ts)"
    and "initSearch e q ttl w = (w', r) \<Longrightarrow> goes R hist w w' \<and> (\<forall>sid' ts. r = Inr (sid', ts) \<longrightarrow> all_read hist w' ts)"
proof -
  assume "scroll e ttl sid w = (w', r)"
  then obtain raw where raw: "ScrollRequest e ttl sid w = (w', raw)" "r = processScrollResp raw"
    by (auto simp: scroll_def split: prod.splits)
  note go = quiet_eqs(6) [OF store raw(1)]
  show "goes R hist w w' \<and> (\<forall>sid' ts. r = Inr (sid', ts) \<longrightarrow> all_read hist w' ts)"
    using go raw by (auto simp: processed_hits intro!: hits_read shared_keeps(1) [OF store go placed]
        elim: found_rules(3) [OF store])
next
  assume "initSearch e q ttl w = (w', r)"
  then obtain raw where raw: "ScrollSearchRequest e ttl [allTaskqueueQueuesPattern] q w = (w', raw)" "r = processScrollResp raw"
    by (auto simp: initSearch_def split: prod.splits)
  note go = quiet_eqs(5) [OF store raw(1)]
  show "goes R hist w w' \<and> (\<forall>sid' ts. r = Inr (sid', ts) \<longrightarrow> all_read hist w' ts)"
    using go raw by (auto simp: processed_hits intro!: hits_read shared_keeps(1) [OF store go placed]
        elim: found_rules(2) [OF store])
qed

lemma scan_loop_goes:
  "scan_loop next f sid batch ids acc w = Some y \<Longrightarrow> shared_store e hist R \<Longrightarrow>
     (\<And>sid w w' r. placed (hist w) \<Longrightarrow> next sid w = (w', r) \<Longrightarrow>
        goes R hist w w' \<and> (\<forall>sid' ts. r = Inr (sid', ts) \<longrightarrow> all_read hist w' ts)) \<Longrightarrow>
     (\<And>ts acc w. all_read hist w ts \<Longrightarrow> goes R hist w (fst (f ts acc w))) \<Longrightarrow>
     placed (hist w) \<Longrightarrow> all_read hist w batch \<Longrightarrow> goes R hist w (fst y)"
proof (induction rule: scan_loop_induct)
  case (step loop "next" f sid batch ids acc w y)
  show ?case
  proof (cases "batch = []")
    case True
    then show ?thesis using step.hyps by auto
  next
    case False
    obtain w1 r where f: "f batch acc w = (w1, r)" by fastforce
    have go1: "goes R hist w w1" using step.prems(3) [OF step.prems(5), of acc] f by simp
    note placed1 = shared_keeps(1) [OF step.prems(1) go1 step.prems(4)]
    obtain w2 p where p: "next sid w1 = (w2, p)" by fastforce
    have go2: "goes R hist w1 w2" "\<forall>sid' ts. p = Inr (sid', ts) \<longrightarrow> all_read hist w2 ts"
      using step.prems(2) [OF placed1 p] by blast+
    note go = goes_trans [OF go1 go2(1)]
    consider "fst y = w1" | "fst y = w2"
      | sid' ts acc' where "p = Inr (sid', ts)" "loop next f sid' ts (ids @ [sid']) acc' w2 = Some y"
      using step.hyps False f p by (auto split: sum.splits)
    then show ?thesis
    proof cases
      case (3 sid' ts acc')
      have "goes R hist w2 (fst y)"
        by (rule step.IH [OF 3(2) step.prems(1) step.prems(2) step.prems(3)
              shared_keeps(1) [OF step.prems(1) go step.prems(4)]])
          (use 3(1) go2(2) in blast)+
      then show ?thesis by (rule goes_trans [OF go])
    qed (use go1 go in simp_all)
  qed
qed

lemma clearScroll_goes: "shared_store e hist R \<Longrightarrow> goes R hist w (fst (clearScroll e ids w))"
  using quiet_goes(11) [of e hist R w ids]
  by (auto simp: clearScroll_def split: prod.splits es_reply.splits)

lemma scanTasks_goes:
  assumes store: "shared_store e hist R" and placed: "placed (hist w)"
    and f: "\<And>ts w. all_read hist w ts \<Longrightarrow> goes R hist w (fst (f ts w))"
    and run: "scanTasks e q ttl f w = Some (w', r)"
  shows "goes R hist w w'"
proof -
  obtain w1 i where init: "initSearch e q ttl w = (w1, i)" by fastforce
  have go1: "goes R hist w w1" "\<forall>sid ts. i = Inr (sid, ts) \<longrightarrow> all_read hist w1 ts"
    using pages_read(2) [OF store placed init] by blast+
  show ?thesis
  proof (cases i)
    case (Inl err)
    then show ?thesis using run init go1 by (simp add: scanTasks_def)
  next
    case (Inr p)
    obtain sid ts where p: "p = (sid, ts)" by fastforce
    obtain y where y: "scan_loop (scroll e ttl) (\<lambda>ts _. f ts) sid ts [sid] () w1 = Some y"
      and w': "w' = fst (clearScroll e (fst (snd y)) (fst y))"
      using run init Inr p by (auto simp: scanTasks_def split: option.splits prod.splits)
    have "goes R hist w1 (fst y)"
      by (rule scan_loop_goes [OF y store pages_read(1) [OF store] f shared_keeps(1) [OF store go1(1) placed]])
        (use go1(2) Inr p in auto)
    then show ?thesis
      using goes_trans [OF goes_trans [OF go1(1)] clearScroll_goes [OF store]] w' by blast
  qed
qed

section \<open>The service\<close>

text \<open>A call of a method of the service that returned, with whatever result.\<close>

inductive service_call :: "'w Service \<Rightarrow> 'w \<Rightarrow> 'w \<Rightarrow> bool" for svc where
  call_create: "svcCreate svc n w = (w', r) \<Longrightarrow> service_call svc w w'"
| call_get: "svcGet svc q i w = (w', r) \<Longrightarrow> service_call svc w w'"
| call_claim: "svcClaim svc wid qs n blockFor w = Some (w', rs) \<Longrightarrow> service_call svc w w'"
| call_report: "svcReportIn svc wid q i d w = (w', r) \<Longrightarrow> service_call svc w w'"
| call_done: "svcMarkDone svc wid q i d w = (w', r) \<Longrightarrow> service_call svc w w'"
| call_failed: "svcMarkFailed svc wid q i d w = (w', r) \<Longrightarrow> service_call svc w w'"
| call_unclaim: "svcUnClaim svc wid q i w = (w', r) \<Longrightarrow> service_call svc w w'"
| call_reap: "svcReapTimedOutTasks svc n ttl w = Some (w', u) \<Longrightarrow> service_call svc w w'"
| call_archive: "svcArchiveOldTasks svc before n ttl w = Some (w', u) \<Longrightarrow> service_call svc w w'"
| call_refresh: "svcRefreshAsNeeded svc q w = (w', u) \<Longrightarrow> service_call svc w w'"
| call_count: "svcOutstandingTasksCount svc q rid w = (w', c) \<Longrightarrow> service_call svc w w'"

lemma scans_go:
  assumes store: "shared_store e hist R" and placed: "placed (hist w)"
  shows "EsReapTimedOutTasks e n ttl w = Some (w', u) \<Longrightarrow> goes R hist w w'"
    and "EsArchiveOldTasks e before n ttl w = Some (w', u) \<Longrightarrow> goes R hist w w'"
proof -
  assume run: "EsReapTimedOutTasks e n ttl w = Some (w', u)"
  obtain w1 now where utc: "getUTC e w = (w1, now)" by fastforce
  note go = quiet_eqs(1) [OF store utc]
  have "scanTasks e (buildTimedOutSearchBody now n) ttl (reap_batch e now) w1 = Some (w', u)"
    using run by (simp add: EsReapTimedOutTasks_def utc)
  from goes_trans [OF go scanTasks_goes [OF store shared_keeps(1) [OF store go placed] reap_batch_goes [OF store] this]]
  show "goes R hist w w'" by simp
next
  assume "EsArchiveOldTasks e before n ttl w = Some (w', u)"
  from scanTasks_goes [OF store placed archive_batch_goes [OF store] this [unfolded EsArchiveOldTasks_def]]
  show "goes R hist w w'" by simp
qed

lemma markTouched_goes: "shared_store e hist R \<Longrightarrow> goes R hist w (markTouched e q w)"
  by (auto simp: markTouched_def split: prod.splits intro: goes_trans quiet_goes(6) dest: quiet_eqs(1))

lemma refresh_goes:
  assumes store: "shared_store e hist R"
  shows "goes R hist w (fst (EsRefreshAsNeeded e conf q w))"
proof -
  obtain w1 b where needs: "needsRefreshing e conf q w = (w1, b)" by fastforce
  have go: "goes R hist w w1"
    using needs unfolding needsRefreshing_def
    by (auto simp: Let_def split: prod.splits option.splits intro: goes_trans
        dest!: quiet_eqs(1) [OF store] quiet_eqs(7) [OF store])
  obtain w2 c where c: "IndicesRefreshRequest e [q] w1 = (w2, c)" by fastforce
  have "fst (EsRefreshAsNeeded e conf q w) \<in> {w1, w2, markTouched e q w2}"
    by (auto simp: EsRefreshAsNeeded_def needs c split: bool.splits es_reply.splits)
  then show ?thesis
    using go goes_trans [OF go quiet_eqs(11) [OF store c]] goes_trans [OF _ markTouched_goes [OF store]] by auto
qed

lemma count_goes:
  assumes store: "shared_store e hist R"
  shows "goes R hist w (fst (EsOutstandingTasksCount e q rid w))"
proof -
  obtain w1 c where c: "CountRequest e [BuildIndexName q] (buildOutstandingTasksCountQuery rid) w = (w1, c)"
    by fastforce
  have "fst (EsOutstandingTasksCount e q rid w) \<in> {w1, markTouched e q w1}"
    by (auto simp: EsOutstandingTasksCount_def c split: es_reply.splits option.splits)
  then show ?thesis
    using quiet_eqs(10) [OF store c] goes_trans [OF quiet_eqs(10) [OF store c] markTouched_goes [OF store]] by auto
qed

lemma service_goes:
  assumes store: "shared_store e hist R" and placed: "placed (hist w)"
    and call: "service_call (NewService e conf) w w'"
  shows "goes R hist w w'"
  using call
proof cases
  case (call_create n r)
  then show ?thesis using EsCreate_goes [OF store, of w n] by (simp add: NewService_def)
next
  case (call_get q i r)
  then show ?thesis using EsGet_goes(1) [OF store] by (simp add: NewService_def)
next
  case (call_claim wid qs n blockFor rs)
  then show ?thesis using EsClaim_goes [OF store placed] by (simp add: NewService_def)
next
  case (call_report wid q i d r)
  then show ?thesis using updates_go(1) [OF store placed, of conf wid q i d] by (simp add: NewService_def)
next
  case (call_done wid q i d r)
  then show ?thesis using updates_go(2) [OF store placed, of conf wid q i d] by (simp add: NewService_def)
next
  case (call_failed wid q i d r)
  then show ?thesis using updates_go(3) [OF store placed, of conf wid q i d] by (simp add: NewService_def)
next
  case (call_unclaim wid q i r)
  then show ?thesis using updates_go(4) [OF store placed, of conf wid q i] by (simp add: NewService_def)
next
  case (call_reap n ttl u)
  then show ?thesis using scans_go(1) [OF store placed] by (simp add: NewService_def)
next
  case (call_archive before n ttl u)
  then show ?thesis using scans_go(2) [OF store placed] by (simp add: NewService_def)
next
  case (call_refresh q u)
  then show ?thesis using refresh_goes [OF store, of w conf q] by (simp add: NewService_def)
next
  case (call_count q rid c)
  then show ?thesis using count_goes [OF store, of w q rid] by (simp add: NewService_def)
qed

end
