(* ===== verification/Recovery.thy ===== *)
theory Recovery
  imports EsQueries
begin

text \<open>
  The three periodic queries together: workers claim (\<open>buildClaimableQueryBody\<close>), the reaper
  times out claims (\<open>buildTimedOutSearchBody\<close>) and the archiver removes finished tasks
  (\<open>buildArchivableSearchBody\<close>, all in \<open>internal/infra/elasticsearch/task/service.go\<close>). A task
  that satisfies the invariant of its life cycle is one that exactly one of them selects, from a
  known time on. \<open>TaskHistory\<close> has the theorem about the documents that exist.
\<close>

text \<open>The time from which the query of a task's state selects it.\<close>

definition ready_at :: "Task \<Rightarrow> time option" where
  "ready_at t =
     (case tState t of
        QUEUED \<Rightarrow> Some (tRunAt t)
      | FAILED \<Rightarrow> Some (tRunAt t)
      | CLAIMED \<Rightarrow> map_option lcTimesOutAt (tLastClaimed t)
      | _ \<Rightarrow> Option.bind (tLastClaimed t) (\<lambda>lc. map_option resAt (lcResult lc)))"

definition ready :: "Task \<Rightarrow> time \<Rightarrow> bool" where
  "ready t now \<longleftrightarrow> (case ready_at t of Some r \<Rightarrow> date_ms r \<le> date_ms now | None \<Rightarrow> False)"

lemma task_inv_ready_at: "task_inv t \<Longrightarrow> \<exists>r. ready_at t = Some r"
  by (auto simp: task_inv_def claim_ok_def claim_result_def ready_at_def bind_eq_Some_conv
      split: State.splits)

lemma ready_from: "ready_at t = Some r \<Longrightarrow> ready t now \<longleftrightarrow> date_ms r \<le> date_ms now"
  by (simp add: ready_def)

text \<open>Attempts are left in every state that can be claimed.\<close>

lemma claimable_remaining:
  assumes "attempts_ok t" and "budget_ok t" and "tState t \<in> {QUEUED, FAILED}"
  shows "0 < RemainingAttempts t"
  using assms by (auto simp: attempts_ok_def RemainingAttempts_pos_iff)

lemma claim_query_task:
  assumes "dsl_ok m" and "task_inv t" and "budget_ok t"
  shows "m (query_of (buildClaimableQueryBody limit now)) (persisted_json (ToPersistedTask t)) \<longleftrightarrow>
    tState t \<in> {QUEUED, FAILED} \<and> ready t now"
proof -
  have "tState t \<in> {QUEUED, FAILED} \<Longrightarrow> 0 < tRetryTimes t + 1 - tAttempted t"
    using claimable_remaining [OF _ assms(3)] assms(2)
    by (simp add: task_inv_def RemainingAttempts_def split: if_splits)
  then show ?thesis
    using assms(1)
    by (auto simp: query_of_def buildClaimableQueryBody_def dsl_simps word_less_def
        ToPersistedTask_def ready_def ready_at_def)
qed

lemma reap_query_task:
  assumes "dsl_ok m"
  shows "m (query_of (buildTimedOutSearchBody now page)) (persisted_json (ToPersistedTask t)) \<longleftrightarrow>
    tState t = CLAIMED \<and> ready t now"
  using reap_and_archive_queries_select [OF assms, of now page "ToPersistedTask t"]
  by (auto simp: ToPersistedTask_def lastClaimed_toPersisted_def ready_def ready_at_def
      split: option.splits)

lemma archive_query_task:
  assumes "dsl_ok m"
  shows "m (query_of (buildArchivableSearchBody now page)) (persisted_json (ToPersistedTask t)) \<longleftrightarrow>
    tState t \<in> {DONE, DEAD} \<and> ready t now"
  unfolding reap_and_archive_queries_select [OF assms, THEN conjunct2]
  by (cases "tLastClaimed t"; cases "lcResult (the (tLastClaimed t))")
    (auto simp: ToPersistedTask_def lastClaimed_toPersisted_def result_toPersisted_def ready_def
      ready_at_def)

end
