(* ===== verification/TaskHistory.thy ===== *)
theory TaskHistory
  imports TaskWrites Recovery
begin

text \<open>
  Any number of servers over one store. Each relies on the others making lawful writes only, and by
  \<open>service_goes\<close> makes only lawful writes itself; so whatever the interleaving of their requests,
  whichever of them fail and whatever the replies say, the history of every document in the queues
  is the life of one task: its creation, and then results of the methods of the domain model, each
  on the one before.
\<close>

section \<open>The life of a task in the history of its document\<close>

text \<open>Newest first; the metadata (the version, the times of writing) is beside the life of the task.\<close>

abbreviation with_metadata :: "Metadata \<Rightarrow> Task \<Rightarrow> Task" where
  "with_metadata md t \<equiv> t\<lparr>tMetadata := md\<rparr>"

inductive life ::
  "(PersistedTaskData option \<times> Version) list \<Rightarrow> Task \<Rightarrow> task_event list \<Rightarrow> Task \<Rightarrow> bool" where
  life_born: "fresh t \<Longrightarrow> h = [] \<or> fst (hd h) = None \<Longrightarrow>
    life ((Some (ToPersistedTask (with_metadata md t)), v) # h) t [] t"
| life_goes_on: "life h t es u \<Longrightarrow> task_step u ev u' \<Longrightarrow>
    life ((Some (ToPersistedTask (with_metadata md u')), v) # h) t (es @ [ev]) u'"

fun lived :: "(PersistedTaskData option \<times> Version) list \<Rightarrow> bool" where
  "lived [] \<longleftrightarrow> True"
| "lived (x # h) \<longleftrightarrow> lived h \<and> (fst x = None \<or> (\<exists>t es u. life (x # h) t es u))"

definition all_lived :: "PersistedTaskData documents \<Rightarrow> bool" where
  "all_lived H \<longleftrightarrow> (\<forall>k. queue_key k \<longrightarrow> lived (H k))"

lemma life_run:
  "life h t es u \<Longrightarrow> fresh t \<and> task_run t es u \<and>
     (\<exists>md v h'. h = (Some (ToPersistedTask (with_metadata md u)), v) # h')"
  by (induction rule: life.induct) (auto intro: task_run.intros)

lemma task_step_metadata:
  "task_step t ev u \<Longrightarrow> task_step (with_metadata md t) ev (with_metadata md u)"
  by (erule task_step.cases)
    (auto simp: task_step_simps task_iffs check_claim_Inr_iff RemainingAttempts_def retriesSoFar_def)

lemma life_written:
  assumes life: "life h t es u" and top: "hd h = (Some (ToPersistedTask u1), v1)" and step: "task_step u1 ev u2"
  shows "\<exists>u'. life ((Some (ToPersistedTask (set_modified at u2)), v) # h) t (es @ [ev]) u'"
proof -
  obtain md where "ToPersistedTask (with_metadata md u) = ToPersistedTask u1"
    using life_run [OF life] top by auto
  then obtain md' where "u1 = with_metadata md' u"
    by (auto dest!: ToPersistedTask_eqD)
  then have "with_metadata (tMetadata u) u1 = u" by simp
  then have "task_step u ev (with_metadata (tMetadata u) u2)"
    using task_step_metadata [OF step, of "tMetadata u"] by simp
  from life_goes_on [OF life this, of "tMetadata (set_modified at u2)" v] show ?thesis
    by (auto simp: set_modified_def)
qed

section \<open>Lawful writes keep it\<close>

lemma new_task_fresh: "fresh (toDomainTask (newTask_toPersisted i now n) v)"
  by (simp add: fresh_def toDomainTask_def newTask_toPersisted_def)

lemma lived_created: "lived h \<Longrightarrow> h = [] \<or> fst (hd h) = None \<Longrightarrow> lived ((Some (newTask_toPersisted i now n), v) # h)"
  using life_born [OF new_task_fresh [of i now n v], of h "tMetadata (toDomainTask (newTask_toPersisted i now n) v)" v]
  by auto

lemma lived_stepped:
  assumes "lived h" and "hd h = (Some (ToPersistedTask t), w)" and "h \<noteq> []" and "task_step t ev u"
  shows "lived ((Some (ToPersistedTask (set_modified at u)), v) # h)"
proof -
  obtain x h' where h: "h = x # h'" using assms(3) by (cases h) auto
  then obtain t0 es t1 where "life h t0 es t1" using assms(1,2) by auto
  from life_written [OF this assms(2,4)]
  have "\<exists>t0 es t1. life ((Some (ToPersistedTask (set_modified at u)), v) # h) t0 es t1" by blast
  then show ?thesis using assms(1) by simp
qed

lemma all_lived_upd:
  "all_lived H \<Longrightarrow> (queue_key k \<Longrightarrow> lived (H k) \<Longrightarrow> lived (x # H k)) \<Longrightarrow> all_lived (H(k := x # H k))"
  unfolding all_lived_def by (simp del: lived.simps split_paired_All)

lemma task_write_lived: "task_write H H' \<Longrightarrow> all_lived H \<Longrightarrow> all_lived H'"
proof (induction rule: task_write.induct)
  case (write_created n i now H H')
  let ?k = "(BuildIndexName (nQueue n), i)"
  obtain v where H': "H' = H(?k := (Some (newTask_toPersisted i now n), v) # H ?k)"
      and free: "H ?k = [] \<or> fst (hd (H ?k)) = None"
    using write_created(1) unfolding write_new_def by blast
  show ?case unfolding H' by (rule all_lived_upd [OF write_created(2) lived_created [OF _ free]])
next
  case (write_stepped H t ev u at H')
  obtain v where H': "H' = H(task_key t := (Some (ToPersistedTask (set_modified at u)), v) # H (task_key t))"
      and ne: "H (task_key t) \<noteq> []"
    using write_stepped(3) by (auto simp: write_over_def)
  show ?case
    unfolding H'
    by (rule all_lived_upd [OF write_stepped(4) lived_stepped [OF _ write_stepped(1) ne write_stepped(2)]])
next
  case (write_deleted H t H')
  then obtain v where "H' = H(task_key t := (None, v) # H (task_key t))"
    by (auto simp: write_over_def)
  then show ?case using write_deleted(3) all_lived_upd [of H "task_key t" "(None, v)"]
    by (simp del: fun_upd_apply)
next
  case (write_archived i d H H')
  then obtain v where "H' = H((TasquesArchiveIndex, i) := (Some d, v) # H (TasquesArchiveIndex, i))"
    by (auto simp: write_new_def)
  then show ?case
    using write_archived(2) all_lived_upd [of H "(TasquesArchiveIndex, i)"] by (simp only: archive_not_queue)
qed

lemma task_write_rely: "rely task_write"
  by (simp add: rely_def task_write_longer task_write_placed)

lemma moves_lived: "moves task_write H H' \<Longrightarrow> all_lived H \<Longrightarrow> all_lived H'"
  unfolding moves_def sup.idem by (induction rule: rtranclp_induct) (auto intro: task_write_lived)

section \<open>Servers over one store\<close>

text \<open>One of the servers, each with its own environment and settings, calls its service.\<close>

definition server_step :: "'w task_env set \<Rightarrow> 'w \<Rightarrow> 'w \<Rightarrow> bool" where
  "server_step servers w w' \<longleftrightarrow> (\<exists>e \<in> servers. \<exists>conf. service_call (NewService e conf) w w')"

definition cluster :: "'w task_env set \<Rightarrow> ('w, PersistedTaskData) history \<Rightarrow> bool" where
  "cluster servers hist \<longleftrightarrow> (\<forall>e \<in> servers. shared_store e hist task_write)"

definition no_tasks :: "PersistedTaskData documents \<Rightarrow> bool" where
  "no_tasks H \<longleftrightarrow> (\<forall>k. queue_key k \<longrightarrow> H k = [])"

lemma cluster_keeps:
  assumes "cluster servers hist" and "no_tasks (hist w0)" and "(server_step servers)\<^sup>*\<^sup>* w0 w"
  shows "placed (hist w) \<and> all_lived (hist w)"
  using assms(3)
proof (induction rule: rtranclp_induct)
  case base
  then show ?case using assms(2) by (auto simp: no_tasks_def placed_def all_lived_def)
next
  case (step w1 w2)
  then obtain e conf where "shared_store e hist task_write" "service_call (NewService e conf) w1 w2"
    using assms(1) by (auto simp: server_step_def cluster_def)
  then have go: "moves task_write (hist w1) (hist w2)"
    using service_goes [of e hist task_write w1 conf w2] step.IH by (simp add: goes_def)
  show ?case using moves_keep [OF task_write_rely go] moves_lived [OF go] step.IH by blast
qed

lemma cluster_document:
  assumes "cluster servers hist" and "no_tasks (hist w0)" and "(server_step servers)\<^sup>*\<^sup>* w0 w"
    and "queue_key k" and "hist w k = (Some d, v) # h"
  obtains t0 es t md where "life (hist w k) t0 es t" "fresh t0" "task_run t0 es t"
    "d = ToPersistedTask (with_metadata md t)" "k = task_key t"
proof -
  have kept: "placed (hist w)" "lived (hist w k)"
    using cluster_keeps [OF assms(1-3)] assms(4) unfolding all_lived_def by blast+
  then obtain t0 es t where life: "life (hist w k) t0 es t" by (auto simp: assms(5))
  then obtain md where run: "fresh t0" "task_run t0 es t" "d = ToPersistedTask (with_metadata md t)"
    using life_run [OF life] by (auto simp: assms(5))
  have "k = (BuildIndexName (pQueue d), pId d)"
    using kept(1) assms(4,5) unfolding placed_def by (metis list.set_intros(1))
  then have "k = task_key t" by (simp add: run(3) task_key_def ToPersistedTask_def)
  then show thesis using that life run by blast
qed

lemma task_run_same: "task_run t es u \<Longrightarrow> same_task t u"
  by (induction rule: task_run.induct) (auto intro: same_task_trans task_step_same)

lemma with_metadata_inv [simp]:
  "task_inv (with_metadata md t) \<longleftrightarrow> task_inv t" "budget_ok (with_metadata md t) \<longleftrightarrow> budget_ok t"
  by (auto simp: task_inv_def attempts_ok_def claim_ok_def claim_result_def budget_ok_def split: State.splits)

text \<open>
  C6: the service is the only writer it needs to fear, and it is a good one. However the methods of
  the service are called and whatever they return, the documents change only by what others do, \<open>R\<close>,
  and by lawful writes: creations where there is no document, results of methods of the domain model
  over the very version they were computed from, and the deletions and copies of the archiver.
\<close>

theorem service_writes_lawful:
  assumes "shared_store e hist R" and "placed (hist w)" and "service_call (NewService e conf) w w'"
  shows "(sup R task_write)\<^sup>*\<^sup>* (hist w) (hist w') \<and> placed (hist w')"
  using service_goes [OF assms] moves_keep [OF shared_store_rules(2) [OF assms(1)]] assms(2)
  unfolding goes_def by (auto simp: moves_def)

text \<open>
  C2: the refinement of the task model by the whole cluster. Any number of servers, starting from
  empty queues, call their services in any order, others writing between their requests; then every
  document in a queue is where its task says, and its history is the life of that task: from its
  creation on, every version is the result of one method of the domain model on the version before
  it, by a run of the state machine of tasks.
\<close>

theorem documents_are_lives:
  assumes "cluster servers hist" and "no_tasks (hist w0)" and "(server_step servers)\<^sup>*\<^sup>* w0 w"
    and "queue_key k" and "hist w k = (Some d, v) # h"
  shows "\<exists>t0 es t md. life (hist w k) t0 es t \<and> fresh t0 \<and> task_run t0 es t \<and>
    d = ToPersistedTask (with_metadata md t) \<and> k = task_key t"
  using cluster_document [OF assms] by metis

text \<open>
  C5: no task is ever stuck. Take any document of a queue at any moment in the life of such a
  cluster, with a retry budget that does not wrap. There is a time from which exactly one of the
  three periodic queries selects it, and before which none does: the claim query when the task is
  queued or failed, the reaper's when it is claimed, the archiver's when it is done or dead.
\<close>

theorem no_task_stuck:
  fixes m limit page
  defines "claimable \<equiv> \<lambda>d now. m (query_of (buildClaimableQueryBody limit now)) (persisted_json d)"
    and "reapable \<equiv> \<lambda>d now. m (query_of (buildTimedOutSearchBody now page)) (persisted_json d)"
    and "archivable \<equiv> \<lambda>d now. m (query_of (buildArchivableSearchBody now page)) (persisted_json d)"
  assumes "cluster servers hist" and "no_tasks (hist w0)" and "(server_step servers)\<^sup>*\<^sup>* w0 w"
    and "queue_key k" and "hist w k = (Some d, v) # h"
    and "dsl_ok m" and budget: "unat (pRetryTimes d) < 2 ^ 64 - 1"
  shows "\<exists>since. \<forall>now.
    (claimable d now \<longleftrightarrow> pState d \<in> {QUEUED, FAILED} \<and> since \<le> date_ms now) \<and>
    (reapable d now \<longleftrightarrow> pState d = CLAIMED \<and> since \<le> date_ms now) \<and>
    (archivable d now \<longleftrightarrow> pState d \<in> {DONE, DEAD} \<and> since \<le> date_ms now)"
proof -
  obtain t0 es t md where run: "fresh t0" "task_run t0 es t" and d: "d = ToPersistedTask (with_metadata md t)"
    using cluster_document [OF assms(4-8)] by metis
  have "budget_ok t" using budget by (simp add: d ToPersistedTask_def budget_ok_def)
  then have "budget_ok t0"
    using task_run_same [OF run(2)] by (simp add: same_task_budget)
  then have inv: "task_inv (with_metadata md t)" and b: "budget_ok (with_metadata md t)"
    using task_run_inv [OF run(2,1)] by (simp_all add: with_metadata_inv)
  obtain r where r: "ready_at (with_metadata md t) = Some r" using task_inv_ready_at [OF inv] by blast
  have state: "pState d = tState (with_metadata md t)" by (simp add: d ToPersistedTask_def)
  show ?thesis
    unfolding claimable_def reapable_def archivable_def state unfolding d
    by (intro exI [of _ "date_ms r"] conjI allI)
      (simp_all only: claim_query_task [OF assms(9) inv b] reap_query_task [OF assms(9)]
        archive_query_task [OF assms(9)] ready_from [OF r])
qed

end
