(* ===== verification/TaskHistoryExamples.thy ===== *)
theory TaskHistoryExamples
  imports TaskHistory EsInMemory
begin

text \<open>
  Two servers over the in-memory store of \<open>EsMemory\<close>. One is alone with the store; the other has a
  task created by the first whenever it reads a document, so that its requests do meet writes of
  another server.
\<close>

section \<open>The store in memory is shared\<close>

lemma mem_placed: "placed (task_hist w)"
  unfolding placed_def by (metis mem_well_placed [unfolded well_placed_def])

lemma mem_write_new:
  "mem_hist P w k = [] \<Longrightarrow> mem_write P k d w = Some w' \<Longrightarrow> write_new k d (mem_hist P w) (mem_hist P w')"
  using mem_write_Some [of P k d w w'] unfolding write_new_def by (auto simp: fun_eq_iff)

lemma mem_write_over:
  assumes "mem_locked_write P k d (lock_data v) w = Some w'"
  shows "write_over k v (Some d) (mem_hist P w) (mem_hist P w')"
proof -
  obtain x v0 h where h: "mem_hist P w k = (x, v0) # h" and "lock_data v0 = lock_data v"
      and wr: "mem_write P k d w = Some w'"
    using assms by (auto simp: mem_locked_write_def split: list.splits if_splits)
  then have "v0 = v" by (simp add: lock_data_def)
  with h mem_write_Some [OF wr] show ?thesis unfolding write_over_def by (auto simp: fun_eq_iff)
qed

lemma mem_time: "task_hist (c, snd w) = task_hist w"
  by (simp add: mem_hist_def fun_eq_iff)

lemma mem_quiet: "quiet_requests (mem_env keys) task_hist R"
  by (simp add: quiet_requests_def others_only_def mem_env_defs mem_client_def mem_time)

lemma written_alone: "w H H' \<or> H' = H \<Longrightarrow> (R\<^sup>*\<^sup>* OO w\<^sup>=\<^sup>= OO R\<^sup>*\<^sup>*) H H'"
  by blast

lemma mem_bulk_lines: "write_lines R ops (task_hist w) (task_hist (fst (BulkRequest (mem_env keys) ops w)))"
proof (cases "\<exists>i ix sn pt d. ops = [BulkIndex i ix sn pt d]")
  case True
  then obtain i ix sn pt d where ops: "ops = [BulkIndex i ix sn pt d]" by blast
  let ?v = "\<lparr>SeqNum = sn, PrimaryTerm = pt\<rparr>"
  have "write_line (BulkIndex i ix sn pt d) (task_hist w) (task_hist (fst (BulkRequest (mem_env keys) ops w))) \<or>
      task_hist (fst (BulkRequest (mem_env keys) ops w)) = task_hist w"
    using mem_write_over [of task_at "(ix, i)" d ?v w]
    by (auto simp: ops write_line_def Let_def split: option.splits)
  then show ?thesis unfolding ops by (simp only: write_lines.simps) (rule written_alone)
next
  case False
  then have same: "fst (BulkRequest (mem_env keys) ops w) = w"
    by (auto simp: mem_env_defs mem_client_def split: list.splits bulk_op.splits)
  have "write_lines R ops H H" for H
    by (induction ops) (simp, simp, blast)
  then show ?thesis by (simp add: same)
qed

lemma mem_writes: "write_requests (mem_env keys) task_hist R"
  unfolding write_requests_def
proof (intro allI conjI written_alone mem_bulk_lines)
  fix w ix i d
  show "write_new (ix, i) d (task_hist w) (task_hist (fst (CreateRequest (mem_env keys) ix i d w))) \<or>
      task_hist (fst (CreateRequest (mem_env keys) ix i d w)) = task_hist w"
    using mem_write_new [of task_at w "(ix, i)" d]
    by (auto simp: mem_env_defs mem_client_def split: option.splits)
next
  fix w ix i d v
  show "write_over (ix, i) v (Some d) (task_hist w)
        (task_hist (fst (IndexRequest (mem_env keys) ix i d (Some (lock_data v)) w))) \<or>
      task_hist (fst (IndexRequest (mem_env keys) ix i d (Some (lock_data v)) w)) = task_hist w"
    using mem_write_over [of task_at "(ix, i)" d v w] by (auto split: option.splits)
qed

lemma mem_finds: "finds_in_queues (mem_env keys) task_hist"
proof -
  have "found_in_queue task_hist w (mem_hit k x)" if "mem_read task_at k w = Some x" for k x w
  proof -
    have here: "(Some (fst x), snd x) \<in> set (task_hist w k)" using mem_read_Some [of task_at k w "fst x" "snd x"] that by simp
    then have "fst k = BuildIndexName (pQueue (fst x))"
      using mem_well_placed unfolding well_placed_def by (metis fst_conv)
    then have "prefix TasquesQueuePrefix (fst k)" by (simp add: BuildIndexName_def)
    with here show ?thesis by (simp add: found_in_queue_def)
  qed
  moreover have "\<exists>k x. mem_read task_at k w = Some x \<and> h = mem_hit k x"
    if "h \<in> set (List.map_filter (\<lambda>k. map_option (mem_hit k) (mem_read task_at k w)) keys)" for h w
    using that by (force simp: List.map_filter_def)
  ultimately have hits: "h \<in> set (List.map_filter (\<lambda>k. map_option (mem_hit k) (mem_read task_at k w)) keys) \<Longrightarrow>
      found_in_queue task_hist w h" for h w
    by blast
  show ?thesis
    unfolding finds_in_queues_def
    by (auto simp: mem_env_defs mem_client_def intro: hits [unfolded mem_env_defs mem_client_def])
qed

lemma mem_shared: "rely R \<Longrightarrow> shared_store (mem_env keys) task_hist R"
  by (simp add: shared_store_def mem_env_store mem_quiet mem_writes mem_finds)

section \<open>A server that meets another one\<close>

text \<open>Before each of its reads of a document, the world moves on by \<open>other\<close>.\<close>

definition meanwhile :: "('w \<Rightarrow> 'w) \<Rightarrow> 'w task_env \<Rightarrow> 'w task_env" where
  "meanwhile other e = e\<lparr>GetRequest := \<lambda>ix i w. GetRequest e ix i (other w)\<rparr>"

lemma meanwhile_store:
  assumes store: "task_store e hist" and other: "\<And>w. advances hist w (other w)"
  shows "task_store (meanwhile other e) hist"
proof -
  have "advances hist w (fst (GetRequest e ix i (other w)))" for w ix i
    using other [of w] task_store_advances(3) [OF store, of "other w" ix i] by (rule advances_trans)
  then have "es_grows (meanwhile other e) hist"
    using store by (simp add: task_store_def es_grows_def meanwhile_def)
  moreover have "es_locks (meanwhile other e) hist"
    using store unfolding task_store_def es_locks_def meanwhile_def by simp
  ultimately show ?thesis using store by (simp add: task_store_def meanwhile_def)
qed

text \<open>
  Servers compose: a server that meets lawful writes of another one satisfies the laws of the
  store, when it does without them.
\<close>

lemma meanwhile_shared:
  assumes store: "shared_store e hist task_write" and other: "\<And>w. goes task_write hist w (other w)"
  shows "shared_store (meanwhile other e) hist task_write"
proof -
  note laws = shared_store_rules [OF store]
  have moved: "task_write\<^sup>*\<^sup>* (hist w) (hist (other w))" for w
    using other [of w] by (simp add: goes_def moves_def)
  have "advances hist w (other w)" for w
    using moves_keep [OF task_write_rely] other [of w] by (simp add: goes_def advances_def longer_def)
  then have "task_store (meanwhile other e) hist" by (rule meanwhile_store [OF laws(1)])
  moreover have "quiet_requests (meanwhile other e) hist task_write"
    using laws(3) rtranclp_trans [OF moved] by (simp add: quiet_requests_def others_only_def meanwhile_def)
  moreover have "write_requests (meanwhile other e) hist task_write"
    using laws(4) by (simp add: write_requests_def meanwhile_def)
  moreover have "finds_in_queues (meanwhile other e) hist"
    using laws(5) by (simp add: finds_in_queues_def meanwhile_def)
  ultimately show ?thesis by (simp add: shared_store_def task_write_rely)
qed

section \<open>A concrete cluster\<close>

definition example_new :: NewTask where
  "example_new = \<lparr>nId = Some ''t1'', nQueue = ''run-later'', nRetryTimes = 0, nKind = ''sayHello'',
     nPriority = 0, nRunAt = 0, nProcessingTimeout = 30, nArgs = None, nContext = None,
     nRecurringTaskId = None\<rparr>"

definition creating_server :: "task_world task_env" where
  "creating_server = mem_env [example_key]"

definition reading_server :: "task_world task_env" where
  "reading_server = meanwhile (\<lambda>w. fst (EsCreate creating_server example_new w)) creating_server"

definition no_world :: task_world where
  "no_world = (0, \<lambda>_. [])"

definition read_world :: task_world where
  "read_world = (1, (\<lambda>_. [])(example_key := [(Some (ToPersistedTask example_task), next_version 0)]))"

lemma creating_shared: "shared_store creating_server task_hist task_write"
  unfolding creating_server_def by (rule mem_shared [OF task_write_rely])

lemma example_cluster: "cluster {creating_server, reading_server} task_hist"
  using creating_shared meanwhile_shared [OF creating_shared EsCreate_goes [OF creating_shared]]
  by (simp add: cluster_def reading_server_def)

lemma example_empty: "no_tasks (task_hist no_world)"
  by (simp add: no_tasks_def no_world_def mem_hist_def)

text \<open>The task is created while the other server reads it, which then finds it.\<close>

lemma example_created: "fst (EsCreate creating_server example_new no_world) = read_world"
  by (simp add: EsCreate_def GenerateId_def example_new_def creating_server_def no_world_def read_world_def
      mem_env_defs mem_client_def mem_write_def mem_hist_def key_ok_def task_at_def example_key_def
      newTask_toPersisted_def ToPersistedTask_def example_task_def Let_def)

lemma example_served: "service_call (NewService reading_server example_conf) no_world read_world"
proof (rule call_get)
  show "svcGet (NewService reading_server example_conf) ''run-later'' ''t1'' no_world =
      (read_world, snd (svcGet (NewService reading_server example_conf) ''run-later'' ''t1'' no_world))"
    using example_created
    by (simp add: NewService_def EsGet_def reading_server_def meanwhile_def creating_server_def
        split: prod.splits es_reply.splits option.splits)
qed

lemma example_cluster_run: "(server_step {creating_server, reading_server})\<^sup>*\<^sup>* no_world read_world"
  by (rule r_into_rtranclp) (use example_served in \<open>auto simp: server_step_def\<close>)

lemma read_history: "task_hist read_world example_key = [(Some (ToPersistedTask example_task), next_version 0)]"
  by (simp add: mem_hist_def read_world_def key_ok_def task_at_def example_key_def ToPersistedTask_def example_task_def)

lemma example_queue_key: "queue_key example_key"
  by (simp add: queue_key_def example_key_def BuildIndexName_def)

theorem service_writes_lawful_witness:
  "(sup task_write task_write)\<^sup>*\<^sup>* (task_hist no_world) (task_hist read_world) \<and>
   task_hist no_world example_key = [] \<and> task_hist read_world example_key \<noteq> []"
proof -
  have "shared_store reading_server task_hist task_write"
    using example_cluster by (simp add: cluster_def)
  from service_writes_lawful [OF this mem_placed example_served] show ?thesis
    by (simp add: read_history) (simp add: mem_hist_def no_world_def)
qed

theorem documents_are_lives_witness:
  "\<exists>t0 es t md. life (task_hist read_world example_key) t0 es t \<and> fresh t0 \<and> task_run t0 es t \<and>
    ToPersistedTask example_task = ToPersistedTask (with_metadata md t) \<and> example_key = task_key t"
  by (rule documents_are_lives [OF example_cluster example_empty example_cluster_run example_queue_key read_history])

theorem no_task_stuck_witness:
  "\<exists>since. \<forall>now.
    (dsl_instance (query_of (buildClaimableQueryBody 5 now)) (persisted_json (ToPersistedTask example_task))
       \<longleftrightarrow> since \<le> date_ms now) \<and>
    \<not> dsl_instance (query_of (buildTimedOutSearchBody now 10)) (persisted_json (ToPersistedTask example_task)) \<and>
    \<not> dsl_instance (query_of (buildArchivableSearchBody now 10)) (persisted_json (ToPersistedTask example_task))"
proof -
  have "unat (pRetryTimes (ToPersistedTask example_task)) < 2 ^ 64 - 1" "pState (ToPersistedTask example_task) = QUEUED"
    by (simp_all add: ToPersistedTask_def example_task_def)
  from no_task_stuck [OF example_cluster example_empty example_cluster_run example_queue_key read_history
      dsl_instance_ok this(1), of 5 10] this(2)
  show ?thesis by simp
qed

end
