(* ===== verification/CronScheduler.thy ===== *)
theory CronScheduler
  imports RecurringModel TaskService
begin

text \<open>
  The scheduler, \<open>internal/infra/cron/task/recurring/scheduler.go\<close>: a thin layer over the cron
  library that keeps one entry per recurring task, and the job it runs. The library
  (\<open>robfig/cron\<close>) is a parameter. A job is the Go closure made for a recurring task, in the
  wrappers it was chained with.
\<close>

section \<open>Jobs\<close>

datatype cron_job = FuncJob RTask | Recover cron_job | DelayIfStillRunning cron_job

definition taskDefToNewTask :: "time \<Rightarrow> recurring_id \<Rightarrow> TaskDefinition \<Rightarrow> NewTask" where
  "taskDefToNewTask now i def = \<lparr>nId = None, nQueue = tdQueue def, nRetryTimes = tdRetryTimes def,
     nKind = tdKind def, nPriority = tdPriority def, nRunAt = now,
     nProcessingTimeout = tdProcessingTimeout def, nArgs = tdArgs def, nContext = tdContext def,
     nRecurringTaskId = Some i\<rparr>"

definition enqueue :: "'w Service \<Rightarrow> ('w \<Rightarrow> 'w \<times> time) \<Rightarrow> RTask \<Rightarrow> 'w \<Rightarrow> 'w" where
  "enqueue svc getNow t w =
     (let (w1, now) = getNow w
      in fst (svcCreate svc (taskDefToNewTask now (rtID t) (rtTaskDefinition t)) w1))"

text \<open>
  The body of the job. An error of the refresh is logged and the count goes ahead; an error of
  the count skips the run; an error of the creation is logged.
\<close>

definition run_task :: "'w Service \<Rightarrow> ('w \<Rightarrow> 'w \<times> time) \<Rightarrow> RTask \<Rightarrow> 'w \<Rightarrow> 'w" where
  "run_task svc getNow t w =
     (if rtSkipIfOutstandingTasksExist t then
        (let taskQueue = tdQueue (rtTaskDefinition t);
             (w1, _) = svcRefreshAsNeeded svc taskQueue w
         in case svcOutstandingTasksCount svc taskQueue (rtID t) w1 of
              (w2, Inl err) \<Rightarrow> w2
            | (w2, Inr outstandingTasksCount) \<Rightarrow>
                if outstandingTasksCount > 0 then w2 else enqueue svc getNow t w2)
      else enqueue svc getNow t w)"

text \<open>
  Running a job of cron: the wrappers decide when to run it and what becomes of a panic.
\<close>

fun run_job :: "'w Service \<Rightarrow> ('w \<Rightarrow> 'w \<times> time) \<Rightarrow> cron_job \<Rightarrow> 'w \<Rightarrow> 'w" where
  "run_job svc getNow (FuncJob t) w = run_task svc getNow t w"
| "run_job svc getNow (Recover j) w = run_job svc getNow j w"
| "run_job svc getNow (DelayIfStillRunning j) w = run_job svc getNow j w"

text \<open>
  The job of a task. The chain built for a task that does not skip is discarded by the code, so
  that its job has no wrapper.
\<close>

definition cron_job_of :: "RTask \<Rightarrow> cron_job" where
  "cron_job_of t =
     (if rtSkipIfOutstandingTasksExist t then Recover (DelayIfStillRunning (FuncJob t)) else FuncJob t)"

fun job_task :: "cron_job \<Rightarrow> RTask" where
  "job_task (FuncJob t) = t"
| "job_task (Recover j) = job_task j"
| "job_task (DelayIfStillRunning j) = job_task j"

section \<open>The scheduler\<close>

record 'w cron =
  ParseStandard :: "string \<Rightarrow> bool"
  AddJob :: "string \<Rightarrow> cron_job \<Rightarrow> 'w \<Rightarrow> 'w \<times> (int \<times> string option)"
  RemoveEntry :: "int \<Rightarrow> 'w \<Rightarrow> 'w"
  StartCron :: "'w \<Rightarrow> 'w"
  StopCron :: "'w \<Rightarrow> 'w"

record schedulerImpl =
  idsToEntryIds :: "recurring_id \<rightharpoonup> int"

definition NewSchedulerImpl :: schedulerImpl where
  "NewSchedulerImpl = \<lparr>idsToEntryIds = Map.empty\<rparr>"

definition cronSchedule ::
  "'w cron \<Rightarrow> RTask \<Rightarrow> schedulerImpl \<times> 'w \<Rightarrow> (schedulerImpl \<times> 'w) \<times> string option" where
  "cronSchedule c t sw =
     (case sw of (s, w) \<Rightarrow>
        (let (s1, w1) =
               (case idsToEntryIds s (rtID t) of
                  Some entryId \<Rightarrow>
                    (s\<lparr>idsToEntryIds := (idsToEntryIds s)(rtID t := None)\<rparr>, RemoveEntry c entryId w)
                | None \<Rightarrow> (s, w));
             (w2, entryId, err) = AddJob c (rtScheduleExpression t) (cron_job_of t) w1
         in ((s1\<lparr>idsToEntryIds := (idsToEntryIds s1)(rtID t \<mapsto> entryId)\<rparr>, w2), err)))"

definition cronUnschedule ::
  "'w cron \<Rightarrow> recurring_id \<Rightarrow> schedulerImpl \<times> 'w \<Rightarrow> (schedulerImpl \<times> 'w) \<times> bool" where
  "cronUnschedule c taskId sw =
     (case sw of (s, w) \<Rightarrow>
        (case idsToEntryIds s taskId of
           Some entryId \<Rightarrow>
             ((s\<lparr>idsToEntryIds := (idsToEntryIds s)(taskId := None)\<rparr>, RemoveEntry c entryId w), True)
         | None \<Rightarrow> ((s, w), False)))"

definition cronStart :: "'w cron \<Rightarrow> schedulerImpl \<times> 'w \<Rightarrow> schedulerImpl \<times> 'w" where
  "cronStart c sw = (fst sw, StartCron c (snd sw))"

definition cronStop :: "'w cron \<Rightarrow> schedulerImpl \<times> 'w \<Rightarrow> schedulerImpl \<times> 'w" where
  "cronStop c sw = (fst sw, StopCron c (snd sw))"

definition NewScheduler :: "'w cron \<Rightarrow> (schedulerImpl \<times> 'w) Scheduler" where
  "NewScheduler c = \<lparr>Parse = ParseStandard c, Schedule = cronSchedule c, Unschedule = cronUnschedule c\<rparr>"

end
