(* ===== verification/RecurringManager.thy ===== *)
theory RecurringManager
  imports RecurringModel
begin

text \<open>
  The manager of recurring tasks, \<open>internal/domain/task/recurring/manager.go\<close>: it keeps the
  scheduler in step with the data store while its process holds the leader lock, and stops
  everything when it loses the lock. Its two functions run under its mutex, one call at a time.

  Go iterates over a map in no particular order: \<open>range_order\<close> is the order an iteration takes.
\<close>

section \<open>State\<close>

datatype manager_state = MGR_NOT_LEADER | MGR_LEADER

record Manager =
  scheduledTasks :: "recurring_id \<rightharpoonup> RTask"
  leaderState :: manager_state

record 'w manager_env =
  scheduler_of :: "'w Scheduler"
  service_of :: "'w RService"
  range_order :: "'w \<Rightarrow> (recurring_id \<rightharpoonup> RTask) \<Rightarrow> RTask list"

definition NewManager :: Manager where
  "NewManager = \<lparr>scheduledTasks = Map.empty, leaderState = MGR_NOT_LEADER\<rparr>"

text \<open>The state after a call, and the error it returned; \<open>None\<close> if it does not return.\<close>

type_synonym 'w outcome = "((Manager \<times> 'w) \<times> recurring_error option) option"

section \<open>Scheduling\<close>

definition unscheduleAndRemove :: "'w manager_env \<Rightarrow> RTask \<Rightarrow> Manager \<times> 'w \<Rightarrow> Manager \<times> 'w" where
  "unscheduleAndRemove e t mw =
     (case mw of (m, w) \<Rightarrow>
        (m\<lparr>scheduledTasks := (scheduledTasks m)(rtID t := None)\<rparr>,
         fst (Unschedule (scheduler_of e) (rtID t) w)))"

definition scheduleAndAddToList :: "'w manager_env \<Rightarrow> RTask \<Rightarrow> 'w \<times> RTask list \<Rightarrow> 'w \<times> RTask list" where
  "scheduleAndAddToList e t wl =
     (case wl of (w, loaded) \<Rightarrow>
        (case Schedule (scheduler_of e) t w of
           (w1, Some err) \<Rightarrow> (w1, loaded)
         | (w1, None) \<Rightarrow> (w1, loaded @ [t])))"

definition stopAll :: "'w manager_env \<Rightarrow> Manager \<times> 'w \<Rightarrow> Manager \<times> 'w" where
  "stopAll e mw =
     (case mw of (m, w) \<Rightarrow> fold (unscheduleAndRemove e) (range_order e w (scheduledTasks m)) (m, w))"

definition keep_scheduled :: "RTask \<Rightarrow> Manager \<Rightarrow> Manager" where
  "keep_scheduled t m =
     (if \<not> rtIsDeleted t then m\<lparr>scheduledTasks := (scheduledTasks m)(rtID t \<mapsto> t)\<rparr> else m)"

definition markAsLoaded ::
  "'w manager_env \<Rightarrow> RTask list \<Rightarrow> Manager \<times> 'w \<Rightarrow> (Manager \<times> 'w) \<times> recurring_error option" where
  "markAsLoaded e loaded mw =
     (if loaded \<noteq> [] then
        (case mw of (m, w) \<Rightarrow>
           (case rsMarkLoaded (service_of e) loaded w of
              (w1, Inl err) \<Rightarrow> ((m, w1), Some err)
            | (w1, Inr result) \<Rightarrow>
                (let (m1, w2) = fold (unscheduleAndRemove e) (NotFounds result) (m, w1);
                     m2 = fold keep_scheduled (Successes result @ VersionConflicts result) m1;
                     m3 = fold keep_scheduled (map fst (Others result)) m2
                 in ((m3, w2), None))))
      else (mw, None))"

section \<open>Loading and synchronising\<close>

definition completeReload :: "'w manager_env \<Rightarrow> Manager \<times> 'w \<Rightarrow> 'w outcome" where
  "completeReload e mw =
     (case stopAll e mw of (m1, w1) \<Rightarrow>
        (case rsAll (service_of e) w1 of
           None \<Rightarrow> None
         | Some (w2, Inl err) \<Rightarrow> Some ((m1, w2), Some err)
         | Some (w2, Inr all) \<Rightarrow>
             (let (w3, loaded) = fold (scheduleAndAddToList e) all (w2, [])
              in Some (markAsLoaded e loaded (m1, w3)))))"

text \<open>One task of a resynchronisation: unscheduled if present, then scheduled.\<close>

definition reschedule ::
  "'w manager_env \<Rightarrow> RTask \<Rightarrow> (Manager \<times> 'w) \<times> RTask list \<Rightarrow> (Manager \<times> 'w) \<times> RTask list" where
  "reschedule e t ml =
     (case ml of (mw, acked) \<Rightarrow>
        (case unscheduleAndRemove e t mw of (m1, w1) \<Rightarrow>
           (case scheduleAndAddToList e t (w1, acked) of (w2, acked') \<Rightarrow> ((m1, w2), acked'))))"

definition syncNotLoaded :: "'w manager_env \<Rightarrow> Manager \<times> 'w \<Rightarrow> 'w outcome" where
  "syncNotLoaded e mw =
     (case mw of (m, w) \<Rightarrow>
        (case rsNotLoaded (service_of e) w of
           None \<Rightarrow> None
         | Some (w1, Inl err) \<Rightarrow> Some ((m, w1), Some err)
         | Some (w1, Inr notLoadeds) \<Rightarrow>
             (let deletedTasks = filter rtIsDeleted notLoadeds;
                  newOrUpdatedTasks = filter (\<lambda>t. \<not> rtIsDeleted t) notLoadeds;
                  mw1 = fold (unscheduleAndRemove e) deletedTasks (m, w1);
                  (mw2, scheduled) = fold (reschedule e) newOrUpdatedTasks (mw1, [])
              in Some (markAsLoaded e (deletedTasks @ scheduled) mw2))))"

record syncCheckResults =
  notInDataStore :: "RTask list"
  notInMemory :: "RTask list"
  versionMismatch :: "RTask list"

definition needsResync :: "syncCheckResults \<Rightarrow> bool" where
  "needsResync s \<longleftrightarrow> notInDataStore s \<noteq> [] \<or> notInMemory s \<noteq> [] \<or> versionMismatch s \<noteq> []"

definition compare_tasks :: "RTask list \<Rightarrow> (recurring_id \<rightharpoonup> RTask) \<Rightarrow> RTask list \<Rightarrow> syncCheckResults" where
  "compare_tasks all inMemory ranged =
     \<lparr>notInDataStore = filter (\<lambda>t. rtID t \<notin> rtID ` set all) ranged,
      notInMemory = filter (\<lambda>t. inMemory (rtID t) = None) all,
      versionMismatch = filter (\<lambda>t. case inMemory (rtID t) of None \<Rightarrow> False
        | Some t' \<Rightarrow> rt_version t' \<noteq> rt_version t) all\<rparr>"

definition checkSync ::
  "'w manager_env \<Rightarrow> Manager \<times> 'w \<Rightarrow> ('w \<times> (recurring_error + syncCheckResults)) option" where
  "checkSync e mw =
     (case mw of (m, w) \<Rightarrow>
        (case rsAll (service_of e) w of
           None \<Rightarrow> None
         | Some (w1, Inl err) \<Rightarrow> Some (w1, Inl err)
         | Some (w1, Inr all) \<Rightarrow>
             Some (w1, Inr (compare_tasks all (scheduledTasks m)
               (range_order e w1 (scheduledTasks m))))))"

definition enforceSync :: "'w manager_env \<Rightarrow> Manager \<times> 'w \<Rightarrow> 'w outcome" where
  "enforceSync e mw =
     (case checkSync e mw of
        None \<Rightarrow> None
      | Some (w1, Inl err) \<Rightarrow> Some ((fst mw, w1), Some err)
      | Some (w1, Inr results) \<Rightarrow>
          if needsResync results then
            (let mw2 = fold (unscheduleAndRemove e) (notInDataStore results) (fst mw, w1);
                 (mw3, acked) = fold (reschedule e) (notInMemory results @ versionMismatch results) (mw2, [])
             in case markAsLoaded e acked mw3 of
                  (mw4, Some err) \<Rightarrow> Some (mw4, Some err)
                | (mw4, None) \<Rightarrow>
                    (case checkSync e mw4 of
                       None \<Rightarrow> None
                     | Some (w5, Inl err) \<Rightarrow> Some ((fst mw4, w5), Some err)
                     | Some (w5, Inr results') \<Rightarrow>
                         if needsResync results' then completeReload e (fst mw4, w5)
                         else Some ((fst mw4, w5), None)))
          else Some ((fst mw, w1), None))"

section \<open>The recurring functions\<close>

text \<open>\<open>isLeader\<close> is what the leader lock answers at the start of the call.\<close>

definition recurringFunc ::
  "'w manager_env \<Rightarrow> ('w manager_env \<Rightarrow> Manager \<times> 'w \<Rightarrow> 'w outcome) \<Rightarrow> bool \<Rightarrow> Manager \<times> 'w \<Rightarrow> 'w outcome" where
  "recurringFunc e ifStillLeader isLeader mw =
     (case mw of (m, w) \<Rightarrow>
        (let previous = leaderState m;
             current = (if isLeader then MGR_LEADER else MGR_NOT_LEADER);
             mw1 = (m\<lparr>leaderState := current\<rparr>, w)
         in case (previous, current) of
              (MGR_NOT_LEADER, MGR_LEADER) \<Rightarrow> completeReload e mw1
            | (MGR_LEADER, MGR_LEADER) \<Rightarrow> ifStillLeader e mw1
            | (MGR_LEADER, MGR_NOT_LEADER) \<Rightarrow> Some (stopAll e mw1, None)
            | (MGR_NOT_LEADER, MGR_NOT_LEADER) \<Rightarrow> Some (mw1, None)))"

definition RecurringSyncFunc :: "'w manager_env \<Rightarrow> bool \<Rightarrow> Manager \<times> 'w \<Rightarrow> 'w outcome" where
  "RecurringSyncFunc e = recurringFunc e syncNotLoaded"

definition RecurringSyncEnforceFunc :: "'w manager_env \<Rightarrow> bool \<Rightarrow> Manager \<times> 'w \<Rightarrow> 'w outcome" where
  "RecurringSyncEnforceFunc e = recurringFunc e enforceSync"

end
