(* ===== verification/RecurringSync.thy ===== *)
theory RecurringSync
  imports RecurringManager RecurringStore
begin

text \<open>
  The contracts the manager of recurring tasks is written against, of the scheduler and of the
  recurring task service, and what the manager promises on them: after every call that returns no
  error, the jobs that run are exactly the tasks in its memory, and a process without the leader
  lock runs none.
\<close>

section \<open>Memory and jobs\<close>

text \<open>The parts of a recurring task that decide what its job does; not the version.\<close>

definition same_job :: "RTask \<Rightarrow> RTask \<Rightarrow> bool" where
  "same_job t t' \<longleftrightarrow> rtID t = rtID t' \<and> rtScheduleExpression t = rtScheduleExpression t' \<and>
     rtTaskDefinition t = rtTaskDefinition t' \<and> rtIsDeleted t = rtIsDeleted t' \<and>
     rtSkipIfOutstandingTasksExist t = rtSkipIfOutstandingTasksExist t'"

lemma same_job_refl [simp]: "same_job t t"
  by (simp add: same_job_def)

lemma same_job_sym: "same_job t t' \<Longrightarrow> same_job t' t"
  by (simp add: same_job_def)

lemma same_job_id: "same_job t t' \<Longrightarrow> rtID t = rtID t' \<and> rtIsDeleted t = rtIsDeleted t'"
  by (simp add: same_job_def)

text \<open>The jobs that run are the tasks in memory, each under its own id.\<close>

definition in_step :: "(recurring_id \<rightharpoonup> RTask) \<Rightarrow> Manager \<Rightarrow> bool" where
  "in_step js m \<longleftrightarrow> finite (dom (scheduledTasks m)) \<and>
     (\<forall>k t. scheduledTasks m k = Some t \<longrightarrow> rtID t = k) \<and>
     (\<forall>k. rel_option same_job (js k) (scheduledTasks m k))"

text \<open>The result of marking tasks as loaded accounts for each of them once.\<close>

definition accounts_for :: "RTask list \<Rightarrow> MultiUpdateResult \<Rightarrow> bool" where
  "accounts_for ts res \<longleftrightarrow> mset (map rtID (all_updates res)) = mset (map rtID ts) \<and>
     (\<forall>t \<in> set (all_updates res). \<exists>t0 \<in> set ts. same_job t t0)"

definition task_map :: "RTask list \<Rightarrow> recurring_id \<rightharpoonup> RTask" where
  "task_map ts = map_of (map (\<lambda>t. (rtID t, t)) ts)"

lemma task_map_simps [simp]:
  "task_map [] k = None"
  "task_map (t # ts) k = (if k = rtID t then Some t else task_map ts k)"
  by (simp_all add: task_map_def)

lemma task_map_None: "task_map ts k = None \<longleftrightarrow> k \<notin> rtID ` set ts"
  by (induction ts) auto

lemma task_map_SomeD: "task_map ts k = Some t \<Longrightarrow> t \<in> set ts \<and> rtID t = k"
  by (induction ts) (auto split: if_splits)

lemma task_map_distinct: "distinct (map rtID ts) \<Longrightarrow> t \<in> set ts \<Longrightarrow> task_map ts (rtID t) = Some t"
  by (induction ts) (auto simp: rev_image_eqI)

lemma task_map_subseq: "subseq acc ts \<Longrightarrow> k \<notin> rtID ` set ts \<Longrightarrow> task_map acc k = None"
  unfolding task_map_None by (auto dest: list_emb_set)

lemma distinct_subseq_ids: "subseq acc ts \<Longrightarrow> distinct (map rtID ts) \<Longrightarrow> distinct (map rtID acc)"
  by (auto simp: subseq_conv_nths nths_map [symmetric] intro: distinct_nthsI)

section \<open>Memory\<close>

lemma keep_scheduled_simps [simp]:
  "leaderState (keep_scheduled t m) = leaderState m"
  "scheduledTasks (keep_scheduled t m) =
     (if rtIsDeleted t then scheduledTasks m else (scheduledTasks m)(rtID t \<mapsto> t))"
  by (simp_all add: keep_scheduled_def)

lemma keep_fold:
  "distinct (map rtID ts) \<Longrightarrow> scheduledTasks (fold keep_scheduled ts m) k =
     (case task_map ts k of None \<Rightarrow> scheduledTasks m k
      | Some t \<Rightarrow> if rtIsDeleted t then scheduledTasks m k else Some t)"
proof (induction ts arbitrary: m)
  case (Cons t ts)
  have "task_map ts (rtID t) = None" using Cons.prems by (simp add: task_map_None)
  then show ?case using Cons by (auto split: option.splits)
qed simp

lemma keep_fold_leader [simp]: "leaderState (fold keep_scheduled ts m) = leaderState m"
  by (induction ts arbitrary: m) simp_all

section \<open>The contract of the scheduler\<close>

text \<open>
  \<open>jobs w\<close> are the tasks whose jobs run, by id, in worlds that are \<open>ok\<close>. Scheduling is an upsert;
  if it fails, an earlier job of the task is gone all the same.
\<close>

locale job_scheduler =
  fixes sch :: "'w Scheduler"
    and jobs :: "'w \<Rightarrow> recurring_id \<rightharpoonup> RTask"
    and ok :: "'w \<Rightarrow> bool"
  assumes schedule: "ok w \<Longrightarrow> Schedule sch t w = (w', err) \<Longrightarrow>
      ok w' \<and> jobs w' = (jobs w)(rtID t := (if err = None then Some t else None))"
    and unschedule: "ok w \<Longrightarrow> Unschedule sch i w = (w', b) \<Longrightarrow> ok w' \<and> jobs w' = (jobs w)(i := None)"
begin

text \<open>Scheduling some tasks, one after the other: those accepted, and the jobs after it.\<close>

lemma schedule_list:
  assumes "fold (scheduleAndAddToList e) ts (w, l0) = (w', l)" and "scheduler_of e = sch"
    and "ok w" and "distinct (map rtID ts)"
  shows "\<exists>acc. l = l0 @ acc \<and> subseq acc ts \<and> ok w' \<and>
    (\<forall>k. jobs w' k = (if k \<in> rtID ` set ts then task_map acc k else jobs w k))"
  using assms
proof (induction ts arbitrary: w l0)
  case Nil
  then show ?case by simp
next
  case (Cons t ts)
  obtain w1 err where s: "Schedule sch t w = (w1, err)" by fastforce
  have w1: "ok w1" "jobs w1 = (jobs w)(rtID t := (if err = None then Some t else None))"
    using schedule [OF Cons.prems(3) s] by auto
  let ?l1 = "if err = None then l0 @ [t] else l0"
  have "scheduleAndAddToList e t (w, l0) = (w1, ?l1)"
    using Cons.prems(2) s by (cases err) (simp_all add: scheduleAndAddToList_def)
  then have rest: "fold (scheduleAndAddToList e) ts (w1, ?l1) = (w', l)"
    using Cons.prems(1) by simp
  obtain acc where acc: "l = ?l1 @ acc" "subseq acc ts" "ok w'"
    "\<forall>k. jobs w' k = (if k \<in> rtID ` set ts then task_map acc k else jobs w1 k)"
    using Cons.IH [OF rest Cons.prems(2) w1(1)] Cons.prems(4) by auto
  have t: "rtID t \<notin> rtID ` set ts" using Cons.prems(4) by simp
  then have n: "task_map acc (rtID t) = None"
    by (rule task_map_subseq [OF acc(2)])
  show ?case
  proof (cases err)
    case None
    then show ?thesis using acc w1(2) t n
      by (intro exI [of _ "t # acc"]) auto
  next
    case (Some x)
    then show ?thesis using acc w1(2) t n
      by (intro exI [of _ acc]) (auto simp: list_emb_Cons)
  qed
qed

lemma unschedule_one:
  assumes "unscheduleAndRemove e t (m, w) = (m', w')" and "scheduler_of e = sch" and "ok w"
  shows "ok w' \<and> jobs w' = (jobs w)(rtID t := None) \<and>
    m' = m\<lparr>scheduledTasks := (scheduledTasks m)(rtID t := None)\<rparr>"
  using assms unschedule [OF assms(3)]
  by (cases "Unschedule sch (rtID t) w") (auto simp: unscheduleAndRemove_def)

lemma unschedule_list:
  assumes "fold (unscheduleAndRemove e) ts (m, w) = (m', w')" and "scheduler_of e = sch" and "ok w"
  shows "ok w' \<and> leaderState m' = leaderState m \<and>
    (\<forall>k. jobs w' k = (if k \<in> rtID ` set ts then None else jobs w k)) \<and>
    (\<forall>k. scheduledTasks m' k = (if k \<in> rtID ` set ts then None else scheduledTasks m k))"
  using assms
proof (induction ts arbitrary: m w)
  case Nil
  then show ?case by simp
next
  case (Cons t ts)
  obtain m1 w1 where u: "unscheduleAndRemove e t (m, w) = (m1, w1)" by fastforce
  note one = unschedule_one [OF u Cons.prems(2,3)]
  have rest: "fold (unscheduleAndRemove e) ts (m1, w1) = (m', w')" using Cons.prems(1) u by simp
  show ?case using Cons.IH [OF rest Cons.prems(2)] one by auto
qed

lemma reschedule_list:
  assumes "fold (reschedule e) ts ((m, w), l0) = ((m', w'), l)" and "scheduler_of e = sch"
    and "ok w" and "distinct (map rtID ts)"
  shows "\<exists>acc. l = l0 @ acc \<and> subseq acc ts \<and> ok w' \<and> leaderState m' = leaderState m \<and>
    (\<forall>k. jobs w' k = (if k \<in> rtID ` set ts then task_map acc k else jobs w k)) \<and>
    (\<forall>k. scheduledTasks m' k = (if k \<in> rtID ` set ts then None else scheduledTasks m k))"
  using assms
proof (induction ts arbitrary: m w l0)
  case Nil
  then show ?case by simp
next
  case (Cons t ts)
  obtain m1 w1 where u: "unscheduleAndRemove e t (m, w) = (m1, w1)" by fastforce
  note one = unschedule_one [OF u Cons.prems(2,3)]
  obtain w2 l1 where s: "scheduleAndAddToList e t (w1, l0) = (w2, l1)" by fastforce
  have "fold (scheduleAndAddToList e) [t] (w1, l0) = (w2, l1)" using s by simp
  from schedule_list [OF this Cons.prems(2)] one obtain a where a: "l1 = l0 @ a" "subseq a [t]" "ok w2"
    "\<forall>k. jobs w2 k = (if k = rtID t then task_map a k else jobs w1 k)"
    by auto
  have "reschedule e t ((m, w), l0) = ((m1, w2), l1)" using u s by (simp add: reschedule_def)
  then have rest: "fold (reschedule e) ts ((m1, w2), l1) = ((m', w'), l)"
    using Cons.prems(1) by simp
  obtain acc where acc: "l = l1 @ acc" "subseq acc ts" "ok w'" "leaderState m' = leaderState m1"
    "\<forall>k. jobs w' k = (if k \<in> rtID ` set ts then task_map acc k else jobs w2 k)"
    "\<forall>k. scheduledTasks m' k = (if k \<in> rtID ` set ts then None else scheduledTasks m1 k)"
    using Cons.IH [OF rest Cons.prems(2) a(3)] Cons.prems(4) by auto
  have t: "rtID t \<notin> rtID ` set ts" using Cons.prems(4) by simp
  then have n: "task_map acc (rtID t) = None"
    by (rule task_map_subseq [OF acc(2)])
  have "a = [] \<or> a = [t]" using a(2) by (cases a) (auto split: if_splits)
  then show ?case
  proof
    assume "a = []"
    then show ?thesis using acc a one t n
      by (intro exI [of _ acc]) (auto simp: list_emb_Cons)
  next
    assume "a = [t]"
    then show ?thesis using acc a one t n
      by (intro exI [of _ "t # acc"]) auto
  qed
qed

end

section \<open>Runs of the manager\<close>

text \<open>
  Calls of the two functions, in any order and with any answers of the leader lock, that return
  no error; between them the world moves on by \<open>others\<close>.
\<close>

inductive manager_run :: "'w manager_env \<Rightarrow> ('w \<Rightarrow> 'w \<Rightarrow> bool) \<Rightarrow> Manager \<times> 'w \<Rightarrow> Manager \<times> 'w \<Rightarrow> bool"
  for e others where
  run_start: "manager_run e others mw mw"
| run_sync: "manager_run e others mw (m, w) \<Longrightarrow> RecurringSyncFunc e isLeader (m, w) = Some (mw', None) \<Longrightarrow>
    manager_run e others mw mw'"
| run_enforce: "manager_run e others mw (m, w) \<Longrightarrow> RecurringSyncEnforceFunc e isLeader (m, w) = Some (mw', None) \<Longrightarrow>
    manager_run e others mw mw'"
| run_others: "manager_run e others mw (m, w) \<Longrightarrow> others w w' \<Longrightarrow> manager_run e others mw (m, w')"

section \<open>The contract of the service, and the manager\<close>

text \<open>
  The listings return each task once, \<open>All\<close> none that is deleted; marking as loaded accounts for
  the tasks passed in; and none of them touches the jobs. Ranging over a map meets its values.
\<close>

locale recurring_manager = job_scheduler "scheduler_of e" jobs ok
  for e :: "'w manager_env" and jobs :: "'w \<Rightarrow> recurring_id \<rightharpoonup> RTask" and ok :: "'w \<Rightarrow> bool" +
  assumes all: "ok w \<Longrightarrow> rsAll (service_of e) w = Some (w', r) \<Longrightarrow> ok w' \<and> jobs w' = jobs w \<and>
      (\<forall>ts. r = Inr ts \<longrightarrow> distinct (map rtID ts) \<and> (\<forall>t \<in> set ts. \<not> rtIsDeleted t))"
    and not_loaded: "ok w \<Longrightarrow> rsNotLoaded (service_of e) w = Some (w', r) \<Longrightarrow> ok w' \<and> jobs w' = jobs w \<and>
      (\<forall>ts. r = Inr ts \<longrightarrow> distinct (map rtID ts))"
    and mark_loaded: "ok w \<Longrightarrow> rsMarkLoaded (service_of e) ts w = (w', u) \<Longrightarrow> ok w' \<and> jobs w' = jobs w \<and>
      (\<forall>res. u = Inr res \<longrightarrow> accounts_for ts res)"
    and ranges: "ok w \<Longrightarrow> finite (dom m) \<Longrightarrow> set (range_order e w m) = ran m"
begin

lemma stop_all:
  assumes "stopAll e (m, w) = (m', w')" and "ok w" and "finite (dom (scheduledTasks m))"
    and keyed: "\<forall>k t. scheduledTasks m k = Some t \<longrightarrow> rtID t = k"
  shows "ok w' \<and> leaderState m' = leaderState m \<and> scheduledTasks m' = Map.empty \<and>
    (\<forall>k. jobs w' k = (if k \<in> dom (scheduledTasks m) then None else jobs w k))"
proof -
  have f: "fold (unscheduleAndRemove e) (range_order e w (scheduledTasks m)) (m, w) = (m', w')"
    using assms(1) by (simp add: stopAll_def)
  have ids: "rtID ` set (range_order e w (scheduledTasks m)) = dom (scheduledTasks m)"
    using ranges [OF assms(2,3)] keyed by (force simp: ran_def dom_def image_iff)
  show ?thesis
    using unschedule_list [OF f refl assms(2)] unfolding ids by (auto simp: dom_def)
qed

lemma stop_all_in_step:
  assumes "stopAll e (m, w) = (m', w')" and "ok w" and "in_step (jobs w) m"
  shows "ok w' \<and> leaderState m' = leaderState m \<and> scheduledTasks m' = Map.empty \<and> jobs w' = Map.empty"
proof -
  have s: "ok w' \<and> leaderState m' = leaderState m \<and> scheduledTasks m' = Map.empty \<and>
      (\<forall>k. jobs w' k = (if k \<in> dom (scheduledTasks m) then None else jobs w k))"
    using assms(3) by (intro stop_all [OF assms(1,2)]) (auto simp: in_step_def)
  have "jobs w' k = None" for k
  proof (cases "scheduledTasks m k")
    case None
    then have "jobs w k = None" using assms(3) unfolding in_step_def by (metis option.rel_distinct(2) option.exhaust)
    then show ?thesis using s by simp
  next
    case (Some t)
    then show ?thesis using s by auto
  qed
  then show ?thesis using s by (simp add: fun_eq_iff)
qed

text \<open>
  Marking as loaded is the moment memory catches up: before it, the tasks \<open>loaded\<close> are not in
  memory and those not deleted run; after it, memory and jobs are in step.
\<close>

lemma mark_as_loaded:
  assumes mark: "markAsLoaded e loaded (m, w) = ((m', w'), None)" and ok: "ok w"
    and dist: "distinct (map rtID loaded)" and fin: "finite (dom (scheduledTasks m))"
    and keyed: "\<forall>k t. scheduledTasks m k = Some t \<longrightarrow> rtID t = k"
    and pre: "\<forall>t \<in> set loaded. scheduledTasks m (rtID t) = None \<and>
        jobs w (rtID t) = (if rtIsDeleted t then None else Some t)"
    and rest: "\<forall>k. k \<notin> rtID ` set loaded \<longrightarrow> rel_option same_job (jobs w k) (scheduledTasks m k)"
  shows "ok w' \<and> leaderState m' = leaderState m \<and> in_step (jobs w') m'"
proof (cases "loaded = []")
  case True
  then show ?thesis using assms by (auto simp: markAsLoaded_def in_step_def)
next
  case False
  obtain w1 res where svc: "rsMarkLoaded (service_of e) loaded w = (w1, Inr res)"
    using mark False by (auto simp: markAsLoaded_def split: prod.splits sum.splits)
  have w1: "ok w1" "jobs w1 = jobs w" "accounts_for loaded res"
    using mark_loaded [OF ok svc] by auto
  obtain m1 w2 where nf: "fold (unscheduleAndRemove e) (NotFounds res) (m, w1) = (m1, w2)" by fastforce
  define ts where "ts = (Successes res @ VersionConflicts res) @ map fst (Others res)"
  have m': "m' = fold keep_scheduled ts m1" "w' = w2"
    using mark False svc nf by (simp_all add: markAsLoaded_def Let_def ts_def)
  have un: "ok w2" "leaderState m1 = leaderState m"
    "\<forall>k. jobs w2 k = (if k \<in> rtID ` set (NotFounds res) then None else jobs w k)"
    "\<forall>k. scheduledTasks m1 k = (if k \<in> rtID ` set (NotFounds res) then None else scheduledTasks m k)"
    using unschedule_list [OF nf refl w1(1)] w1(2) by auto
  have ms: "mset (map rtID (ts @ NotFounds res)) = mset (map rtID loaded)"
    using w1(3) by (simp add: accounts_for_def all_updates_def not_updated_def ac_simps ts_def)
  then have d: "distinct (map rtID (ts @ NotFounds res))"
    using dist mset_eq_imp_distinct_iff by blast
  then have dts: "distinct (map rtID ts)" and disj: "rtID ` set ts \<inter> rtID ` set (NotFounds res) = {}"
    by auto
  have ids: "rtID ` set ts \<union> rtID ` set (NotFounds res) = rtID ` set loaded"
    using mset_eq_setD [OF ms] by (simp add: image_Un)
  have acc: "\<exists>t0 \<in> set loaded. same_job t t0" if "t \<in> set ts" for t
    using that w1(3) by (auto simp: accounts_for_def all_updates_def not_updated_def ts_def)
  note kept = keep_fold [OF dts, of m1]
  have st: "scheduledTasks m' k = (case task_map ts k of None \<Rightarrow> scheduledTasks m1 k
      | Some t \<Rightarrow> if rtIsDeleted t then scheduledTasks m1 k else Some t)" for k
    using kept by (simp only: m')
  have mem1: "scheduledTasks m k = Some t" if "scheduledTasks m1 k = Some t" for k t
    using that un(4) by (metis option.distinct(1))
  then have keyed1: "rtID t = k" if "scheduledTasks m1 k = Some t" for k t
    using that keyed by blast
  have keyed': "rtID t = k" if "scheduledTasks m' k = Some t" for k t
    using that keyed1 [of k t] by (auto simp: st dest: task_map_SomeD split: option.splits if_splits)
  have fin': "finite (dom (scheduledTasks m'))"
  proof (rule finite_subset)
    show "dom (scheduledTasks m') \<subseteq> dom (scheduledTasks m) \<union> rtID ` set ts"
    proof
      fix k assume "k \<in> dom (scheduledTasks m')"
      then show "k \<in> dom (scheduledTasks m) \<union> rtID ` set ts"
        using mem1 [of k] by (cases "task_map ts k") (auto simp: st dest!: task_map_SomeD split: if_splits)
    qed
    show "finite (dom (scheduledTasks m) \<union> rtID ` set ts)" using fin by simp
  qed
  have "rel_option same_job (jobs w' k) (scheduledTasks m' k)" for k
  proof (cases "task_map ts k")
    case None
    then have n: "k \<notin> rtID ` set ts" by (simp only: task_map_None) simp
    show ?thesis
    proof (cases "k \<in> rtID ` set (NotFounds res)")
      case True
      then show ?thesis using None un by (simp add: st m'(2))
    next
      case False
      then have "k \<notin> rtID ` set loaded" using n ids by blast
      then show ?thesis using False None un rest by (simp add: st m'(2))
    qed
  next
    case (Some t)
    then have t: "t \<in> set ts" "rtID t = k" using task_map_SomeD by blast+
    then have k: "k \<notin> rtID ` set (NotFounds res)" using disj by blast
    obtain t0 where t0: "t0 \<in> set loaded" "same_job t t0" using acc [OF t(1)] by blast
    then have "rtID t0 = k" "rtIsDeleted t0 = rtIsDeleted t" using t(2) same_job_id by auto
    then have "scheduledTasks m1 k = None" "jobs w' k = (if rtIsDeleted t then None else Some t0)"
      using pre t0(1) un k by (auto simp: m'(2))
    then show ?thesis using Some same_job_sym [OF t0(2)] by (simp add: st)
  qed
  then show ?thesis using keyed' fin' un(1,2) m' by (simp add: in_step_def)
qed

lemma complete_reload:
  assumes reload: "completeReload e (m, w) = Some ((m', w'), err)" and ok: "ok w"
    and step: "in_step (jobs w) m"
  shows "ok w' \<and> leaderState m' = leaderState m \<and> (err = None \<longrightarrow> in_step (jobs w') m')"
proof -
  obtain m1 w1 where stop: "stopAll e (m, w) = (m1, w1)" by fastforce
  note s = stop_all_in_step [OF stop ok step]
  obtain w2 r where svc: "rsAll (service_of e) w1 = Some (w2, r)"
    using reload stop by (auto simp: completeReload_def split: option.splits)
  have w2: "ok w2" "jobs w2 = Map.empty"
    and list: "\<forall>ts. r = Inr ts \<longrightarrow> distinct (map rtID ts) \<and> (\<forall>t \<in> set ts. \<not> rtIsDeleted t)"
    using all [of w1 w2 r] s svc by auto
  show ?thesis
  proof (cases r)
    case (Inl x)
    then have "m' = m1" "w' = w2" "err = Some x" using reload stop svc by (auto simp: completeReload_def)
    then show ?thesis using s w2 by simp
  next
    case (Inr ts)
    obtain w3 loaded where f: "fold (scheduleAndAddToList e) ts (w2, []) = (w3, loaded)" by fastforce
    have mark: "markAsLoaded e loaded (m1, w3) = ((m', w'), err)"
      using reload stop svc f Inr by (simp add: completeReload_def)
    have d: "distinct (map rtID ts)" "\<forall>t \<in> set ts. \<not> rtIsDeleted t" using list Inr by auto
    obtain acc where acc: "loaded = acc" "subseq acc ts" "ok w3"
      "\<forall>k. jobs w3 k = (if k \<in> rtID ` set ts then task_map acc k else jobs w2 k)"
      using schedule_list [OF f refl w2(1) d(1)] by auto
    have da: "distinct (map rtID acc)" by (rule distinct_subseq_ids [OF acc(2) d(1)])
    have jobs: "jobs w3 k = task_map acc k" for k
      using acc(4) w2(2) task_map_subseq [OF acc(2), of k] by simp
    show ?thesis
    proof (cases err)
      case (Some x)
      have "ok w' \<and> m' = m1"
        using mark Some mark_loaded [OF acc(3)]
        by (auto simp: markAsLoaded_def Let_def split: if_splits prod.splits sum.splits)
      then show ?thesis using Some s by simp
    next
      case None
      have "\<forall>t \<in> set loaded. scheduledTasks m1 (rtID t) = None \<and>
          jobs w3 (rtID t) = (if rtIsDeleted t then None else Some t)"
        using s d(2) acc(1,2) task_map_distinct [OF da] by (auto simp: jobs dest: list_emb_set)
      moreover have "\<forall>k. k \<notin> rtID ` set loaded \<longrightarrow> rel_option same_job (jobs w3 k) (scheduledTasks m1 k)"
        using s by (simp add: jobs acc(1) [symmetric] task_map_None)
      ultimately show ?thesis
        using mark_as_loaded [OF mark [unfolded None] acc(3)] s da acc(1) by simp
    qed
  qed
qed

lemma mark_err:
  "markAsLoaded e loaded (m, w) = ((m', w'), Some x) \<Longrightarrow> ok w \<Longrightarrow> ok w' \<and> m' = m"
  using mark_loaded [of w loaded]
  by (auto simp: markAsLoaded_def Let_def split: if_splits prod.splits sum.splits)

text \<open>Unscheduling some tasks and rescheduling others, before they are marked.\<close>

lemma resync:
  assumes un: "fold (unscheduleAndRemove e) gone (m, w) = (m1, w1)"
    and re: "fold (reschedule e) new ((m1, w1), []) = ((m2, w2), scheduled)"
    and mark: "markAsLoaded e (acked @ scheduled) (m2, w2) = ((m3, w3), err)"
    and ok: "ok w" and step: "in_step (jobs w) m"
    and new: "distinct (map rtID new)" "\<forall>t \<in> set new. \<not> rtIsDeleted t" "rtID ` set gone \<inter> rtID ` set new = {}"
    and acked: "acked = [] \<or> acked = gone \<and> distinct (map rtID gone) \<and> (\<forall>t \<in> set gone. rtIsDeleted t)"
  shows "ok w3 \<and> leaderState m3 = leaderState m \<and> (err = None \<longrightarrow> in_step (jobs w3) m3)"
proof -
  note u = unschedule_list [OF un refl ok]
  obtain acc where acc: "scheduled = acc" "subseq acc new" "ok w2" "leaderState m2 = leaderState m"
    "\<forall>k. jobs w2 k = (if k \<in> rtID ` set new then task_map acc k else jobs w1 k)"
    "\<forall>k. scheduledTasks m2 k = (if k \<in> rtID ` set new then None else scheduledTasks m1 k)"
    using reschedule_list [OF re refl] u new(1) by auto
  have sub: "set acc \<subseteq> set new" using acc(2) by (auto dest: list_emb_set)
  have da: "distinct (map rtID acc)" using distinct_subseq_ids [OF acc(2)] new(1) by simp
  show ?thesis
  proof (cases err)
    case (Some x)
    then show ?thesis using mark_err [OF mark [unfolded Some] acc(3)] acc(4) by simp
  next
    case None
    have d: "distinct (map rtID (acked @ scheduled))"
      using acked new(3) da sub by (auto simp: acc(1))
    have at: "scheduledTasks m2 k = (if k \<in> rtID ` set (gone @ new) then None else scheduledTasks m k)" for k
      using u acc(6) by auto
    have jobs: "jobs w2 k = (if k \<in> rtID ` set new then task_map acc k
        else if k \<in> rtID ` set gone then None else jobs w k)" for k
      using u acc(5) by auto
    have pre: "scheduledTasks m2 (rtID t) = None \<and>
        jobs w2 (rtID t) = (if rtIsDeleted t then None else Some t)" if "t \<in> set (acked @ scheduled)" for t
    proof (cases "t \<in> set scheduled")
      case True
      then have t: "t \<in> set new" "t \<in> set acc" using sub acc(1) by auto
      then show ?thesis using new(2) task_map_distinct [OF da t(2)] at jobs by auto
    next
      case False
      then have t: "t \<in> set gone" "rtIsDeleted t" using that acked by auto
      moreover have "rtID t \<notin> rtID ` set new" using t new(3) by auto
      ultimately show ?thesis using at jobs by auto
    qed
    have rest: "rel_option same_job (jobs w2 k) (scheduledTasks m2 k)" if k: "k \<notin> rtID ` set (acked @ scheduled)" for k
    proof (cases "k \<in> rtID ` set (gone @ new)")
      case True
      have "k \<notin> rtID ` set acc" using k acc(1) by auto
      then have "task_map acc k = None" by (simp add: task_map_None)
      then show ?thesis using True at jobs by auto
    next
      case False
      then show ?thesis using step at jobs by (auto simp: in_step_def)
    qed
    have "dom (scheduledTasks m2) \<subseteq> dom (scheduledTasks m)" using at by (auto split: if_splits)
    then have "finite (dom (scheduledTasks m2))" using step finite_subset by (auto simp: in_step_def)
    moreover have "\<forall>k t. scheduledTasks m2 k = Some t \<longrightarrow> rtID t = k"
      using step at by (auto simp: in_step_def split: if_splits)
    ultimately show ?thesis
      using mark_as_loaded [OF mark [unfolded None] acc(3) d] pre rest acc(4) by simp
  qed
qed

lemma sync_not_loaded:
  assumes call: "syncNotLoaded e (m, w) = Some ((m', w'), err)" and ok: "ok w"
    and step: "in_step (jobs w) m"
  shows "ok w' \<and> leaderState m' = leaderState m \<and> (err = None \<longrightarrow> in_step (jobs w') m')"
proof -
  obtain w1 r where svc: "rsNotLoaded (service_of e) w = Some (w1, r)"
    using call by (auto simp: syncNotLoaded_def split: option.splits)
  have w1: "ok w1" "jobs w1 = jobs w" "\<forall>ts. r = Inr ts \<longrightarrow> distinct (map rtID ts)"
    using not_loaded [OF ok svc] by auto
  show ?thesis
  proof (cases r)
    case (Inl x)
    then show ?thesis using call svc w1 step by (auto simp: syncNotLoaded_def)
  next
    case (Inr ts)
    let ?gone = "filter rtIsDeleted ts" and ?new = "filter (\<lambda>t. \<not> rtIsDeleted t) ts"
    obtain m1 v1 where un: "fold (unscheduleAndRemove e) ?gone (m, w1) = (m1, v1)" by fastforce
    obtain m2 v2 l where re: "fold (reschedule e) ?new ((m1, v1), []) = ((m2, v2), l)" by (metis prod.collapse)
    have mark: "markAsLoaded e (?gone @ l) (m2, v2) = ((m', w'), err)"
      using call svc Inr un re by (simp add: syncNotLoaded_def)
    have d: "distinct (map rtID ts)" using w1(3) Inr by simp
    have "rtID t \<noteq> rtID t'" if "t \<in> set ?gone" "t' \<in> set ?new" for t t'
      using that d by (auto simp: distinct_map dest: inj_onD)
    then have disj: "rtID ` set ?gone \<inter> rtID ` set ?new = {}" by fast
    have dg: "distinct (map rtID ?gone)" and dn: "distinct (map rtID ?new)"
      by (rule distinct_map_filter [OF d])+
    have live: "\<forall>t \<in> set ?new. \<not> rtIsDeleted t" and dead: "\<forall>t \<in> set ?gone. rtIsDeleted t"
      by simp_all
    have step1: "in_step (jobs w1) m" using step w1(2) by simp
    show ?thesis
      by (rule resync [OF un re mark w1(1) step1 dn live disj]) (intro disjI2 conjI refl dg dead)
  qed
qed

lemma check_sync:
  assumes "checkSync e (m, w) = Some (w1, r)" and "ok w"
  shows "ok w1 \<and> jobs w1 = jobs w \<and> (\<forall>results. r = Inr results \<longrightarrow>
    (\<exists>ts. distinct (map rtID ts) \<and> (\<forall>t \<in> set ts. \<not> rtIsDeleted t) \<and>
       results = compare_tasks ts (scheduledTasks m) (range_order e w1 (scheduledTasks m))))"
  using assms all [OF assms(2)]
  by (auto simp: checkSync_def split: option.splits prod.splits sum.splits)

lemma enforce_sync:
  assumes call: "enforceSync e (m, w) = Some ((m', w'), err)" and ok: "ok w"
    and step: "in_step (jobs w) m"
  shows "ok w' \<and> leaderState m' = leaderState m \<and> (err = None \<longrightarrow> in_step (jobs w') m')"
proof -
  obtain w1 r where check: "checkSync e (m, w) = Some (w1, r)"
    using call by (auto simp: enforceSync_def split: option.splits)
  note c = check_sync [OF check ok]
  show ?thesis
  proof (cases "\<exists>results. r = Inr results \<and> needsResync results")
    case False
    then have "m' = m" "w' = w1" using call check
      by (auto simp: enforceSync_def split: sum.splits if_splits)
    then show ?thesis using c step by simp
  next
    case True
    then obtain ts where d: "distinct (map rtID ts)" "\<forall>t \<in> set ts. \<not> rtIsDeleted t"
      and r: "r = Inr (compare_tasks ts (scheduledTasks m) (range_order e w1 (scheduledTasks m)))"
      using c by blast
    define res where "res = compare_tasks ts (scheduledTasks m) (range_order e w1 (scheduledTasks m))"
    let ?gone = "notInDataStore res" and ?new = "notInMemory res @ versionMismatch res"
    obtain m1 v1 where un: "fold (unscheduleAndRemove e) ?gone (m, w1) = (m1, v1)" by fastforce
    obtain m2 v2 l where re: "fold (reschedule e) ?new ((m1, v1), []) = ((m2, v2), l)" by (metis prod.collapse)
    obtain m3 v3 x where mark: "markAsLoaded e ([] @ l) (m2, v2) = ((m3, v3), x)"
      by (metis prod.collapse)
    have new: "distinct (map rtID ?new)" "\<forall>t \<in> set ?new. \<not> rtIsDeleted t" "rtID ` set ?gone \<inter> rtID ` set ?new = {}"
      using d by (auto simp: res_def compare_tasks_def distinct_map_filter)
    have rs: "ok v3" "leaderState m3 = leaderState m" "x = None \<longrightarrow> in_step (jobs v3) m3"
      using resync [OF un re mark _ _ new] c step by auto
    have body: "enforceSync e (m, w) = (case x of Some err \<Rightarrow> Some ((m3, v3), Some err)
      | None \<Rightarrow> (case checkSync e (m3, v3) of
                    None \<Rightarrow> None
                  | Some (w5, Inl err) \<Rightarrow> Some ((m3, w5), Some err)
                  | Some (w5, Inr results') \<Rightarrow>
                      if needsResync results' then completeReload e (m3, w5)
                      else Some ((m3, w5), None)))"
      using True check r un re mark
      by (simp add: enforceSync_def res_def [symmetric] Let_def split: option.split sum.split)
    show ?thesis
    proof (cases x)
      case (Some y)
      then show ?thesis using call body rs by auto
    next
      case None
      obtain w5 r5 where check2: "checkSync e (m3, v3) = Some (w5, r5)"
        using call body None by (auto split: option.splits)
      have c2: "ok w5" "jobs w5 = jobs v3" using check_sync [OF check2 rs(1)] by auto
      show ?thesis
      proof (cases "\<exists>results. r5 = Inr results \<and> needsResync results")
        case True
        then have "completeReload e (m3, w5) = Some ((m', w'), err)"
          using call body None check2 by auto
        then show ?thesis using complete_reload c2 rs None by metis
      next
        case False
        then have "m' = m3" "w' = w5" using call body None check2
          by (auto split: sum.splits if_splits)
        then show ?thesis using c2 rs None by simp
      qed
    qed
  qed
qed

text \<open>One call of either function, from a state in step.\<close>

definition steady :: "Manager \<Rightarrow> 'w \<Rightarrow> bool" where
  "steady m w \<longleftrightarrow> ok w \<and> in_step (jobs w) m \<and> (leaderState m = MGR_NOT_LEADER \<longrightarrow> jobs w = Map.empty)"

lemma recurring_call:
  assumes call: "recurringFunc e f isLeader (m, w) = Some ((m', w'), None)" and steady: "steady m w"
    and f: "f = syncNotLoaded \<or> f = enforceSync"
  shows "steady m' w'"
proof -
  let ?m = "m\<lparr>leaderState := if isLeader then MGR_LEADER else MGR_NOT_LEADER\<rparr>"
  have s: "ok w" "in_step (jobs w) ?m" using steady by (simp_all add: steady_def in_step_def)
  show ?thesis
  proof (cases isLeader)
    case False
    then show ?thesis
    proof (cases "leaderState m")
      case MGR_NOT_LEADER
      then show ?thesis using call steady False by (auto simp: recurringFunc_def steady_def in_step_def)
    next
      case MGR_LEADER
      then have stop: "stopAll e (?m, w) = (m', w')" using call False by (simp add: recurringFunc_def)
      show ?thesis
        using stop_all_in_step [OF stop s] by (simp add: steady_def in_step_def)
    qed
  next
    case True
    then have "completeReload e (?m, w) = Some ((m', w'), None) \<or> f e (?m, w) = Some ((m', w'), None)"
      using call by (cases "leaderState m") (auto simp: recurringFunc_def)
    then have "ok w' \<and> leaderState m' = leaderState ?m \<and> in_step (jobs w') m'"
      using complete_reload [of ?m w m' w' None] sync_not_loaded [of ?m w m' w' None]
        enforce_sync [of ?m w m' w' None] s f by auto
    then show ?thesis using True by (simp add: steady_def)
  qed
qed

lemma run_steady:
  assumes run: "manager_run e others mw mw'" and init: "steady (fst mw) (snd mw)"
    and others: "\<And>w w'. others w w' \<Longrightarrow> ok w \<Longrightarrow> ok w' \<and> jobs w' = jobs w"
  shows "steady (fst mw') (snd mw')"
  using run init
proof (induction rule: manager_run.induct)
  case (run_start mw)
  then show ?case .
next
  case (run_sync mw m w isLeader mw')
  then show ?case
    using recurring_call [of syncNotLoaded isLeader m w "fst mw'" "snd mw'"] by (simp add: RecurringSyncFunc_def)
next
  case (run_enforce mw m w isLeader mw')
  then show ?case
    using recurring_call [of enforceSync isLeader m w "fst mw'" "snd mw'"] by (simp add: RecurringSyncEnforceFunc_def)
next
  case (run_others mw m w w')
  then show ?case using others [of w w'] by (simp add: steady_def)
qed

text \<open>
  A reload that lists the tasks but cannot mark them leaves their jobs running without keeping
  them in memory, and losing the lock does not stop them.
\<close>

lemma failed_mark_leaves_jobs:
  assumes steady: "steady m w" "leaderState m = MGR_NOT_LEADER"
    and gain: "RecurringSyncFunc e True (m, w) = Some ((m1, w1), Some err)"
    and listed: "rsAll (service_of e) (snd (stopAll e (m\<lparr>leaderState := MGR_LEADER\<rparr>, w))) = Some (v, Inr ts)"
    and lose: "RecurringSyncFunc e False (m1, w1) = Some ((m2, w2), err')"
  shows "ok w2 \<and> leaderState m2 = MGR_NOT_LEADER \<and> err' = None \<and> scheduledTasks m2 = Map.empty \<and>
    jobs w2 \<noteq> Map.empty \<and> (\<forall>k t. jobs w2 k = Some t \<longrightarrow> t \<in> set ts)"
proof -
  let ?m = "m\<lparr>leaderState := MGR_LEADER\<rparr>"
  have s: "ok w" "in_step (jobs w) ?m" using steady(1) by (simp_all add: steady_def in_step_def)
  obtain m0 w0 where stop: "stopAll e (?m, w) = (m0, w0)" by fastforce
  note st = stop_all_in_step [OF stop s]
  have v: "ok v" "jobs v = Map.empty" "distinct (map rtID ts)"
    using all [of w0 v "Inr ts"] st listed stop by auto
  obtain w3 loaded where f: "fold (scheduleAndAddToList e) ts (v, []) = (w3, loaded)" by fastforce
  have mark: "markAsLoaded e loaded (m0, w3) = ((m1, w1), Some err)"
    using gain steady(2) stop listed f
    by (simp add: RecurringSyncFunc_def recurringFunc_def completeReload_def)
  have ne: "loaded \<noteq> []" using mark by (auto simp: markAsLoaded_def)
  obtain u where u: "rsMarkLoaded (service_of e) loaded w3 = (w1, Inl u)" and m1: "m1 = m0"
    using mark ne by (auto simp: markAsLoaded_def Let_def split: prod.splits sum.splits)
  obtain acc where acc: "loaded = acc" "subseq acc ts" "ok w3"
    "\<forall>k. jobs w3 k = (if k \<in> rtID ` set ts then task_map acc k else jobs v k)"
    using schedule_list [OF f refl v(1,3)] by auto
  have w1: "ok w1" "jobs w1 = jobs w3" using mark_loaded [OF acc(3) u] by auto
  have jobs: "jobs w1 k = task_map loaded k" for k
    using acc v(2) task_map_subseq [OF acc(2), of k] w1(2) by simp
  have "stopAll e (m1\<lparr>leaderState := MGR_NOT_LEADER\<rparr>, w1) = (m2, w2)" "err' = None"
    using lose st m1 by (simp_all add: RecurringSyncFunc_def recurringFunc_def)
  then have "ok w2" "leaderState m2 = MGR_NOT_LEADER" "scheduledTasks m2 = Map.empty" "jobs w2 = jobs w1"
    using stop_all [of "m1\<lparr>leaderState := MGR_NOT_LEADER\<rparr>" w1 m2 w2] w1(1) st m1 by (auto simp: fun_eq_iff)
  moreover have "jobs w1 (rtID (hd loaded)) \<noteq> None" using ne by (simp add: jobs task_map_None)
  moreover have "t \<in> set ts" if "jobs w1 k = Some t" for k t
    using that acc(1) list_emb_set [OF acc(2)] by (auto simp: jobs dest!: task_map_SomeD)
  ultimately show ?thesis using \<open>err' = None\<close> by auto
qed

end

end
