(* ===== verification/CronContract.thy ===== *)
theory CronContract
  imports CronScheduler RecurringSync
begin

text \<open>
  The scheduler keeps its contract if the cron library keeps its documented one, and what its job
  does: cron holds one entry per recurring task, the one scheduled last, and a job that is told to
  skip creates a task only if it can find none of its own outstanding; the refresh before its count names the wrong index.
\<close>

section \<open>The documented behaviour of cron\<close>

text \<open>
  \<open>entries w\<close> are the entries of the cron runner. Adding a job gives a fresh id, never 0, or fails
  with id 0 (an expression that does not parse); removing an entry removes that one, if it is there.
\<close>

definition cron_laws :: "'w cron \<Rightarrow> ('w \<Rightarrow> int \<rightharpoonup> string \<times> cron_job) \<Rightarrow> bool" where
  "cron_laws c entries \<longleftrightarrow>
     (\<forall>w spec j w' i. AddJob c spec j w = (w', i, None) \<longrightarrow>
        i \<noteq> 0 \<and> entries w i = None \<and> entries w' = (entries w)(i \<mapsto> (spec, j))) \<and>
     (\<forall>w spec j w' i err. AddJob c spec j w = (w', i, Some err) \<longrightarrow> i = 0 \<and> entries w' = entries w) \<and>
     (\<forall>w i. entries (RemoveEntry c i w) = (entries w)(i := None)) \<and>
     (\<forall>w. entries w 0 = None) \<and>
     (\<forall>w. entries (StartCron c w) = entries w) \<and> (\<forall>w. entries (StopCron c w) = entries w)"

lemma cron_rules:
  assumes "cron_laws c entries"
  shows "AddJob c spec j w = (w', i, None) \<Longrightarrow>
      i \<noteq> 0 \<and> entries w i = None \<and> entries w' = (entries w)(i \<mapsto> (spec, j))"
    and "AddJob c spec j w = (w', i, Some err) \<Longrightarrow> i = 0 \<and> entries w' = entries w"
    and "entries (RemoveEntry c i w) = (entries w)(i := None)" and "entries w 0 = None"
  using assms unfolding cron_laws_def by (elim conjE, blast)+

section \<open>The abstraction of the scheduler's state\<close>

lemma job_task_cron_job_of [simp]: "job_task (cron_job_of t) = t"
  by (simp add: cron_job_of_def)

definition entry_of :: "RTask \<Rightarrow> string \<times> cron_job" where
  "entry_of t = (rtScheduleExpression t, cron_job_of t)"

definition cron_jobs ::
  "('w \<Rightarrow> int \<rightharpoonup> string \<times> cron_job) \<Rightarrow> schedulerImpl \<times> 'w \<Rightarrow> recurring_id \<rightharpoonup> RTask" where
  "cron_jobs entries sw k =
     (case idsToEntryIds (fst sw) k of
        None \<Rightarrow> None
      | Some i \<Rightarrow> map_option (\<lambda>x. job_task (snd x)) (entries (snd sw) i))"

text \<open>
  The invariant: an id leads to the entry of its task, or to none (entry id 0, after a failure to
  add the job); and every entry belongs to an id.
\<close>

definition cron_ok ::
  "'w cron \<Rightarrow> ('w \<Rightarrow> int \<rightharpoonup> string \<times> cron_job) \<Rightarrow> schedulerImpl \<times> 'w \<Rightarrow> bool" where
  "cron_ok c entries sw \<longleftrightarrow> cron_laws c entries \<and>
     (\<forall>k i. idsToEntryIds (fst sw) k = Some i \<longrightarrow>
        i = 0 \<or> (\<exists>t. entries (snd sw) i = Some (entry_of t) \<and> rtID t = k)) \<and>
     (\<forall>i. entries (snd sw) i \<noteq> None \<longrightarrow> (\<exists>k. idsToEntryIds (fst sw) k = Some i))"

lemma cron_ok_entry: "cron_ok c entries (s, w) \<Longrightarrow> entries w i \<noteq> None \<Longrightarrow> \<exists>k. idsToEntryIds s k = Some i"
  by (simp add: cron_ok_def)

lemma cron_ok_id:
  "cron_ok c entries (s, w) \<Longrightarrow> idsToEntryIds s k = Some i \<Longrightarrow>
     i = 0 \<or> (\<exists>t. entries w i = Some (entry_of t) \<and> rtID t = k)"
  by (simp add: cron_ok_def)

lemma cron_ok_unique:
  assumes "cron_ok c entries (s, w)" and "idsToEntryIds s k = Some i" and "idsToEntryIds s k' = Some i"
    and "i \<noteq> 0"
  shows "k = k'"
proof -
  obtain t t' where "entries w i = Some (entry_of t)" "rtID t = k" "entries w i = Some (entry_of t')" "rtID t' = k'"
    using assms unfolding cron_ok_def by (metis fst_conv snd_conv)
  then show ?thesis by (metis entry_of_def job_task_cron_job_of option.inject prod.inject)
qed

text \<open>Dropping the entry of an id, as both operations do first.\<close>

lemma drop_id:
  assumes ok: "cron_ok c entries (s, w)" and i: "idsToEntryIds s k = Some i"
  defines "s' \<equiv> s\<lparr>idsToEntryIds := (idsToEntryIds s)(k := None)\<rparr>" and "w' \<equiv> RemoveEntry c i w"
  shows "cron_ok c entries (s', w') \<and> cron_jobs entries (s', w') = (cron_jobs entries (s, w))(k := None)"
proof -
  have laws: "cron_laws c entries" using ok by (simp add: cron_ok_def)
  have e: "entries w' = (entries w)(i := None)" by (simp add: w'_def cron_rules [OF laws])
  have zero: "entries w 0 = None" by (rule cron_rules(4) [OF laws])
  have ids: "idsToEntryIds s' k' = (if k' = k then None else idsToEntryIds s k')" for k'
    by (simp add: s'_def)
  have keep: "i' \<noteq> i \<or> i' = 0" if "k' \<noteq> k" "idsToEntryIds s k' = Some i'" for k' i'
    using that i cron_ok_unique [OF ok, of k' i' k] by blast
  have "i' = 0 \<or> (\<exists>t. entries w' i' = Some (entry_of t) \<and> rtID t = k')"
    if "idsToEntryIds s' k' = Some i'" for k' i'
    using that ok keep [of k' i'] by (auto simp: cron_ok_def ids e split: if_splits)
  moreover have "\<exists>k'. idsToEntryIds s' k' = Some i'" if "entries w' i' \<noteq> None" for i'
  proof -
    have "i' \<noteq> i" "entries w i' \<noteq> None" using that by (auto simp: e split: if_splits)
    then obtain k' where "idsToEntryIds s k' = Some i'" using cron_ok_entry [OF ok] by blast
    then show ?thesis using \<open>i' \<noteq> i\<close> i by (intro exI [of _ k']) (auto simp: ids)
  qed
  ultimately have "cron_ok c entries (s', w')" using laws by (auto simp: cron_ok_def)
  moreover have "cron_jobs entries (s', w') k' = ((cron_jobs entries (s, w))(k := None)) k'" for k'
    using keep [of k'] zero by (auto simp: cron_jobs_def ids e split: option.splits)
  ultimately show ?thesis by (simp add: fun_eq_iff)
qed

lemma drop_none: "idsToEntryIds s k = None \<Longrightarrow> (cron_jobs entries (s, w))(k := None) = cron_jobs entries (s, w)"
  by (simp add: fun_eq_iff cron_jobs_def)

lemma cronUnschedule_ok:
  assumes "cron_ok c entries sw" and "cronUnschedule c k sw = (sw', b)"
  shows "cron_ok c entries sw' \<and> cron_jobs entries sw' = (cron_jobs entries sw)(k := None)"
proof -
  obtain s w where sw: "sw = (s, w)" by fastforce
  show ?thesis
    using assms drop_id [of c entries s w k] drop_none [of s k entries w]
    by (auto simp: sw cronUnschedule_def split: option.splits)
qed

text \<open>Adding the job of a task that has no id.\<close>

lemma add_id:
  assumes ok: "cron_ok c entries (s, w)" and k: "idsToEntryIds s (rtID t) = None"
    and add: "AddJob c (rtScheduleExpression t) (cron_job_of t) w = (w', i, err)"
  defines "s' \<equiv> s\<lparr>idsToEntryIds := (idsToEntryIds s)(rtID t \<mapsto> i)\<rparr>"
  shows "cron_ok c entries (s', w') \<and>
    cron_jobs entries (s', w') = (cron_jobs entries (s, w))(rtID t := (if err = None then Some t else None))"
proof -
  have laws: "cron_laws c entries" using ok by (simp add: cron_ok_def)
  have zero: "entries v 0 = None" for v by (rule cron_rules(4) [OF laws])
  have ids: "idsToEntryIds s' k' = (if k' = rtID t then Some i else idsToEntryIds s k')" for k'
    by (simp add: s'_def)
  have e: "err = None \<Longrightarrow> i \<noteq> 0 \<and> entries w i = None \<and> entries w' = (entries w)(i \<mapsto> entry_of t)"
    "err \<noteq> None \<Longrightarrow> i = 0 \<and> entries w' = entries w"
    using add cron_rules(1,2) [OF laws] by (cases err; fastforce simp: entry_of_def)+
  have keep: "i' \<noteq> i \<or> i' = 0" if "idsToEntryIds s k' = Some i'" for k' i'
    using cron_ok_id [OF ok that] e by (cases err) auto
  have "i' = 0 \<or> (\<exists>t. entries w' i' = Some (entry_of t) \<and> rtID t = k')"
    if "idsToEntryIds s' k' = Some i'" for k' i'
    using that e ok keep [of k' i'] by (cases err) (auto simp: cron_ok_def ids split: if_splits)
  moreover have "\<exists>k'. idsToEntryIds s' k' = Some i'" if i': "entries w' i' \<noteq> None" for i'
  proof (cases "i' = i")
    case True
    then show ?thesis by (auto simp: ids)
  next
    case False
    then have "entries w i' \<noteq> None" using i' e by (cases err) (auto split: if_splits)
    then obtain k' where "idsToEntryIds s k' = Some i'" using cron_ok_entry [OF ok] by blast
    then show ?thesis using k by (intro exI [of _ k']) (auto simp: ids)
  qed
  ultimately have "cron_ok c entries (s', w')" using laws by (auto simp: cron_ok_def)
  moreover have "cron_jobs entries (s', w') k' =
      ((cron_jobs entries (s, w))(rtID t := (if err = None then Some t else None))) k'" for k'
    using e keep [of k'] zero
    by (cases err) (auto simp: cron_jobs_def ids entry_of_def split: option.splits)
  ultimately show ?thesis by (simp add: fun_eq_iff)
qed

lemma cronSchedule_ok:
  assumes ok: "cron_ok c entries sw" and sched: "cronSchedule c t sw = (sw', err)"
  shows "cron_ok c entries sw' \<and>
    cron_jobs entries sw' = (cron_jobs entries sw)(rtID t := (if err = None then Some t else None))"
proof -
  obtain s w where sw: "sw = (s, w)" by fastforce
  define s1 w1 where "s1 = (case idsToEntryIds s (rtID t) of None \<Rightarrow> s
      | Some i \<Rightarrow> s\<lparr>idsToEntryIds := (idsToEntryIds s)(rtID t := None)\<rparr>)"
    and "w1 = (case idsToEntryIds s (rtID t) of None \<Rightarrow> w | Some i \<Rightarrow> RemoveEntry c i w)"
  obtain w2 i e where add: "AddJob c (rtScheduleExpression t) (cron_job_of t) w1 = (w2, i, e)"
    by (metis prod_cases3)
  have sw': "sw' = (s1\<lparr>idsToEntryIds := (idsToEntryIds s1)(rtID t \<mapsto> i)\<rparr>, w2)" "err = e"
    using sched add by (auto simp: sw cronSchedule_def s1_def w1_def Let_def split: option.splits)
  have d: "cron_ok c entries (s1, w1)" "cron_jobs entries (s1, w1) = (cron_jobs entries sw)(rtID t := None)"
    using ok drop_id [of c entries s w "rtID t"] drop_none [of s "rtID t" entries w]
    by (auto simp: sw s1_def w1_def split: option.splits)
  have "idsToEntryIds s1 (rtID t) = None" by (auto simp: s1_def split: option.splits)
  from add_id [OF d(1) this add] show ?thesis by (simp add: sw' d(2))
qed

interpretation cron: job_scheduler "NewScheduler c" "cron_jobs entries" "cron_ok c entries"
  by unfold_locales
    (auto simp: NewScheduler_def dest: cronSchedule_ok cronUnschedule_ok)

section \<open>What cron runs\<close>

text \<open>A sequence of operations on a scheduler, and which of them were accepted.\<close>

datatype sched_op = SchedOp RTask | UnschedOp recurring_id

fun exec_op :: "'w Scheduler \<Rightarrow> sched_op \<Rightarrow> 'w \<Rightarrow> 'w \<times> bool" where
  "exec_op sch (SchedOp t) w = (case Schedule sch t w of (w', err) \<Rightarrow> (w', err = None))"
| "exec_op sch (UnschedOp i) w = Unschedule sch i w"

fun exec_ops :: "'w Scheduler \<Rightarrow> sched_op list \<Rightarrow> 'w \<Rightarrow> 'w \<times> bool list" where
  "exec_ops sch [] w = (w, [])"
| "exec_ops sch (op # ops) w =
     (let (w1, b) = exec_op sch op w; (w2, bs) = exec_ops sch ops w1 in (w2, b # bs))"

text \<open>The specification: the task scheduled last under each id, unless unscheduled or refused since.\<close>

fun spec_op :: "sched_op \<Rightarrow> bool \<Rightarrow> (recurring_id \<rightharpoonup> RTask) \<Rightarrow> recurring_id \<rightharpoonup> RTask" where
  "spec_op (SchedOp t) accepted js = js(rtID t := (if accepted then Some t else None))"
| "spec_op (UnschedOp i) accepted js = js(i := None)"

fun spec_ops :: "sched_op list \<Rightarrow> bool list \<Rightarrow> (recurring_id \<rightharpoonup> RTask) \<Rightarrow> recurring_id \<rightharpoonup> RTask" where
  "spec_ops (op # ops) (b # bs) js = spec_ops ops bs (spec_op op b js)"
| "spec_ops _ _ js = js"

context job_scheduler
begin

lemma exec_op_spec: "exec_op sch op w = (w', b) \<Longrightarrow> ok w \<Longrightarrow> ok w' \<and> jobs w' = spec_op op b (jobs w)"
proof (cases op)
  case (SchedOp t)
  assume "exec_op sch op w = (w', b)" and ok: "ok w"
  then obtain err where "Schedule sch t w = (w', err)" "b = (err = None)"
    by (auto simp: SchedOp split: prod.splits)
  then show ?thesis using schedule [OF ok] by (simp add: SchedOp)
next
  case (UnschedOp i)
  assume "exec_op sch op w = (w', b)" and ok: "ok w"
  then have "Unschedule sch i w = (w', b)" by (simp add: UnschedOp)
  then show ?thesis using unschedule [OF ok] by (simp add: UnschedOp)
qed

lemma exec_ops_spec: "exec_ops sch ops w = (w', bs) \<Longrightarrow> ok w \<Longrightarrow> ok w' \<and> jobs w' = spec_ops ops bs (jobs w)"
proof (induction ops arbitrary: w bs)
  case (Cons op ops)
  obtain w1 b where one: "exec_op sch op w = (w1, b)" by fastforce
  obtain bs' where rest: "exec_ops sch ops w1 = (w', bs')" "bs = b # bs'"
    using Cons.prems(1) one by (auto split: prod.splits)
  show ?case using Cons.IH [OF rest(1)] exec_op_spec [OF one Cons.prems(2)] rest(2) by simp
qed simp

end

lemma cron_jobs_entries:
  assumes ok: "cron_ok c entries (s, w)"
  shows "cron_jobs entries (s, w) k = Some t \<longleftrightarrow> rtID t = k \<and> (\<exists>i. entries w i = Some (entry_of t))"
proof
  assume "cron_jobs entries (s, w) k = Some t"
  then obtain i x where i: "idsToEntryIds s k = Some i" "entries w i = Some x" "job_task (snd x) = t"
    by (auto simp: cron_jobs_def split: option.splits)
  moreover have "entries w 0 = None" using ok cron_rules(4) by (auto simp: cron_ok_def)
  ultimately obtain t' where "entries w i = Some (entry_of t')" "rtID t' = k"
    using cron_ok_id [OF ok i(1)] by auto
  then show "rtID t = k \<and> (\<exists>i. entries w i = Some (entry_of t))" using i by (auto simp: entry_of_def)
next
  assume "rtID t = k \<and> (\<exists>i. entries w i = Some (entry_of t))"
  then obtain i where t: "rtID t = k" and i: "entries w i = Some (entry_of t)" by blast
  obtain k' where k': "idsToEntryIds s k' = Some i"
    using cron_ok_entry [OF ok, of i] i by (metis option.distinct(1))
  moreover have "entries w 0 = None" using ok cron_rules(4) by (auto simp: cron_ok_def)
  ultimately have "k' = k" using cron_ok_id [OF ok k'] i t by (auto simp: entry_of_def) (metis job_task_cron_job_of)
  then show "cron_jobs entries (s, w) k = Some t" using k' i by (simp add: cron_jobs_def entry_of_def)
qed

text \<open>
  C14: after any sequence of operations on a new scheduler, cron runs exactly one entry for every
  recurring task whose last operation was an accepted \<open>Schedule\<close>, with the schedule expression and
  the job of the version scheduled last, and no other entry: no task is enqueued twice, and no
  superseded or unscheduled version is enqueued at all.
\<close>

theorem scheduler_runs_latest:
  assumes laws: "cron_laws c entries" and empty: "entries w0 = Map.empty"
    and run: "exec_ops (NewScheduler c) ops (NewSchedulerImpl, w0) = ((s, w), accepted)"
  shows "(\<forall>t. (\<exists>i. entries w i = Some (entry_of t)) \<longleftrightarrow> spec_ops ops accepted Map.empty (rtID t) = Some t) \<and>
    (\<forall>i x. entries w i = Some x \<longrightarrow> (\<exists>t. x = entry_of t)) \<and>
    (\<forall>i j t u. entries w i = Some (entry_of t) \<longrightarrow> entries w j = Some (entry_of u) \<longrightarrow>
       rtID t = rtID u \<longrightarrow> i = j)"
proof -
  have "cron_ok c entries (NewSchedulerImpl, w0)"
    using laws empty by (simp add: cron_ok_def NewSchedulerImpl_def)
  moreover have "cron_jobs entries (NewSchedulerImpl, w0) = Map.empty"
    by (simp add: cron_jobs_def NewSchedulerImpl_def fun_eq_iff)
  ultimately have ok: "cron_ok c entries (s, w)"
    and js: "cron_jobs entries (s, w) = spec_ops ops accepted Map.empty"
    using cron.exec_ops_spec [OF run, of entries] by auto
  have ne: "i \<noteq> 0" if "entries w i = Some x" for i x
    using that laws cron_rules(4) by fastforce
  have x: "\<exists>t k. x = entry_of t \<and> rtID t = k \<and> idsToEntryIds s k = Some i" if "entries w i = Some x" for i x
    using that cron_ok_entry [OF ok, of i] cron_ok_id [OF ok] ne [OF that] by fastforce
  have inj: "rtID t = rtID u" if "entry_of t = entry_of u" for t u
    using that by (metis entry_of_def job_task_cron_job_of prod.inject)
  have "i = j" if "entries w i = Some (entry_of t)" "entries w j = Some (entry_of u)" "rtID t = rtID u" for i j t u
    using x [OF that(1)] x [OF that(2)] inj that(3) by (metis option.inject)
  moreover have "(\<exists>i. entries w i = Some (entry_of t)) \<longleftrightarrow> spec_ops ops accepted Map.empty (rtID t) = Some t" for t
    using cron_jobs_entries [OF ok, of "rtID t" t] by (simp add: js)
  moreover have "\<exists>t. x = entry_of t" if "entries w i = Some x" for i x
    using x [OF that] by (elim exE conjE) (rule exI)
  ultimately show ?thesis by (intro conjI allI impI) assumption+
qed

section \<open>What a job does\<close>

text \<open>
  What Elasticsearch documents of searches: \<open>searchable w ix\<close> are the documents of an index that a search finds now.
  A refresh concerns the indices it names, when the names are no patterns; a count counts the searchable documents that match, and the clock and the
  cache of touched queues have nothing to do with it. A document that was written need not be searchable yet.
\<close>

definition exact_index :: "string \<Rightarrow> bool" where
  "exact_index ix \<longleftrightarrow> set ix \<inter> set invalidChars = {} \<and> ix \<noteq> ''_all''"

definition search_laws ::
  "'w task_env \<Rightarrow> ('w \<Rightarrow> string \<Rightarrow> PersistedTaskData list) \<Rightarrow> (json \<Rightarrow> json \<Rightarrow> bool) \<Rightarrow> bool" where
  "search_laws e searchable m \<longleftrightarrow>
     (\<forall>ixs ix w. ix \<notin> set ixs \<longrightarrow> (\<forall>n \<in> set ixs. exact_index n) \<longrightarrow>
        searchable (fst (IndicesRefreshRequest e ixs w)) ix = searchable w ix) \<and>
     (\<forall>w. searchable (fst (getUTC e w)) = searchable w) \<and>
     (\<forall>q w. searchable (fst (lru_Get e q w)) = searchable w) \<and>
     (\<forall>q at w. searchable (lru_Add e q at w) = searchable w) \<and>
     (\<forall>ix q w w' n. CountRequest e [ix] q w = (w', Response 200 (Some n)) \<longrightarrow>
        unat n = length (filter (\<lambda>p. m (query_of q) (persisted_json p)) (searchable w ix)))"

lemma search_rules:
  assumes "search_laws e searchable m"
  shows "ix \<noteq> name \<Longrightarrow> exact_index name \<Longrightarrow> searchable (fst (IndicesRefreshRequest e [name] w)) ix = searchable w ix"
    and "getUTC e w = (w1, now) \<Longrightarrow> searchable w1 = searchable w"
    and "lru_Get e q w = (w1, touched) \<Longrightarrow> searchable w1 = searchable w"
    and "searchable (lru_Add e q at w) = searchable w"
    and "CountRequest e [ix] body w = (w1, Response 200 (Some n)) \<Longrightarrow>
      unat n = length (filter (\<lambda>p. m (query_of body) (persisted_json p)) (searchable w ix))"
  using assms unfolding search_laws_def by (simp, (metis fst_conv)+)

lemma accepted_exact: "NameFromString ToLower s = Inr q \<Longrightarrow> exact_index q"
  using accepted_no_invalid [of ToLower s q]
  by (auto simp: exact_index_def NameFromString_Inr_iff name_errors_def illegalPrefixes_def prefix_single)

text \<open>
  \<open>RefreshAsNeeded\<close> does not make the tasks of the queue searchable: the index it refreshes is called
  like the queue, and the tasks are in another.
\<close>

lemma refresh_misses_queue:
  assumes laws: "search_laws e searchable m" and name: "exact_index name"
  shows "searchable (fst (EsRefreshAsNeeded e conf name w)) (BuildIndexName name) = searchable w (BuildIndexName name)"
proof -
  let ?ix = "BuildIndexName name"
  note rules = search_rules [OF laws]
  have ne: "?ix \<noteq> name" by (simp add: BuildIndexName_def TasquesQueuePrefix_def)
  have touched: "searchable (markTouched e name v) = searchable v" for v
    using rules(2) [of v] rules(4) by (cases "getUTC e v") (simp add: markTouched_def)
  obtain w1 b where need: "needsRefreshing e conf name w = (w1, b)" by fastforce
  have w1: "searchable w1 = searchable w"
    using need rules(2,3)
    by (auto simp: needsRefreshing_def Let_def split: prod.splits option.splits)
  obtain w2 r where ref: "IndicesRefreshRequest e [name] w1 = (w2, r)" by fastforce
  have "searchable w2 ?ix = searchable w1 ?ix" using rules(1) [OF ne name, of w1] ref by simp
  then show ?thesis using need w1 ref touched by (cases b; cases r) (simp_all add: EsRefreshAsNeeded_def)
qed

text \<open>Tasks of a recurring task that are not over.\<close>

definition outstanding_of :: "RTask \<Rightarrow> PersistedTaskData \<Rightarrow> bool" where
  "outstanding_of t p \<longleftrightarrow> pRecurringTaskId p = Some (rtID t) \<and> pState p \<notin> {DONE, DEAD}"

lemma count_outstanding:
  assumes laws: "search_laws e searchable m" and m: "dsl_ok m" "length (rtID t) \<le> 512"
    and count: "EsOutstandingTasksCount e q (rtID t) w = (w', Inr n)"
  shows "0 < n \<longleftrightarrow> (\<exists>p \<in> set (searchable w (BuildIndexName q)). outstanding_of t p)"
proof -
  obtain w1 where "CountRequest e [BuildIndexName q] (buildOutstandingTasksCountQuery (rtID t)) w
      = (w1, Response 200 (Some n))"
    using count by (auto simp: EsOutstandingTasksCount_def split: prod.splits es_reply.splits option.splits if_splits)
  note counted = search_rules(5) [OF laws this]
  have "m (query_of (buildOutstandingTasksCountQuery (rtID t))) (persisted_json p) = outstanding_of t p" for p
    by (simp only: outstanding_selects [OF m] outstanding_of_def)
  then have "unat n = length (filter (outstanding_of t) (searchable w (BuildIndexName q)))"
    using counted by (simp only:)
  then have "n \<noteq> 0 \<longleftrightarrow> filter (outstanding_of t) (searchable w (BuildIndexName q)) \<noteq> []"
    by (metis length_0_conv unat_eq_zero)
  then show ?thesis by (auto simp: word_gt_0 filter_empty_conv)
qed

text \<open>
  C25: the job of a recurring task that skips creates a task only if no outstanding task of it could be found in the
  queue before the job; if one could, or if the count fails, nothing is created: all the job then does
  is its refresh and its count. The refresh makes nothing findable, so a task created so recently that the index has not been refreshed
  since is not seen, and a second one is created. A task that does not skip is always
  enqueued. What is created is an outstanding task of the recurring task, in the queue where the job counts.
\<close>

theorem recurring_job_skips:
  assumes laws: "search_laws e searchable m" and m: "dsl_ok m" "length (rtID t) \<le> 512"
    and accepted: "NameFromString ToLower s = Inr (tdQueue (rtTaskDefinition t))"
    and refresh: "EsRefreshAsNeeded e conf (tdQueue (rtTaskDefinition t)) w = (w1, refreshed)"
    and count: "EsOutstandingTasksCount e (tdQueue (rtTaskDefinition t)) (rtID t) w1 = (w2, counted)"
  shows "run_job (NewService e conf) getNow (cron_job_of t) w =
      (if \<not> rtSkipIfOutstandingTasksExist t then enqueue (NewService e conf) getNow t w
       else if (\<exists>err. counted = Inl err) \<or>
         (\<exists>p \<in> set (searchable w (BuildIndexName (tdQueue (rtTaskDefinition t)))). outstanding_of t p) then w2
       else enqueue (NewService e conf) getNow t w2) \<and>
    outstanding_of t (newTask_toPersisted i now (taskDefToNewTask at (rtID t) (rtTaskDefinition t))) \<and>
    nQueue (taskDefToNewTask at (rtID t) (rtTaskDefinition t)) = tdQueue (rtTaskDefinition t)"
proof (intro conjI)
  let ?q = "tdQueue (rtTaskDefinition t)"
  show "outstanding_of t (newTask_toPersisted i now (taskDefToNewTask at (rtID t) (rtTaskDefinition t)))"
    "nQueue (taskDefToNewTask at (rtID t) (rtTaskDefinition t)) = ?q"
    by (simp_all add: outstanding_of_def newTask_toPersisted_def taskDefToNewTask_def)
  have same: "searchable w1 (BuildIndexName ?q) = searchable w (BuildIndexName ?q)"
    using refresh_misses_queue [OF laws accepted_exact [OF accepted], of conf w] refresh by simp
  have counts: "0 < n \<longleftrightarrow> (\<exists>p \<in> set (searchable w (BuildIndexName ?q)). outstanding_of t p)" if "counted = Inr n" for n
    using count_outstanding [OF laws m count [unfolded that]] by (simp only: same)
  show "run_job (NewService e conf) getNow (cron_job_of t) w =
      (if \<not> rtSkipIfOutstandingTasksExist t then enqueue (NewService e conf) getNow t w
       else if (\<exists>err. counted = Inl err) \<or>
         (\<exists>p \<in> set (searchable w (BuildIndexName ?q)). outstanding_of t p) then w2
       else enqueue (NewService e conf) getNow t w2)"
  proof (cases counted)
    case (Inl err)
    then show ?thesis
      using refresh count by (simp add: NewService_def cron_job_of_def run_task_def Let_def)
  next
    case (Inr n)
    then show ?thesis
      using refresh count counts [OF Inr] by (simp add: NewService_def cron_job_of_def run_task_def Let_def)
  qed
qed

end
