(* ===== verification/RecurringSystem.thy ===== *)
theory RecurringSystem
  imports CronContract Scans
begin

text \<open>
  The recurring tasks of a server put together, as \<open>NewComponents\<close> of
  \<open>internal/infra/server/components.go\<close> does: the manager over the cron scheduler and the
  Elasticsearch service. The contracts of \<open>RecurringSync\<close> hold of them, given the documented
  behaviour of cron and of Elasticsearch's scrolls.
\<close>

section \<open>The composition\<close>

text \<open>A component that lives in the second part of a pair of states.\<close>

definition beside :: "('w \<Rightarrow> 'w \<times> 'a) \<Rightarrow> 's \<times> 'w \<Rightarrow> ('s \<times> 'w) \<times> 'a" where
  "beside f sw = (case f (snd sw) of (w', a) \<Rightarrow> ((fst sw, w'), a))"

definition beside_option :: "('w \<Rightarrow> ('w \<times> 'a) option) \<Rightarrow> 's \<times> 'w \<Rightarrow> (('s \<times> 'w) \<times> 'a) option" where
  "beside_option f sw = map_option (\<lambda>(w', a). ((fst sw, w'), a)) (f (snd sw))"

definition service_beside :: "'w RService \<Rightarrow> ('s \<times> 'w) RService" where
  "service_beside svc = \<lparr>rsCreate = (\<lambda>t. beside (rsCreate svc t)),
     rsGet = (\<lambda>i b. beside (rsGet svc i b)), rsDelete = (\<lambda>i. beside (rsDelete svc i)),
     rsAll = beside_option (rsAll svc), rsNotLoaded = beside_option (rsNotLoaded svc),
     rsUpdate = (\<lambda>t. beside (rsUpdate svc t)), rsMarkLoaded = (\<lambda>ts. beside (rsMarkLoaded svc ts))\<rparr>"

definition recurring_components ::
  "'w cron \<Rightarrow> 'w recurring_env \<Rightarrow> u64 \<Rightarrow> duration \<Rightarrow>
     (schedulerImpl \<times> 'w \<Rightarrow> (recurring_id \<rightharpoonup> RTask) \<Rightarrow> RTask list) \<Rightarrow> (schedulerImpl \<times> 'w) manager_env" where
  "recurring_components c e scrollSize scrollTtl order =
     \<lparr>scheduler_of = NewScheduler c, service_of = service_beside (NewRService e scrollSize scrollTtl),
      range_order = order\<rparr>"

section \<open>The documented behaviour of scrolls\<close>

text \<open>
  A scroll is a snapshot of the documents that match the query, each once: \<open>rest w sid\<close> are the
  hits still to come.
\<close>

definition scroll_laws ::
  "'w recurring_env \<Rightarrow> (json \<Rightarrow> json \<Rightarrow> bool) \<Rightarrow> ('w \<Rightarrow> string \<Rightarrow> recurring_hit list) \<Rightarrow> bool" where
  "scroll_laws e m rest \<longleftrightarrow>
     (\<forall>ttl ixs body w w' sid hits.
        ScrollSearchRequest e ttl ixs body w = (w', Response 200 (Some (sid, hits))) \<longrightarrow>
        distinct (map hID (hits @ rest w' sid)) \<and>
        (\<forall>h \<in> set (hits @ rest w' sid). m (query_of body) (recurring_json (hSource h)))) \<and>
     (\<forall>ttl w w' sid sid' hits. ScrollRequest e ttl sid w = (w', Response 200 (Some (sid', hits))) \<longrightarrow>
        rest w sid = hits @ rest w' sid')"

text \<open>The requests of the service leave another part of the world alone.\<close>

definition leaves_alone :: "'w recurring_env \<Rightarrow> ('w \<Rightarrow> 'b) \<Rightarrow> bool" where
  "leaves_alone e f \<longleftrightarrow> (\<forall>w. f (fst (getUTC e w)) = f w \<and>
     (\<forall>ttl ixs body. f (fst (ScrollSearchRequest e ttl ixs body w)) = f w) \<and>
     (\<forall>ttl sid. f (fst (ScrollRequest e ttl sid w)) = f w) \<and>
     (\<forall>sids. f (fst (ClearScrollRequest e sids w)) = f w) \<and>
     (\<forall>ops. f (fst (BulkRequest e ops w)) = f w) \<and>
     (\<forall>ixs. f (fst (IndicesRefreshRequest e ixs w)) = f w))"

lemma leaves_alone_eq:
  assumes "leaves_alone e f"
  shows "getUTC e w = (w', at) \<Longrightarrow> f w' = f w"
    and "ScrollSearchRequest e ttl ixs body w = (w', r) \<Longrightarrow> f w' = f w"
    and "ScrollRequest e ttl sid w = (w', r) \<Longrightarrow> f w' = f w"
    and "f (fst (ClearScrollRequest e sids w)) = f w"
    and "BulkRequest e ops w = (w', b) \<Longrightarrow> f w' = f w"
    and "IndicesRefreshRequest e ixs w = (w', u) \<Longrightarrow> f w' = f w"
  using assms unfolding leaves_alone_def by (metis fst_conv)+

lemma rScroll_Inr:
  "rScroll e ttl sid w = (w', Inr (sid', ts)) \<Longrightarrow>
     \<exists>hits. ScrollRequest e ttl sid w = (w', Response 200 (Some (sid', hits))) \<and> ts = map hit_toDomainTask hits"
  by (auto simp: rScroll_def rProcessScrollResp_def split: prod.splits es_reply.splits option.splits if_splits)

lemma rInitSearch_Inr:
  "rInitSearch e body ttl w = (w', Inr (sid, ts)) \<Longrightarrow>
     \<exists>hits. ScrollSearchRequest e ttl [TasquesRecurringTasksIndex] body w = (w', Response 200 (Some (sid, hits))) \<and>
       ts = map hit_toDomainTask hits"
  by (auto simp: rInitSearch_def rProcessScrollResp_def split: prod.splits es_reply.splits option.splits if_splits)

lemma scroll_next:
  assumes "scroll_laws e m rest"
    and "ScrollRequest e ttl sid w = (w', Response 200 (Some (sid', hits)))"
  shows "rest w sid = hits @ rest w' sid'"
  by (rule assms(1) [unfolded scroll_laws_def, THEN conjunct2, rule_format, OF assms(2)])

lemma scroll_first:
  assumes "scroll_laws e m rest"
    and "ScrollSearchRequest e ttl ixs body w = (w', Response 200 (Some (sid, hits)))"
  shows "distinct (map hID (hits @ rest w' sid)) \<and>
    (\<forall>h \<in> set (hits @ rest w' sid). m (query_of body) (recurring_json (hSource h)))"
  by (rule assms(1) [unfolded scroll_laws_def, THEN conjunct1, THEN spec, THEN spec, THEN spec,
      THEN spec, THEN spec, THEN spec, THEN spec, THEN mp, OF assms(2)])

lemma session_hits:
  "scan_session (rScroll e ttl) append_found sid batch acc w pages sids acc' w' \<Longrightarrow> scroll_laws e m rest \<Longrightarrow>
     batch = map hit_toDomainTask hits \<Longrightarrow>
     \<exists>hs. concat pages = map hit_toDomainTask hs \<and> prefix hs (hits @ rest w sid)"
proof (induction arbitrary: hits rule: scan_session.induct)
  case (session_end sid acc w)
  then show ?case by (intro exI [of _ "[]"]) simp
next
  case (session_page batch acc w w1 acc1 sid w2 sid' batch' pages sids acc' w')
  have w1: "w1 = w" using session_page.hyps(2) by (simp add: append_found_def)
  obtain hits' where h: "ScrollRequest e ttl sid w1 = (w2, Response 200 (Some (sid', hits')))"
    "batch' = map hit_toDomainTask hits'"
    using rScroll_Inr [OF session_page.hyps(3)] by blast
  have r: "rest w sid = hits' @ rest w2 sid'"
    by (rule scroll_next [OF session_page.prems(1) h(1) [unfolded w1]])
  obtain hs where hs: "concat pages = map hit_toDomainTask hs" "prefix hs (hits' @ rest w2 sid')"
    using session_page.IH [OF session_page.prems(1) h(2)] by blast
  have "prefix (hits @ hs) (hits @ rest w sid)" using hs(2) unfolding r by simp
  moreover have "concat (batch # pages) = map hit_toDomainTask (hits @ hs)"
    using hs(1) session_page.prems(2) by simp
  ultimately show ?case by blast
qed

lemma hit_toDomainTask_simps [simp]:
  "rtID (hit_toDomainTask h) = hID h" "rtIsDeleted (hit_toDomainTask h) = prIsDeleted (hSource h)"
  by (simp_all add: hit_toDomainTask_def persistedToDomain_def)

text \<open>What a listing returns: distinct tasks, read from documents that match.\<close>

lemma listing_hits:
  assumes laws: "scroll_laws e m rest"
    and scan: "scanRecurringTasks e body ttl append_found [] w = Some (w', Inr ts)"
  shows "\<exists>hs. ts = map hit_toDomainTask hs \<and> distinct (map hID hs) \<and>
    (\<forall>h \<in> set hs. m (query_of body) (recurring_json (hSource h)))"
proof -
  obtain pages where l: "lists e body ttl w pages" "ts = concat pages"
    using iffD1 [OF scan_lists exI, OF scan] by (elim exE conjE)
  then obtain w1 sid batch sids w2 where init: "rInitSearch e body ttl w = (w1, Inr (sid, batch))"
    and s: "scan_session (rScroll e ttl) append_found sid batch [] w1 pages sids (concat pages) w2"
    unfolding lists_def by blast
  obtain hits where h: "ScrollSearchRequest e ttl [TasquesRecurringTasksIndex] body w =
      (w1, Response 200 (Some (sid, hits)))" "batch = map hit_toDomainTask hits"
    using rInitSearch_Inr [OF init] by blast
  obtain hs where hs: "concat pages = map hit_toDomainTask hs" "prefix hs (hits @ rest w1 sid)"
    using session_hits [OF s laws h(2)] by blast
  note first = scroll_first [OF laws h(1)]
  have m: "distinct (map hID (hits @ rest w1 sid))"
    "\<forall>h \<in> set (hits @ rest w1 sid). m (query_of body) (recurring_json (hSource h))"
    using first by blast+
  obtain more where more: "hits @ rest w1 sid = hs @ more" using hs(2) by (elim prefixE)
  have "distinct (map hID hs)" using m(1) unfolding more by simp
  moreover have "\<forall>h \<in> set hs. m (query_of body) (recurring_json (hSource h))"
    using m(2) unfolding more by simp
  ultimately show ?thesis using hs(1) l(2) by blast
qed

lemma loop_leaves_alone:
  assumes "scan_loop nxt g sid batch ids acc w = Some y"
    and "\<And>i v. f (fst (nxt i v)) = f v" and "\<And>ts a v. f (fst (g ts a v)) = f v"
  shows "f (fst y) = f w"
  using assms
proof (induction rule: scan_loop_induct)
  case (step loop nxt g sid batch ids acc w y)
  show ?case
  proof (cases "batch = []")
    case True
    then show ?thesis using step.hyps by auto
  next
    case False
    obtain w1 r where g: "g batch acc w = (w1, r)" by fastforce
    have w1: "f w1 = f w" using step.prems(2) [of batch acc w] g by simp
    show ?thesis
    proof (cases r)
      case (Inl err)
      then show ?thesis using step.hyps False g w1 by auto
    next
      case (Inr acc1)
      obtain w2 q where q: "nxt sid w1 = (w2, q)" by fastforce
      have w2: "f w2 = f w" using step.prems(1) [of sid w1] q w1 by simp
      show ?thesis
        using step.hyps False g Inr q w2 step.IH [OF _ step.prems]
        by (cases q) (auto split: prod.splits)
    qed
  qed
qed

lemma scan_leaves_alone:
  assumes alone: "leaves_alone e f"
    and scan: "scanRecurringTasks e body ttl append_found acc w = Some (w', r)"
  shows "f w' = f w"
proof -
  obtain w1 q where init: "rInitSearch e body ttl w = (w1, q)" by fastforce
  then have w1: "f w1 = f w" using leaves_alone_eq(2) [OF alone]
    by (auto simp: rInitSearch_def split: prod.splits)
  have next_page: "f (fst (rScroll e ttl i v)) = f v" for i v
    using leaves_alone_eq(3) [OF alone] by (simp add: rScroll_def split: prod.splits)
  show ?thesis
  proof (cases q)
    case (Inl x)
    then show ?thesis using scan init w1 by (auto simp: scanRecurringTasks_def)
  next
    case (Inr p)
    obtain sid batch where p: "p = (sid, batch)" by fastforce
    obtain y where "scan_loop (rScroll e ttl) append_found sid batch [sid] acc w1 = Some y"
      using scan init
      by (cases "scan_loop (rScroll e ttl) append_found sid batch [sid] acc w1")
        (simp_all add: scanRecurringTasks_def Inr p)
    then obtain w2 ids r2 where l: "scan_loop (rScroll e ttl) append_found sid batch [sid] acc w1 = Some (w2, ids, r2)"
      by (cases y rule: prod_cases3) simp
    have w': "w' = fst (rClearScroll e ids w2)"
      using scan init l by (simp add: scanRecurringTasks_def Inr p)
    have "f (fst (w2, ids, r2)) = f w1"
      by (rule loop_leaves_alone [where f = f, OF l next_page]) (simp add: append_found_def)
    moreover have "f w' = f w2" using leaves_alone_eq(4) [OF alone, of ids w2]
      by (auto simp: w' rClearScroll_def split: prod.splits es_reply.splits)
    ultimately show ?thesis using w1 by simp
  qed
qed

lemma rAll_facts:
  assumes laws: "scroll_laws e m rest" and alone: "leaves_alone e f" and dsl: "dsl_ok m"
    and all: "rAll e n ttl w = Some (w', r)"
  shows "f w' = f w \<and> (\<forall>ts. r = Inr ts \<longrightarrow> distinct (map rtID ts) \<and> (\<forall>t \<in> set ts. \<not> rtIsDeleted t))"
proof -
  obtain w1 q where ref: "refreshIndex e w = (w1, q)" by fastforce
  then have w1: "f w1 = f w" using leaves_alone_eq(6) [OF alone]
    by (auto simp: refreshIndex_def split: prod.splits es_reply.splits)
  show ?thesis
  proof (cases q)
    case (Inl x)
    then show ?thesis using all ref w1 by (auto simp: rAll_def)
  next
    case (Inr u)
    then have scan: "scanRecurringTasks e (buildUndeletedListSearchBody n) ttl append_found [] w1 = Some (w', r)"
      using all ref by (simp add: rAll_def)
    have "distinct (map rtID ts) \<and> (\<forall>t \<in> set ts. \<not> rtIsDeleted t)" if "r = Inr ts" for ts
      using listing_hits [OF laws scan [unfolded that]] undeleted_selects [OF dsl]
      by (auto simp: o_def)
    then show ?thesis using scan_leaves_alone [OF alone scan] w1 by simp
  qed
qed

lemma rNotLoaded_facts:
  assumes laws: "scroll_laws e m rest" and alone: "leaves_alone e f"
    and call: "rNotLoaded e n ttl w = Some (w', r)"
  shows "f w' = f w \<and> (\<forall>ts. r = Inr ts \<longrightarrow> distinct (map rtID ts))"
proof -
  have scan: "scanRecurringTasks e (buildNotLoadedSinceSearchBody n) ttl append_found [] w = Some (w', r)"
    using call by (simp add: rNotLoaded_def)
  have "distinct (map rtID ts)" if "r = Inr ts" for ts
    using listing_hits [OF laws scan [unfolded that]] by (auto simp: o_def)
  then show ?thesis using scan_leaves_alone [OF alone scan] by simp
qed

lemma rMarkLoaded_facts:
  assumes alone: "leaves_alone e f" and mark: "rMarkLoaded e ts w = (w', r)"
  shows "f w' = f w \<and> (\<forall>res. r = Inr res \<longrightarrow> accounts_for ts res)"
proof -
  have "f w' = f w"
    using mark leaves_alone_eq(1) [OF alone] leaves_alone_eq(5) [OF alone]
    by (auto simp: rMarkLoaded_def Let_def split: prod.splits es_reply.splits)
  moreover have "accounts_for ts res" if r: "r = Inr res" for res
  proof -
    obtain now resp where coll: "collect_updates resp 0 (map (mark_at now) ts) no_updates = Inr res"
      using rMarkLoaded_Inr [OF mark [unfolded r]] by (elim exE conjE)
    have "\<exists>t0 \<in> set ts. same_job t t0" if "t \<in> set (all_updates res)" for t
    proof -
      have "(\<exists>v j. j < length ts \<and> t = set_rt_version v (mark_at now (ts ! j))) \<or> t \<in> set (map (mark_at now) ts)"
        using that collect_updates_Inr [OF coll] by (fastforce simp: all_updates_def)
      then show ?thesis
      proof (elim disjE exE conjE)
        fix v j
        assume "j < length ts" and "t = set_rt_version v (mark_at now (ts ! j))"
        then show ?thesis
          by (intro bexI [of _ "ts ! j"]) (auto simp: same_job_def mark_at_def set_rt_version_def)
      next
        assume "t \<in> set (map (mark_at now) ts)"
        then show ?thesis by (auto simp: same_job_def mark_at_def)
      qed
    qed
    then show ?thesis using rMarkLoaded_ids [OF mark [unfolded r]] by (simp add: accounts_for_def)
  qed
  ultimately show ?thesis by blast
qed

section \<open>The contracts hold\<close>

text \<open>The state of the scheduler is in order, and the libraries keep their word.\<close>

definition recurring_ok where
  "recurring_ok c entries e m rest order sw \<longleftrightarrow>
     cron_ok c entries sw \<and> scroll_laws e m rest \<and> leaves_alone e entries \<and> dsl_ok m \<and>
     (\<forall>sw tasks. finite (dom tasks) \<longrightarrow> set (order sw tasks) = ran tasks)"

lemma cron_ok_beside: "cron_ok c entries sw \<Longrightarrow> entries w' = entries (snd sw) \<Longrightarrow> cron_ok c entries (fst sw, w')"
  by (simp add: cron_ok_def)

lemma cron_jobs_beside: "entries w' = entries (snd sw) \<Longrightarrow> cron_jobs entries (fst sw, w') = cron_jobs entries sw"
  by (rule ext) (simp only: cron_jobs_def fst_conv snd_conv)

lemma recurring_ok_beside:
  "recurring_ok c entries e m rest order sw \<Longrightarrow> entries w' = entries (snd sw) \<Longrightarrow>
     recurring_ok c entries e m rest order (fst sw, w')"
  by (simp add: recurring_ok_def cron_ok_beside)

lemma recurring_ok_rules:
  assumes "recurring_ok c entries e m rest order sw"
  shows "cron_ok c entries sw" and "scroll_laws e m rest" and "leaves_alone e entries" and "dsl_ok m"
  using assms by (simp_all add: recurring_ok_def)

lemma recurring_manager_holds:
  "recurring_manager (recurring_components c e n ttl order) (cron_jobs entries) (recurring_ok c entries e m rest order)"
proof unfold_locales
  fix sw sw' t err
  assume "recurring_ok c entries e m rest order sw"
    and "Schedule (scheduler_of (recurring_components c e n ttl order)) t sw = (sw', err)"
  then show "recurring_ok c entries e m rest order sw' \<and>
      cron_jobs entries sw' = (cron_jobs entries sw)(rtID t := if err = None then Some t else None)"
    using cron.schedule [of c entries sw t sw' err] by (simp add: recurring_ok_def recurring_components_def)
next
  fix sw sw' i b
  assume "recurring_ok c entries e m rest order sw"
    and "Unschedule (scheduler_of (recurring_components c e n ttl order)) i sw = (sw', b)"
  then show "recurring_ok c entries e m rest order sw' \<and> cron_jobs entries sw' = (cron_jobs entries sw)(i := None)"
    using cron.unschedule [of c entries sw i sw' b] by (simp add: recurring_ok_def recurring_components_def)
next
  fix sw sw' r
  assume ok: "recurring_ok c entries e m rest order sw"
    and call: "rsAll (service_of (recurring_components c e n ttl order)) sw = Some (sw', r)"
  then obtain w' where w': "rAll e n ttl (snd sw) = Some (w', r)" "sw' = (fst sw, w')"
    by (auto simp: recurring_components_def service_beside_def beside_option_def NewRService_def)
  show "recurring_ok c entries e m rest order sw' \<and> cron_jobs entries sw' = cron_jobs entries sw \<and>
      (\<forall>ts. r = Inr ts \<longrightarrow> distinct (map rtID ts) \<and> (\<forall>t\<in>set ts. \<not> rtIsDeleted t))"
    using rAll_facts [OF recurring_ok_rules(2,3,4) [OF ok] w'(1)] recurring_ok_beside [OF ok] cron_jobs_beside [of entries w' sw]
    by (simp add: w'(2))
next
  fix sw sw' r
  assume ok: "recurring_ok c entries e m rest order sw"
    and call: "rsNotLoaded (service_of (recurring_components c e n ttl order)) sw = Some (sw', r)"
  then obtain w' where w': "rNotLoaded e n ttl (snd sw) = Some (w', r)" "sw' = (fst sw, w')"
    by (auto simp: recurring_components_def service_beside_def beside_option_def NewRService_def)
  show "recurring_ok c entries e m rest order sw' \<and> cron_jobs entries sw' = cron_jobs entries sw \<and>
      (\<forall>ts. r = Inr ts \<longrightarrow> distinct (map rtID ts))"
    using rNotLoaded_facts [OF recurring_ok_rules(2,3) [OF ok] w'(1)] recurring_ok_beside [OF ok] cron_jobs_beside [of entries w' sw]
    by (simp add: w'(2))
next
  fix sw sw' ts r
  assume ok: "recurring_ok c entries e m rest order sw"
    and call: "rsMarkLoaded (service_of (recurring_components c e n ttl order)) ts sw = (sw', r)"
  then obtain w' where w': "rMarkLoaded e ts (snd sw) = (w', r)" "sw' = (fst sw, w')"
    by (auto simp: recurring_components_def service_beside_def beside_def NewRService_def split: prod.splits)
  show "recurring_ok c entries e m rest order sw' \<and> cron_jobs entries sw' = cron_jobs entries sw \<and>
      (\<forall>res. r = Inr res \<longrightarrow> accounts_for ts res)"
    using rMarkLoaded_facts [OF recurring_ok_rules(3) [OF ok] w'(1)] recurring_ok_beside [OF ok] cron_jobs_beside [of entries w' sw]
    by (simp add: w'(2))
next
  fix sw :: "schedulerImpl \<times> 'a" and tasks :: "recurring_id \<rightharpoonup> RTask"
  assume "recurring_ok c entries e m rest order sw" and "finite (dom tasks)"
  then show "set (range_order (recurring_components c e n ttl order) sw tasks) = ran tasks"
    by (cases sw) (simp add: recurring_ok_def recurring_components_def)
qed

interpretation recurring: recurring_manager "recurring_components c e n ttl order" "cron_jobs entries"
    "recurring_ok c entries e m rest order"
  by (rule recurring_manager_holds)


section \<open>What the manager promises\<close>

lemma run_steady_from_new:
  assumes "cron_laws c entries" and "scroll_laws e m rest" and "leaves_alone e entries" and "dsl_ok m"
    and order: "\<And>sw tasks. finite (dom tasks) \<Longrightarrow> set (order sw tasks) = ran tasks"
    and empty: "entries w0 = Map.empty"
    and others: "\<And>sw sw'. others sw sw' \<Longrightarrow> fst sw' = fst sw \<and> entries (snd sw') = entries (snd sw)"
    and run: "manager_run (recurring_components c e n ttl order) others (NewManager, NewSchedulerImpl, w0) (mg, s, w)"
  shows "recurring_ok c entries e m rest order (s, w)"
    and "in_step (cron_jobs entries (s, w)) mg"
    and "leaderState mg = MGR_NOT_LEADER \<longrightarrow> cron_jobs entries (s, w) = Map.empty"
proof -
  have ok: "recurring_ok c entries e m rest order (NewSchedulerImpl, w0)"
    using assms(1-4) empty order by (auto simp: recurring_ok_def cron_ok_def NewSchedulerImpl_def)
  have js: "cron_jobs entries (NewSchedulerImpl, w0) = Map.empty"
    by (rule ext) (simp add: cron_jobs_def NewSchedulerImpl_def)
  have init: "recurring.steady entries c e m rest order NewManager (NewSchedulerImpl, w0)"
    unfolding recurring.steady_def using ok js by (simp add: in_step_def NewManager_def)
  have move: "recurring_ok c entries e m rest order sw' \<and> cron_jobs entries sw' = cron_jobs entries sw"
    if "others sw sw'" "recurring_ok c entries e m rest order sw" for sw sw'
    using others [OF that(1)] recurring_ok_beside [OF that(2), of "snd sw'"]
      cron_jobs_beside [of entries "snd sw'" sw]
    by (metis prod.collapse)
  have "recurring.steady entries c e m rest order mg (s, w)"
    using recurring.run_steady [OF run] init move by simp
  then show "recurring_ok c entries e m rest order (s, w)"
    and "in_step (cron_jobs entries (s, w)) mg"
    and "leaderState mg = MGR_NOT_LEADER \<longrightarrow> cron_jobs entries (s, w) = Map.empty"
    unfolding recurring.steady_def by simp_all
qed

lemma no_jobs_no_entries:
  assumes "cron_ok c entries (s, w)"
  shows "cron_jobs entries (s, w) = Map.empty \<longleftrightarrow> entries w = Map.empty"
proof
  assume js: "cron_jobs entries (s, w) = Map.empty"
  have zero: "entries w 0 = None" using assms cron_rules(4) by (auto simp: cron_ok_def)
  have "entries w i = None" for i
  proof (rule ccontr)
    assume i: "entries w i \<noteq> None"
    obtain k where k: "idsToEntryIds s k = Some i" using cron_ok_entry [OF assms i] by blast
    then obtain t where "entries w i = Some (entry_of t)" "rtID t = k"
      using cron_ok_id [OF assms k] i zero by auto
    then have "cron_jobs entries (s, w) k = Some t" using cron_jobs_entries [OF assms] by blast
    then show False using js by simp
  qed
  then show "entries w = Map.empty" by (rule ext)
next
  assume "entries w = Map.empty"
  then have "cron_jobs entries (s, w) k = None" for k
    using cron_jobs_entries [OF assms, of k "the (cron_jobs entries (s, w) k)"]
    by (cases "cron_jobs entries (s, w) k") simp_all
  then show "cron_jobs entries (s, w) = Map.empty" by (rule ext)
qed

text \<open>
  C9: as long as the manager's calls return no error, whatever the leader lock answers and
  in whatever order the two functions run, the entries of cron are the tasks in the manager's
  memory, each with the schedule and the job of the version in memory; and a process whose manager
  does not lead has no entry in cron.
\<close>

theorem manager_runs_memory:
  assumes cron: "cron_laws c entries" and scrolls: "scroll_laws e m rest"
    and alone: "leaves_alone e entries" and dsl: "dsl_ok m"
    and order: "\<And>sw tasks. finite (dom tasks) \<Longrightarrow> set (order sw tasks) = ran tasks"
    and empty: "entries w0 = Map.empty"
    and others: "\<And>sw sw'. others sw sw' \<Longrightarrow> fst sw' = fst sw \<and> entries (snd sw') = entries (snd sw)"
    and run: "manager_run (recurring_components c e n ttl order) others (NewManager, NewSchedulerImpl, w0) (mg, s, w)"
  shows "(\<forall>i x. entries w i = Some x \<longrightarrow>
        (\<exists>t. x = entry_of t \<and> rel_option same_job (Some t) (scheduledTasks mg (rtID t)))) \<and>
    (\<forall>k t. scheduledTasks mg k = Some t \<longrightarrow>
        (\<exists>i t'. entries w i = Some (entry_of t') \<and> rtID t' = k \<and> same_job t' t)) \<and>
    (leaderState mg = MGR_NOT_LEADER \<longrightarrow> entries w = Map.empty)"
proof -
  note st = run_steady_from_new [OF assms]
  have ok: "cron_ok c entries (s, w)" by (rule recurring_ok_rules(1) [OF st(1)])
  have zero: "entries w 0 = None" by (rule cron_rules(4) [OF cron])
  have rel: "rel_option same_job (cron_jobs entries (s, w) k) (scheduledTasks mg k)" for k
    using st(2) by (simp add: in_step_def)
  have "\<exists>t. x = entry_of t \<and> rel_option same_job (Some t) (scheduledTasks mg (rtID t))"
    if x: "entries w i = Some x" for i x
  proof -
    obtain k where k: "idsToEntryIds s k = Some i" using cron_ok_entry [OF ok, of i] x by auto
    then obtain t where t: "x = entry_of t" "rtID t = k"
      using cron_ok_id [OF ok k] x zero by auto
    then have "cron_jobs entries (s, w) (rtID t) = Some t"
      using cron_jobs_entries [OF ok, of "rtID t" t] x by blast
    then show ?thesis using rel [of "rtID t"] t by auto
  qed
  moreover have "\<exists>i t'. entries w i = Some (entry_of t') \<and> rtID t' = k \<and> same_job t' t"
    if t: "scheduledTasks mg k = Some t" for k t
  proof -
    obtain t' where t': "cron_jobs entries (s, w) k = Some t'" "same_job t' t"
      using rel [of k] t by (cases "cron_jobs entries (s, w) k") auto
    then show ?thesis using cron_jobs_entries [OF ok, of k t'] by blast
  qed
  moreover have "leaderState mg = MGR_NOT_LEADER \<longrightarrow> entries w = Map.empty"
    using st(3) no_jobs_no_entries [OF ok] by blast
  ultimately show ?thesis by blast
qed

text \<open>
  A reload at the start of a leadership that lists the tasks but cannot mark them as
  loaded leaves entries in cron that the manager's memory does not hold, and losing the lock
  afterwards does not remove them: the process goes on enqueueing tasks without being the leader.
\<close>

theorem failed_mark_leaves_entries:
  assumes cron: "cron_laws c entries" and scrolls: "scroll_laws e m rest"
    and alone: "leaves_alone e entries" and dsl: "dsl_ok m"
    and order: "\<And>sw tasks. finite (dom tasks) \<Longrightarrow> set (order sw tasks) = ran tasks"
    and empty: "entries w0 = Map.empty"
    and others: "\<And>sw sw'. others sw sw' \<Longrightarrow> fst sw' = fst sw \<and> entries (snd sw') = entries (snd sw)"
    and run: "manager_run (recurring_components c e n ttl order) others (NewManager, NewSchedulerImpl, w0) (mg, s, w)"
    and follower: "leaderState mg = MGR_NOT_LEADER"
    and gain: "RecurringSyncFunc (recurring_components c e n ttl order) True (mg, s, w) = Some ((m1, sw1), Some err)"
    and listed: "rAll e n ttl w = Some (v, Inr ts)"
    and lose: "RecurringSyncFunc (recurring_components c e n ttl order) False (m1, sw1) = Some ((m2, s2, w2), err')"
  shows "leaderState m2 = MGR_NOT_LEADER \<and> err' = None \<and> scheduledTasks m2 = Map.empty \<and>
    (\<exists>i t. t \<in> set ts \<and> entries w2 i = Some (entry_of t))"
proof -
  let ?rc = "recurring_components c e n ttl order"
  note st = run_steady_from_new [OF assms(1-8)]
  have steady: "recurring.steady entries c e m rest order mg (s, w)"
    unfolding recurring.steady_def using st by simp
  have none: "scheduledTasks mg k = None" for k
    using st(2,3) follower unfolding in_step_def by (metis option.rel_sel)
  then have "scheduledTasks mg = Map.empty" by (rule ext)
  then have "order (s, w) (scheduledTasks mg) = []" using order [of Map.empty] by simp
  then have stop: "stopAll ?rc (mg\<lparr>leaderState := MGR_LEADER\<rparr>, s, w) = (mg\<lparr>leaderState := MGR_LEADER\<rparr>, s, w)"
    by (simp add: stopAll_def recurring_components_def)
  have listed': "rsAll (service_of ?rc) (snd (stopAll ?rc (mg\<lparr>leaderState := MGR_LEADER\<rparr>, s, w))) =
      Some ((s, v), Inr ts)"
    using listed unfolding stop
    by (simp add: recurring_components_def service_beside_def beside_option_def NewRService_def)
  have r: "recurring_ok c entries e m rest order (s2, w2) \<and> leaderState m2 = MGR_NOT_LEADER \<and> err' = None \<and> scheduledTasks m2 = Map.empty \<and>
      cron_jobs entries (s2, w2) \<noteq> Map.empty \<and> (\<forall>k t. cron_jobs entries (s2, w2) k = Some t \<longrightarrow> t \<in> set ts)"
    by (rule recurring.failed_mark_leaves_jobs [OF steady follower gain listed' lose])
  from r have "recurring_ok c entries e m rest order (s2, w2)" by (elim conjE)
  then have ok: "cron_ok c entries (s2, w2)" by (rule recurring_ok_rules(1))
  obtain k t where kt: "cron_jobs entries (s2, w2) k = Some t" using r by fastforce
  then show ?thesis using r cron_jobs_entries [OF ok, of k t] by blast
qed

end
