(* ===== verification/RecurringExamples.thy ===== *)
theory RecurringExamples
  imports RecurringSystem EsInMemory "HOL-Library.Char_ord" "HOL-Library.List_Lexorder"
begin

text \<open>
  The theorems about recurring tasks and about scans applied to concrete inputs: the in-memory
  store of \<open>EsMemory\<close> holding recurring tasks, and a small server with a cron runner.
\<close>

section \<open>A recurring task\<close>

definition example_definition :: TaskDefinition where
  "example_definition = \<lparr>tdQueue = ''run-later'', tdRetryTimes = 3, tdKind = ''report'', tdPriority = 0,
     tdProcessingTimeout = 30, tdArgs = None, tdContext = None\<rparr>"

definition example_recurring :: RTask where
  "example_recurring = \<lparr>rtID = ''hourly'', rtScheduleExpression = ''0 * * * *'',
     rtTaskDefinition = example_definition, rtIsDeleted = False, rtLoadedAt = None,
     rtSkipIfOutstandingTasksExist = True,
     rtMetadata = \<lparr>CreatedAt = 5, ModifiedAt = 5, metaVersion = next_version 0\<rparr>\<rparr>"

definition example_recurring_doc :: PersistedRTask where
  "example_recurring_doc = domainToPersistable example_recurring 5"

lemmas example_recurring_defs = example_recurring_doc_def example_recurring_def example_definition_def

theorem recurring_queries_select_witness:
  "dsl_instance (query_of (buildUndeletedListSearchBody 10)) (recurring_json example_recurring_doc) \<and>
   dsl_instance (query_of (buildNotLoadedSinceSearchBody 10)) (recurring_json example_recurring_doc)"
  using recurring_queries_select [OF dsl_instance_ok, of 10 example_recurring_doc]
  by (simp add: example_recurring_defs domainToPersistable_def)

section \<open>The in-memory store of recurring tasks\<close>

definition anywhere :: "doc_key \<Rightarrow> PersistedRTask \<Rightarrow> bool" where
  "anywhere k d = True"

definition recurring_key0 :: doc_key where
  "recurring_key0 = (TasquesRecurringTasksIndex, ''hourly'')"

definition recurring_memory :: "PersistedRTask mem_world recurring_env" where
  "recurring_memory = mem_client anywhere [recurring_key0]"

definition recurring_world :: "PersistedRTask mem_world" where
  "recurring_world = (1000, (\<lambda>_. [])(recurring_key0 := [(Some example_recurring_doc, next_version 0)]))"

lemma recurring_memory_store: "recurring_store recurring_memory (mem_hist anywhere)"
  by (simp add: recurring_store_def recurring_memory_def mem_client_grows mem_client_locks)

lemma recurring_memory_ids: "gets_by_id recurring_memory"
  by (auto simp: gets_by_id_def recurring_memory_def mem_client_def mem_hit_def split: option.splits)

lemma recurring_memory_delete:
  "\<exists>w' t'. rDelete recurring_memory ''hourly'' recurring_world = (w', Inr t')"
  by (simp add: rDelete_def rGet_def rUpdate_def recurring_memory_def mem_client_def recurring_world_def
      recurring_key0_def mem_read_def mem_hist_def key_ok_def anywhere_def hit_toDomainTask_def mem_hit_def
      persistedToDomain_def example_recurring_defs domainToPersistable_def mem_locked_write_def mem_write_def
      rt_version_def IntoDeleted_def hit_version_def next_version_def status_2xx_def Let_def)

theorem recurring_changes_pending_witness:
  "\<exists>w' t' p v doc. rDelete recurring_memory ''hourly'' recurring_world = (w', Inr t') \<and>
     written_over (mem_hist anywhere) w' (recurring_key ''hourly'') (Some p, v) (Some doc, rt_version t') \<and>
     dsl_instance (query_of (buildNotLoadedSinceSearchBody 10)) (recurring_json doc)"
proof -
  obtain w' t' where d: "rDelete recurring_memory ''hourly'' recurring_world = (w', Inr t')"
    using recurring_memory_delete by blast
  from recurring_changes_pending [OF recurring_memory_store recurring_memory_ids dsl_instance_ok,
      THEN conjunct2, rule_format, OF d]
  show ?thesis using d by blast
qed

lemma recurring_memory_mark:
  "\<exists>w' t. rMarkLoaded recurring_memory [example_recurring] recurring_world =
     (w', Inr (no_updates\<lparr>Successes := [t]\<rparr>))"
  by (simp add: rMarkLoaded_def recurring_bulk_op_def recurring_memory_def mem_client_def recurring_world_def
      recurring_key0_def mem_hist_def key_ok_def anywhere_def example_recurring_defs mem_locked_write_def
      mem_write_def mem_bulk_reply_def mem_item_def item_info_def Info_def IsOk_def add_update_def
      no_updates_def rt_version_def next_version_def Let_def)

theorem mark_loaded_hides_nothing_witness:
  "\<exists>w' t now x. rMarkLoaded recurring_memory [example_recurring] recurring_world =
       (w', Inr (no_updates\<lparr>Successes := [t]\<rparr>)) \<and>
     written_over (mem_hist anywhere) w' (recurring_key ''hourly'') (x, next_version 0)
       (Some (domainToPersistable (mark_at now example_recurring) now), rt_version t)"
proof -
  obtain w' t where m: "rMarkLoaded recurring_memory [example_recurring] recurring_world =
      (w', Inr (no_updates\<lparr>Successes := [t]\<rparr>))"
    using recurring_memory_mark by blast
  have "rtID example_recurring = ''hourly''" "rt_version example_recurring = next_version 0"
    by (simp_all add: example_recurring_def rt_version_def)
  then show ?thesis
    using mark_loaded_hides_nothing [OF recurring_memory_store m] m by auto
qed

section \<open>The reaper on the store of tasks\<close>

lemma example_reap_batch:
  assumes t: "tState t = CLAIMED" "tLastClaimed t \<noteq> None"
  shows "\<exists>w'. reap_batch example_env now [t] w = (w', Inr ())"
proof -
  obtain v us where each: "time_out_each example_env now [t] w = (v, us)" by fastforce
  have "list_all2 (timed_out now) [t] us"
    by (rule time_out_each_all [OF _ each]) (use t in simp)
  then obtain u where "us = [u]" by (auto simp: list_all2_Cons1)
  moreover have "\<exists>v' r. bulkUpdateTasks example_env [u] v = (v', Inr r)"
    by (simp add: bulkUpdateTasks_def sendBulk_def buildTasksBulkUpdateNdJson_def buildUpdateBulkOp_def
        example_env_def mem_bulk_reply_def Let_def split: option.split)
  ultimately show ?thesis using each by (auto simp: reap_batch_def)
qed

lemma example_reaped:
  "\<exists>w'. EsReapTimedOutTasks example_env 10 5 (example_world example_claimed) = Some (w', Inr ())"
proof -
  let ?t = "ToDomainTask (mem_hit example_key (ToPersistedTask example_claimed, next_version 0))"
  let ?w = "(1001, snd (example_world example_claimed))"
  have "mem_read task_at example_key ?w = Some (ToPersistedTask example_claimed, next_version 0)"
    by (simp add: mem_read_example) (simp add: example_key_def example_claimed_def example_task_def task_key_def)
  then have init: "initSearch example_env body 5 ?w = (?w, Inr (''s'', [?t]))" for body
    by (simp add: initSearch_def processScrollResp_def example_env_def mem_env_defs mem_client_def
        List.map_filter_def)
  have "?t = set_version (next_version 0) example_claimed"
    by (simp add: ToDomainTask_def set_version_def)
  then have "tState ?t = CLAIMED \<and> tLastClaimed ?t \<noteq> None"
    by (simp add: set_version_def example_claimed_def)
  then obtain w' where batch: "reap_batch example_env 1000 [?t] ?w = (w', Inr ())"
    using example_reap_batch by blast
  have next_page: "scroll example_env 5 ''s'' w' = (w', Inr (''s'', []))"
    by (simp add: scroll_def processScrollResp_def example_env_def mem_env_defs mem_client_def)
  have "scan_loop (scroll example_env 5) (\<lambda>ts _. reap_batch example_env 1000 ts) ''s'' [?t] [''s''] () ?w
      = Some (w', [''s'', ''s''], Inr ())"
    by (subst scan_loop.simps, subst scan_loop.simps) (simp add: batch next_page)
  then show ?thesis
    by (simp add: EsReapTimedOutTasks_def scanTasks_def utc init example_time)
qed

theorem reaper_fails_timed_out_witness:
  "\<exists>w' w1 w2 w3 sid sids ts pages. EsReapTimedOutTasks example_env 10 5 (example_world example_claimed) = Some (w', Inr ()) \<and>
     initSearch example_env (buildTimedOutSearchBody 1000 10) 5 w1 = (w2, Inr (sid, ts)) \<and>
     scan_session (scroll example_env 5) (\<lambda>ts _. reap_batch example_env 1000 ts) sid ts () w2 pages sids () w3"
proof -
  obtain w' where r: "EsReapTimedOutTasks example_env 10 5 (example_world example_claimed) = Some (w', Inr ())"
    using example_reaped by blast
  have now: "getUTC example_env (example_world example_claimed) = (w, at) \<Longrightarrow> at = 1000" for w at
    by (simp add: utc example_world_def)
  from reaper_fails_timed_out [OF example_store r] show ?thesis using r now by blast
qed


section \<open>A cron runner\<close>

text \<open>
  The world is the number of entries ever added and the entries: the ids are counted up from 1.
\<close>

type_synonym cron_world = "nat \<times> (int \<rightharpoonup> string \<times> cron_job)"

definition live_entries :: "cron_world \<Rightarrow> int \<rightharpoonup> string \<times> cron_job" where
  "live_entries w i = (if 0 < i \<and> i \<le> int (fst w) then snd w i else None)"

definition example_cron :: "cron_world cron" where
  "example_cron = \<lparr>ParseStandard = (\<lambda>spec. spec \<noteq> ''''),
     AddJob = (\<lambda>spec j w. if spec = '''' then (w, 0, Some ''empty spec string'')
       else ((Suc (fst w), (snd w)(int (Suc (fst w)) \<mapsto> (spec, j))), int (Suc (fst w)), None)),
     RemoveEntry = (\<lambda>i w. (fst w, (snd w)(i := None))),
     StartCron = (\<lambda>w. w), StopCron = (\<lambda>w. w)\<rparr>"

definition cron_world0 :: cron_world where
  "cron_world0 = (0, Map.empty)"

lemma example_cron_laws: "cron_laws example_cron live_entries"
  by (auto simp: cron_laws_def example_cron_def live_entries_def fun_eq_iff split: if_splits)

lemma cron_world0_empty: "live_entries cron_world0 = Map.empty"
  by (rule ext) (simp add: live_entries_def cron_world0_def)

theorem scheduler_runs_latest_witness:
  "\<exists>s w. exec_ops (NewScheduler example_cron)
       [SchedOp example_recurring, SchedOp (UpdateSchedule '''' example_recurring), SchedOp example_recurring]
       (NewSchedulerImpl, cron_world0) = ((s, w), [True, False, True]) \<and>
     (\<exists>i. live_entries w i = Some (entry_of example_recurring)) \<and>
     \<not> (\<exists>i. live_entries w i = Some (entry_of (UpdateSchedule '''' example_recurring)))"
proof -
  let ?ops = "[SchedOp example_recurring, SchedOp (UpdateSchedule '''' example_recurring), SchedOp example_recurring]"
  have "\<exists>s w. exec_ops (NewScheduler example_cron) ?ops (NewSchedulerImpl, cron_world0) = ((s, w), [True, False, True])"
    by (simp add: NewScheduler_def cronSchedule_def example_cron_def NewSchedulerImpl_def cron_world0_def
        example_recurring_def UpdateSchedule_def Let_def)
  then obtain s w where run: "exec_ops (NewScheduler example_cron) ?ops (NewSchedulerImpl, cron_world0)
      = ((s, w), [True, False, True])" by blast
  note latest = scheduler_runs_latest [OF example_cron_laws cron_world0_empty run, THEN conjunct1, THEN spec]
  have "example_recurring \<noteq> UpdateSchedule '''' example_recurring"
    by (simp add: UpdateSchedule_def example_recurring_def)
  then show ?thesis
    using run latest [of example_recurring] latest [of "UpdateSchedule '''' example_recurring"]
    by simp
qed

text \<open>
  The job of the example, in a small Elasticsearch: what is searchable in the index of the queue, which is one document at
  most, and how many tasks have been created since; these are not searchable yet.
\<close>

definition searching_env :: "(PersistedTaskData option \<times> nat) task_env" where
  "searching_env = es_client.extend (sys.extend
     (sys.fields (\<lambda>w. (w, 0)) (\<lambda>d w. w) (\<lambda>w. (w, ''0-1'')))
     (es_client.fields (\<lambda>ix i d w. ((fst w, Suc (snd w)), NoResponse)) (\<lambda>ix i w. (w, NoResponse))
       (\<lambda>ix i d l w. (w, NoResponse)) (\<lambda>ixs q w. (w, NoResponse)) (\<lambda>ttl ixs q w. (w, NoResponse))
       (\<lambda>ttl i w. (w, NoResponse)) (\<lambda>is w. (w, NoResponse)) (\<lambda>ops w. (w, NoResponse))
       (\<lambda>ixs q w. (w, Response 200 (Some (case fst w of
          Some p \<Rightarrow> if dsl_instance (query_of q) (persisted_json p) then 1 else 0 | None \<Rightarrow> 0))))
       (\<lambda>ixs w. (w, Response 200 (Some ())))))
     (task_env.fields (\<lambda>w. (w, 7)) (\<lambda>q w. (w, None)) (\<lambda>q at w. w))"

lemma searching_simps [simp]:
  "getUTC searching_env w = (w, 0)" "new_uuid searching_env w = (w, ''0-1'')"
  "CreateRequest searching_env ix i d w = ((fst w, Suc (snd w)), NoResponse)"
  "IndicesRefreshRequest searching_env ixs w = (w, Response 200 (Some ()))"
  "CountRequest searching_env ixs q w = (w, Response 200 (Some (case fst w of
      Some p \<Rightarrow> if dsl_instance (query_of q) (persisted_json p) then 1 else 0 | None \<Rightarrow> 0)))"
  "lru_Get searching_env name w = (w, None)" "lru_Add searching_env name at w = w"
  by (simp_all add: searching_env_def es_client.defs sys.defs task_env.defs)

lemma searching_laws: "search_laws searching_env (\<lambda>w ix. case fst w of Some p \<Rightarrow> [p] | None \<Rightarrow> []) dsl_instance"
  by (auto simp: search_laws_def split: option.splits)

definition outstanding_doc :: PersistedTaskData where
  "outstanding_doc = newTask_toPersisted ''t1'' 5 (taskDefToNewTask 5 ''hourly'' example_definition)"

lemma searching_counts:
  "EsRefreshAsNeeded searching_env example_conf ''run-later'' w = (w, Inr ())"
  "EsOutstandingTasksCount searching_env ''run-later'' i (None, n) = ((None, n), Inr 0)"
  "EsOutstandingTasksCount searching_env ''run-later'' ''hourly'' (Some outstanding_doc, n) = ((Some outstanding_doc, n), Inr 1)"
  using outstanding_selects [OF dsl_instance_ok, of "''hourly''" outstanding_doc]
  by (simp_all add: EsRefreshAsNeeded_def needsRefreshing_def markTouched_def status_2xx_def EsOutstandingTasksCount_def
      outstanding_doc_def newTask_toPersisted_def taskDefToNewTask_def)

text \<open>With an outstanding task in sight the job creates none; with one that is not searchable yet it creates a second one.\<close>

theorem recurring_job_skips_witness:
  "run_job (NewService searching_env example_conf) (\<lambda>w. (w, 5)) (cron_job_of example_recurring) (Some outstanding_doc, 0)
     = (Some outstanding_doc, 0) \<and>
   run_job (NewService searching_env example_conf) (\<lambda>w. (w, 5)) (cron_job_of example_recurring) (None, 1) = (None, 2)"
proof -
  have r: "rtID example_recurring = ''hourly''" "tdQueue (rtTaskDefinition example_recurring) = ''run-later''"
    "rtSkipIfOutstandingTasksExist example_recurring" "length (rtID example_recurring) \<le> 512"
    by (simp_all add: example_recurring_def example_definition_def)
  have name: "NameFromString (map ascii_lower) ''run-later'' = Inr (tdQueue (rtTaskDefinition example_recurring))"
    unfolding r by code_simp
  note runs = recurring_job_skips [OF searching_laws dsl_instance_ok r(4) name, where conf = example_conf
      and getNow = "\<lambda>w. (w, 5)", unfolded r(1,2), THEN conjunct1]
  have out: "outstanding_of example_recurring outstanding_doc"
    by (simp add: outstanding_of_def r(1) outstanding_doc_def newTask_toPersisted_def taskDefToNewTask_def)
  have create: "enqueue (NewService searching_env example_conf) (\<lambda>w. (w, 5)) example_recurring (None, 1) = (None, 2)"
    by (simp add: enqueue_def NewService_def EsCreate_def GenerateId_def taskDefToNewTask_def Let_def)
  show ?thesis
    using runs [OF searching_counts(1) searching_counts(3)] runs [OF searching_counts(1) searching_counts(2)] out create r(3)
    by simp
qed

section \<open>A server\<close>

text \<open>
  Elasticsearch holds the one recurring task; \<open>reply\<close> answers the request that marks it as loaded.
  Iterations over a map go by id.
\<close>

definition example_hit :: recurring_hit where
  "example_hit = \<lparr>hID = ''hourly'', hIndex = TasquesRecurringTasksIndex, hSeqNum = 0, hPrimaryTerm = 1,
     hSource = example_recurring_doc\<rparr>"

definition example_elastic :: "EsBulkResponse es_reply \<Rightarrow> cron_world recurring_env" where
  "example_elastic reply = \<lparr>
     getUTC = (\<lambda>w. (w, 0)), Sleep = (\<lambda>d w. w), new_uuid = (\<lambda>w. (w, ''0-1'')),
     CreateRequest = (\<lambda>ix i d w. (w, NoResponse)), GetRequest = (\<lambda>ix i w. (w, NoResponse)),
     IndexRequest = (\<lambda>ix i d l w. (w, NoResponse)), SearchRequest = (\<lambda>ixs q w. (w, NoResponse)),
     ScrollSearchRequest = (\<lambda>ttl ixs q w. (w, Response 200 (Some (''s'',
       filter (\<lambda>h. dsl_instance (query_of q) (recurring_json (hSource h))) [example_hit])))),
     ScrollRequest = (\<lambda>ttl i w. (w, Response 200 (Some (''s'', [])))),
     ClearScrollRequest = (\<lambda>is w. (w, Response 200 None)),
     BulkRequest = (\<lambda>ops w. (w, reply)), CountRequest = (\<lambda>ixs q w. (w, NoResponse)),
     IndicesRefreshRequest = (\<lambda>ixs w. (w, Response 200 (Some ())))\<rparr>"

definition by_id :: "'w \<Rightarrow> (recurring_id \<rightharpoonup> RTask) \<Rightarrow> RTask list" where
  "by_id w tasks = map (\<lambda>k. the (tasks k)) (sorted_list_of_set (dom tasks))"

definition example_server :: "EsBulkResponse es_reply \<Rightarrow> (schedulerImpl \<times> cron_world) manager_env" where
  "example_server reply = recurring_components example_cron (example_elastic reply) 10 60 by_id"

definition marked_ok :: "EsBulkResponse es_reply" where
  "marked_ok = mem_bulk_reply (mem_item TasquesRecurringTasksIndex ''hourly'' (next_version 1) 200)"

lemma by_id_ranges: "finite (dom tasks) \<Longrightarrow> set (by_id sw tasks) = ran tasks"
  by (force simp: by_id_def ran_def dom_def image_iff)

lemma by_id_empty [simp]: "by_id sw Map.empty = []" "by_id sw (\<lambda>k. None) = []"
  by (simp_all add: by_id_def)

lemma example_elastic_simps [simp]:
  "getUTC (example_elastic reply) w = (w, 0)"
  "ScrollSearchRequest (example_elastic reply) ttl ixs q w = (w, Response 200 (Some (''s'',
          filter (\<lambda>h. dsl_instance (query_of q) (recurring_json (hSource h))) [example_hit])))"
  "ScrollRequest (example_elastic reply) ttl i w = (w, Response 200 (Some (''s'', [])))"
  "ClearScrollRequest (example_elastic reply) is w = (w, Response 200 None)"
  "BulkRequest (example_elastic reply) ops w = (w, reply)"
  "IndicesRefreshRequest (example_elastic reply) ixs w = (w, Response 200 (Some ()))"
  by (simp_all add: example_elastic_def)

lemma example_elastic_scrolls: "scroll_laws (example_elastic reply) dsl_instance (\<lambda>w sid. [])"
  by (auto simp: scroll_laws_def)

lemma example_elastic_alone: "leaves_alone (example_elastic reply) live_entries"
  by (simp add: leaves_alone_def)

text \<open>The task as \<open>All\<close> lists it, and what a reload after gaining the lock makes of it.\<close>

definition example_listed :: RTask where
  "example_listed = hit_toDomainTask example_hit"

lemma example_all: "rAll (example_elastic reply) 10 60 w = Some (w, Inr [example_listed])"
proof -
  have "dsl_instance (query_of (buildUndeletedListSearchBody 10)) (recurring_json example_recurring_doc)"
    using undeleted_selects [OF dsl_instance_ok]
    by (simp add: example_recurring_defs domainToPersistable_def)
  then have "rInitSearch (example_elastic reply) (buildUndeletedListSearchBody 10) 60 w =
      (w, Inr (''s'', [example_listed]))"
    by (simp add: rInitSearch_def rProcessScrollResp_def example_listed_def)
      (simp add: example_hit_def)
  moreover have "scan_loop (rScroll (example_elastic reply) 60) append_found ''s'' [example_listed] [''s''] [] w
      = Some (w, [''s'', ''s''], Inr [example_listed])"
    by (subst scan_loop.simps, subst scan_loop.simps)
      (simp add: append_found_def rScroll_def rProcessScrollResp_def)
  ultimately show ?thesis
    by (simp add: rAll_def refreshIndex_def status_2xx_def scanRecurringTasks_def rClearScroll_def)
qed

lemma example_listed_fields:
  "rtID example_listed = ''hourly''" "rtScheduleExpression example_listed = ''0 * * * *''"
  "rtIsDeleted example_listed = False"
  by (simp_all add: example_listed_def hit_toDomainTask_def persistedToDomain_def example_hit_def
      example_recurring_defs domainToPersistable_def)

definition example_scheduled :: "schedulerImpl \<times> cron_world" where
  "example_scheduled = (\<lparr>idsToEntryIds = [''hourly'' \<mapsto> 1]\<rparr>, 1, [1 \<mapsto> entry_of example_listed])"

lemma example_gain:
  "RecurringSyncFunc (example_server reply) True (NewManager, NewSchedulerImpl, cron_world0) =
     Some (markAsLoaded (example_server reply) [example_listed]
       (NewManager\<lparr>leaderState := MGR_LEADER\<rparr>, example_scheduled))"
  by (simp add: RecurringSyncFunc_def recurringFunc_def NewManager_def completeReload_def stopAll_def
      example_server_def recurring_components_def service_beside_def beside_option_def NewRService_def
      example_all scheduleAndAddToList_def NewScheduler_def cronSchedule_def NewSchedulerImpl_def
      example_cron_def example_listed_fields cron_world0_def example_scheduled_def entry_of_def Let_def)

lemma example_marked:
  "\<exists>mg. RecurringSyncFunc (example_server marked_ok) True (NewManager, NewSchedulerImpl, cron_world0) =
     Some ((mg, example_scheduled), None)"
  unfolding example_gain
  by (simp add: markAsLoaded_def example_server_def recurring_components_def service_beside_def beside_def
      NewRService_def rMarkLoaded_def marked_ok_def mem_bulk_reply_def mem_item_def item_info_def Info_def
      add_update_def IsOk_def no_updates_def Let_def)

lemma example_unmarked:
  "RecurringSyncFunc (example_server NoResponse) True (NewManager, NewSchedulerImpl, cron_world0) =
     Some ((NewManager\<lparr>leaderState := MGR_LEADER\<rparr>, example_scheduled), Some RElasticsearchErr)"
  unfolding example_gain
  by (simp add: markAsLoaded_def example_server_def recurring_components_def service_beside_def beside_def
      NewRService_def rMarkLoaded_def Let_def)

theorem manager_runs_memory_witness:
  "\<exists>mg. RecurringSyncFunc (example_server marked_ok) True (NewManager, NewSchedulerImpl, cron_world0) =
       Some ((mg, example_scheduled), None) \<and>
     (\<exists>t. scheduledTasks mg ''hourly'' = Some t \<and> same_job example_listed t)"
proof -
  obtain mg where mg: "RecurringSyncFunc (example_server marked_ok) True (NewManager, NewSchedulerImpl, cron_world0) =
      Some ((mg, example_scheduled), None)"
    using example_marked by blast
  obtain s w where sw: "example_scheduled = (s, w)" by (rule prod.exhaust)
  have run: "manager_run (recurring_components example_cron (example_elastic marked_ok) 10 60 by_id) (=)
      (NewManager, NewSchedulerImpl, cron_world0) (mg, s, w)"
    by (rule run_sync [OF run_start mg [unfolded sw example_server_def]])
  have "live_entries w 1 = Some (entry_of example_listed)"
    using sw by (auto simp: live_entries_def example_scheduled_def)
  moreover have "\<forall>i x. live_entries w i = Some x \<longrightarrow>
      (\<exists>t. x = entry_of t \<and> rel_option same_job (Some t) (scheduledTasks mg (rtID t)))"
    by (rule manager_runs_memory [OF example_cron_laws example_elastic_scrolls example_elastic_alone
        dsl_instance_ok by_id_ranges cron_world0_empty _ run, THEN conjunct1]) auto
  ultimately obtain t where t: "entry_of example_listed = entry_of t"
    "rel_option same_job (Some t) (scheduledTasks mg (rtID t))" by blast
  have "t = example_listed" using t(1) by (metis entry_of_def job_task_cron_job_of prod.inject)
  then show ?thesis using mg t(2) by (cases "scheduledTasks mg ''hourly''") (auto simp: example_listed_fields)
qed

theorem failed_mark_leaves_entries_witness:
  "\<exists>m2 s2 w2 i. RecurringSyncFunc (example_server NoResponse) True (NewManager, NewSchedulerImpl, cron_world0) =
       Some ((NewManager\<lparr>leaderState := MGR_LEADER\<rparr>, example_scheduled), Some RElasticsearchErr) \<and>
     RecurringSyncFunc (example_server NoResponse) False (NewManager\<lparr>leaderState := MGR_LEADER\<rparr>, example_scheduled) =
       Some ((m2, s2, w2), None) \<and>
     leaderState m2 = MGR_NOT_LEADER \<and> live_entries w2 i = Some (entry_of example_listed)"
proof -
  obtain m2 s2 w2 where lose: "RecurringSyncFunc (example_server NoResponse) False
      (NewManager\<lparr>leaderState := MGR_LEADER\<rparr>, example_scheduled) = Some ((m2, s2, w2), None)"
    by (simp add: RecurringSyncFunc_def recurringFunc_def NewManager_def stopAll_def example_server_def
        recurring_components_def example_scheduled_def)
  have "leaderState NewManager = MGR_NOT_LEADER" by (simp add: NewManager_def)
  from failed_mark_leaves_entries [OF example_cron_laws example_elastic_scrolls example_elastic_alone
      dsl_instance_ok by_id_ranges cron_world0_empty _ run_start this
      example_unmarked [unfolded example_server_def] example_all lose [unfolded example_server_def],
      where others = "(=)"]
  show ?thesis using example_unmarked lose by auto
qed

end
