(* ===== verification/RecurringApi.thy ===== *)
theory RecurringApi
  imports TasksApi RecurringStore
begin

text \<open>
  The HTTP API for recurring tasks: the models of \<open>internal/api/models/task/recurring\<close>, the
  controller of \<open>internal/api/controllers/task/recurring\<close>, the schedule expression validator of
  \<open>internal/infra/server/binding/validation/fields.go\<close> and the handlers of
  \<open>internal/infra/server/routing/tasks/recurring\<close>. Requests, binding and responses are as in
  \<open>TasksApi\<close>.
\<close>

section \<open>Models\<close>

record ApiTaskDefinition =
  adQueue :: qname
  adRetryTimes :: "u64 option"
  adKind :: string
  adPriority :: "int option"
  adProcessingTimeout :: "duration option"
  adArgs :: "json_obj option"
  adContext :: "json_obj option"

record ApiNewRTask =
  anrID :: recurring_id
  anrScheduleExpression :: string
  anrSkipIfOutstandingTasksExist :: "bool option"
  anrTaskDefinition :: ApiTaskDefinition

record ApiRTaskUpdate =
  auScheduleExpression :: "string option"
  auSkipIfOutstandingTasksExist :: "bool option"
  auTaskDefinition :: "ApiTaskDefinition option"

text \<open>
  \<open>FromDomainTask\<close> stores a pointer into the domain task it is given, to its field
  \<open>SkipIfOutstandingTasksExist\<close>. The response is marshalled after the controller has returned, so
  the model keeps the pointer: a domain task lives at an address of a store.
\<close>

type_synonym address = nat
type_synonym store = "address \<Rightarrow> RTask"

record ApiRTask =
  artID :: recurring_id
  artScheduleExpression :: string
  artSkipIfOutstandingTasksExist :: address
  artTaskDefinition :: ApiTaskDefinition
  artLoadedAt :: "time option"
  artMetadata :: ApiMetadata

definition ToDomainTaskDefinition :: "u64 \<Rightarrow> duration \<Rightarrow> ApiTaskDefinition \<Rightarrow> TaskDefinition" where
  "ToDomainTaskDefinition defaultRetryTimes defaultProcessingTimeout t = \<lparr>tdQueue = adQueue t,
     tdRetryTimes = (case adRetryTimes t of Some r \<Rightarrow> r | None \<Rightarrow> defaultRetryTimes),
     tdKind = adKind t,
     tdPriority = (case adPriority t of Some p \<Rightarrow> p | None \<Rightarrow> 0),
     tdProcessingTimeout = (case adProcessingTimeout t of Some p \<Rightarrow> p | None \<Rightarrow> defaultProcessingTimeout),
     tdArgs = adArgs t, tdContext = adContext t\<rparr>"

definition ToDomainNewRTask :: "u64 \<Rightarrow> duration \<Rightarrow> ApiNewRTask \<Rightarrow> NewRTask" where
  "ToDomainNewRTask defaultRetryTimes defaultProcessingTimeout t = \<lparr>nrID = anrID t,
     nrScheduleExpression = anrScheduleExpression t,
     nrTaskDefinition = ToDomainTaskDefinition defaultRetryTimes defaultProcessingTimeout (anrTaskDefinition t),
     nrSkipIfOutstandingTasksExist =
       (case anrSkipIfOutstandingTasksExist t of Some b \<Rightarrow> b | None \<Rightarrow> False)\<rparr>"

definition fromDomainTaskDefinition :: "TaskDefinition \<Rightarrow> ApiTaskDefinition" where
  "fromDomainTaskDefinition def = \<lparr>adQueue = tdQueue def, adRetryTimes = Some (tdRetryTimes def),
     adKind = tdKind def, adPriority = Some (tdPriority def),
     adProcessingTimeout = Some (tdProcessingTimeout def), adArgs = tdArgs def, adContext = tdContext def\<rparr>"

definition FromDomainRTask :: "store \<Rightarrow> address \<Rightarrow> ApiRTask" where
  "FromDomainRTask h a =
     (let t = h a in \<lparr>artID = rtID t, artScheduleExpression = rtScheduleExpression t,
        artSkipIfOutstandingTasksExist = a,
        artTaskDefinition = fromDomainTaskDefinition (rtTaskDefinition t),
        artLoadedAt = rtLoadedAt t, artMetadata = FromDomainMetadata (rtMetadata t)\<rparr>)"

text \<open>The API task as it is marshalled: the pointer is followed then.\<close>

record RTaskJson =
  rjID :: recurring_id
  rjScheduleExpression :: string
  rjSkipIfOutstandingTasksExist :: bool
  rjTaskDefinition :: ApiTaskDefinition
  rjLoadedAt :: "time option"
  rjMetadata :: ApiMetadata

definition marshal_rtask :: "store \<Rightarrow> ApiRTask \<Rightarrow> RTaskJson" where
  "marshal_rtask h t = \<lparr>rjID = artID t, rjScheduleExpression = artScheduleExpression t,
     rjSkipIfOutstandingTasksExist = rtSkipIfOutstandingTasksExist (h (artSkipIfOutstandingTasksExist t)),
     rjTaskDefinition = artTaskDefinition t, rjLoadedAt = artLoadedAt t, rjMetadata = artMetadata t\<rparr>"

section \<open>The controller\<close>

datatype rmessage = OfRecurringError recurring_error | OfBinding string

record RApiError =
  reStatusCode :: nat
  reBody :: rmessage

fun handleRErr :: "recurring_error \<Rightarrow> RApiError" where
  "handleRErr (RAlreadyExists i) = \<lparr>reStatusCode = 409, reBody = OfRecurringError (RAlreadyExists i)\<rparr>"
| "handleRErr (RNotFound i) = \<lparr>reStatusCode = 404, reBody = OfRecurringError (RNotFound i)\<rparr>"
| "handleRErr RInvalidPersistedData = \<lparr>reStatusCode = 500, reBody = OfRecurringError RInvalidPersistedData\<rparr>"
| "handleRErr (RInvalidVersion i) = \<lparr>reStatusCode = 409, reBody = OfRecurringError (RInvalidVersion i)\<rparr>"
| "handleRErr e = \<lparr>reStatusCode = 500, reBody = OfRecurringError e\<rparr>"

text \<open>A task of its own, returned by the service, is at an address of its own.\<close>

definition to_rapi :: "'w \<times> (recurring_error + RTask) \<Rightarrow> 'w \<times> (RApiError + store \<times> ApiRTask)" where
  "to_rapi res =
     (case res of
        (w, Inl err) \<Rightarrow> (w, Inl (handleRErr err))
      | (w, Inr t) \<Rightarrow> (let h = (\<lambda>_. t) in (w, Inr (h, FromDomainRTask h 0))))"

definition ctlRCreate ::
  "'w RService \<Rightarrow> TasksDefaults \<Rightarrow> ApiNewRTask \<Rightarrow> 'w \<Rightarrow> 'w \<times> (RApiError + store \<times> ApiRTask)" where
  "ctlRCreate svc conf newTask w =
     to_rapi (rsCreate svc (ToDomainNewRTask (RetryTimes conf) (WorkerProcessingTimeout conf) newTask) w)"

definition apply_update :: "TasksDefaults \<Rightarrow> ApiRTaskUpdate \<Rightarrow> RTask \<Rightarrow> RTask" where
  "apply_update conf u t =
     (let t1 = (case auScheduleExpression u of None \<Rightarrow> t | Some x \<Rightarrow> t\<lparr>rtScheduleExpression := x\<rparr>);
          t2 = (case auTaskDefinition u of None \<Rightarrow> t1
                | Some d \<Rightarrow> t1\<lparr>rtTaskDefinition :=
                    ToDomainTaskDefinition (RetryTimes conf) (WorkerProcessingTimeout conf) d\<rparr>)
      in case auSkipIfOutstandingTasksExist u of None \<Rightarrow> t2
         | Some b \<Rightarrow> t2\<lparr>rtSkipIfOutstandingTasksExist := b\<rparr>)"

definition ctlRUpdate ::
  "'w RService \<Rightarrow> TasksDefaults \<Rightarrow> recurring_id \<Rightarrow> ApiRTaskUpdate \<Rightarrow> 'w \<Rightarrow>
     'w \<times> (RApiError + store \<times> ApiRTask)" where
  "ctlRUpdate svc conf i u w =
     (case rsGet svc i False w of
        (w1, Inl err) \<Rightarrow> (w1, Inl (handleRErr err))
      | (w1, Inr toUpdate) \<Rightarrow> to_rapi (rsUpdate svc (apply_update conf u toUpdate) w1))"

definition ctlRGet :: "'w RService \<Rightarrow> recurring_id \<Rightarrow> 'w \<Rightarrow> 'w \<times> (RApiError + store \<times> ApiRTask)" where
  "ctlRGet svc i w = to_rapi (rsGet svc i False w)"

definition ctlRDelete :: "'w RService \<Rightarrow> recurring_id \<Rightarrow> 'w \<Rightarrow> 'w \<times> (RApiError + store \<times> ApiRTask)" where
  "ctlRDelete svc i w = to_rapi (rsDelete svc i w)"

text \<open>
  The loop of \<open>List\<close>: before Go 1.22 (the module asks for 1.13) a loop has one variable for all its
  rounds, at one address. It starts zeroed.
\<close>

definition loop_variable :: address where
  "loop_variable = 0"

definition zero_rtask :: RTask where
  "zero_rtask = \<lparr>rtID = [], rtScheduleExpression = [],
     rtTaskDefinition = \<lparr>tdQueue = [], tdRetryTimes = 0, tdKind = [], tdPriority = 0,
       tdProcessingTimeout = 0, tdArgs = None, tdContext = None\<rparr>,
     rtIsDeleted = False, rtLoadedAt = None, rtSkipIfOutstandingTasksExist = False,
     rtMetadata = \<lparr>CreatedAt = TimeZero, ModifiedAt = TimeZero,
       metaVersion = \<lparr>SeqNum = 0, PrimaryTerm = 0\<rparr>\<rparr>\<rparr>"

fun list_loop :: "RTask list \<Rightarrow> store \<Rightarrow> ApiRTask list \<Rightarrow> store \<times> ApiRTask list" where
  "list_loop [] h apiTasks = (h, apiTasks)"
| "list_loop (t # ts) h apiTasks =
     (let h1 = h(loop_variable := t)
      in list_loop ts h1 (apiTasks @ [FromDomainRTask h1 loop_variable]))"

definition ctlRList :: "'w RService \<Rightarrow> 'w \<Rightarrow> ('w \<times> (RApiError + store \<times> ApiRTask list)) option" where
  "ctlRList svc w =
     (case rsAll svc w of
        None \<Rightarrow> None
      | Some (w1, Inl err) \<Rightarrow> Some (w1, Inl (handleRErr err))
      | Some (w1, Inr result) \<Rightarrow> Some (w1, Inr (list_loop result (\<lambda>_. zero_rtask) [])))"

section \<open>Validation\<close>

text \<open>\<open>parse\<close> is the \<open>Parse\<close> of the scheduler the server was started with.\<close>

definition ScheduleExpressionValidator :: "(string \<Rightarrow> bool) \<Rightarrow> string \<Rightarrow> bool" where
  "ScheduleExpressionValidator parse x = parse x"

definition valid_definition :: "(string \<Rightarrow> string) \<Rightarrow> ApiTaskDefinition \<Rightarrow> bool" where
  "valid_definition L d \<longleftrightarrow> adQueue d \<noteq> [] \<and> QueueNameValidator L (adQueue d) \<and> adKind d \<noteq> []"

definition valid_new_rtask :: "(string \<Rightarrow> string) \<Rightarrow> (string \<Rightarrow> bool) \<Rightarrow> ApiNewRTask \<Rightarrow> bool" where
  "valid_new_rtask L parse t \<longleftrightarrow> anrID t \<noteq> [] \<and> anrScheduleExpression t \<noteq> [] \<and>
     ScheduleExpressionValidator parse (anrScheduleExpression t) \<and> valid_definition L (anrTaskDefinition t)"

definition valid_rtask_update :: "(string \<Rightarrow> string) \<Rightarrow> (string \<Rightarrow> bool) \<Rightarrow> ApiRTaskUpdate \<Rightarrow> bool" where
  "valid_rtask_update L parse u \<longleftrightarrow>
     (case auScheduleExpression u of None \<Rightarrow> True | Some x \<Rightarrow> ScheduleExpressionValidator parse x) \<and>
     (case auTaskDefinition u of None \<Rightarrow> True | Some d \<Rightarrow> valid_definition L d)"

section \<open>Handlers\<close>

datatype rbody = RTaskBody RTaskJson | RTasksBody "RTaskJson list" | RErrorBody rmessage

record rresponse =
  rrStatus :: nat
  rrBody :: rbody

definition rrespond :: "nat \<Rightarrow> rbody \<Rightarrow> rresponse" where
  "rrespond status b = \<lparr>rrStatus = status, rrBody = b\<rparr>"

definition ranswer :: "nat \<Rightarrow> 'w \<times> (RApiError + store \<times> ApiRTask) \<Rightarrow> 'w \<times> rresponse" where
  "ranswer ok res =
     (case res of
        (w, Inr (h, t)) \<Rightarrow> (w, rrespond ok (RTaskBody (marshal_rtask h t)))
      | (w, Inl err) \<Rightarrow> (w, rrespond (reStatusCode err) (RErrorBody (reBody err))))"

definition refuse :: "string \<Rightarrow> rresponse" where
  "refuse msg = rrespond 400 (RErrorBody (OfBinding msg))"

definition handle_rcreate ::
  "(string \<Rightarrow> string) \<Rightarrow> (string \<Rightarrow> bool) \<Rightarrow> 'w RService \<Rightarrow> TasksDefaults \<Rightarrow> string + ApiNewRTask \<Rightarrow> 'w \<Rightarrow>
     'w \<times> rresponse" where
  "handle_rcreate L parse svc conf req w =
     (case bind (valid_new_rtask L parse) req of
        Inl err \<Rightarrow> (w, refuse err)
      | Inr newTask \<Rightarrow> ranswer 201 (ctlRCreate svc conf newTask w))"

definition handle_rupdate ::
  "(string \<Rightarrow> string) \<Rightarrow> (string \<Rightarrow> bool) \<Rightarrow> 'w RService \<Rightarrow> TasksDefaults \<Rightarrow> recurring_id \<Rightarrow>
     string + ApiRTaskUpdate \<Rightarrow> 'w \<Rightarrow> 'w \<times> rresponse" where
  "handle_rupdate L parse svc conf i req w =
     (case bind (valid_rtask_update L parse) req of
        Inl err \<Rightarrow> (w, refuse err)
      | Inr taskUpdate \<Rightarrow> ranswer 200 (ctlRUpdate svc conf i taskUpdate w))"

definition handle_rget :: "'w RService \<Rightarrow> recurring_id \<Rightarrow> 'w \<Rightarrow> 'w \<times> rresponse" where
  "handle_rget svc i w = ranswer 200 (ctlRGet svc i w)"

definition handle_rdelete :: "'w RService \<Rightarrow> recurring_id \<Rightarrow> 'w \<Rightarrow> 'w \<times> rresponse" where
  "handle_rdelete svc i w = ranswer 200 (ctlRDelete svc i w)"

definition handle_rlist :: "'w RService \<Rightarrow> 'w \<Rightarrow> ('w \<times> rresponse) option" where
  "handle_rlist svc w =
     (case ctlRList svc w of
        None \<Rightarrow> None
      | Some (w1, Inr (h, ts)) \<Rightarrow> Some (w1, rrespond 200 (RTasksBody (map (marshal_rtask h) ts)))
      | Some (w1, Inl err) \<Rightarrow> Some (w1, rrespond (reStatusCode err) (RErrorBody (reBody err))))"


section \<open>What a caller may rely on\<close>

lemmas rhandler_defs = handle_rcreate_def handle_rupdate_def handle_rget_def handle_rdelete_def
  handle_rlist_def

lemmas rcontroller_defs = ctlRCreate_def ctlRUpdate_def ctlRGet_def ctlRDelete_def ctlRList_def

lemmas rreply_defs = rrespond_def refuse_def

text \<open>A task as a caller sees it if its response is about it alone.\<close>

definition rtask_json :: "RTask \<Rightarrow> RTaskJson" where
  "rtask_json t = marshal_rtask (\<lambda>_. t) (FromDomainRTask (\<lambda>_. t) 0)"

lemma handleRErr_status: "reStatusCode (handleRErr err) \<in> {404, 409, 500}"
  by (cases err) simp_all

lemma ranswer_to_rapi:
  "ranswer ok (to_rapi (w, r)) =
     (w, case r of Inl err \<Rightarrow> rrespond (reStatusCode (handleRErr err)) (RErrorBody (reBody (handleRErr err)))
         | Inr t \<Rightarrow> rrespond ok (RTaskBody (rtask_json t)))"
  by (simp add: ranswer_def to_rapi_def rtask_json_def Let_def split: sum.split)

lemma ranswer_cases:
  assumes "ranswer ok (to_rapi res) = (w', rsp)" and "ok \<in> {200, 201}"
  shows "rrStatus rsp \<in> {ok, 404, 409, 500} \<and>
    (rrStatus rsp = ok \<longrightarrow> (\<exists>t. res = (w', Inr t) \<and> rrBody rsp = RTaskBody (rtask_json t)))"
proof -
  obtain w1 r where res: "res = (w1, r)" by fastforce
  show ?thesis
  proof (cases r)
    case (Inl err)
    have "reStatusCode (handleRErr err) \<in> {404, 409, 500}" by (rule handleRErr_status)
    then show ?thesis using assms Inl by (auto simp: res ranswer_to_rapi rrespond_def)
  next
    case (Inr t)
    then show ?thesis using assms by (auto simp: res ranswer_to_rapi rrespond_def)
  qed
qed

text \<open>Well-formed recurring tasks: what the scheduler and the task service can work with.\<close>

definition wf_definition :: "(string \<Rightarrow> string) \<Rightarrow> TaskDefinition \<Rightarrow> bool" where
  "wf_definition L d \<longleftrightarrow> tdQueue d \<noteq> [] \<and> QueueNameValidator L (tdQueue d) \<and> tdKind d \<noteq> []"

definition wf_rtask :: "(string \<Rightarrow> string) \<Rightarrow> (string \<Rightarrow> bool) \<Rightarrow> RTask \<Rightarrow> bool" where
  "wf_rtask L parse t \<longleftrightarrow> parse (rtScheduleExpression t) \<and> wf_definition L (rtTaskDefinition t)"

definition wf_new :: "(string \<Rightarrow> string) \<Rightarrow> (string \<Rightarrow> bool) \<Rightarrow> NewRTask \<Rightarrow> bool" where
  "wf_new L parse n \<longleftrightarrow> nrID n \<noteq> [] \<and> parse (nrScheduleExpression n) \<and> wf_definition L (nrTaskDefinition n)"

lemma wf_ToDomainTaskDefinition [simp]: "wf_definition L (ToDomainTaskDefinition r d t) = valid_definition L t"
  by (simp add: wf_definition_def valid_definition_def ToDomainTaskDefinition_def)

lemma wf_ToDomainNewRTask: "valid_new_rtask L parse n \<Longrightarrow> wf_new L parse (ToDomainNewRTask r d n)"
  by (simp add: valid_new_rtask_def wf_new_def ScheduleExpressionValidator_def ToDomainNewRTask_def)

lemma apply_update_fields [simp]:
  "rtID (apply_update conf u t) = rtID t" "rt_version (apply_update conf u t) = rt_version t"
  "rtIsDeleted (apply_update conf u t) = rtIsDeleted t" "rtMetadata (apply_update conf u t) = rtMetadata t"
  "rtScheduleExpression (apply_update conf u t) =
     (case auScheduleExpression u of None \<Rightarrow> rtScheduleExpression t | Some x \<Rightarrow> x)"
  "rtTaskDefinition (apply_update conf u t) =
     (case auTaskDefinition u of None \<Rightarrow> rtTaskDefinition t
      | Some d \<Rightarrow> ToDomainTaskDefinition (RetryTimes conf) (WorkerProcessingTimeout conf) d)"
  "rtSkipIfOutstandingTasksExist (apply_update conf u t) =
     (case auSkipIfOutstandingTasksExist u of None \<Rightarrow> rtSkipIfOutstandingTasksExist t | Some b \<Rightarrow> b)"
  by (auto simp: apply_update_def rt_version_def Let_def split: option.splits)

lemma wf_apply_update: "valid_rtask_update L parse u \<Longrightarrow> wf_rtask L parse t \<Longrightarrow> wf_rtask L parse (apply_update conf u t)"
  by (auto simp: valid_rtask_update_def wf_rtask_def ScheduleExpressionValidator_def split: option.splits)

text \<open>
  C35: only well-formed recurring tasks get past the API. Whatever the service would do with an
  ill-formed new task, or with an ill-formed update, the handlers answer as if it did something
  else: they never call it with one, as long as the tasks it holds are well-formed.
\<close>

theorem recurring_api_well_formed:
  "handle_rcreate L parse svc conf req w =
     handle_rcreate L parse (svc\<lparr>rsCreate := \<lambda>n. if wf_new L parse n then rsCreate svc n else other n\<rparr>)
       conf req w \<and>
   ((\<forall>j b v v' t. rsGet svc j b v = (v', Inr t) \<longrightarrow> wf_rtask L parse t) \<longrightarrow>
     handle_rupdate L parse svc conf i req' w =
       handle_rupdate L parse (svc\<lparr>rsUpdate := \<lambda>t. if wf_rtask L parse t then rsUpdate svc t else other' t\<rparr>)
         conf i req' w)"
proof (intro conjI impI)
  show "handle_rcreate L parse svc conf req w =
     handle_rcreate L parse (svc\<lparr>rsCreate := \<lambda>n. if wf_new L parse n then rsCreate svc n else other n\<rparr>)
       conf req w"
    by (auto simp: handle_rcreate_def ctlRCreate_def bind_def wf_ToDomainNewRTask split: sum.split)
next
  assume "\<forall>j b v v' t. rsGet svc j b v = (v', Inr t) \<longrightarrow> wf_rtask L parse t"
  then show "handle_rupdate L parse svc conf i req' w =
       handle_rupdate L parse (svc\<lparr>rsUpdate := \<lambda>t. if wf_rtask L parse t then rsUpdate svc t else other' t\<rparr>)
         conf i req' w"
    by (auto simp: handle_rupdate_def ctlRUpdate_def bind_def wf_apply_update split: sum.split prod.split)
qed

section \<open>Listing\<close>

lemma FromDomainRTask_at: "FromDomainRTask h a = (FromDomainRTask (\<lambda>_. h a) 0)\<lparr>artSkipIfOutstandingTasksExist := a\<rparr>"
  by (simp add: FromDomainRTask_def Let_def)

lemma list_loop_result:
  "list_loop ts h acc = ((if ts = [] then h else h(loop_variable := last ts)),
     acc @ map (\<lambda>t. FromDomainRTask (\<lambda>_. t) loop_variable) ts)"
  by (induction ts arbitrary: h acc) (auto simp: Let_def FromDomainRTask_def)

text \<open>
  A listing shows every task with the \<open>skip_if_outstanding_tasks_exist\<close> of the last one:
  all the API tasks point to the one variable of the loop. Everything else is shown as it is.
\<close>

lemma recurring_list_shows_last_skip:
  assumes "rsAll svc w = Some (w', Inr ts)"
  shows "handle_rlist svc w = Some (w', rrespond 200 (RTasksBody
    (map (\<lambda>t. (rtask_json t)\<lparr>rjSkipIfOutstandingTasksExist := rtSkipIfOutstandingTasksExist (last ts)\<rparr>) ts)))"
  using assms
  by (auto simp: handle_rlist_def ctlRList_def list_loop_result marshal_rtask_def rtask_json_def
      FromDomainRTask_def Let_def o_def)

section \<open>The API over the Elasticsearch service\<close>

text \<open>
  A creation answered with 201 was a valid request (the queue name and the schedule
  expression are accepted), and the task returned is the one asked for, with the configured
  defaults, not deleted and not yet loaded; the other answers are 400, 404, 409 and 500.
\<close>

theorem recurring_create_through_api:
  assumes "handle_rcreate L parse (NewRService e n ttl) conf req w = (w', rsp)"
  shows "rrStatus rsp \<in> {201, 400, 404, 409, 500} \<and>
    (rrStatus rsp = 201 \<longrightarrow> (\<exists>r t. req = Inr r \<and> rrBody rsp = RTaskBody (rtask_json t) \<and>
       wf_rtask L parse t \<and> rtID t = anrID r \<and> rtScheduleExpression t = anrScheduleExpression r \<and>
       rtTaskDefinition t = ToDomainTaskDefinition (RetryTimes conf) (WorkerProcessingTimeout conf) (anrTaskDefinition r) \<and>
       rtSkipIfOutstandingTasksExist t = (anrSkipIfOutstandingTasksExist r = Some True) \<and>
       \<not> rtIsDeleted t \<and> rtLoadedAt t = None))"
proof (cases "\<exists>r. req = Inr r \<and> valid_new_rtask L parse r")
  case False
  then show ?thesis
    using assms by (auto simp: handle_rcreate_def bind_def rreply_defs split: sum.splits if_splits)
next
  case True
  then obtain r where r: "req = Inr r" "valid_new_rtask L parse r" by blast
  let ?n = "ToDomainNewRTask (RetryTimes conf) (WorkerProcessingTimeout conf) r"
  have "ranswer 201 (to_rapi (rCreate e ?n w)) = (w', rsp)"
    using assms r by (simp add: handle_rcreate_def bind_def ctlRCreate_def NewRService_def)
  note c = ranswer_cases [OF this]
  have "rtID t = nrID ?n \<and> rtScheduleExpression t = nrScheduleExpression ?n \<and>
      rtTaskDefinition t = nrTaskDefinition ?n \<and>
      rtSkipIfOutstandingTasksExist t = nrSkipIfOutstandingTasksExist ?n \<and> \<not> rtIsDeleted t \<and> rtLoadedAt t = None"
    if "rCreate e ?n w = (w', Inr t)" for t
    by (rule rCreate_task [OF that])
  then have "wf_rtask L parse t \<and> rtID t = anrID r \<and> rtScheduleExpression t = anrScheduleExpression r \<and>
       rtTaskDefinition t = ToDomainTaskDefinition (RetryTimes conf) (WorkerProcessingTimeout conf) (anrTaskDefinition r) \<and>
       rtSkipIfOutstandingTasksExist t = (anrSkipIfOutstandingTasksExist r = Some True) \<and>
       \<not> rtIsDeleted t \<and> rtLoadedAt t = None"
    if "rCreate e ?n w = (w', Inr t)" for t
    using that r(2)
    by (auto simp: ToDomainNewRTask_def wf_rtask_def valid_new_rtask_def ScheduleExpressionValidator_def
        split: option.splits)
  then show ?thesis using c r(1) by auto
qed

text \<open>What a successful get and update have stored.\<close>

lemma update_stored:
  assumes store: "recurring_store e hist" and ids: "gets_by_id e" and get: "rGet e i False w = (w1, Inr t0)"
    and valid: "valid_rtask_update L parse u" and upd: "rUpdate e (apply_update conf u t0) w1 = (w', Inr t')"
  obtains p v v' at where "\<not> prIsDeleted p" "t0 = persistedToDomain i p v"
    "written_over hist w' (recurring_key i) (Some p, v)
       (Some (domainToPersistable ((apply_update conf u t0)\<lparr>rtLoadedAt := None\<rparr>) at), v')"
    "wf_rtask L parse t0 \<longrightarrow> wf_rtask L parse ((apply_update conf u t0)\<lparr>rtLoadedAt := None\<rparr>)"
    "t' = set_rt_version v' ((apply_update conf u t0)\<lparr>rtLoadedAt := None\<rparr>)"
proof -
  let ?t = "(apply_update conf u t0)\<lparr>rtLoadedAt := None\<rparr>"
  have id: "rtID t0 = i" using rGet_found [OF store ids get] by blast
  obtain p at where p: "t0 = persistedToDomain i p (rt_version t0)" "\<not> prIsDeleted p"
    and t': "t' = set_rt_version (rt_version t') ?t"
    and over: "written_over hist w' (recurring_key i) (Some p, rt_version t0)
      (Some (domainToPersistable t' at), rt_version t')"
    using get_then_update [OF store ids get upd] id by auto
  have "domainToPersistable t' at = domainToPersistable ?t at"
    by (subst t') (rule domainToPersistable_version)
  moreover have "wf_rtask L parse t0 \<longrightarrow> wf_rtask L parse ?t"
    using wf_apply_update [OF valid, of t0 conf] by (simp add: wf_rtask_def)
  ultimately show thesis using that [OF p(2,1) _ _ t'] over by simp
qed

lemma rupdate_cases:
  assumes call: "handle_rupdate L parse (NewRService e n ttl) conf i req w = (w', rsp)"
  obtains (refused) "rrStatus rsp \<in> {400, 404, 409, 500}"
    | (updated) u t0 w1 t' where "req = Inr u" "valid_rtask_update L parse u" "rGet e i False w = (w1, Inr t0)"
        "rUpdate e (apply_update conf u t0) w1 = (w', Inr t')" "rrStatus rsp = 200" "rrBody rsp = RTaskBody (rtask_json t')"
proof (cases "\<exists>u. req = Inr u \<and> valid_rtask_update L parse u")
  case False
  then show thesis
    using call by (intro refused) (auto simp: handle_rupdate_def bind_def rreply_defs split: sum.splits if_splits)
next
  case True
  then obtain u where u: "req = Inr u" "valid_rtask_update L parse u" by blast
  obtain w1 q where get: "rGet e i False w = (w1, q)" by fastforce
  show thesis
  proof (cases q)
    case (Inl err)
    then have "rrStatus rsp = reStatusCode (handleRErr err)"
      using call u get
      by (auto simp: handle_rupdate_def bind_def ctlRUpdate_def NewRService_def ranswer_def rrespond_def)
    then show thesis using handleRErr_status [of err] by (intro refused) auto
  next
    case (Inr t0)
    have "ranswer 200 (to_rapi (rUpdate e (apply_update conf u t0) w1)) = (w', rsp)"
      using call u get Inr by (simp add: handle_rupdate_def bind_def ctlRUpdate_def NewRService_def)
    note c = ranswer_cases [OF this]
    show thesis
    proof (cases "rrStatus rsp = 200")
      case True
      then show thesis using c updated [OF u get [unfolded Inr]] by blast
    next
      case False
      then show thesis using c by (intro refused) auto
    qed
  qed
qed

text \<open>
  C21: from an update request to the history of the document. Answered with 200, the
  document that was read was not deleted, the new one was stored directly on top of it, differs
  from it only in what the request asks for (and in being not loaded yet), and is well-formed if it
  was; the other answers are 400, 404, 409 and 500.
\<close>

theorem recurring_update_end_to_end:
  assumes store: "recurring_store e hist" and ids: "gets_by_id e"
    and call: "handle_rupdate L parse (NewRService e n ttl) conf i req w = (w', rsp)"
  shows "rrStatus rsp \<in> {200, 400, 404, 409, 500} \<and>
    (rrStatus rsp = 200 \<longrightarrow> (\<exists>u p v v' at. req = Inr u \<and> \<not> prIsDeleted p \<and>
       (let t = apply_update conf u (persistedToDomain i p v)\<lparr>rtLoadedAt := None\<rparr>
        in written_over hist w' (recurring_key i) (Some p, v) (Some (domainToPersistable t at), v') \<and>
           (wf_rtask L parse (persistedToDomain i p v) \<longrightarrow> wf_rtask L parse t) \<and>
           rrBody rsp = RTaskBody (rtask_json (set_rt_version v' t)))))"
  using call
proof (cases rule: rupdate_cases)
  case refused
  then show ?thesis by auto
next
  case (updated u t0 w1 t')
  obtain p v v' at where s: "\<not> prIsDeleted p" "t0 = persistedToDomain i p v"
    "written_over hist w' (recurring_key i) (Some p, v)
       (Some (domainToPersistable ((apply_update conf u t0)\<lparr>rtLoadedAt := None\<rparr>) at), v')"
    "wf_rtask L parse t0 \<longrightarrow> wf_rtask L parse ((apply_update conf u t0)\<lparr>rtLoadedAt := None\<rparr>)"
    "t' = set_rt_version v' ((apply_update conf u t0)\<lparr>rtLoadedAt := None\<rparr>)"
    by (rule update_stored [OF store ids updated(3,2,4)])
  have "\<exists>u p v v' at. req = Inr u \<and> \<not> prIsDeleted p \<and>
       (let t = apply_update conf u (persistedToDomain i p v)\<lparr>rtLoadedAt := None\<rparr>
        in written_over hist w' (recurring_key i) (Some p, v) (Some (domainToPersistable t at), v') \<and>
           (wf_rtask L parse (persistedToDomain i p v) \<longrightarrow> wf_rtask L parse t) \<and>
           rrBody rsp = RTaskBody (rtask_json (set_rt_version v' t)))"
    using updated(1,6) s by (intro exI [of _ u] exI [of _ p] exI [of _ v] exI [of _ v'] exI [of _ at]) (simp add: Let_def)
  with updated(5) show ?thesis by simp
qed

end
