(* ===== verification/RecurringApiExamples.thy ===== *)
theory RecurringApiExamples
  imports RecurringApi RecurringExamples ApiExamples
begin

text \<open>
  The theorems about the API of recurring tasks applied to requests against the in-memory store of
  \<open>RecurringExamples\<close>.
\<close>

abbreviation example_rservice :: "PersistedRTask mem_world RService" where
  "example_rservice \<equiv> NewRService recurring_memory 10 60"

text \<open>A parser that refuses the empty expression only.\<close>

definition example_parse :: "string \<Rightarrow> bool" where
  "example_parse x \<longleftrightarrow> x \<noteq> ''''"

definition example_change :: ApiRTaskUpdate where
  "example_change = \<lparr>auScheduleExpression = Some ''@daily'', auSkipIfOutstandingTasksExist = None,
     auTaskDefinition = None\<rparr>"

definition example_new :: ApiNewRTask where
  "example_new = \<lparr>anrID = ''nightly'', anrScheduleExpression = ''@daily'',
     anrSkipIfOutstandingTasksExist = Some True,
     anrTaskDefinition = fromDomainTaskDefinition example_definition\<rparr>"

lemma example_new_valid: "valid_new_rtask lower example_parse example_new"
  by (simp add: valid_new_rtask_def example_new_def valid_definition_def fromDomainTaskDefinition_def
      example_definition_def QueueNameValidator_def example_queue ScheduleExpressionValidator_def example_parse_def)

lemma example_change_valid: "valid_rtask_update lower example_parse example_change"
  by (simp add: valid_rtask_update_def example_change_def ScheduleExpressionValidator_def example_parse_def)

text \<open>A service that holds the one example, and another that does something else with updates.\<close>

definition constant_rservice :: "nat RService" where
  "constant_rservice = \<lparr>rsCreate = (\<lambda>n w. (Suc w, Inl (RAlreadyExists (nrID n)))),
     rsGet = (\<lambda>i b w. (w, Inr example_recurring)), rsDelete = (\<lambda>i w. (w, Inr example_recurring)),
     rsAll = (\<lambda>w. Some (w, Inr [example_recurring, example_recurring\<lparr>rtSkipIfOutstandingTasksExist := False\<rparr>])),
     rsNotLoaded = (\<lambda>w. Some (w, Inr [])), rsUpdate = (\<lambda>t w. (w, Inr t)),
     rsMarkLoaded = (\<lambda>ts w. (w, Inr no_updates))\<rparr>"

theorem recurring_api_well_formed_witness:
  "handle_rupdate lower example_parse
     (constant_rservice\<lparr>rsUpdate := \<lambda>t. if wf_rtask lower example_parse t then rsUpdate constant_rservice t
        else (\<lambda>w. (0, Inl RPanicked))\<rparr>) (Defaults example_conf) ''hourly'' (Inr example_change) 1
   = (1, rrespond 200 (RTaskBody (rtask_json (example_recurring\<lparr>rtScheduleExpression := ''@daily''\<rparr>))))"
proof -
  have "wf_rtask lower example_parse example_recurring"
    by (simp add: wf_rtask_def wf_definition_def example_recurring_def example_definition_def
        QueueNameValidator_def example_queue example_parse_def)
  then have "\<forall>j b v v' t. rsGet constant_rservice j b v = (v', Inr t) \<longrightarrow> wf_rtask lower example_parse t"
    by (auto simp: constant_rservice_def)
  note same = recurring_api_well_formed [THEN conjunct2, THEN mp, OF this, symmetric,
      where conf = "Defaults example_conf" and i = "''hourly''" and req' = "Inr example_change" and w = 1
        and other' = "\<lambda>t w. (0, Inl RPanicked)"]
  show ?thesis unfolding same
    using example_change_valid
    by (simp add: handle_rupdate_def bind_def ctlRUpdate_def constant_rservice_def ranswer_to_rapi apply_update_def)
      (simp add: example_change_def)
qed

lemma recurring_list_shows_last_skip_witness:
  "\<exists>ts. handle_rlist constant_rservice 1 = Some (1, rrespond 200 (RTasksBody ts)) \<and> length ts = 2 \<and>
     rtSkipIfOutstandingTasksExist example_recurring \<and> \<not> rjSkipIfOutstandingTasksExist (hd ts)"
proof -
  have "rsAll constant_rservice 1 =
      Some (1, Inr [example_recurring, example_recurring\<lparr>rtSkipIfOutstandingTasksExist := False\<rparr>])"
    by (simp add: constant_rservice_def)
  note shown = recurring_list_shows_last_skip [OF this]
  show ?thesis by (intro exI conjI, rule shown) (simp_all add: example_recurring_def)
qed

lemma example_rupdate:
  "\<exists>w' t. handle_rupdate lower example_parse example_rservice (Defaults example_conf) ''hourly'' (Inr example_change)
     recurring_world = (w', rrespond 200 (RTaskBody t))"
proof -
  have get: "rGet recurring_memory ''hourly'' False recurring_world =
      (recurring_world, Inr (persistedToDomain ''hourly'' example_recurring_doc (next_version 0)))"
    by (simp add: rGet_def recurring_memory_def mem_client_def recurring_world_def recurring_key0_def mem_read_def
        mem_hist_def key_ok_def anywhere_def hit_toDomainTask_def mem_hit_def persistedToDomain_def
        example_recurring_defs domainToPersistable_def hit_version_def next_version_def)
  have "\<exists>w' t'. rUpdate recurring_memory (apply_update (Defaults example_conf) example_change
      (persistedToDomain ''hourly'' example_recurring_doc (next_version 0))) recurring_world = (w', Inr t')"
    by (simp add: rUpdate_def recurring_memory_def mem_client_def recurring_world_def recurring_key0_def
        mem_hist_def key_ok_def anywhere_def persistedToDomain_def example_recurring_defs domainToPersistable_def
        mem_locked_write_def mem_write_def rt_version_def next_version_def status_2xx_def apply_update_def
        example_change_def Let_def)
  then show ?thesis
    using get example_change_valid
    by (auto simp: handle_rupdate_def bind_def ctlRUpdate_def NewRService_def ranswer_to_rapi)
qed

theorem recurring_update_end_to_end_witness:
  "\<exists>w' t p v d v'. handle_rupdate lower example_parse example_rservice (Defaults example_conf) ''hourly''
       (Inr example_change) recurring_world = (w', rrespond 200 (RTaskBody t)) \<and>
     written_over (mem_hist anywhere) w' (recurring_key ''hourly'') (Some p, v) (Some d, v') \<and>
     \<not> prIsDeleted p"
proof -
  obtain w' t where call: "handle_rupdate lower example_parse example_rservice (Defaults example_conf) ''hourly''
      (Inr example_change) recurring_world = (w', rrespond 200 (RTaskBody t))"
    using example_rupdate by blast
  from recurring_update_end_to_end [OF recurring_memory_store recurring_memory_ids call]
  show ?thesis using call by (auto simp: rrespond_def Let_def)
qed

lemma example_rcreate:
  "\<exists>w' t. handle_rcreate lower example_parse example_rservice (Defaults example_conf) (Inr example_new)
     recurring_world = (w', rrespond 201 (RTaskBody t))"
proof -
  have "\<exists>w' t. rCreate recurring_memory (ToDomainNewRTask (RetryTimes (Defaults example_conf))
      (WorkerProcessingTimeout (Defaults example_conf)) example_new) recurring_world = (w', Inr t)"
    by (simp add: rCreate_def recurring_memory_def mem_client_def recurring_world_def recurring_key0_def mem_hist_def
        key_ok_def anywhere_def mem_write_def example_new_def ToDomainNewRTask_def status_2xx_def Let_def)
  then show ?thesis
    using example_new_valid
    by (auto simp: handle_rcreate_def bind_def ctlRCreate_def NewRService_def ranswer_to_rapi)
qed

theorem recurring_create_through_api_witness:
  "\<exists>w' t. handle_rcreate lower example_parse example_rservice (Defaults example_conf) (Inr example_new)
       recurring_world = (w', rrespond 201 (RTaskBody (rtask_json t))) \<and>
     rtID t = ''nightly'' \<and> rtSkipIfOutstandingTasksExist t"
proof -
  obtain w' t where call: "handle_rcreate lower example_parse example_rservice (Defaults example_conf)
      (Inr example_new) recurring_world = (w', rrespond 201 (RTaskBody t))"
    using example_rcreate by blast
  from recurring_create_through_api [OF call]
  show ?thesis using call by (auto simp: rrespond_def example_new_def)
qed

end
