(* ===== verification/WorkLoop.thy ===== *)
theory WorkLoop
  imports TasksApi "HOL-Library.Signed_Division"
begin

text \<open>
  The Go worker library, \<open>worker/work_loop.go\<close>: it claims tasks of the queues its handlers are
  for, hands each task to its handler and reports the outcome. The generated client
  (\<open>client/tasks\<close>, an HTTP client) is a parameter: an operation returns the value decoded from a
  200, or an error. The stop flag is part of the world, because another goroutine sets it.
\<close>

section \<open>The client\<close>

text \<open>
  \<open>APIError\<close> is a response with a status the generated code does not expect; \<open>OtherError\<close> is
  anything else: a status with a type of its own, a connection that failed.
\<close>

datatype client_error = APIError int | OtherError string

record claim_params =
  cpAmount :: int
  cpBlockForMs :: int
  cpQueues :: "qname list"

record 'w tasques_client =
  ClaimTasks :: "worker_id \<Rightarrow> claim_params \<Rightarrow> 'w \<Rightarrow> 'w \<times> (client_error + ApiTask list)"
  ReportOnClaimedTask ::
    "worker_id \<Rightarrow> qname \<Rightarrow> task_id \<Rightarrow> json_obj option \<Rightarrow> 'w \<Rightarrow> 'w \<times> client_error option"
  UnclaimExistingTask :: "worker_id \<Rightarrow> qname \<Rightarrow> task_id \<Rightarrow> 'w \<Rightarrow> 'w \<times> client_error option"
  MarkClaimedTaskDone :: "worker_id \<Rightarrow> qname \<Rightarrow> task_id \<Rightarrow> json_obj \<Rightarrow> 'w \<Rightarrow> 'w \<times> client_error option"
  MarkClaimedTaskFailed :: "worker_id \<Rightarrow> qname \<Rightarrow> task_id \<Rightarrow> json_obj \<Rightarrow> 'w \<Rightarrow> 'w \<times> client_error option"
  stopSignal :: "'w \<Rightarrow> nat"

section \<open>Task handles\<close>

record TaskHandle =
  hTask :: ApiTask
  hWorkerId :: worker_id
  hUnclaimed :: nat

definition IsUnclaimed :: "TaskHandle \<Rightarrow> bool" where
  "IsUnclaimed h \<longleftrightarrow> hUnclaimed h > 0"

definition setUnclaimed :: "TaskHandle \<Rightarrow> TaskHandle" where
  "setUnclaimed h = h\<lparr>hUnclaimed := 1\<rparr>"

definition handleReportIn ::
  "'w tasques_client \<Rightarrow> json_obj option \<Rightarrow> TaskHandle \<Rightarrow> 'w \<Rightarrow> 'w \<times> client_error option" where
  "handleReportIn c data h w =
     (if \<not> IsUnclaimed h then
        ReportOnClaimedTask c (hWorkerId h) (atQueue (hTask h)) (atID (hTask h)) data w
      else (w, None))"

definition handleUnclaim ::
  "'w tasques_client \<Rightarrow> TaskHandle \<Rightarrow> 'w \<Rightarrow> (TaskHandle \<times> 'w) \<times> client_error option" where
  "handleUnclaim c h w =
     (case UnclaimExistingTask c (hWorkerId h) (atQueue (hTask h)) (atID (hTask h)) w of
        (w1, Some err) \<Rightarrow> ((h, w1), Some err)
      | (w1, None) \<Rightarrow> ((setUnclaimed h, w1), None))"

section \<open>The work loop\<close>

text \<open>
  A handler gets its handle by value: what it does to the handle stays in its own copy, so a
  handler is a function of the handle that returns a success and a failure (either may be nil).
\<close>

type_synonym 'w task_handler = "TaskHandle \<Rightarrow> 'w \<Rightarrow> 'w \<times> json_obj option \<times> json_obj option"

record 'w WorkLoop =
  wlWorkerId :: worker_id
  wlHandlers :: "qname \<rightharpoonup> 'w task_handler"
  wlClaimAmount :: int
  wlBlockFor :: duration
  wlLoopStopTimeout :: duration

record TasquesWorker =
  twID :: worker_id
  twClaimAmount :: u64
  twBlockFor :: duration
  twLoopStopTimeout :: duration

text \<open>The claim amount is converted to an \<open>int64\<close>.\<close>

definition NewWorkLoop :: "TasquesWorker \<Rightarrow> (qname \<rightharpoonup> 'w task_handler) \<Rightarrow> 'w WorkLoop" where
  "NewWorkLoop conf handlers = \<lparr>wlWorkerId = twID conf, wlHandlers = handlers,
     wlClaimAmount = sint (twClaimAmount conf), wlBlockFor = twBlockFor conf,
     wlLoopStopTimeout = twLoopStopTimeout conf\<rparr>"

text \<open>
  The errors \<open>run\<close> returns. \<open>HandlerError\<close> is the \<open>*Failure\<close> the handler returned: with \<open>None\<close> it
  is a nil pointer, which as an \<open>error\<close> is not nil.
\<close>

datatype worker_error = ClaimError client_error | HandlerError "json_obj option" | NoHandler qname

definition no_results :: json_obj where
  "no_results = [(''error'', JStr ''No results provided on claimed Task.'')]"

definition workMarkFailed ::
  "'w tasques_client \<Rightarrow> 'w WorkLoop \<Rightarrow> ApiTask \<Rightarrow> json_obj \<Rightarrow> 'w \<Rightarrow> 'w \<times> client_error option" where
  "workMarkFailed c wl t failure w =
     MarkClaimedTaskFailed c (wlWorkerId wl) (atQueue t) (atID t) failure w"

definition workMarkSuccess ::
  "'w tasques_client \<Rightarrow> 'w WorkLoop \<Rightarrow> ApiTask \<Rightarrow> json_obj \<Rightarrow> 'w \<Rightarrow> 'w \<times> client_error option" where
  "workMarkSuccess c wl t result w =
     MarkClaimedTaskDone c (wlWorkerId wl) (atQueue t) (atID t) result w"

text \<open>One claimed task. If its outcome cannot be sent, the failure of the handler is returned.\<close>

definition work_on ::
  "'w tasques_client \<Rightarrow> 'w WorkLoop \<Rightarrow> ApiTask \<Rightarrow> 'w \<Rightarrow> 'w \<times> worker_error option" where
  "work_on c wl t w =
     (case wlHandlers wl (atQueue t) of
        None \<Rightarrow> (w, Some (NoHandler (atQueue t)))
      | Some handler \<Rightarrow>
          (let handle = \<lparr>hTask = t, hWorkerId = wlWorkerId wl, hUnclaimed = 0\<rparr>;
               (w1, result, err) = handler handle w
           in if \<not> IsUnclaimed handle then
                (case (case err of
                         Some failure \<Rightarrow> workMarkFailed c wl t failure w1
                       | None \<Rightarrow>
                           (case result of
                              Some success \<Rightarrow> workMarkSuccess c wl t success w1
                            | None \<Rightarrow> workMarkFailed c wl t no_results w1)) of
                   (w2, Some sendErr) \<Rightarrow> (w2, Some (HandlerError err))
                 | (w2, None) \<Rightarrow> (w2, None))
              else (w1, None)))"

fun work_on_all ::
  "'w tasques_client \<Rightarrow> 'w WorkLoop \<Rightarrow> ApiTask list \<Rightarrow> 'w \<Rightarrow> 'w \<times> worker_error option" where
  "work_on_all c wl [] w = (w, None)"
| "work_on_all c wl (t # ts) w =
     (case work_on c wl t w of
        (w1, Some err) \<Rightarrow> (w1, Some err)
      | (w1, None) \<Rightarrow> work_on_all c wl ts w1)"

definition ignored_claim_error :: "client_error \<Rightarrow> bool" where
  "ignored_claim_error err = (case err of APIError code \<Rightarrow> \<not> (400 \<le> code \<and> code \<le> 499) | OtherError _ \<Rightarrow> False)"

text \<open>
  \<open>claimReq\<close>; the keys of the map of handlers come in no particular order, \<open>queueNames\<close> is the one
  they came in. The duration is sent in whole milliseconds, rounded towards zero.
\<close>

definition claim_request :: "'w WorkLoop \<Rightarrow> qname list \<Rightarrow> claim_params" where
  "claim_request wl queueNames = \<lparr>cpAmount = wlClaimAmount wl,
     cpBlockForMs = wlBlockFor wl sdiv 1000000, cpQueues = queueNames\<rparr>"

partial_function (option) work_loop ::
  "'w tasques_client \<Rightarrow> 'w WorkLoop \<Rightarrow> claim_params \<Rightarrow> 'w \<Rightarrow> ('w \<times> worker_error option) option" where
  "work_loop c wl claimReq w =
     (if stopSignal c w > 0 then Some (w, None)
      else case ClaimTasks c (wlWorkerId wl) claimReq w of
          (w1, Inl err) \<Rightarrow>
            (if ignored_claim_error err then work_loop c wl claimReq w1
             else Some (w1, Some (ClaimError err)))
        | (w1, Inr claimed) \<Rightarrow>
            (case work_on_all c wl claimed w1 of
               (w2, Some err) \<Rightarrow> Some (w2, Some err)
             | (w2, None) \<Rightarrow> work_loop c wl claimReq w2))"

definition work_run ::
  "'w tasques_client \<Rightarrow> 'w WorkLoop \<Rightarrow> qname list \<Rightarrow> 'w \<Rightarrow> ('w \<times> worker_error option) option" where
  "work_run c wl queueNames w = work_loop c wl (claim_request wl queueNames) w"

section \<open>No claimed task is lost\<close>

text \<open>
  What happened, as the worker's requests and its handlers left it in a log of the world. A
  request that failed leaves none, a handler leaves what it returned.
\<close>

datatype work_event =
    Claimed "ApiTask list"
  | Handled ApiTask "json_obj option" "json_obj option"
  | MarkedDone qname task_id json_obj
  | MarkedFailed qname task_id json_obj

definition logged :: "'w tasques_client \<Rightarrow> 'w WorkLoop \<Rightarrow> ('w \<Rightarrow> work_event list) \<Rightarrow> bool" where
  "logged c wl log \<longleftrightarrow>
     (\<forall>i p w w' ts. ClaimTasks c i p w = (w', Inr ts) \<longrightarrow> log w' = log w @ [Claimed ts]) \<and>
     (\<forall>i p w w' e. ClaimTasks c i p w = (w', Inl e) \<longrightarrow> log w' = log w) \<and>
     (\<forall>i q t d w w'. MarkClaimedTaskDone c i q t d w = (w', None) \<longrightarrow> log w' = log w @ [MarkedDone q t d]) \<and>
     (\<forall>i q t d w w'. MarkClaimedTaskFailed c i q t d w = (w', None) \<longrightarrow> log w' = log w @ [MarkedFailed q t d]) \<and>
     (\<forall>q handler h w w' r f. wlHandlers wl q = Some handler \<longrightarrow> handler h w = (w', r, f) \<longrightarrow>
        log w' = log w @ [Handled (hTask h) r f])"

text \<open>The outcome a handler asked for: a failure wins, and no result at all is a failure.\<close>

definition outcome_event :: "ApiTask \<Rightarrow> json_obj option \<Rightarrow> json_obj option \<Rightarrow> work_event" where
  "outcome_event t result err =
     (case err of
        Some f \<Rightarrow> MarkedFailed (atQueue t) (atID t) f
      | None \<Rightarrow> (case result of Some r \<Rightarrow> MarkedDone (atQueue t) (atID t) r
                 | None \<Rightarrow> MarkedFailed (atQueue t) (atID t) no_results))"

definition task_events :: "ApiTask \<times> json_obj option \<times> json_obj option \<Rightarrow> work_event list" where
  "task_events x = (case x of (t, r, f) \<Rightarrow> [Handled t r f, outcome_event t r f])"

definition batch_events :: "(ApiTask \<times> json_obj option \<times> json_obj option) list \<Rightarrow> work_event list" where
  "batch_events xs = Claimed (map fst xs) # concat (map task_events xs)"

lemma logged_rules:
  assumes "logged c wl log"
  shows "ClaimTasks c i p w = (w', Inr ts) \<Longrightarrow> log w' = log w @ [Claimed ts]"
    and "ClaimTasks c i p w = (w', Inl e) \<Longrightarrow> log w' = log w"
    and "MarkClaimedTaskDone c i q t d w = (w', None) \<Longrightarrow> log w' = log w @ [MarkedDone q t d]"
    and "MarkClaimedTaskFailed c i q t d w = (w', None) \<Longrightarrow> log w' = log w @ [MarkedFailed q t d]"
    and "wlHandlers wl q = Some handler \<Longrightarrow> handler h w = (w', r, f) \<Longrightarrow> log w' = log w @ [Handled (hTask h) r f]"
  using assms unfolding logged_def by (elim conjE; metis)+

lemma work_on_logs:
  assumes log: "logged c wl log" and work: "work_on c wl t w = (w', None)"
  shows "\<exists>r f. log w' = log w @ task_events (t, r, f)"
proof -
  obtain handler where h: "wlHandlers wl (atQueue t) = Some handler"
    using work by (auto simp: work_on_def split: option.splits)
  let ?h = "\<lparr>hTask = t, hWorkerId = wlWorkerId wl, hUnclaimed = 0\<rparr>"
  obtain w1 r f where run: "handler ?h w = (w1, r, f)" by (metis prod_cases3)
  have w1: "log w1 = log w @ [Handled t r f]" using logged_rules(5) [OF log h run] by simp
  have "log w' = log w1 @ [outcome_event t r f]"
    using work h run logged_rules(3,4) [OF log]
    by (auto simp: work_on_def IsUnclaimed_def outcome_event_def workMarkFailed_def workMarkSuccess_def Let_def
        split: option.splits prod.splits)
  then show ?thesis using w1 by (intro exI [of _ r] exI [of _ f]) (simp add: task_events_def)
qed

lemma work_on_all_logs:
  assumes log: "logged c wl log" and work: "work_on_all c wl ts w = (w', None)"
  shows "\<exists>xs. map fst xs = ts \<and> log w' = log w @ concat (map task_events xs)"
  using work
proof (induction ts arbitrary: w)
  case Nil
  then show ?case by simp
next
  case (Cons t ts)
  obtain w1 where one: "work_on c wl t w = (w1, None)" and rest: "work_on_all c wl ts w1 = (w', None)"
    using Cons.prems by (auto split: prod.splits option.splits)
  obtain r f where w1: "log w1 = log w @ task_events (t, r, f)" using work_on_logs [OF log one] by blast
  obtain xs where "map fst xs = ts" "log w' = log w1 @ concat (map task_events xs)"
    using Cons.IH [OF rest] by blast
  then show ?case using w1 by (intro exI [of _ "(t, r, f) # xs"]) simp
qed

lemmas work_loop_induct = work_loop.raw_induct [rotated, consumes 1, case_names step]

lemma work_loop_logs:
  assumes "work_loop c wl p w = Some y" and "snd y = None" and "logged c wl log"
  shows "\<exists>batches. log (fst y) = log w @ concat (map batch_events batches)"
  using assms
proof (induction rule: work_loop_induct)
  case (step loop c wl p w y)
  show ?case
  proof (cases "stopSignal c w > 0")
    case True
    then have "y = (w, None)" using step.hyps by simp
    then show ?thesis by (intro exI [of _ "[]"]) simp
  next
    case False
    obtain w1 r where claim: "ClaimTasks c (wlWorkerId wl) p w = (w1, r)" by fastforce
    show ?thesis
    proof (cases r)
      case (Inl err)
      then have again: "loop c wl p w1 = Some y"
        using step.hyps step.prems(1) False claim by (auto split: if_splits)
      have "log w1 = log w" using logged_rules(2) [OF step.prems(2)] claim Inl by blast
      then show ?thesis using step.IH [OF again step.prems] by simp
    next
      case (Inr ts)
      obtain w2 e where e: "work_on_all c wl ts w1 = (w2, e)" by fastforce
      have all: "work_on_all c wl ts w1 = (w2, None)" and again: "loop c wl p w2 = Some y"
        using step.hyps step.prems(1) False claim Inr e by (cases e; auto)+
      have w1: "log w1 = log w @ [Claimed ts]" using logged_rules(1) [OF step.prems(2)] claim Inr by blast
      obtain xs where xs: "map fst xs = ts" "log w2 = log w1 @ concat (map task_events xs)"
        using work_on_all_logs [OF step.prems(2) all] by blast
      obtain batches where "log (fst y) = log w2 @ concat (map batch_events batches)"
        using step.IH [OF again step.prems] by blast
      moreover have "batch_events xs = Claimed ts # concat (map task_events xs)"
        by (simp add: batch_events_def xs(1))
      ultimately show ?thesis using w1 xs(2) by (intro exI [of _ "xs # batches"]) simp
    qed
  qed
qed

text \<open>
  A worker that stops without an error has lost none of the tasks it claimed: it handled
  each of them exactly once, in the order they were claimed, told the server the outcome its handler
  asked for right after that, and claimed the next tasks only when it was done with the last.
\<close>

theorem claimed_tasks_completed:
  assumes "logged c wl log" and "work_run c wl queueNames w = Some (w', None)"
  shows "\<exists>batches. log w' = log w @ concat (map batch_events batches)"
  using work_loop_logs [of c wl _ w "(w', None)" log] assms by (simp add: work_run_def)

section \<open>Unclaiming\<close>

text \<open>
  A task that was given back cannot be failed; so a handler that unclaims its task and
  returns nothing, as it may, makes its worker end with an error: the loop does not see the flag
  set in the handler's copy of the handle, reports a failure, and returns the nil failure of the
  handler as an error when the server refuses it.
\<close>

lemma unclaiming_ends_worker:
  assumes handler: "wlHandlers wl (atQueue t) = Some (\<lambda>h w. (snd (fst (handleUnclaim c h w)), None, None))"
    and given_back: "UnclaimExistingTask c (wlWorkerId wl) (atQueue t) (atID t) w = (w1, None)"
    and refused: "MarkClaimedTaskFailed c (wlWorkerId wl) (atQueue t) (atID t) no_results w1 = (w2, Some err)"
  shows "work_on_all c wl (t # ts) w = (w2, Some (HandlerError None)) \<and>
    (IntoUnClaimed wid at dt = Inr dt' \<longrightarrow> IntoFailed r wid at' f dt' = Inl (NotClaimed (tID dt) QUEUED))"
proof (rule conjI)
  show "work_on_all c wl (t # ts) w = (w2, Some (HandlerError None))"
    using assms by (simp add: work_on_def handleUnclaim_def IsUnclaimed_def workMarkFailed_def)
  show "IntoUnClaimed wid at dt = Inr dt' \<longrightarrow> IntoFailed r wid at' f dt' = Inl (NotClaimed (tID dt) QUEUED)"
    by (auto simp: IntoUnClaimed_def IntoFailed_def check_claim_def Let_def split: sum.splits if_splits option.splits)
qed


section \<open>Examples\<close>

text \<open>
  A server with one task to claim, any number of times; the world counts down to the stop signal.
  \<open>refuses\<close> makes it refuse outcomes.
\<close>

definition example_client :: "bool \<Rightarrow> (nat \<times> work_event list) tasques_client" where
  "example_client refuses = \<lparr>
     ClaimTasks = (\<lambda>i p w. ((fst w - 1, snd w @ [Claimed [FromDomainTask example_task]]),
       Inr [FromDomainTask example_task])),
     ReportOnClaimedTask = (\<lambda>i q t d w. (w, None)),
     UnclaimExistingTask = (\<lambda>i q t w. (w, None)),
     MarkClaimedTaskDone = (\<lambda>i q t d w. if refuses then (w, Some (OtherError ''refused''))
       else ((fst w, snd w @ [MarkedDone q t d]), None)),
     MarkClaimedTaskFailed = (\<lambda>i q t d w. if refuses then (w, Some (OtherError ''refused''))
       else ((fst w, snd w @ [MarkedFailed q t d]), None)),
     stopSignal = (\<lambda>w. if fst w = 0 then 1 else 0)\<rparr>"

definition example_worker_conf :: TasquesWorker where
  "example_worker_conf = \<lparr>twID = ''w1'', twClaimAmount = 1, twBlockFor = 1000000000, twLoopStopTimeout = 5\<rparr>"

definition example_loop :: "(nat \<times> work_event list) WorkLoop" where
  "example_loop = NewWorkLoop example_worker_conf
     [''run-later'' \<mapsto> \<lambda>h w. ((fst w, snd w @ [Handled (hTask h) (Some []) None]), Some [], None)]"

lemma example_task_queue [simp]: "atQueue (FromDomainTask example_task) = ''run-later''"
  "atID (FromDomainTask example_task) = ''t1''"
  by (simp_all add: FromDomainTask_def example_task_def)

lemma example_logged: "logged (example_client False) example_loop snd"
  by (auto simp: logged_def example_client_def example_loop_def NewWorkLoop_def split: if_splits)

theorem claimed_tasks_completed_witness:
  "\<exists>w' batches. work_run (example_client False) example_loop [''run-later''] (1, []) = Some (w', None) \<and>
     length (snd w') = 3 \<and> snd w' = [] @ concat (map batch_events batches)"
proof -
  let ?w = "(0 :: nat, [Claimed [FromDomainTask example_task], Handled (FromDomainTask example_task) (Some []) None,
      MarkedDone ''run-later'' ''t1'' []])"
  have run: "work_run (example_client False) example_loop [''run-later''] (1, []) = Some (?w, None)"
    unfolding work_run_def
    by (subst work_loop.simps, subst work_loop.simps)
      (simp add: example_client_def example_loop_def NewWorkLoop_def work_on_def IsUnclaimed_def workMarkSuccess_def)
  have three: "length (snd ?w) = 3" by simp
  obtain batches where b: "snd ?w = [] @ concat (map batch_events batches)"
    using claimed_tasks_completed [OF example_logged run] by (auto simp only: snd_conv)
  show ?thesis
    by (intro exI [of _ ?w] exI [of _ batches] conjI run three b)
qed

definition giving_back_loop :: "(nat \<times> work_event list) WorkLoop" where
  "giving_back_loop = NewWorkLoop example_worker_conf
     [''run-later'' \<mapsto> \<lambda>h w. (snd (fst (handleUnclaim (example_client True) h w)), None, None)]"

lemma unclaiming_ends_worker_witness:
  "work_on_all (example_client True) giving_back_loop [FromDomainTask example_task] (1, []) =
     ((1, []), Some (HandlerError None)) \<and>
   (\<exists>t. IntoUnClaimed ''w1'' 40 example_claimed = Inr t \<and>
      IntoFailed 0 ''w1'' 50 None t = Inl (NotClaimed (tID example_claimed) QUEUED))"
proof -
  have "wlHandlers giving_back_loop (atQueue (FromDomainTask example_task)) =
      Some (\<lambda>h w. (snd (fst (handleUnclaim (example_client True) h w)), None, None))"
    "UnclaimExistingTask (example_client True) (wlWorkerId giving_back_loop) (atQueue (FromDomainTask example_task))
      (atID (FromDomainTask example_task)) (1, []) = ((1, []), None)"
    "MarkClaimedTaskFailed (example_client True) (wlWorkerId giving_back_loop) (atQueue (FromDomainTask example_task))
      (atID (FromDomainTask example_task)) no_results (1, []) = ((1, []), Some (OtherError ''refused''))"
    by (simp_all add: giving_back_loop_def NewWorkLoop_def example_client_def)
  note ends = unclaiming_ends_worker [OF this]
  obtain t where t: "IntoUnClaimed ''w1'' 40 example_claimed = Inr t"
    by (simp add: IntoUnClaimed_def check_claim_def example_claimed_def)
  show ?thesis
    by (intro conjI exI [of _ t] t ends [THEN conjunct1] ends [THEN conjunct2, THEN mp, OF t])
qed

end
