(* ===== verification/WorkerSystem.thy ===== *)
theory WorkerSystem
  imports WorkLoop EsClaimReturns
begin

text \<open>
  A worker and the servers together: the work loop over the generated HTTP client
  (\<open>client/tasks\<close>), whose requests are answered by the handlers of the API over the Elasticsearch task
  service. What comes of it: a worker that stops without an error has stored the outcome of every task it
  claimed, each on top of the claim.
\<close>

section \<open>The generated client\<close>

text \<open>
  The parameters of a request: the header with the worker's id, the path and the body.
\<close>

datatype client_request =
    ClaimTasksReq worker_id claim_params
  | ReportReq worker_id qname task_id "json_obj option"
  | UnclaimReq worker_id qname task_id
  | MarkDoneReq worker_id qname task_id json_obj
  | MarkFailedReq worker_id qname task_id json_obj

text \<open>The transport submits a request; \<open>None\<close> if no response came back.\<close>

type_synonym 'w transport = "client_request \<Rightarrow> 'w \<Rightarrow> 'w \<times> response option"

text \<open>
  The readers of responses. Statuses without a type of their own become an \<open>APIError\<close>.
\<close>

definition ReadClaimResponse :: "response \<Rightarrow> client_error + ApiTask list" where
  "ReadClaimResponse rsp =
     (if rspStatus rsp = 200 then
        (case rspBody rsp of TasksBody ts \<Rightarrow> Inr ts | _ \<Rightarrow> Inl (OtherError ''unreadable payload''))
      else Inl (APIError (int (rspStatus rsp))))"

definition ReadTaskResponse :: "response \<Rightarrow> client_error option" where
  "ReadTaskResponse rsp =
     (if rspStatus rsp = 200 then
        (case rspBody rsp of TaskBody t \<Rightarrow> None | _ \<Rightarrow> Some (OtherError ''unreadable payload''))
      else if rspStatus rsp = 400 then Some (OtherError ''BadRequest'')
      else if rspStatus rsp = 403 then Some (OtherError ''Forbidden'')
      else if rspStatus rsp = 404 then Some (OtherError ''NotFound'')
      else Some (APIError (int (rspStatus rsp))))"

definition submit_claim :: "'w transport \<Rightarrow> client_request \<Rightarrow> 'w \<Rightarrow> 'w \<times> (client_error + ApiTask list)" where
  "submit_claim submit req w =
     (case submit req w of
        (w1, None) \<Rightarrow> (w1, Inl (OtherError ''no response''))
      | (w1, Some rsp) \<Rightarrow> (w1, ReadClaimResponse rsp))"

definition submit_update :: "'w transport \<Rightarrow> client_request \<Rightarrow> 'w \<Rightarrow> 'w \<times> client_error option" where
  "submit_update submit req w =
     (case submit req w of
        (w1, None) \<Rightarrow> (w1, Some (OtherError ''no response''))
      | (w1, Some rsp) \<Rightarrow> (w1, ReadTaskResponse rsp))"

definition generated_client :: "'w transport \<Rightarrow> ('w \<Rightarrow> nat) \<Rightarrow> 'w tasques_client" where
  "generated_client submit stop = \<lparr>
     ClaimTasks = (\<lambda>wid p. submit_claim submit (ClaimTasksReq wid p)),
     ReportOnClaimedTask = (\<lambda>wid q i d. submit_update submit (ReportReq wid q i d)),
     UnclaimExistingTask = (\<lambda>wid q i. submit_update submit (UnclaimReq wid q i)),
     MarkClaimedTaskDone = (\<lambda>wid q i d. submit_update submit (MarkDoneReq wid q i d)),
     MarkClaimedTaskFailed = (\<lambda>wid q i d. submit_update submit (MarkFailedReq wid q i d)),
     stopSignal = stop\<rparr>"

section \<open>The servers\<close>

text \<open>
  The body of a claim as the server binds it: an amount of 0 is omitted by the client, a negative one
  does not fit the server's unsigned field, and the duration comes as a string of milliseconds.
\<close>

definition claim_body :: "claim_params \<Rightarrow> string + ApiClaim" where
  "claim_body p =
     (if cpAmount p < 0 then Inl ''number out of range''
      else Inr \<lparr>acQueues = Some (cpQueues p),
        acAmount = (if cpAmount p = 0 then None else Some (word_of_int (cpAmount p))),
        acBlockFor = Some (cpBlockForMs p * 1000000)\<rparr>)"

fun served :: "(string \<Rightarrow> string) \<Rightarrow> 'w Service \<Rightarrow> TasksDefaults \<Rightarrow> client_request \<Rightarrow> 'w \<Rightarrow> ('w \<times> response) option" where
  "served L svc conf (ClaimTasksReq wid p) w = handle_claim L svc conf wid (claim_body p) w"
| "served L svc conf (ReportReq wid q i d) w = Some (handle_reportIn L svc wid q i (Inr \<lparr>arData = d\<rparr>) w)"
| "served L svc conf (UnclaimReq wid q i) w = Some (handle_unClaim L svc wid q i w)"
| "served L svc conf (MarkDoneReq wid q i d) w = Some (handle_markDone L svc wid q i (Inr (Some d)) w)"
| "served L svc conf (MarkFailedReq wid q i d) w = Some (handle_markFailed L svc wid q i (Inr (Some d)) w)"

text \<open>
  A response is one that a handler gave to the request, while others may have acted before and after; a
  request without a response may or may not have been served.
\<close>

definition delivers ::
  "('w \<Rightarrow> client_request \<Rightarrow> 'w \<Rightarrow> response \<Rightarrow> bool) \<Rightarrow> ('w, 'd) history \<Rightarrow> 'w transport \<Rightarrow> bool" where
  "delivers answers hist submit \<longleftrightarrow>
     (\<forall>req w. advances hist w (fst (submit req w))) \<and>
     (\<forall>req w w' rsp. submit req w = (w', Some rsp) \<longrightarrow>
        (\<exists>w0 w1. advances hist w w0 \<and> answers w0 req w1 rsp \<and> advances hist w1 w'))"

definition answered_by :: "(string \<Rightarrow> string) \<Rightarrow> 'w Service \<Rightarrow> TasksDefaults \<Rightarrow>
    'w \<Rightarrow> client_request \<Rightarrow> 'w \<Rightarrow> response \<Rightarrow> bool" where
  "answered_by L svc conf w req w' rsp \<longleftrightarrow> served L svc conf req w = Some (w', rsp)"

section \<open>What a run of a worker did\<close>

fun send_outcome :: "'w tasques_client \<Rightarrow> worker_id \<Rightarrow> work_event \<Rightarrow> 'w \<Rightarrow> 'w \<times> client_error option" where
  "send_outcome c wid (MarkedDone q i d) w = MarkClaimedTaskDone c wid q i d w"
| "send_outcome c wid (MarkedFailed q i d) w = MarkClaimedTaskFailed c wid q i d w"
| "send_outcome c wid _ w = (w, None)"

text \<open>
  The tasks of a batch with what their handlers returned: each handled once, its outcome accepted.
\<close>

inductive batch_done ::
  "'w tasques_client \<Rightarrow> 'w WorkLoop \<Rightarrow> 'w \<Rightarrow> (ApiTask \<times> json_obj option \<times> json_obj option) list \<Rightarrow> 'w \<Rightarrow> bool"
  for c wl where
  no_more: "batch_done c wl w [] w"
| one_more: "wlHandlers wl (atQueue t) = Some handler \<Longrightarrow>
    handler \<lparr>hTask = t, hWorkerId = wlWorkerId wl, hUnclaimed = 0\<rparr> w = (w1, r, f) \<Longrightarrow>
    send_outcome c (wlWorkerId wl) (outcome_event t r f) w1 = (w2, None) \<Longrightarrow>
    batch_done c wl w2 xs w' \<Longrightarrow> batch_done c wl w ((t, r, f) # xs) w'"

text \<open>The batches of a run, up to the stop signal.\<close>

inductive worker_ran ::
  "'w tasques_client \<Rightarrow> 'w WorkLoop \<Rightarrow> claim_params \<Rightarrow> 'w \<Rightarrow>
     (ApiTask \<times> json_obj option \<times> json_obj option) list list \<Rightarrow> 'w \<Rightarrow> bool"
  for c wl p where
  stopped: "stopSignal c w > 0 \<Longrightarrow> worker_ran c wl p w [] w"
| claim_refused: "ClaimTasks c (wlWorkerId wl) p w = (w1, Inl err) \<Longrightarrow> ignored_claim_error err \<Longrightarrow>
    worker_ran c wl p w1 batches w' \<Longrightarrow> worker_ran c wl p w batches w'"
| claimed: "ClaimTasks c (wlWorkerId wl) p w = (w1, Inr (map fst xs)) \<Longrightarrow> batch_done c wl w1 xs w2 \<Longrightarrow>
    worker_ran c wl p w2 batches w' \<Longrightarrow> worker_ran c wl p w (xs # batches) w'"

lemma work_on_done:
  assumes "work_on c wl t w = (w', None)"
  shows "\<exists>handler w1 r f. wlHandlers wl (atQueue t) = Some handler \<and>
    handler \<lparr>hTask = t, hWorkerId = wlWorkerId wl, hUnclaimed = 0\<rparr> w = (w1, r, f) \<and>
    send_outcome c (wlWorkerId wl) (outcome_event t r f) w1 = (w', None)"
proof -
  obtain handler where h: "wlHandlers wl (atQueue t) = Some handler"
    using assms by (auto simp: work_on_def split: option.splits)
  obtain w1 r f where run: "handler \<lparr>hTask = t, hWorkerId = wlWorkerId wl, hUnclaimed = 0\<rparr> w = (w1, r, f)"
    by (metis prod_cases3)
  have "send_outcome c (wlWorkerId wl) (outcome_event t r f) w1 = (w', None)"
    using assms h run
    by (auto simp: work_on_def IsUnclaimed_def outcome_event_def workMarkFailed_def workMarkSuccess_def Let_def
        split: option.splits prod.splits)
  then show ?thesis using h run by blast
qed

lemma work_on_all_done:
  "work_on_all c wl ts w = (w', None) \<Longrightarrow> \<exists>xs. map fst xs = ts \<and> batch_done c wl w xs w'"
proof (induction ts arbitrary: w)
  case Nil
  then show ?case by (auto intro: no_more)
next
  case (Cons t ts)
  obtain w1 where one: "work_on c wl t w = (w1, None)" and rest: "work_on_all c wl ts w1 = (w', None)"
    using Cons.prems by (auto split: prod.splits option.splits)
  obtain xs where xs: "map fst xs = ts" "batch_done c wl w1 xs w'" using Cons.IH [OF rest] by blast
  obtain handler v r f where h: "wlHandlers wl (atQueue t) = Some handler"
      "handler \<lparr>hTask = t, hWorkerId = wlWorkerId wl, hUnclaimed = 0\<rparr> w = (v, r, f)"
      "send_outcome c (wlWorkerId wl) (outcome_event t r f) v = (w1, None)"
    using work_on_done [OF one] by blast
  have "batch_done c wl w ((t, r, f) # xs) w'" by (rule one_more [OF h xs(2)])
  then show ?case using xs(1) by (intro exI [of _ "(t, r, f) # xs"]) simp
qed

lemma work_loop_ran:
  assumes "work_loop c wl p w = Some y" and "snd y = None"
  shows "\<exists>batches. worker_ran c wl p w batches (fst y)"
  using assms
proof (induction rule: work_loop_induct)
  case (step loop c wl p w y)
  show ?case
  proof (cases "stopSignal c w > 0")
    case True
    then have "y = (w, None)" using step.hyps by simp
    then show ?thesis using stopped [OF True] by auto
  next
    case False
    obtain w1 r where claim: "ClaimTasks c (wlWorkerId wl) p w = (w1, r)" by fastforce
    show ?thesis
    proof (cases r)
      case (Inl err)
      have again: "loop c wl p w1 = Some y" and err: "ignored_claim_error err"
        using step.hyps step.prems(1) False claim Inl by (auto split: if_splits)
      show ?thesis
        using step.IH [OF again step.prems] claim_refused [OF claim [unfolded Inl] err] by blast
    next
      case (Inr ts)
      obtain w2 e where e: "work_on_all c wl ts w1 = (w2, e)" by fastforce
      have all: "work_on_all c wl ts w1 = (w2, None)" and again: "loop c wl p w2 = Some y"
        using step.hyps step.prems(1) False claim Inr e by (cases e; auto)+
      obtain xs where xs: "map fst xs = ts" "batch_done c wl w1 xs w2" using work_on_all_done [OF all] by blast
      show ?thesis
        using step.IH [OF again step.prems] claimed [OF claim [unfolded Inr xs(1) [symmetric]] xs(2)] by blast
    qed
  qed
qed

section \<open>The outcomes are stored\<close>

lemma lawful_update_advances:
  assumes "lawful_update hist w k wid at f t'" and adv: "advances hist w w'"
  shows "lawful_update hist w' k wid at f t'"
proof -
  from assms(1) obtain t u where t: "tState t = CLAIMED" "owner t = Some wid" "f t = Inr u"
      "t' = set_version (version_of t') (set_modified at u)" and over: "updated_over hist w k t t'"
    unfolding lawful_update_def by (elim exE conjE) (rule that)
  show ?thesis
    unfolding lawful_update_def
    by (intro exI conjI, rule t(1), rule t(2), rule t(3), rule t(4), rule updated_over_advances [OF over adv])
qed

fun stored_outcome :: "('w, PersistedTaskData) history \<Rightarrow> 'w \<Rightarrow> worker_id \<Rightarrow> work_event \<Rightarrow> bool" where
  "stored_outcome hist w wid (MarkedDone q i d) \<longleftrightarrow>
     (\<exists>at t. lawful_update hist w (BuildIndexName q, i) wid at (IntoDone wid at (Some d)) t)"
| "stored_outcome hist w wid (MarkedFailed q i d) \<longleftrightarrow>
     (\<exists>at r t. lawful_update hist w (BuildIndexName q, i) wid at (IntoFailed r wid at (Some d)) t)"
| "stored_outcome hist w wid _ \<longleftrightarrow> False"

lemma stored_outcome_advances:
  "stored_outcome hist w wid ev \<Longrightarrow> advances hist w w' \<Longrightarrow> stored_outcome hist w' wid ev"
  using lawful_update_advances by (cases ev) (simp, simp, fastforce, fastforce)

lemma NameFromString_same: "NameFromString L s = Inr q \<Longrightarrow> q = s"
  by (simp add: NameFromString_def Let_def split: if_splits)

lemma worker_id_trimmed: "getWorkerIdOrErr header = Inr wid \<Longrightarrow> wid = TrimSpace header"
  by (simp add: getWorkerIdOrErr_def Let_def split: if_splits)

lemma outcome_served:
  assumes store: "task_store e hist" and ok: "rspStatus rsp = 200"
  shows "served L (NewService e cfg) conf (MarkDoneReq h q i d) w = Some (w', rsp) \<Longrightarrow>
      stored_outcome hist w' (TrimSpace h) (MarkedDone q i d)"
    and "served L (NewService e cfg) conf (MarkFailedReq h q i d) w = Some (w', rsp) \<Longrightarrow>
      stored_outcome hist w' (TrimSpace h) (MarkedFailed q i d)"
proof -
  assume "served L (NewService e cfg) conf (MarkDoneReq h q i d) w = Some (w', rsp)"
  then have call: "handle_markDone L (NewService e cfg) h q i (Inr (Some d)) w = (w', rsp)" by simp
  have "\<forall>wid q d v err. svcMarkDone (NewService e cfg) wid q i d w = (v, Inl err) \<longrightarrow> update_error err"
    by (intro allI impI) (rule es_service.done_err)
  from handled_cases [OF handlers_handled(2) call this] ok
  obtain q' wid t where r: "NameFromString L q = Inr q'" "getWorkerIdOrErr h = Inr wid"
      "svcMarkDone (NewService e cfg) wid q' i (Some d) w = (w', Inr t)" by auto
  then have "EsMarkDone e cfg wid q' i (Some d) w = (w', Inr t)" by (simp add: NewService_def)
  from updates_not_lost_done [OF store this] show "stored_outcome hist w' (TrimSpace h) (MarkedDone q i d)"
    using NameFromString_same [OF r(1)] worker_id_trimmed [OF r(2)] by auto
next
  assume "served L (NewService e cfg) conf (MarkFailedReq h q i d) w = Some (w', rsp)"
  then have call: "handle_markFailed L (NewService e cfg) h q i (Inr (Some d)) w = (w', rsp)" by simp
  have "\<forall>wid q d v err. svcMarkFailed (NewService e cfg) wid q i d w = (v, Inl err) \<longrightarrow> update_error err"
    by (intro allI impI) (rule es_service.failed_err)
  from handled_cases [OF handlers_handled(3) call this] ok
  obtain q' wid t where r: "NameFromString L q = Inr q'" "getWorkerIdOrErr h = Inr wid"
      "svcMarkFailed (NewService e cfg) wid q' i (Some d) w = (w', Inr t)" by auto
  then have "EsMarkFailed e cfg wid q' i (Some d) w = (w', Inr t)" by (simp add: NewService_def)
  from updates_not_lost_failed [OF store this] show "stored_outcome hist w' (TrimSpace h) (MarkedFailed q i d)"
    using NameFromString_same [OF r(1)] worker_id_trimmed [OF r(2)] by auto
qed

lemma submit_update_None:
  assumes "submit_update submit req w = (w', None)"
  shows "\<exists>rsp. submit req w = (w', Some rsp) \<and> rspStatus rsp = 200"
  using assms
  by (auto simp: submit_update_def ReadTaskResponse_def split: prod.splits option.splits if_splits)

lemma outcome_event_cases:
  obtains d where "outcome_event t r f = MarkedDone (atQueue t) (atID t) d"
  | d where "outcome_event t r f = MarkedFailed (atQueue t) (atID t) d"
  by (cases f; cases r) (simp_all add: outcome_event_def)

lemma send_outcome_stored:
  assumes store: "task_store e hist"
    and del: "delivers (answered_by L (NewService e cfg) conf) hist submit"
    and sent: "send_outcome (generated_client submit stop) h (outcome_event t r f) w = (w', None)"
  shows "stored_outcome hist w' (TrimSpace h) (outcome_event t r f)"
proof -
  have answer: "\<exists>w0 w1 rsp. served L (NewService e cfg) conf req w0 = Some (w1, rsp) \<and> rspStatus rsp = 200 \<and>
      advances hist w1 w'" if "submit_update submit req w = (w', None)" for req
    using submit_update_None [OF that] del unfolding delivers_def answered_by_def by blast
  show ?thesis
  proof (cases rule: outcome_event_cases [of t r f])
    case marked: (1 d)
    then have "submit_update submit (MarkDoneReq h (atQueue t) (atID t) d) w = (w', None)"
      using sent by (simp add: generated_client_def)
    from answer [OF this] obtain w0 w1 rsp where
      a: "served L (NewService e cfg) conf (MarkDoneReq h (atQueue t) (atID t) d) w0 = Some (w1, rsp)" "rspStatus rsp = 200"
        "advances hist w1 w'" by blast
    from outcome_served(1) [OF store a(2,1)] show ?thesis unfolding marked by (rule stored_outcome_advances) (fact a)
  next
    case failed: (2 d)
    then have "submit_update submit (MarkFailedReq h (atQueue t) (atID t) d) w = (w', None)"
      using sent by (simp add: generated_client_def)
    from answer [OF this] obtain w0 w1 rsp where
      a: "served L (NewService e cfg) conf (MarkFailedReq h (atQueue t) (atID t) d) w0 = Some (w1, rsp)" "rspStatus rsp = 200"
        "advances hist w1 w'" by blast
    from outcome_served(2) [OF store a(2,1)] show ?thesis unfolding failed by (rule stored_outcome_advances) (fact a)
  qed
qed

lemma claimed_held:
  assumes del: "delivers (answered_by L (NewService e cfg) conf) hist submit"
    and claim: "submit_claim submit (ClaimTasksReq h p) w = (w', Inr ts)" and t: "t \<in> set ts"
  shows "\<exists>dt. t = FromDomainTask dt \<and> held_by (TrimSpace h) dt"
proof -
  obtain rsp where rsp: "submit (ClaimTasksReq h p) w = (w', Some rsp)" "rspStatus rsp = 200" "rspBody rsp = TasksBody ts"
    using claim by (auto simp: submit_claim_def ReadClaimResponse_def
        split: prod.splits option.splits if_splits body.splits)
  obtain w0 w1 where "served L (NewService e cfg) conf (ClaimTasksReq h p) w0 = Some (w1, rsp)"
    using del rsp(1) unfolding delivers_def answered_by_def by blast
  then have "handle_claim L (NewService e cfg) conf h (claim_body p) w0 = Some (w1, rsp)" by simp
  from es_service.claim_replied [OF this rsp(2)] show ?thesis
    using rsp(3) t worker_id_trimmed by fastforce
qed

definition handlers_advance :: "'w WorkLoop \<Rightarrow> ('w, 'd) history \<Rightarrow> bool" where
  "handlers_advance wl hist \<longleftrightarrow>
     (\<forall>q handler h w. wlHandlers wl q = Some handler \<longrightarrow> advances hist w (fst (handler h w)))"

lemma submits_advance:
  assumes del: "delivers answers hist submit"
  shows "advances hist w (fst (submit_update submit req w))" and "advances hist w (fst (submit_claim submit req w))"
proof -
  have "advances hist w (fst (submit req w))" using del unfolding delivers_def by blast
  then show "advances hist w (fst (submit_update submit req w))" "advances hist w (fst (submit_claim submit req w))"
    by (cases "submit req w"; cases "snd (submit req w)"; simp add: submit_update_def submit_claim_def)+
qed

lemma send_outcome_advances:
  assumes "delivers answers hist submit"
  shows "advances hist w (fst (send_outcome (generated_client submit stop) h ev w))"
  by (cases ev) (simp_all add: generated_client_def submits_advance [OF assms])

lemma batch_stored:
  assumes "batch_done (generated_client submit stop) wl w xs w'" and store: "task_store e hist"
    and del: "delivers (answered_by L (NewService e cfg) conf) hist submit" and hands: "handlers_advance wl hist"
  shows "advances hist w w' \<and>
    (\<forall>(t, r, f) \<in> set xs. stored_outcome hist w' (TrimSpace (wlWorkerId wl)) (outcome_event t r f))"
  using assms(1)
proof induction
  case (no_more w)
  then show ?case by simp
next
  case (one_more t handler w w1 r f w2 xs w')
  have "advances hist w w1"
    using hands one_more.hyps(1,2) unfolding handlers_advance_def by (metis fst_conv)
  also have "advances hist w1 w2"
    using send_outcome_advances [OF del, of w1 stop "wlWorkerId wl" "outcome_event t r f"] one_more.hyps(3) by simp
  also have rest: "advances hist w2 w'" using one_more.IH by blast
  finally have adv: "advances hist w w'" .
  have "stored_outcome hist w' (TrimSpace (wlWorkerId wl)) (outcome_event t r f)"
    using send_outcome_stored [OF store del one_more.hyps(3)] rest by (rule stored_outcome_advances)
  then show ?case using adv one_more.IH by auto
qed

lemma worker_stored:
  assumes "worker_ran (generated_client submit stop) wl p w batches w'" and store: "task_store e hist"
    and del: "delivers (answered_by L (NewService e cfg) conf) hist submit" and hands: "handlers_advance wl hist"
  shows "advances hist w w' \<and>
    (\<forall>xs \<in> set batches. \<forall>(t, r, f) \<in> set xs.
       (\<exists>dt. t = FromDomainTask dt \<and> held_by (TrimSpace (wlWorkerId wl)) dt) \<and>
       stored_outcome hist w' (TrimSpace (wlWorkerId wl)) (outcome_event t r f))"
  using assms(1)
proof induction
  case (stopped w)
  then show ?case by simp
next
  case (claim_refused w w1 err batches w')
  have "advances hist w w1"
    using submits_advance(2) [OF del, of w "ClaimTasksReq (wlWorkerId wl) p"] claim_refused.hyps(1)
    by (simp add: generated_client_def)
  from advances_trans [OF this] show ?case using claim_refused.IH by simp
next
  case (claimed w w1 xs w2 batches w')
  have c: "submit_claim submit (ClaimTasksReq (wlWorkerId wl) p) w = (w1, Inr (map fst xs))"
    using claimed.hyps(1) by (simp add: generated_client_def)
  have "advances hist w w1" using submits_advance(2) [OF del, of w "ClaimTasksReq (wlWorkerId wl) p"] c by simp
  also note b = batch_stored [OF claimed.hyps(2) store del hands]
  have "advances hist w1 w2" using b by blast
  also have rest: "advances hist w2 w'" using claimed.IH by blast
  finally have adv: "advances hist w w'" .
  have "\<forall>(t, r, f) \<in> set xs. (\<exists>dt. t = FromDomainTask dt \<and> held_by (TrimSpace (wlWorkerId wl)) dt) \<and>
      stored_outcome hist w' (TrimSpace (wlWorkerId wl)) (outcome_event t r f)"
  proof clarify
    fix t r f assume x: "(t, r, f) \<in> set xs"
    then have "t \<in> set (map fst xs)" by force
    from claimed_held [OF del c this]
    have held: "\<exists>dt. t = FromDomainTask dt \<and> held_by (TrimSpace (wlWorkerId wl)) dt" .
    have "stored_outcome hist w2 (TrimSpace (wlWorkerId wl)) (outcome_event t r f)" using b x by blast
    from conjI [OF held stored_outcome_advances [OF this rest]]
    show "(\<exists>dt. t = FromDomainTask dt \<and> held_by (TrimSpace (wlWorkerId wl)) dt) \<and>
        stored_outcome hist w' (TrimSpace (wlWorkerId wl)) (outcome_event t r f)" .
  qed
  then show ?case using adv claimed.IH by simp
qed

text \<open>
  C11: from the worker to the history of the documents. When a worker stops without an error, then
  every task of every batch it claimed was claimed for it, handled once, and the outcome its handler returned is in
  the history of the task's document: computed from a version claimed by this worker and written directly on top
  of it, whatever the other workers and servers did at the same time.
\<close>

theorem worker_outcomes_stored:
  assumes store: "task_store e hist"
    and del: "delivers (answered_by L (NewService e cfg) conf) hist submit"
    and hands: "handlers_advance wl hist"
    and run: "work_run (generated_client submit stop) wl queueNames w = Some (w', None)"
  shows "\<exists>batches. worker_ran (generated_client submit stop) wl (claim_request wl queueNames) w batches w' \<and>
    (\<forall>xs \<in> set batches. \<forall>(t, r, f) \<in> set xs.
       (\<exists>dt. t = FromDomainTask dt \<and> held_by (TrimSpace (wlWorkerId wl)) dt) \<and>
       stored_outcome hist w' (TrimSpace (wlWorkerId wl)) (outcome_event t r f))"
proof -
  obtain batches where b: "worker_ran (generated_client submit stop) wl (claim_request wl queueNames) w batches w'"
    using work_loop_ran [of "generated_client submit stop" wl "claim_request wl queueNames" w "(w', None)"] run
    by (auto simp: work_run_def)
  from worker_stored [OF b store del hands] b show ?thesis by blast
qed

section \<open>Claims that do not block\<close>

text \<open>
  A claim is answered only after a look at the queues if there is time for one: with nothing to wait for,
  not even one search is made. The worker rounds its time to milliseconds, so with less than one it polls for
  ever without being given a task.
\<close>

lemma short_blocking_claims_nothing:
  assumes clock: "clock_ok e clock" and short: "\<bar>twBlockFor tw\<bar> < 1000000"
  shows "\<exists>w'. EsClaim e conf wid qs n (cpBlockForMs (claim_request (NewWorkLoop tw handlers) qs) * 1000000) w
    = Some (w', Inr [])"
proof -
  have zero: "cpBlockForMs (claim_request (NewWorkLoop tw handlers) qs) = 0"
    using short by (simp add: claim_request_def NewWorkLoop_def signed_divide_int_def)
  obtain w1 t0 where u0: "EsCommon.getUTC e w = (w1, t0)" by fastforce
  obtain w2 t1 where u1: "EsCommon.getUTC e w1 = (w2, t1)" by fastforce
  have "t0 \<le> t1"
    using clock u0 u1 unfolding clock_ok_def by (metis fst_conv snd_conv order_trans)
  then have "\<not> time_sub t1 t0 < 0" by (auto simp: time_sub_def max_duration_def min_def max_def)
  then have "EsClaim e conf wid qs n 0 w = Some (if n = 0 then w1 else w2, Inr [])"
    by (simp add: EsClaim_def u0 claim_loop.simps [of e conf wid qs n t0 0 _ True "[]" w1] u1 word_gt_0)
  then show ?thesis using zero by auto
qed

end
