(* ===== verification/WorkerSystemExamples.thy ===== *)
theory WorkerSystemExamples
  imports WorkerSystem ApiExamples
begin

text \<open>
  A worker and a server over the store of \<open>EsInMemory\<close>: it claims the one task there is, handles it, marks it as
  done, and is then told to stop.
\<close>

section \<open>The history of the task\<close>

definition after_claim :: task_world where
  "after_claim = (1006, (\<lambda>_. [])(example_key :=
     [(Some (ToPersistedTask example_won), next_version 1), (Some (ToPersistedTask example_task), next_version 0)]))"

definition example_finished :: Task where
  "example_finished = set_modified 1006 (example_won\<lparr>tState := DONE,
     tLastClaimed := Some \<lparr>lcWorkerId = ''w1'', lcClaimedAt = 1005, lcTimesOutAt = 1035, lcLastReport = None,
       lcResult = Some \<lparr>resAt = 1006, resFailure = None, resSuccess = Some []\<rparr>\<rparr>\<rparr>)"

definition after_done :: task_world where
  "after_done = (1007, (\<lambda>_. [])(example_key :=
     [(Some (ToPersistedTask example_finished), next_version 2),
      (Some (ToPersistedTask example_won), next_version 1), (Some (ToPersistedTask example_task), next_version 0)]))"

lemma example_keys: "task_key example_task = example_key" "task_key example_won = example_key"
  "task_key example_finished = example_key"
  by (simp_all add: task_key_def example_key_def example_finished_def example_won_def example_read_def
      example_task_def set_version_def set_modified_def)

lemma stored_key: "task_at k (ToPersistedTask t) \<longleftrightarrow> k = task_key t"
  by (simp add: task_at_def task_key_def ToPersistedTask_def)

lemma example_histories:
  "task_hist (example_world example_task) =
     (\<lambda>_. [])(example_key := [(Some (ToPersistedTask example_task), next_version 0)])"
  "task_hist after_claim = (\<lambda>_. [])(example_key :=
     [(Some (ToPersistedTask example_won), next_version 1), (Some (ToPersistedTask example_task), next_version 0)])"
  "task_hist after_done = (\<lambda>_. [])(example_key :=
     [(Some (ToPersistedTask example_finished), next_version 2),
      (Some (ToPersistedTask example_won), next_version 1), (Some (ToPersistedTask example_task), next_version 0)])"
  by (simp_all add: fun_eq_iff mem_hist_def key_ok_def stored_key example_keys next_version_def
      example_world_def after_claim_def after_done_def)

lemma example_advances:
  "advances task_hist (example_world example_task) after_claim" "advances task_hist after_claim after_done"
  by (simp_all add: advances_def example_histories suffix_Cons)

lemma make_claim_after:
  "makeClaim example_env ''w1'' [example_read] (1005, snd (example_world example_task)) = (after_claim, Inr [example_won])"
proof -
  have "fst (makeClaim example_env ''w1'' [example_read] (1005, snd (example_world example_task))) = after_claim"
    by (simp add: makeClaim_def example_env_def example_read_def example_won_def example_task_def after_claim_def
        bulkUpdateTasks_def sendBulk_def buildTasksBulkUpdateNdJson_def buildUpdateBulkOp_def
        mem_locked_write_def mem_write_def mem_hist_def example_world_def example_key_def key_ok_def task_at_def
        IntoClaimed_def set_version_def set_modified_def ToPersistedTask_def next_version_def
        mem_bulk_reply_def mem_item_def item_info_def Info_def IsOk_def ItemInfo_Version_def go_time
        lastClaimed_toPersisted_def BuildIndexName_def Let_def)
  then show ?thesis using example_make_claim by (metis prod.collapse)
qed

lemma claim_after:
  "EsClaim example_env example_conf ''w1'' [''run-later''] 1 1000000 (example_world example_task)
     = Some (after_claim, Inr [example_won])"
proof -
  let ?d = "snd (example_world example_task)" and ?qs = "[''run-later'']"
  have read: "mem_read task_at example_key (c, ?d) = Some (ToPersistedTask example_task, next_version 0)" for c
    by (simp add: mem_read_example example_keys)
  have hit: "ToDomainTask (mem_hit example_key (ToPersistedTask example_task, next_version 0)) = example_read"
    by (simp add: ToDomainTask_def example_read_def set_version_def)
  have window: "claim_window example_env ''w1'' 1 [example_read] 0 [] (1005, ?d) = (after_claim, Inr [example_won])"
    using make_claim_after
    by (subst claim_window.simps, subst claim_window.simps)
      (simp add: go_slice_def minInt_def targetClaimsLength_def)
  have search: "search_loop example_env ?qs 2 1000 1000000 500000 True [] (1002, ?d) = Some ((1004, ?d), Inr [example_read])"
    by (subst search_loop.simps, subst search_loop.simps)
      (simp add: utc example_search read hit time_sub_def min_duration_def max_duration_def)
  have touched: "markAllTouched example_env ?qs (1004, ?d) = (1005, ?d)"
    by (simp add: markAllTouched_def markTouched_def utc) (simp add: example_env_def)
  have once: "searchAndClaim example_env example_conf ''w1'' ?qs 1 1000 1000000 500000 (1002, ?d) = Some (after_claim, Inr [example_won])"
    by (simp add: searchAndClaim_def example_conf_def search touched window)
  have wait: "retryWait example_conf 1000000 = 500000"
    by (simp add: retryWait_def example_conf_def)
  have "claim_loop example_env example_conf ''w1'' ?qs 1 1000 1000000 500000 True [] (1001, ?d) = Some (after_claim, Inr [example_won])"
    by (subst claim_loop.simps, subst claim_loop.simps)
      (simp add: utc once time_sub_def min_duration_def max_duration_def)
  then show ?thesis by (simp add: EsClaim_def utc wait example_world_def)
qed

lemma done_after:
  "EsMarkDone example_env example_conf ''w1'' ''run-later'' ''t1'' (Some []) after_claim
     = (after_done, Inr (set_version (next_version 2) example_finished))"
proof -
  let ?w = "(1007, snd after_claim)" and ?u = "example_won\<lparr>tState := DONE,
     tLastClaimed := Some \<lparr>lcWorkerId = ''w1'', lcClaimedAt = 1005, lcTimesOutAt = 1035, lcLastReport = None,
       lcResult = Some \<lparr>resAt = 1006, resFailure = None, resSuccess = Some []\<rparr>\<rparr>\<rparr>"
  have key: "(BuildIndexName ''run-later'', ''t1'') = example_key" by (simp add: example_key_def)
  have hist: "mem_hist task_at ?w = task_hist after_claim" by (simp add: fun_eq_iff mem_hist_def)
  have "mem_read task_at example_key ?w = Some (ToPersistedTask example_won, next_version 1)"
    by (simp add: mem_read_def hist example_histories)
  then have read: "EsGet example_env ''run-later'' ''t1'' ?w = (?w, Inr example_won)"
    by (simp add: EsGet_def example_env_def key ToDomainTask_def)
      (simp add: example_won_def set_version_def next_version_def)
  have op: "IntoDone ''w1'' 1006 (Some []) example_won = Inr ?u"
    by (simp add: IntoDone_def check_claim_def example_won_def set_version_def set_modified_def)
  have v: "version_of ?u = next_version 1"
    by (simp add: version_of_def example_won_def set_version_def set_modified_def next_version_def)
  have "mem_locked_write task_at example_key (ToPersistedTask example_finished) (lock_data (next_version 1)) ?w = Some after_done"
    by (simp add: mem_locked_write_def hist example_histories)
      (simp add: mem_write_def key_ok_def stored_key example_keys after_claim_def after_done_def next_version_def)
  then have "IndexRequest example_env (BuildIndexName ''run-later'') ''t1'' (ToPersistedTask example_finished)
      (Some (lock_data (next_version 1))) ?w =
      (after_done, Response 200 (Some \<lparr>urIndex = BuildIndexName ''run-later'', urID = ''t1'', urSeqNum = 2,
         urPrimaryTerm = 1, urResult = ''updated''\<rparr>))"
    by (simp add: example_env_def key) (simp add: after_claim_def next_version_def)
  then have "getAndUpdate example_env ''run-later'' ''t1'' (\<lambda>t w. (w, IntoDone ''w1'' 1006 (Some []) t)) 1006 ?w =
      (after_done, Inr (set_version (next_version 2) example_finished))"
    using v op by (simp add: getAndUpdate_def read status_2xx_def EsUpdateResponse_Version_def Let_def
        example_finished_def [symmetric] next_version_def)
  then show ?thesis
    by (simp add: EsMarkDone_def markComplete_def retry_conflict_def utc) (simp add: after_claim_def)
qed

section \<open>The worker\<close>

text \<open>A transport that reaches the server; what would not advance the history is not delivered.\<close>

definition memory_transport :: "task_world transport" where
  "memory_transport req w =
     (case served lower example_service (Defaults example_conf) req w of
        None \<Rightarrow> (w, None)
      | Some (w', rsp) \<Rightarrow> if advances task_hist w w' then (w', Some rsp) else (w, None))"

lemma memory_delivers:
  "delivers (answered_by lower example_service (Defaults example_conf)) task_hist memory_transport"
  unfolding delivers_def answered_by_def
proof (intro conjI allI impI)
  fix req :: client_request and w :: task_world
  show "advances task_hist w (fst (memory_transport req w))"
    by (simp add: memory_transport_def split: option.split prod.split)
next
  fix req :: client_request and w w' :: task_world and rsp
  assume "memory_transport req w = (w', Some rsp)"
  then have "served lower example_service (Defaults example_conf) req w = Some (w', rsp)"
    by (simp add: memory_transport_def split: option.splits prod.splits if_splits)
  then show "\<exists>w0 w1. advances task_hist w w0 \<and>
      served lower example_service (Defaults example_conf) req w0 = Some (w1, rsp) \<and> advances task_hist w1 w'"
    by (intro exI [of _ w] exI [of _ w'] conjI advances_refl)
qed

text \<open>The worker is told to stop once the task is done.\<close>

definition memory_client :: "task_world tasques_client" where
  "memory_client = generated_client memory_transport (\<lambda>w. length (snd w example_key) - 2)"

definition memory_worker :: "task_world WorkLoop" where
  "memory_worker = NewWorkLoop \<lparr>twID = ''w1'', twClaimAmount = 1, twBlockFor = 1500000, twLoopStopTimeout = 5\<rparr>
     [''run-later'' \<mapsto> \<lambda>h w. (w, Some [], None)]"

lemma memory_claims:
  "ClaimTasks memory_client ''w1'' (claim_request memory_worker [''run-later'']) (example_world example_task)
     = (after_claim, Inr [FromDomainTask example_won])"
proof -
  have body: "claim_body (claim_request memory_worker [''run-later'']) =
      Inr \<lparr>acQueues = Some [''run-later''], acAmount = Some 1, acBlockFor = Some 1000000\<rparr>"
    by (simp add: claim_body_def claim_request_def memory_worker_def NewWorkLoop_def)
  have worker: "getWorkerIdOrErr ''w1'' = Inr ''w1''" by code_simp
  have "handle_claim lower example_service (Defaults example_conf) ''w1''
      (claim_body (claim_request memory_worker [''run-later''])) (example_world example_task) =
      Some (after_claim, respond 200 (TasksBody [FromDomainTask example_won]))"
    using claim_after
    by (simp add: handle_claim_def worker body bind_def valid_claim_def QueueNameValidator_def example_queue
        ctlClaim_def NewService_def)
  then show ?thesis
    using example_advances(1)
    by (simp add: memory_client_def generated_client_def submit_claim_def memory_transport_def ReadClaimResponse_def
        respond_def)
qed

lemma memory_done:
  "MarkClaimedTaskDone memory_client ''w1'' ''run-later'' ''t1'' [] after_claim = (after_done, None)"
proof -
  have worker: "getWorkerIdOrErr ''w1'' = Inr ''w1''" by code_simp
  have "handle_markDone lower example_service ''w1'' ''run-later'' ''t1'' (Inr (Some [])) after_claim =
      (after_done, respond 200 (TaskBody (FromDomainTask (set_version (next_version 2) example_finished))))"
    using done_after by (simp add: handle_markDone_def bind_def example_queue worker ctlMarkDone_def
        answer_to_api reply_of_def NewService_def)
  then show ?thesis
    using example_advances(2)
    by (simp add: memory_client_def generated_client_def submit_update_def memory_transport_def ReadTaskResponse_def
        respond_def)
qed

lemma memory_run:
  "work_run memory_client memory_worker [''run-later''] (example_world example_task) = Some (after_done, None)"
proof -
  have won: "atQueue (FromDomainTask example_won) = ''run-later''" "atID (FromDomainTask example_won) = ''t1''"
    by (simp_all add: FromDomainTask_def example_won_def example_read_def example_task_def set_version_def set_modified_def)
  have stop: "stopSignal memory_client (example_world example_task) = 0" "stopSignal memory_client after_done = 1"
    by (simp_all add: memory_client_def generated_client_def example_world_def after_done_def)
  have w: "wlWorkerId memory_worker = ''w1''" "wlHandlers memory_worker ''run-later'' = Some (\<lambda>h w. (w, Some [], None))"
    by (simp_all add: memory_worker_def NewWorkLoop_def)
  show ?thesis
    unfolding work_run_def
    by (subst work_loop.simps, subst work_loop.simps)
      (simp add: stop memory_claims w won work_on_def IsUnclaimed_def workMarkSuccess_def memory_done)
qed

theorem worker_outcomes_stored_witness:
  "\<exists>batches. worker_ran memory_client memory_worker (claim_request memory_worker [''run-later''])
       (example_world example_task) batches after_done \<and>
     (\<forall>xs \<in> set batches. \<forall>(t, r, f) \<in> set xs. stored_outcome task_hist after_done ''w1'' (outcome_event t r f))"
proof -
  have "handlers_advance memory_worker task_hist"
    by (simp add: handlers_advance_def memory_worker_def NewWorkLoop_def)
  moreover have "TrimSpace (wlWorkerId memory_worker) = ''w1''"
    by (simp add: memory_worker_def NewWorkLoop_def) code_simp
  ultimately show ?thesis
    using worker_outcomes_stored [OF example_store memory_delivers _ memory_run [unfolded memory_client_def]]
    unfolding memory_client_def by fastforce
qed

end
