(* ===== verification/WorkerShutdown.thy ===== *)
theory WorkerShutdown
  imports WorkLoop
begin

text \<open>
  The process of a worker, \<open>Run\<close>, \<open>stop\<close> and \<open>shutdown\<close> of \<open>worker/work_loop.go\<close>: the work loop in
  a goroutine of its own, beside the main one that waits for a signal, sets the stop flag and gives the loop
  \<open>loopStopTimeout\<close> to finish. \<open>log.Fatal\<close> ends the process at once, whatever it is doing.
\<close>

section \<open>The process\<close>

text \<open>
  The second half of \<open>work_on\<close>: a handler has returned, its outcome is sent.
\<close>

definition send_outcome ::
  "'w tasques_client \<Rightarrow> 'w WorkLoop \<Rightarrow> ApiTask \<Rightarrow> json_obj option \<Rightarrow> json_obj option \<Rightarrow> 'w \<Rightarrow> 'w \<times> client_error option" where
  "send_outcome c wl t result err w =
     (case err of
        Some failure \<Rightarrow> workMarkFailed c wl t failure w
      | None \<Rightarrow> (case result of Some success \<Rightarrow> workMarkSuccess c wl t success w
                 | None \<Rightarrow> workMarkFailed c wl t no_results w))"

definition new_handle :: "'w WorkLoop \<Rightarrow> ApiTask \<Rightarrow> TaskHandle" where
  "new_handle wl t = \<lparr>hTask = t, hWorkerId = wlWorkerId wl, hUnclaimed = 0\<rparr>"

lemma work_on_halves:
  "work_on c wl t w =
     (case wlHandlers wl (atQueue t) of
        None \<Rightarrow> (w, Some (NoHandler (atQueue t)))
      | Some handler \<Rightarrow>
          (case handler (new_handle wl t) w of (w1, result, err) \<Rightarrow>
             (case send_outcome c wl t result err w1 of
                (w2, Some _) \<Rightarrow> (w2, Some (HandlerError err))
              | (w2, None) \<Rightarrow> (w2, None))))"
  by (simp add: work_on_def send_outcome_def new_handle_def IsUnclaimed_def Let_def split: option.splits prod.splits)

datatype main_phase = AwaitingSignal | ShuttingDown | Returned | Killed

text \<open>
  Where the loop is: at its test of the stop flag, past it, with the tasks of a batch left to do, with an outcome to
  send before them, or over, when it has written to \<open>loopStopNotifier\<close>.
\<close>

datatype loop_phase =
    AtTop
  | Claiming
  | Working "ApiTask list"
  | Sending ApiTask "json_obj option" "json_obj option" "ApiTask list"
  | Notified

record 'w worker_process =
  wpMain :: main_phase
  wpLoop :: loop_phase
  wpWorld :: 'w

definition worker_starts :: "'w \<Rightarrow> 'w worker_process" where
  "worker_starts w = \<lparr>wpMain = AwaitingSignal, wpLoop = AtTop, wpWorld = w\<rparr>"

definition alive :: "'w worker_process \<Rightarrow> bool" where
  "alive s \<longleftrightarrow> wpMain s = AwaitingSignal \<or> wpMain s = ShuttingDown"

definition looping :: "loop_phase \<Rightarrow> 'w \<Rightarrow> 'w worker_process \<Rightarrow> 'w worker_process" where
  "looping l w s = s\<lparr>wpLoop := l, wpWorld := w\<rparr>"

definition killed :: "'w \<Rightarrow> 'w worker_process \<Rightarrow> 'w worker_process" where
  "killed w s = s\<lparr>wpMain := Killed, wpWorld := w\<rparr>"

text \<open>
  The main goroutine may act between any two steps of the loop, so the signal can come at its test, during a claim,
  between two tasks of a batch and between a handler's return and the sending of its outcome. \<open>set_stop\<close>
  stores the flag that \<open>stopSignal\<close> loads.
\<close>

inductive process_step ::
  "'w tasques_client \<Rightarrow> ('w \<Rightarrow> 'w) \<Rightarrow> 'w WorkLoop \<Rightarrow> claim_params \<Rightarrow> 'w worker_process \<Rightarrow> 'w worker_process \<Rightarrow> bool"
  for c set_stop wl p where
  loop_goes_on: "alive s \<Longrightarrow> wpLoop s = AtTop \<Longrightarrow> stopSignal c (wpWorld s) = 0 \<Longrightarrow>
    process_step c set_stop wl p s (looping Claiming (wpWorld s) s)"
| loop_ends: "alive s \<Longrightarrow> wpLoop s = AtTop \<Longrightarrow> stopSignal c (wpWorld s) > 0 \<Longrightarrow>
    process_step c set_stop wl p s (looping Notified (wpWorld s) s)"
| claim_ignored: "alive s \<Longrightarrow> wpLoop s = Claiming \<Longrightarrow>
    ClaimTasks c (wlWorkerId wl) p (wpWorld s) = (w1, Inl err) \<Longrightarrow> ignored_claim_error err \<Longrightarrow>
    process_step c set_stop wl p s (looping AtTop w1 s)"
| claim_fatal: "alive s \<Longrightarrow> wpLoop s = Claiming \<Longrightarrow>
    ClaimTasks c (wlWorkerId wl) p (wpWorld s) = (w1, Inl err) \<Longrightarrow> \<not> ignored_claim_error err \<Longrightarrow>
    process_step c set_stop wl p s (killed w1 s)"
| claimed: "alive s \<Longrightarrow> wpLoop s = Claiming \<Longrightarrow>
    ClaimTasks c (wlWorkerId wl) p (wpWorld s) = (w1, Inr ts) \<Longrightarrow>
    process_step c set_stop wl p s (looping (Working ts) w1 s)"
| no_handler: "alive s \<Longrightarrow> wpLoop s = Working (t # ts) \<Longrightarrow> wlHandlers wl (atQueue t) = None \<Longrightarrow>
    process_step c set_stop wl p s (killed (wpWorld s) s)"
| handled: "alive s \<Longrightarrow> wpLoop s = Working (t # ts) \<Longrightarrow> wlHandlers wl (atQueue t) = Some handler \<Longrightarrow>
    handler (new_handle wl t) (wpWorld s) = (w1, result, err) \<Longrightarrow>
    process_step c set_stop wl p s (looping (Sending t result err ts) w1 s)"
| sent: "alive s \<Longrightarrow> wpLoop s = Sending t result err ts \<Longrightarrow>
    send_outcome c wl t result err (wpWorld s) = (w1, None) \<Longrightarrow>
    process_step c set_stop wl p s (looping (Working ts) w1 s)"
| send_refused: "alive s \<Longrightarrow> wpLoop s = Sending t result err ts \<Longrightarrow>
    send_outcome c wl t result err (wpWorld s) = (w1, Some sendErr) \<Longrightarrow>
    process_step c set_stop wl p s (killed w1 s)"
| batch_over: "alive s \<Longrightarrow> wpLoop s = Working [] \<Longrightarrow>
    process_step c set_stop wl p s (looping AtTop (wpWorld s) s)"
| signalled: "wpMain s = AwaitingSignal \<Longrightarrow>
    process_step c set_stop wl p s (s\<lparr>wpMain := ShuttingDown, wpWorld := set_stop (wpWorld s)\<rparr>)"
| shut_down: "wpMain s = ShuttingDown \<Longrightarrow> wpLoop s = Notified \<Longrightarrow>
    process_step c set_stop wl p s (s\<lparr>wpMain := Returned\<rparr>)"
| timed_out: "wpMain s = ShuttingDown \<Longrightarrow> process_step c set_stop wl p s (s\<lparr>wpMain := Killed\<rparr>)"

inductive_cases process_stepE: "process_step c set_stop wl p s s'"

definition process_steps where
  "process_steps c set_stop wl p = (process_step c set_stop wl p)\<^sup>*\<^sup>*"

section \<open>The stop flag\<close>

text \<open>Only the signal sets the flag: it is a private field of the loop, which clients and handlers do not have.\<close>

definition flag_kept :: "'w tasques_client \<Rightarrow> 'w WorkLoop \<Rightarrow> bool" where
  "flag_kept c wl \<longleftrightarrow>
     (\<forall>i p w. stopSignal c (fst (ClaimTasks c i p w)) = stopSignal c w) \<and>
     (\<forall>i q t d w. stopSignal c (fst (MarkClaimedTaskDone c i q t d w)) = stopSignal c w) \<and>
     (\<forall>i q t d w. stopSignal c (fst (MarkClaimedTaskFailed c i q t d w)) = stopSignal c w) \<and>
     (\<forall>q handler h w. wlHandlers wl q = Some handler \<longrightarrow> stopSignal c (fst (handler h w)) = stopSignal c w)"

definition flag_ok :: "'w tasques_client \<Rightarrow> 'w worker_process \<Rightarrow> bool" where
  "flag_ok c s \<longleftrightarrow> (wpMain s = AwaitingSignal \<longrightarrow> stopSignal c (wpWorld s) = 0) \<and>
     (wpMain s = ShuttingDown \<or> wpMain s = Returned \<longrightarrow> 0 < stopSignal c (wpWorld s)) \<and>
     (wpLoop s = Notified \<longrightarrow> wpMain s \<noteq> AwaitingSignal \<and> 0 < stopSignal c (wpWorld s))"

lemma flag_rules:
  assumes "flag_kept c wl"
  shows "ClaimTasks c i p w = (w1, r) \<Longrightarrow> stopSignal c w1 = stopSignal c w"
    and "wlHandlers wl q = Some handler \<Longrightarrow> handler h w = (w1, hr) \<Longrightarrow> stopSignal c w1 = stopSignal c w"
    and "send_outcome c wl t res err w = (w1, e) \<Longrightarrow> stopSignal c w1 = stopSignal c w"
proof -
  note f = assms [unfolded flag_kept_def]
  show "ClaimTasks c i p w = (w1, r) \<Longrightarrow> stopSignal c w1 = stopSignal c w" using f by (metis fst_conv)
  show "wlHandlers wl q = Some handler \<Longrightarrow> handler h w = (w1, hr) \<Longrightarrow> stopSignal c w1 = stopSignal c w"
    using f by (metis fst_conv)
  have "MarkClaimedTaskDone c i q t d w = (w1, e) \<Longrightarrow> stopSignal c w1 = stopSignal c w"
    and "MarkClaimedTaskFailed c i q t d w = (w1, e) \<Longrightarrow> stopSignal c w1 = stopSignal c w" for i q t d
    using f by (metis fst_conv)+
  then show "send_outcome c wl t res err w = (w1, e) \<Longrightarrow> stopSignal c w1 = stopSignal c w"
    by (cases err; cases res) (simp_all add: send_outcome_def workMarkFailed_def workMarkSuccess_def)
qed

lemma process_step_flag:
  assumes kept: "flag_kept c wl" and stop: "\<And>w. 0 < stopSignal c (set_stop w)"
    and step: "process_step c set_stop wl p s s'" and ok: "flag_ok c s"
  shows "flag_ok c s'"
  using step
proof cases
  case (claim_ignored w1 err)
  then show ?thesis using ok flag_rules(1) [OF kept claim_ignored(4)] by (simp add: flag_ok_def looping_def)
next
  case (claim_fatal w1 err)
  then show ?thesis using ok by (simp add: flag_ok_def killed_def)
next
  case (claimed w1 ts)
  then show ?thesis using ok flag_rules(1) [OF kept claimed(4)] by (simp add: flag_ok_def looping_def)
next
  case (handled t ts handler w1 result err)
  then show ?thesis using ok flag_rules(2) [OF kept handled(4,5)] by (simp add: flag_ok_def looping_def)
next
  case (sent t result err ts w1)
  then show ?thesis using ok flag_rules(3) [OF kept sent(4)] by (simp add: flag_ok_def looping_def)
qed (use ok stop in \<open>auto simp: flag_ok_def looping_def killed_def alive_def\<close>)

section \<open>A worker that exits has lost nothing\<close>

text \<open>What the log holds: whole batches, and the part of a batch that is done.\<close>

definition whole_batches :: "work_event list \<Rightarrow> work_event list \<Rightarrow> bool" where
  "whole_batches before l \<longleftrightarrow> (\<exists>batches. l = before @ concat (map batch_events batches))"

definition part_batch :: "work_event list \<Rightarrow> ApiTask list \<Rightarrow> work_event list \<Rightarrow> bool" where
  "part_batch before ts l \<longleftrightarrow> (\<exists>l' xs. whole_batches before l' \<and>
     l = l' @ Claimed (map fst xs @ ts) # concat (map task_events xs))"

fun log_fits :: "work_event list \<Rightarrow> loop_phase \<Rightarrow> work_event list \<Rightarrow> bool" where
  "log_fits before (Working ts) l = part_batch before ts l"
| "log_fits before (Sending t r f ts) l = (\<exists>l'. part_batch before (t # ts) l' \<and> l = l' @ [Handled t r f])"
| "log_fits before _ l = whole_batches before l"

lemma batch_starts: "whole_batches before l \<Longrightarrow> part_batch before ts (l @ [Claimed ts])"
  unfolding part_batch_def by (intro exI [of _ l] exI [of _ "[]"]) simp

lemma batch_ends: "part_batch before [] l \<Longrightarrow> whole_batches before l"
  unfolding part_batch_def whole_batches_def
proof (elim exE conjE)
  fix l' xs batches
  assume "l' = before @ concat (map batch_events batches)" "l = l' @ Claimed (map fst xs @ []) # concat (map task_events xs)"
  then have "l = before @ concat (map batch_events (batches @ [xs]))" by (simp add: batch_events_def)
  then show "\<exists>batches. l = before @ concat (map batch_events batches)" by (rule exI)
qed

lemma task_ends: "part_batch before (t # ts) l \<Longrightarrow> part_batch before ts (l @ [Handled t r f, outcome_event t r f])"
  unfolding part_batch_def
proof (elim exE conjE)
  fix l' xs
  assume "whole_batches before l'" "l = l' @ Claimed (map fst xs @ t # ts) # concat (map task_events xs)"
  then show "\<exists>l' xs. whole_batches before l' \<and> l @ [Handled t r f, outcome_event t r f] =
      l' @ Claimed (map fst xs @ ts) # concat (map task_events xs)"
    by (intro exI [of _ l'] exI [of _ "xs @ [(t, r, f)]"]) (simp add: task_events_def)
qed

lemma sent_logs:
  assumes "logged c wl log" and "send_outcome c wl t r f w = (w1, None)"
  shows "log w1 = log w @ [outcome_event t r f]"
  using assms(2) logged_rules(3,4) [OF assms(1)]
  by (cases f; cases r) (auto simp: send_outcome_def outcome_event_def workMarkFailed_def workMarkSuccess_def)

definition process_ok :: "('w \<Rightarrow> work_event list) \<Rightarrow> work_event list \<Rightarrow> 'w worker_process \<Rightarrow> bool" where
  "process_ok log before s \<longleftrightarrow> wpMain s = Killed \<or>
     log_fits before (wpLoop s) (log (wpWorld s)) \<and> (wpMain s = Returned \<longrightarrow> wpLoop s = Notified)"

lemma process_step_ok:
  assumes logs: "logged c wl log" and stop: "\<And>w. log (set_stop w) = log w"
    and step: "process_step c set_stop wl p s s'" and ok: "process_ok log before s"
  shows "process_ok log before s'"
proof (cases "wpMain s = Killed")
  case True
  then show ?thesis using step by (auto elim!: process_stepE simp: alive_def)
next
  case False
  then have fits: "log_fits before (wpLoop s) (log (wpWorld s))" using ok by (simp add: process_ok_def)
  from step show ?thesis
  proof cases
    case (claim_ignored w1 err)
    have "log w1 = log (wpWorld s)" by (rule logged_rules(2) [OF logs claim_ignored(4)])
    then show ?thesis using claim_ignored fits by (auto simp: process_ok_def looping_def alive_def)
  next
    case (claimed w1 ts)
    have "log w1 = log (wpWorld s) @ [Claimed ts]" by (rule logged_rules(1) [OF logs claimed(4)])
    then show ?thesis
      using claimed fits batch_starts [of before "log (wpWorld s)" ts] by (auto simp: process_ok_def looping_def alive_def)
  next
    case (handled t ts handler w1 result err)
    have "log w1 = log (wpWorld s) @ [Handled t result err]"
      using logged_rules(5) [OF logs handled(4,5)] by (simp add: new_handle_def)
    then show ?thesis using handled fits by (auto simp: process_ok_def looping_def alive_def)
  next
    case (sent t result err ts w1)
    obtain l where l: "part_batch before (t # ts) l" "log (wpWorld s) = l @ [Handled t result err]"
      using fits sent(3) by auto
    have "log w1 = l @ [Handled t result err, outcome_event t result err]"
      using sent_logs [OF logs sent(4)] l(2) by simp
    then show ?thesis using sent task_ends [OF l(1)] by (auto simp: process_ok_def looping_def alive_def)
  next
    case batch_over
    then show ?thesis using fits batch_ends by (auto simp: process_ok_def looping_def alive_def)
  qed (use fits stop in \<open>auto simp: process_ok_def looping_def killed_def alive_def\<close>)
qed

text \<open>
  C12: the loop ends only when it has found the stop flag set, which only the signal sets; \<open>Run\<close> returns only after
  that, and a worker whose \<open>Run\<close> returned has lost none of the tasks it claimed, at whatever moment the signal came: each
  was handled exactly once, in the order they were claimed, and the server accepted the outcome its handler
  asked for. Otherwise the process was killed, by an error or because the time given to the loop ran out.
\<close>

theorem exited_worker_lost_nothing:
  assumes logs: "logged c wl log" and kept: "flag_kept c wl"
    and stop: "\<And>w. log (set_stop w) = log w \<and> 0 < stopSignal c (set_stop w)"
    and starts: "stopSignal c w = 0"
    and run: "process_steps c set_stop wl p (worker_starts w) s"
  shows "(wpLoop s = Notified \<longrightarrow> wpMain s \<noteq> AwaitingSignal \<and> 0 < stopSignal c (wpWorld s)) \<and>
    (wpMain s = Returned \<longrightarrow> wpLoop s = Notified \<and>
      (\<exists>batches. log (wpWorld s) = log w @ concat (map batch_events batches)))"
proof -
  have "process_ok log (log w) (worker_starts w) \<and> flag_ok c (worker_starts w)"
    using starts by (auto simp: process_ok_def flag_ok_def worker_starts_def whole_batches_def intro: exI [of _ "[]"])
  with run have "process_ok log (log w) s \<and> flag_ok c s"
    unfolding process_steps_def
    by (induction rule: rtranclp_induct) (use stop in \<open>auto intro: process_step_ok [OF logs] process_step_flag [OF kept]\<close>)
  then show ?thesis by (auto simp: process_ok_def flag_ok_def whole_batches_def)
qed

section \<open>An example\<close>

text \<open>One task is claimed; the signal comes when its handler has returned, before its outcome is sent.\<close>

definition finishing_client :: "(nat \<times> work_event list) tasques_client" where
  "finishing_client = (example_client False)\<lparr>stopSignal := fst,
     ClaimTasks := (\<lambda>i p w. ((fst w, snd w @ [Claimed [FromDomainTask example_task]]), Inr [FromDomainTask example_task]))\<rparr>"

lemma finishing_logged: "logged finishing_client example_loop snd"
  using example_logged by (auto simp: logged_def finishing_client_def)

lemma finishing_kept: "flag_kept finishing_client example_loop"
  by (auto simp: flag_kept_def finishing_client_def example_client_def example_loop_def NewWorkLoop_def split: if_splits)

definition set_flag :: "nat \<times> work_event list \<Rightarrow> nat \<times> work_event list" where
  "set_flag w = (1, snd w)"

definition finished_log :: "work_event list" where
  "finished_log = [Claimed [FromDomainTask example_task], Handled (FromDomainTask example_task) (Some []) None,
      MarkedDone ''run-later'' ''t1'' []]"

lemma finishing_run:
  "process_steps finishing_client set_flag example_loop p (worker_starts (0, []))
     \<lparr>wpMain = Returned, wpLoop = Notified, wpWorld = (1, finished_log)\<rparr>"
proof -
  let ?step = "process_step finishing_client set_flag example_loop p"
  let ?s = "\<lambda>m l w. \<lparr>wpMain = m, wpLoop = l, wpWorld = w\<rparr>"
  let ?t = "FromDomainTask example_task"
  let ?send = "Sending ?t (Some []) None []"
  note defs = alive_def looping_def finishing_client_def example_client_def example_loop_def NewWorkLoop_def
    set_flag_def finished_log_def send_outcome_def workMarkSuccess_def
  have 1: "?step (?s AwaitingSignal AtTop (0, [])) (?s AwaitingSignal Claiming (0, []))"
    using loop_goes_on [of "?s AwaitingSignal AtTop (0, [])" finishing_client set_flag example_loop p] by (simp add: defs)
  have 2: "?step (?s AwaitingSignal Claiming (0, [])) (?s AwaitingSignal (Working [?t]) (0, take 1 finished_log))"
    using claimed [of "?s AwaitingSignal Claiming (0, [])" finishing_client example_loop p
        "(0, take 1 finished_log)" "[?t]" set_flag] by (simp add: defs)
  have 3: "?step (?s AwaitingSignal (Working [?t]) (0, take 1 finished_log)) (?s AwaitingSignal ?send (0, take 2 finished_log))"
    using handled [of "?s AwaitingSignal (Working [?t]) (0, take 1 finished_log)" ?t "[]" example_loop
        "the (wlHandlers example_loop ''run-later'')" "(0, take 2 finished_log)" "Some []" None finishing_client set_flag p]
    by (simp add: defs new_handle_def)
  have 4: "?step (?s AwaitingSignal ?send (0, take 2 finished_log)) (?s ShuttingDown ?send (1, take 2 finished_log))"
    using signalled [of "?s AwaitingSignal ?send (0, take 2 finished_log)" finishing_client set_flag example_loop p]
    by (simp add: defs)
  have 5: "?step (?s ShuttingDown ?send (1, take 2 finished_log)) (?s ShuttingDown (Working []) (1, finished_log))"
    using sent [of "?s ShuttingDown ?send (1, take 2 finished_log)" ?t "Some []" None "[]" finishing_client example_loop
        "(1, finished_log)" set_flag p] by (simp add: defs)
  have 6: "?step (?s ShuttingDown (Working []) (1, finished_log)) (?s ShuttingDown AtTop (1, finished_log))"
    using batch_over [of "?s ShuttingDown (Working []) (1, finished_log)" finishing_client set_flag example_loop p]
    by (simp add: alive_def looping_def)
  have 7: "?step (?s ShuttingDown AtTop (1, finished_log)) (?s ShuttingDown Notified (1, finished_log))"
    using loop_ends [of "?s ShuttingDown AtTop (1, finished_log)" finishing_client set_flag example_loop p]
    by (simp add: alive_def looping_def finishing_client_def)
  have 8: "?step (?s ShuttingDown Notified (1, finished_log)) (?s Returned Notified (1, finished_log))"
    using shut_down [of "?s ShuttingDown Notified (1, finished_log)" finishing_client set_flag example_loop p] by simp
  note on = converse_rtranclp_into_rtranclp [of ?step]
  show ?thesis
    unfolding process_steps_def worker_starts_def
    by (rule on [OF 1 on [OF 2 on [OF 3 on [OF 4 on [OF 5 on [OF 6 on [OF 7 r_into_rtranclp [of ?step, OF 8]]]]]]]])
qed

theorem exited_worker_lost_nothing_witness:
  "0 < stopSignal finishing_client (1, finished_log) \<and> (\<exists>batches. finished_log = concat (map batch_events batches))"
  using exited_worker_lost_nothing [OF finishing_logged finishing_kept _ _ finishing_run [of undefined]]
  by (simp add: set_flag_def finishing_client_def)

end
