(* ===== verification/LeaderRunner.thy ===== *)
theory LeaderRunner
  imports RecurringSystem
begin

text \<open>
  The runner of the internal recurring functions, \<open>internal/domain/leader/recurring.go\<close>, and
  the functions that the server runs with it (\<open>buildRecurringRunner\<close> and
  \<open>buildWhenLeaderFunction\<close> of \<open>internal/infra/server/components.go\<close>).

  Every function has a goroutine of its own, so the runner is a step relation over the phases of these
  threads. The test of \<open>shouldRun\<close>, the reading of the clock, the call of the function, its question to the
  leader lock, its return and the end of the thread's sleep are steps of their own, and anything may happen
  between two of them: other threads, the rest of the world, the stop of the runner, a change of the wall clock.
\<close>

section \<open>Settings\<close>

record TimedOutTasksReaper =
  trScrollSize :: u64
  trScrollTtl :: duration
  trRunInterval :: duration

record TasksArchiver =
  taScrollSize :: u64
  taScrollTtl :: duration
  taArchiveOlderThan :: duration
  taRunInterval :: duration

record RecurringTasksConf =
  rcScrollSize :: u64
  rcScrollTtl :: duration
  rcSyncRunInterval :: duration
  rcEnforceSyncRunInterval :: duration

record LeaderLockConf =
  lcRunInterval :: duration
  lcLeaderLockLease :: duration

record Recurring =
  rLeaderLock :: LeaderLockConf
  rTimedOutTasksReaper :: TimedOutTasksReaper
  rTasksArchiver :: TasksArchiver
  rRecurringTasks :: RecurringTasksConf

section \<open>The functions\<close>

text \<open>
  \<open>rfRun\<close> is given what the leader lock answers at its call; \<open>None\<close> is a call that does not return.
\<close>

record 'w rec_function =
  rfName :: string
  rfInterval :: duration
  rfRun :: "bool \<Rightarrow> 'w \<Rightarrow> ('w \<times> (task_error + recurring_error) option) option"

definition buildWhenLeaderFunction ::
  "string \<Rightarrow> duration \<Rightarrow> ('w \<Rightarrow> ('w \<times> (task_error + recurring_error) option) option) \<Rightarrow> 'w rec_function" where
  "buildWhenLeaderFunction name runInterval runFunc =
     \<lparr>rfName = name, rfInterval = runInterval,
      rfRun = (\<lambda>isLeader w. if isLeader then runFunc w else Some (w, None))\<rparr>"

text \<open>The state of a server: the manager, the scheduler, and the world outside.\<close>

type_synonym 'w server_state = "Manager \<times> (schedulerImpl \<times> 'w)"

definition tasks_call :: "('w \<Rightarrow> ('w \<times> (task_error + unit)) option) \<Rightarrow> 'w server_state \<Rightarrow>
    ('w server_state \<times> (task_error + recurring_error) option) option" where
  "tasks_call f s =
     (case s of (m, sched, w) \<Rightarrow>
        (case f w of
           None \<Rightarrow> None
         | Some (w1, Inl err) \<Rightarrow> Some ((m, sched, w1), Some (Inl err))
         | Some (w1, Inr _) \<Rightarrow> Some ((m, sched, w1), None)))"

definition manager_call :: "(bool \<Rightarrow> 'w server_state \<Rightarrow> (schedulerImpl \<times> 'w) outcome) \<Rightarrow> bool \<Rightarrow> 'w server_state \<Rightarrow>
    ('w server_state \<times> (task_error + recurring_error) option) option" where
  "manager_call f isLeader s = map_option (\<lambda>(s', err). (s', map_option Inr err)) (f isLeader s)"

definition recurringFunctions ::
  "Recurring \<Rightarrow> 'w task_env \<Rightarrow> (schedulerImpl \<times> 'w) manager_env \<Rightarrow> 'w server_state rec_function list" where
  "recurringFunctions conf e man =
     [buildWhenLeaderFunction ''time-out-tasks-runner'' (trRunInterval (rTimedOutTasksReaper conf))
        (tasks_call (EsReapTimedOutTasks e (trScrollSize (rTimedOutTasksReaper conf))
           (trScrollTtl (rTimedOutTasksReaper conf)))),
      buildWhenLeaderFunction ''archive-tasks-runner'' (taRunInterval (rTasksArchiver conf))
        (tasks_call (\<lambda>w.
           (let (w1, now) = EsCommon.getUTC e w;
                archiveOlderThan = time_add now (wrap64 (- taArchiveOlderThan (rTasksArchiver conf)))
            in EsArchiveOldTasks e archiveOlderThan (taScrollSize (rTasksArchiver conf))
                 (taScrollTtl (rTasksArchiver conf)) w1))),
      \<lparr>rfName = ''recurring-tasks-sync'', rfInterval = rcSyncRunInterval (rRecurringTasks conf),
       rfRun = manager_call (RecurringSyncFunc man)\<rparr>,
      \<lparr>rfName = ''recurring-tasks-sync-enforcer'', rfInterval = rcEnforceSyncRunInterval (rRecurringTasks conf),
       rfRun = manager_call (RecurringSyncEnforceFunc man)\<rparr>]"

section \<open>The runner\<close>

text \<open>
  \<open>time.Now().UTC()\<close> has no monotonic reading: the start of an iteration is a time of the wall clock, and
  \<open>time.Since\<close> subtracts wall clock times. The model keeps both clocks: real time, which only runs forward and
  by which threads sleep, and how far the wall clock is ahead of it. A reading is what the wall clock showed,
  when it did, and how far the wall clock had been set forward in all by then.
\<close>

record reading =
  rdWall :: time
  rdClock :: time
  rdForward :: duration

datatype thread_phase =
    Ready
  | Entered
  | Timed reading
  | Called reading
  | Running reading bool
  | Asleep time
  | Ended

text \<open>
  \<open>rnStarts\<close> records the calls made, newest first: which function, the reading its iteration began with, and the
  real time of the call. \<open>rnAnswers\<close> records what the leader lock answered to the functions that asked it.
\<close>

record 'w runner =
  rnStopped :: bool
  rnThreads :: "(nat \<times> thread_phase) list"
  rnClock :: time
  rnOffset :: duration
  rnForward :: duration
  rnWorld :: 'w
  rnStarts :: "(nat \<times> reading \<times> time) list"
  rnAnswers :: "(nat \<times> bool) list"

definition NewRunner :: "time \<Rightarrow> 'w \<Rightarrow> 'w runner" where
  "NewRunner now w = \<lparr>rnStopped = True, rnThreads = [], rnClock = now, rnOffset = 0, rnForward = 0,
     rnWorld = w, rnStarts = [], rnAnswers = []\<rparr>"

definition runner_Start :: "'w rec_function list \<Rightarrow> 'w runner \<Rightarrow> 'w runner" where
  "runner_Start fs s = s\<lparr>rnStopped := False,
     rnThreads := rnThreads s @ map (\<lambda>i. (i, Ready)) [0..<length fs]\<rparr>"

definition runner_Stop :: "'w runner \<Rightarrow> 'w runner" where
  "runner_Stop s = s\<lparr>rnStopped := True\<rparr>"

definition shouldRun :: "'w runner \<Rightarrow> bool" where
  "shouldRun s \<longleftrightarrow> \<not> rnStopped s"

definition wall_clock :: "'w runner \<Rightarrow> time" where
  "wall_clock s = rnClock s + rnOffset s"

definition read_clock :: "'w runner \<Rightarrow> reading" where
  "read_clock s = \<lparr>rdWall = wall_clock s, rdClock = rnClock s, rdForward = rnForward s\<rparr>"

text \<open>What a thread does at real time \<open>clock\<close> after a call, when the wall clock shows \<open>now\<close>.\<close>

definition after_run :: "duration \<Rightarrow> time \<Rightarrow> time \<Rightarrow> time \<Rightarrow> thread_phase" where
  "after_run interval startIterationTime now clock =
     (let waitTime = wrap64 (interval - time_sub now startIterationTime)
      in if waitTime > 0 then Asleep (time_add clock waitTime) else Ready)"

definition thread_to :: "nat \<Rightarrow> nat \<times> thread_phase \<Rightarrow> 'w runner \<Rightarrow> 'w runner" where
  "thread_to j th s = s\<lparr>rnThreads := (rnThreads s)[j := th]\<rparr>"

definition thread_at :: "'w runner \<Rightarrow> nat \<Rightarrow> nat \<times> thread_phase \<Rightarrow> bool" where
  "thread_at s j th \<longleftrightarrow> j < length (rnThreads s) \<and> rnThreads s ! j = th"

text \<open>The wall clock may be set at any time, to anything within 73 years of where it was at the start.\<close>

definition max_skew :: duration where
  "max_skew = 2 ^ 61"

text \<open>
  A step of the threads, or of their surroundings: \<open>others\<close> is what the rest of the world does meanwhile,
  \<open>answers\<close> are those that the leader lock can give now.
\<close>

inductive thread_step ::
  "bool set \<Rightarrow> ('w \<times> 'w) set \<Rightarrow> 'w rec_function list \<Rightarrow> 'w runner \<Rightarrow> 'w runner \<Rightarrow> bool"
  for answers others fs where
  time_passes: "0 \<le> d \<Longrightarrow> thread_step answers others fs s (s\<lparr>rnClock := rnClock s + d\<rparr>)"
| clock_set: "\<bar>offset\<bar> \<le> max_skew \<Longrightarrow>
    thread_step answers others fs s (s\<lparr>rnOffset := offset, rnForward := rnForward s + max 0 (offset - rnOffset s)\<rparr>)"
| others_act: "(rnWorld s, w) \<in> others \<Longrightarrow> thread_step answers others fs s (s\<lparr>rnWorld := w\<rparr>)"
| run_ends: "thread_at s j (i, Ready) \<Longrightarrow> \<not> shouldRun s \<Longrightarrow>
    thread_step answers others fs s (thread_to j (i, Ended) s)"
| enter: "thread_at s j (i, Ready) \<Longrightarrow> shouldRun s \<Longrightarrow>
    thread_step answers others fs s (thread_to j (i, Entered) s)"
| time_it: "thread_at s j (i, Entered) \<Longrightarrow>
    thread_step answers others fs s (thread_to j (i, Timed (read_clock s)) s)"
| call: "thread_at s j (i, Timed rd) \<Longrightarrow>
    thread_step answers others fs s
      (thread_to j (i, Called rd) (s\<lparr>rnStarts := (i, rd, rnClock s) # rnStarts s\<rparr>))"
| ask: "thread_at s j (i, Called rd) \<Longrightarrow> leader \<in> answers \<Longrightarrow>
    thread_step answers others fs s
      (thread_to j (i, Running rd leader) (s\<lparr>rnAnswers := (i, leader) # rnAnswers s\<rparr>))"
| return_: "thread_at s j (i, Running rd leader) \<Longrightarrow> i < length fs \<Longrightarrow>
    rfRun (fs ! i) leader (rnWorld s) = Some (w, err) \<Longrightarrow>
    thread_step answers others fs s
      (thread_to j (i, after_run (rfInterval (fs ! i)) (rdWall rd) (wall_clock s) (rnClock s)) (s\<lparr>rnWorld := w\<rparr>))"
| wake: "thread_at s j (i, Asleep t) \<Longrightarrow> t \<le> rnClock s \<Longrightarrow>
    thread_step answers others fs s (thread_to j (i, Ready) s)"

inductive runner_step :: "('w \<times> 'w) set \<Rightarrow> 'w rec_function list \<Rightarrow> 'w runner \<Rightarrow> 'w runner \<Rightarrow> bool"
  for others fs where
  threads: "thread_step UNIV others fs s s' \<Longrightarrow> runner_step others fs s s'"
| stop: "runner_step others fs s (runner_Stop s)"

definition runner_steps where
  "runner_steps others fs = (runner_step others fs)\<^sup>*\<^sup>*"

inductive_cases thread_stepE: "thread_step answers others fs s s'"
inductive_cases runner_stepE: "runner_step others fs s s'"

lemma thread_to_sel [simp]:
  "rnStopped (thread_to j th s) = rnStopped s" "rnClock (thread_to j th s) = rnClock s"
  "rnOffset (thread_to j th s) = rnOffset s" "rnForward (thread_to j th s) = rnForward s"
  "rnWorld (thread_to j th s) = rnWorld s" "rnStarts (thread_to j th s) = rnStarts s"
  "rnAnswers (thread_to j th s) = rnAnswers s" "rnThreads (thread_to j th s) = (rnThreads s)[j := th]"
  by (simp_all add: thread_to_def)

section \<open>Calls of a function are spaced\<close>

text \<open>An iteration that began with \<open>rd\<close> is due again when, counting what the wall clock was set forward, its interval is over.\<close>

definition due :: "duration \<Rightarrow> reading \<Rightarrow> time \<Rightarrow> duration \<Rightarrow> bool" where
  "due d rd t forward \<longleftrightarrow> rdClock rd + d \<le> t + (forward - rdForward rd)"

definition spaced :: "'w rec_function list \<Rightarrow> (nat \<times> reading \<times> time) list \<Rightarrow> bool" where
  "spaced fs starts \<longleftrightarrow>
     sorted_wrt (\<lambda>(i, rd, _) (k, rd', t'). i = k \<longrightarrow>
       t' \<le> rdClock rd \<and> due (rfInterval (fs ! i)) rd' (rdClock rd) (rdForward rd)) starts"

text \<open>What the phase of a thread says of a past call of its function.\<close>

fun call_ok :: "duration \<Rightarrow> 'w runner \<Rightarrow> reading \<times> time \<Rightarrow> thread_phase \<Rightarrow> bool" where
  "call_ok d s (rd', t') Ready \<longleftrightarrow> due d rd' (rnClock s) (rnForward s)"
| "call_ok d s (rd', t') Entered \<longleftrightarrow> due d rd' (rnClock s) (rnForward s)"
| "call_ok d s (rd', t') (Timed rd) \<longleftrightarrow> t' \<le> rdClock rd \<and> due d rd' (rdClock rd) (rdForward rd)"
| "call_ok d s (rd', t') (Called rd) \<longleftrightarrow> rd' = rd \<or> due d rd' (rdClock rd) (rdForward rd)"
| "call_ok d s (rd', t') (Running rd _) \<longleftrightarrow> rd' = rd \<or> due d rd' (rdClock rd) (rdForward rd)"
| "call_ok d s (rd', t') (Asleep u) \<longleftrightarrow> due d rd' u (rnForward s)"
| "call_ok d s (rd', t') Ended \<longleftrightarrow> True"

text \<open>A reading of the past: since then the wall clock has gained no more than it was set forward.\<close>

definition reading_ok :: "'w runner \<Rightarrow> reading \<Rightarrow> bool" where
  "reading_ok s rd \<longleftrightarrow> rdClock rd \<le> rnClock s \<and> rdForward rd \<le> rnForward s \<and>
     \<bar>rdWall rd - rdClock rd\<bar> \<le> max_skew \<and>
     rnOffset s - (rdWall rd - rdClock rd) \<le> rnForward s - rdForward rd"

fun phase_reading :: "thread_phase \<Rightarrow> reading option" where
  "phase_reading (Timed rd) = Some rd"
| "phase_reading (Called rd) = Some rd"
| "phase_reading (Running rd _) = Some rd"
| "phase_reading _ = None"

definition phase_ok :: "'w rec_function list \<Rightarrow> 'w runner \<Rightarrow> nat \<times> thread_phase \<Rightarrow> bool" where
  "phase_ok fs s th \<longleftrightarrow>
     (\<forall>rd. phase_reading (snd th) = Some rd \<longrightarrow> reading_ok s rd) \<and>
     (\<forall>(k, c) \<in> set (rnStarts s). k = fst th \<longrightarrow> call_ok (rfInterval (fs ! fst th)) s c (snd th))"

definition runner_inv :: "'w rec_function list \<Rightarrow> 'w runner \<Rightarrow> bool" where
  "runner_inv fs s \<longleftrightarrow> map fst (rnThreads s) = [0..<length fs] \<and> \<bar>rnOffset s\<bar> \<le> max_skew \<and>
     spaced fs (rnStarts s) \<and> (\<forall>(k, rd, t) \<in> set (rnStarts s). rdClock rd \<le> t \<and> t \<le> rnClock s) \<and>
     (\<forall>j < length fs. phase_ok fs s (rnThreads s ! j))"

definition intervals_ok :: "'w rec_function list \<Rightarrow> bool" where
  "intervals_ok fs \<longleftrightarrow> (\<forall>f \<in> set fs. 0 \<le> rfInterval f \<and> rfInterval f < 2 ^ 62)"

lemma due_mono: "due d rd t f \<Longrightarrow> t \<le> t' \<Longrightarrow> f \<le> f' \<Longrightarrow> due d rd t' f'"
  by (simp add: due_def)

lemma call_ok_later:
  assumes "call_ok d s c ph" and "rnClock s \<le> rnClock s'" and "rnForward s \<le> rnForward s'"
  shows "call_ok d s' c ph"
  using assms by (cases c; cases ph) (auto intro: due_mono)

text \<open>Steps that move no thread.\<close>

definition same_threads :: "'w runner \<Rightarrow> 'w runner \<Rightarrow> bool" where
  "same_threads s s' \<longleftrightarrow> rnThreads s' = rnThreads s \<and> rnStarts s' = rnStarts s \<and> rnClock s \<le> rnClock s' \<and>
     rnForward s \<le> rnForward s' \<and> \<bar>rnOffset s'\<bar> \<le> max_skew \<and>
     rnOffset s' - rnOffset s \<le> rnForward s' - rnForward s"

lemma phase_okI:
  assumes "\<And>rd. phase_reading ph = Some rd \<Longrightarrow> reading_ok s rd"
    and "\<And>rd t. (i, rd, t) \<in> set (rnStarts s) \<Longrightarrow> call_ok (rfInterval (fs ! i)) s (rd, t) ph"
  shows "phase_ok fs s (i, ph)"
  using assms by (auto simp: phase_ok_def)

lemma phase_okD:
  assumes "phase_ok fs s (i, ph)"
  shows "phase_reading ph = Some rd \<Longrightarrow> reading_ok s rd"
    and "(i, rd, t) \<in> set (rnStarts s) \<Longrightarrow> call_ok (rfInterval (fs ! i)) s (rd, t) ph"
  using assms by (auto simp: phase_ok_def)

lemma call_ok_Ended [simp]: "call_ok d s c Ended"
  by (cases c) simp

lemma phase_ok_later: "same_threads s s' \<Longrightarrow> phase_ok fs s th \<Longrightarrow> phase_ok fs s' th"
  by (auto simp: same_threads_def phase_ok_def reading_ok_def intro: call_ok_later [of _ s])

lemma inv_later: "same_threads s s' \<Longrightarrow> runner_inv fs s \<Longrightarrow> runner_inv fs s'"
  unfolding runner_inv_def
proof (elim conjE, intro conjI)
  assume same: "same_threads s s'" and times: "\<forall>(k, rd, t) \<in> set (rnStarts s). rdClock rd \<le> t \<and> t \<le> rnClock s"
    and ok: "\<forall>j < length fs. phase_ok fs s (rnThreads s ! j)"
  then have "rnClock s \<le> rnClock s'" "rnStarts s' = rnStarts s" "rnThreads s' = rnThreads s"
    by (simp_all add: same_threads_def)
  then show "\<forall>(k, rd, t) \<in> set (rnStarts s'). rdClock rd \<le> t \<and> t \<le> rnClock s'"
    and "\<forall>j < length fs. phase_ok fs s' (rnThreads s' ! j)"
    using times ok phase_ok_later [OF same] by (auto intro: order_trans)
qed (simp_all add: same_threads_def)

lemma inv_thread:
  assumes "runner_inv fs s" "thread_at s j (i, ph)"
  shows "i = j" and "length (rnThreads s) = length fs" and "phase_ok fs s (i, ph)"
proof -
  have m: "map fst (rnThreads s) = [0..<length fs]" using assms(1) by (simp add: runner_inv_def)
  then have l: "length (rnThreads s) = length fs" by (metis length_map diff_zero length_upt)
  have "fst (rnThreads s ! j) = [0..<length fs] ! j"
    using m assms(2) unfolding thread_at_def by (metis nth_map)
  then show i: "i = j" using l assms by (auto simp: thread_at_def runner_inv_def)
  show "length (rnThreads s) = length fs" by (rule l)
  show "phase_ok fs s (i, ph)" using l assms unfolding thread_at_def runner_inv_def by fastforce
qed

lemma phase_ok_thread_to [simp]: "phase_ok fs (thread_to j th s) = phase_ok fs s"
proof (rule ext)
  fix th'
  have "call_ok d (thread_to j th s) c ph = call_ok d s c ph" for d c ph by (cases c; cases ph) simp_all
  then show "phase_ok fs (thread_to j th s) th' = phase_ok fs s th'" by (simp add: phase_ok_def reading_ok_def)
qed

lemma relabelled: "thread_at s j (i, ph) \<Longrightarrow> map fst ((rnThreads s)[j := (i, ph')]) = map fst (rnThreads s)"
  by (simp add: thread_at_def map_update list_update_same_conv)

lemma phase_update:
  assumes inv: "runner_inv fs s" and th: "thread_at s j (i, ph)" and ok: "phase_ok fs s (i, ph')"
  shows "runner_inv fs (thread_to j (i, ph') s)"
proof -
  have "map fst ((rnThreads s)[j := (i, ph')]) = map fst (rnThreads s)" by (rule relabelled [OF th])
  moreover have "phase_ok fs s ((rnThreads s)[j := (i, ph')] ! k)" if "k < length fs" for k
    using inv ok that th by (cases "k = j") (simp_all add: runner_inv_def thread_at_def)
  ultimately show ?thesis using inv by (simp add: runner_inv_def)
qed

lemma reading_now: "\<bar>rnOffset s\<bar> \<le> max_skew \<Longrightarrow> reading_ok s (read_clock s)"
  by (simp add: reading_ok_def read_clock_def wall_clock_def)

lemma inv_call:
  assumes inv: "runner_inv fs s" and th: "thread_at s j (i, Timed rd)"
  shows "runner_inv fs (thread_to j (i, Called rd) (s\<lparr>rnStarts := (i, rd, rnClock s) # rnStarts s\<rparr>))"
proof -
  let ?s = "s\<lparr>rnStarts := (i, rd, rnClock s) # rnStarts s\<rparr>"
  note ij = inv_thread [OF inv th]
  have rd: "reading_ok s rd" by (rule phase_okD(1) [OF ij(3)]) simp
  have ok: "t' \<le> rdClock rd \<and> due (rfInterval (fs ! i)) rd' (rdClock rd) (rdForward rd)"
    if "(i, rd', t') \<in> set (rnStarts s)" for rd' t'
    using phase_okD(2) [OF ij(3) that] by simp
  have same1: "reading_ok ?s r = reading_ok s r" for r by (simp add: reading_ok_def)
  have same2: "call_ok d ?s c ph = call_ok d s c ph" for d c ph by (cases c; cases ph) simp_all
  note same = same1 same2
  have sp: "spaced fs (rnStarts ?s)" using inv ok by (auto simp: runner_inv_def spaced_def)
  have times: "\<forall>(k, rd, t) \<in> set (rnStarts ?s). rdClock rd \<le> t \<and> t \<le> rnClock s"
    using inv rd by (auto simp: runner_inv_def reading_ok_def)
  have here: "phase_ok fs ?s (i, Called rd)" using ok rd by (auto intro!: phase_okI simp: same)
  have "phase_ok fs ?s ((rnThreads s)[j := (i, Called rd)] ! k)" if k: "k < length fs" for k
  proof (cases "k = j")
    case True
    then show ?thesis using here ij(2) k by simp
  next
    case False
    obtain k' ph where at: "rnThreads s ! k = (k', ph)" by fastforce
    then have "thread_at s k (k', ph)" using k ij(2) by (simp add: thread_at_def)
    note at_k = inv_thread [OF inv this]
    have "phase_ok fs ?s (k', ph)"
    proof (rule phase_okI)
      fix r t assume "(k', r, t) \<in> set (rnStarts ?s)"
      then have "(k', r, t) \<in> set (rnStarts s)" using False at_k(1) ij(1) by simp
      then show "call_ok (rfInterval (fs ! k')) ?s (r, t) ph" using phase_okD(2) [OF at_k(3)] by (simp add: same)
    qed (use phase_okD(1) [OF at_k(3)] in \<open>simp add: same\<close>)
    then show ?thesis using False at by simp
  qed
  then show ?thesis using inv sp times relabelled [OF th, of "Called rd"]
    by (simp add: runner_inv_def)
qed

text \<open>After a call the thread waits at least for what the wall clock says is left, so the iteration is due only later.\<close>

lemma after_run_due:
  assumes d: "0 \<le> d" "d < 2 ^ 62" and rd: "reading_ok s rd" and skew: "\<bar>rnOffset s\<bar> \<le> max_skew"
  obtains "after_run d (rdWall rd) (wall_clock s) (rnClock s) = Ready" "due d rd (rnClock s) (rnForward s)"
  | u where "after_run d (rdWall rd) (wall_clock s) (rnClock s) = Asleep u" "rnClock s \<le> u"
      "due d rd u (rnForward s)"
proof -
  let ?e = "wall_clock s - rdWall rd" and ?d = "time_sub (wall_clock s) (rdWall rd)"
  have e: "- (2 ^ 62) \<le> ?e" "?e \<le> rnClock s - rdClock rd + (rnForward s - rdForward rd)"
    using rd skew by (auto simp: reading_ok_def wall_clock_def max_skew_def)
  then have sub: "?d \<le> ?e" "- (2 ^ 62) \<le> ?d" "?d \<le> 2 ^ 63 - 1"
    by (auto simp: time_sub_def min_duration_def max_duration_def)
  have w: "wrap64 (d - ?d) = d - ?d" using sub d by (intro wrap64_id) simp_all
  show ?thesis
  proof (cases "d - ?d > 0")
    case True
    then show ?thesis
      using that(2) [of "rnClock s + (d - ?d)"] sub e w by (simp add: after_run_def time_add_def due_def)
  next
    case False
    then show ?thesis using that(1) sub e w by (simp add: after_run_def due_def)
  qed
qed

lemma inv_return:
  assumes inv: "runner_inv fs s" and th: "thread_at s j (i, Running rd leader)" and f: "intervals_ok fs" "i < length fs"
  shows "runner_inv fs (thread_to j (i, after_run (rfInterval (fs ! i)) (rdWall rd) (wall_clock s) (rnClock s)) s)"
proof (rule phase_update [OF inv th])
  let ?d = "rfInterval (fs ! i)"
  have d: "0 \<le> ?d" "?d < 2 ^ 62" using f by (simp_all add: intervals_ok_def)
  have ph: "phase_ok fs s (i, Running rd leader)" by (rule inv_thread(3) [OF inv th])
  have rd: "reading_ok s rd" by (rule phase_okD(1) [OF ph]) simp
  have ok: "rd' = rd \<or> due ?d rd' (rdClock rd) (rdForward rd)" if "(i, rd', t') \<in> set (rnStarts s)" for rd' t'
    using phase_okD(2) [OF ph that] by simp
  have skew: "\<bar>rnOffset s\<bar> \<le> max_skew" using inv by (simp add: runner_inv_def)
  have past: "rdClock rd \<le> rnClock s" "rdForward rd \<le> rnForward s" using rd by (simp_all add: reading_ok_def)
  from d rd skew show "phase_ok fs s (i, after_run ?d (rdWall rd) (wall_clock s) (rnClock s))"
  proof (cases rule: after_run_due)
    case 1
    then show ?thesis using ok past by (fastforce simp: phase_ok_def intro: due_mono)
  next
    case (2 u)
    then have "due ?d rd' u (rnForward s)" if "(i, rd', t') \<in> set (rnStarts s)" for rd' t'
      using ok [OF that] past by (auto intro: due_mono)
    then show ?thesis using 2 by (auto simp: phase_ok_def)
  qed
qed

lemma thread_step_inv:
  assumes ints: "intervals_ok fs" and step: "thread_step answers others fs s s'" and inv: "runner_inv fs s"
  shows "runner_inv fs s'"
  using step
proof cases
  case (time_passes d)
  then show ?thesis using inv by (intro inv_later [OF _ inv]) (simp add: same_threads_def runner_inv_def)
next
  case (clock_set offset)
  then show ?thesis using inv by (intro inv_later [OF _ inv]) (simp add: same_threads_def runner_inv_def)
next
  case (others_act w)
  then show ?thesis using inv by (intro inv_later [OF _ inv]) (simp add: same_threads_def runner_inv_def)
next
  case (run_ends j i)
  have "phase_ok fs s (i, Ended)" by (auto simp: phase_ok_def)
  from phase_update [OF inv run_ends(2) this] show ?thesis using run_ends(1) by simp
next
  case (enter j i)
  have "phase_ok fs s (i, Ready)" by (rule inv_thread(3) [OF inv enter(2)])
  then have "phase_ok fs s (i, Entered)" by (auto intro!: phase_okI dest: phase_okD(2))
  from phase_update [OF inv enter(2) this] show ?thesis using enter(1) by simp
next
  case (time_it j i)
  have r: "reading_ok s (read_clock s)" using inv by (intro reading_now) (simp add: runner_inv_def)
  have "phase_ok fs s (i, Timed (read_clock s))"
  proof (rule phase_okI)
    fix rd t assume c: "(i, rd, t) \<in> set (rnStarts s)"
    have "phase_ok fs s (i, Entered)" by (rule inv_thread(3) [OF inv time_it(2)])
    from phase_okD(2) [OF this c] have "due (rfInterval (fs ! i)) rd (rnClock s) (rnForward s)" by simp
    moreover have "t \<le> rnClock s" using inv c by (auto simp: runner_inv_def)
    ultimately show "call_ok (rfInterval (fs ! i)) s (rd, t) (Timed (read_clock s))" by (simp add: read_clock_def)
  qed (use r in simp)
  from phase_update [OF inv time_it(2) this] show ?thesis using time_it(1) by simp
next
  case (call j i rd)
  then show ?thesis using inv_call [OF inv call(2)] by simp
next
  case (ask j i rd leader)
  let ?s = "s\<lparr>rnAnswers := (i, leader) # rnAnswers s\<rparr>"
  have i: "runner_inv fs ?s" using inv by (intro inv_later [OF _ inv]) (simp add: same_threads_def runner_inv_def)
  have th: "thread_at ?s j (i, Called rd)" using ask by (simp add: thread_at_def)
  have "phase_ok fs ?s (i, Called rd)" by (rule inv_thread(3) [OF i th])
  then have "phase_ok fs ?s (i, Running rd leader)" by (intro phase_okI) (auto dest: phase_okD)
  then show ?thesis using ask phase_update [OF i th] by simp
next
  case (return_ j i rd leader w err)
  let ?s = "s\<lparr>rnWorld := w\<rparr>"
  have i: "runner_inv fs ?s" using inv by (intro inv_later [OF _ inv]) (simp add: same_threads_def runner_inv_def)
  have th: "thread_at ?s j (i, Running rd leader)" using return_ by (simp add: thread_at_def)
  show ?thesis using inv_return [OF i th ints return_(3)] return_(1) by (simp add: wall_clock_def)
next
  case (wake j i t)
  have "phase_ok fs s (i, Asleep t)" by (rule inv_thread(3) [OF inv wake(2)])
  then have "phase_ok fs s (i, Ready)"
    using wake(3) by (intro phase_okI) (auto dest!: phase_okD(2) intro: due_mono)
  from phase_update [OF inv wake(2) this] show ?thesis using wake(1) by simp
qed

lemma runner_steps_inv:
  assumes "intervals_ok fs" and "runner_steps others fs s s'" and "runner_inv fs s"
  shows "runner_inv fs s'"
  using assms(2,3) unfolding runner_steps_def
proof (induction rule: rtranclp_induct)
  case (step s1 s2)
  then have inv: "runner_inv fs s1" by simp
  from step.hyps(2) show ?case
  proof cases
    case threads
    then show ?thesis by (rule thread_step_inv [OF assms(1) _ inv])
  next
    case stop
    then show ?thesis
      using inv by (intro inv_later [OF _ inv]) (simp add: same_threads_def runner_inv_def runner_Stop_def)
  qed
qed

lemma started_inv: "runner_inv fs (runner_Start fs (NewRunner now w))"
  by (simp add: runner_inv_def runner_Start_def NewRunner_def spaced_def phase_ok_def comp_def max_skew_def)

text \<open>
  C26: once the runner is started, whatever else happens, however long the calls take and wherever the threads
  are delayed, a function is not called again before its last iteration is over, and its iterations begin, at
  the readings of the clock, at least its interval apart in real time, less what the wall clock was set forward
  between them. A call may come long after the reading its iteration began with, so the calls themselves are only
  apart by the interval less the delay of the earlier one.
\<close>

theorem recurring_calls_spaced:
  assumes "intervals_ok fs"
    and "runner_steps others fs (runner_Start fs (NewRunner now w)) s"
    and "rnStarts s = later @ (i, rd, t) # between @ (i, rd', t') # earlier"
  shows "rdClock rd' \<le> t' \<and> t' \<le> rdClock rd \<and> rdClock rd \<le> t \<and>
    rdClock rd' + rfInterval (fs ! i) \<le> rdClock rd + (rdForward rd - rdForward rd') \<and>
    t' + (rfInterval (fs ! i) - (t' - rdClock rd') - (rdForward rd - rdForward rd')) \<le> t"
proof -
  have inv: "runner_inv fs s" by (rule runner_steps_inv [OF assms(1,2) started_inv])
  then have "t' \<le> rdClock rd" "due (rfInterval (fs ! i)) rd' (rdClock rd) (rdForward rd)"
    using assms(3) by (simp_all add: runner_inv_def spaced_def sorted_wrt_append)
  moreover have "rdClock rd \<le> t" "rdClock rd' \<le> t'" using inv assms(3) by (simp_all add: runner_inv_def)
  ultimately show ?thesis by (simp add: due_def)
qed

text \<open>
  The wall clock set back makes a function wait longer than its interval: what it was set back by is added to the sleep, which a
  monotonic reading would not do.
\<close>

lemma set_back_waits:
  assumes "0 \<le> d" "0 < back" "d + back < 2 ^ 63"
  shows "after_run d (rdWall (read_clock s)) (wall_clock (s\<lparr>rnOffset := rnOffset s - back\<rparr>)) (rnClock s)
    = Asleep (rnClock s + d + back)"
  using assms wrap64_id [of "d + back"]
  by (simp add: after_run_def read_clock_def wall_clock_def time_add_def time_sub_def min_duration_def max_duration_def)

section \<open>A runner started again\<close>

text \<open>A thread that finds the runner not stopped calls its function, when nothing comes between.\<close>

definition began :: "nat \<Rightarrow> nat \<Rightarrow> bool \<Rightarrow> 'w runner \<Rightarrow> 'w runner" where
  "began j i leader s = thread_to j (i, Running (read_clock s) leader)
     (s\<lparr>rnStarts := (i, read_clock s, rnClock s) # rnStarts s, rnAnswers := (i, leader) # rnAnswers s\<rparr>)"

lemma stepped: "runner_step others fs s s' \<Longrightarrow> runner_steps others fs s' s'' \<Longrightarrow> runner_steps others fs s s''"
  unfolding runner_steps_def by (rule converse_rtranclp_into_rtranclp)

lemmas thread_stepped = stepped [OF threads]

lemma walked: "runner_steps others fs s s' \<Longrightarrow> runner_steps others fs s' s'' \<Longrightarrow> runner_steps others fs s s''"
  unfolding runner_steps_def by (rule rtranclp_trans)

lemma stays: "runner_steps others fs s s"
  by (simp add: runner_steps_def)

lemma begins:
  assumes at: "thread_at s j (i, Ready)" and run: "shouldRun s"
  shows "runner_steps others fs s (began j i leader s)"
proof -
  let ?rd = "read_clock s"
  let ?s1 = "thread_to j (i, Entered) s" and ?s2 = "thread_to j (i, Timed ?rd) s"
  let ?s3 = "thread_to j (i, Called ?rd) (s\<lparr>rnStarts := (i, ?rd, rnClock s) # rnStarts s\<rparr>)"
  have j: "j < length (rnThreads s)" using at by (simp add: thread_at_def)
  have rd: "read_clock (thread_to j th s) = ?rd" for th by (simp add: read_clock_def wall_clock_def)
  have 1: "thread_step UNIV others fs s ?s1" by (rule enter [OF at run])
  have 2: "thread_step UNIV others fs ?s1 ?s2"
    using time_it [of ?s1 j i UNIV others fs] j by (simp add: rd) (simp add: thread_at_def thread_to_def)
  have 3: "thread_step UNIV others fs ?s2 ?s3"
    using call [of ?s2 j i ?rd UNIV others fs] j by (simp add: thread_at_def) (simp add: thread_to_def)
  have 4: "thread_step UNIV others fs ?s3 (began j i leader s)"
    using ask [of ?s3 j i ?rd leader UNIV others fs] j
    by (simp add: thread_at_def) (simp add: thread_to_def began_def)
  show ?thesis by (rule thread_stepped [OF 1 thread_stepped [OF 2 thread_stepped [OF 3 thread_stepped [OF 4 stays]]]])
qed

lemma after_run_now:
  assumes "0 < d" "d < 2 ^ 62"
  shows "after_run d t t u = Asleep (u + d)"
  using assms wrap64_id [of d]
  by (simp add: after_run_def time_add_def time_sub_def min_duration_def max_duration_def)

text \<open>
  A runner stopped and started again before its threads have noticed runs each function twice: the sleeping
  thread of the first start goes on beside that of the second. The server starts its runner once.
\<close>

lemma restart_overlaps:
  assumes f: "rfRun f leader w = Some (w, err)" and d: "0 < rfInterval f" "rfInterval f < 2 ^ 62"
  obtains s s' rd u where "runner_steps others [f] (runner_Start [f] (NewRunner now w)) s" and "rnStopped s"
    and "runner_steps others [f] (runner_Start [f] s) s'"
    and "take 2 (rnStarts s') = [(0, rd, u), (0, rd, u)]"
proof -
  let ?s0 = "runner_Start [f] (NewRunner now w)"
  let ?s1 = "began 0 0 leader ?s0"
  let ?at = "now + rfInterval f"
  let ?s2 = "thread_to 0 (0, Asleep ?at) ?s1"
  let ?s3 = "runner_Stop ?s2"
  let ?r0 = "runner_Start [f] ?s3"
  let ?r1 = "?r0\<lparr>rnClock := ?at\<rparr>"
  let ?r2 = "thread_to 0 (0, Ready) ?r1"
  note defs = runner_Start_def NewRunner_def runner_Stop_def began_def read_clock_def wall_clock_def thread_at_def
  have 1: "runner_steps others [f] ?s0 ?s1" by (rule begins) (simp_all add: defs shouldRun_def)
  have same: "?s1\<lparr>rnWorld := w\<rparr> = ?s1" by (simp add: defs thread_to_def)
  have 2: "thread_step UNIV others [f] ?s1 ?s2"
    using return_ [of ?s1 0 0 "read_clock ?s0" leader "[f]" w err UNIV others] f after_run_now [OF d]
    by (simp add: same) (simp add: defs)
  have 3: "runner_step others [f] ?s2 ?s3" by (rule stop)
  have 4: "thread_step UNIV others [f] ?r0 ?r1"
    using time_passes [of "rfInterval f" UNIV others "[f]" ?r0] d by (simp add: defs)
  have 5: "thread_step UNIV others [f] ?r1 ?r2" by (rule wake) (simp add: defs, simp)
  have 6: "runner_steps others [f] ?r2 (began 0 0 leader ?r2)" by (rule begins) (simp_all add: defs shouldRun_def)
  have 7: "runner_steps others [f] (began 0 0 leader ?r2) (began 1 0 leader (began 0 0 leader ?r2))"
    by (rule begins) (simp_all add: defs shouldRun_def)
  show ?thesis
  proof (rule that)
    show "runner_steps others [f] ?s0 ?s3" by (rule walked [OF 1 thread_stepped [OF 2 stepped [OF 3 stays]]])
    show "rnStopped ?s3" by (simp add: runner_Stop_def)
    show "runner_steps others [f] ?r0 (began 1 0 leader (began 0 0 leader ?r2))"
      by (rule thread_stepped [OF 4 thread_stepped [OF 5 walked [OF 6 7]]])
    show "take 2 (rnStarts (began 1 0 leader (began 0 0 leader ?r2))) =
        [(0, read_clock ?r2, ?at), (0, read_clock ?r2, ?at)]"
      by (simp add: defs)
  qed
qed

section \<open>A stopped runner\<close>

text \<open>
  A thread that has passed its test when the runner is stopped still calls its function, once; no other call is
  made.
\<close>

fun past_test :: "thread_phase \<Rightarrow> bool" where
  "past_test Entered = True"
| "past_test (Timed _) = True"
| "past_test _ = False"

definition in_flight :: "nat \<Rightarrow> 'w runner \<Rightarrow> nat" where
  "in_flight i s = length (filter (\<lambda>th. fst th = i \<and> past_test (snd th)) (rnThreads s))"

definition calls_of :: "nat \<Rightarrow> 'w runner \<Rightarrow> nat" where
  "calls_of i s = length (filter (\<lambda>c. fst c = i) (rnStarts s))"

lemma filter_update:
  "j < length xs \<Longrightarrow> length (filter P (xs[j := y])) + (if P (xs ! j) then 1 else 0)
    = length (filter P xs) + (if P y then 1 else 0)"
proof (induction xs arbitrary: j)
  case (Cons x xs)
  then show ?case by (cases j) auto
qed simp

lemma in_flight_moved:
  assumes "thread_at s j (i, ph)" and "rnThreads s' = (rnThreads s)[j := (i, ph')]"
  shows "in_flight k s' + (if i = k \<and> past_test ph then 1 else 0)
    = in_flight k s + (if i = k \<and> past_test ph' then 1 else 0)"
  using assms filter_update [of j "rnThreads s" "\<lambda>th. fst th = k \<and> past_test (snd th)" "(i, ph')"]
  by (simp add: in_flight_def thread_at_def)

lemma after_run_idle: "\<not> past_test (after_run d t now u)" "after_run d t now u \<noteq> Running rd b"
  by (simp_all add: after_run_def Let_def)

lemma stopped_step:
  assumes "thread_step answers others fs s s'" "rnStopped s"
  shows "rnStopped s' \<and> calls_of i s' + in_flight i s' = calls_of i s + in_flight i s"
  using assms(1)
proof cases
  case (run_ends j k)
  then show ?thesis using in_flight_moved [OF run_ends(2), of s' Ended i] assms(2) by (simp add: calls_of_def)
next
  case (enter j k)
  then show ?thesis using assms(2) by (simp add: shouldRun_def)
next
  case (time_it j k)
  then show ?thesis
    using in_flight_moved [OF time_it(2), of s' "Timed (read_clock s)" i] assms(2) by (simp add: calls_of_def)
next
  case (call j k rd)
  then show ?thesis
    using in_flight_moved [OF call(2), of s' "Called rd" i] assms(2) by (auto simp: calls_of_def split: if_splits)
next
  case (ask j k rd leader)
  then show ?thesis
    using in_flight_moved [OF ask(2), of s' "Running rd leader" i] assms(2) by (simp add: calls_of_def)
next
  case (return_ j k rd leader w err)
  let ?ph = "after_run (rfInterval (fs ! k)) (rdWall rd) (wall_clock s) (rnClock s)"
  show ?thesis
    using in_flight_moved [OF return_(2), of s' ?ph i] assms(2) return_(1) by (simp add: calls_of_def after_run_idle)
next
  case (wake j k t)
  then show ?thesis using in_flight_moved [OF wake(2), of s' Ready i] assms(2) by (simp add: calls_of_def)
qed (use assms(2) in \<open>simp_all add: calls_of_def in_flight_def\<close>)

lemma thread_step_labels: "thread_step answers others fs s s' \<Longrightarrow> map fst (rnThreads s') = map fst (rnThreads s)"
  by (erule thread_stepE) (simp_all add: relabelled)

lemma in_flight_once:
  assumes "distinct (map fst (rnThreads s))"
  shows "in_flight i s \<le> 1"
proof -
  have "length (filter (\<lambda>th. fst th = i \<and> P (snd th)) xs) \<le> 1" if "distinct (map fst xs)"
    for xs :: "(nat \<times> thread_phase) list" and P
    using that
  proof (induction xs)
    case (Cons x xs)
    have "filter (\<lambda>th. fst th = i \<and> P (snd th)) xs = []" if "fst x = i"
      using Cons.prems that by (auto simp: filter_empty_conv intro: rev_image_eqI)
    then show ?case using Cons by auto
  qed simp
  from this [OF assms, of past_test] show ?thesis by (simp add: in_flight_def)
qed

section \<open>A server that does not lead\<close>

lemma follower_call:
  assumes "f \<in> set (recurringFunctions conf e man)" and "leaderState m = MGR_NOT_LEADER"
  shows "rfRun f False (m, sw) = Some ((m, sw), None)"
proof -
  have same: "m\<lparr>leaderState := MGR_NOT_LEADER\<rparr> = m" using assms(2) by (cases m) simp
  show ?thesis
    using assms
    by (auto simp: recurringFunctions_def buildWhenLeaderFunction_def manager_call_def RecurringSyncFunc_def
        RecurringSyncEnforceFunc_def recurringFunc_def Let_def same)
qed

lemma losing_the_lock:
  assumes "leaderState m = MGR_LEADER"
  shows "RecurringSyncFunc man False (m, sw) = Some (stopAll man (m\<lparr>leaderState := MGR_NOT_LEADER\<rparr>, sw), None)"
  using assms by (simp add: RecurringSyncFunc_def recurringFunc_def Let_def)

definition answers_recorded :: "'w runner \<Rightarrow> bool" where
  "answers_recorded s \<longleftrightarrow> (\<forall>(i, ph) \<in> set (rnThreads s). \<forall>rd b. ph = Running rd b \<longrightarrow> (i, b) \<in> set (rnAnswers s))"

definition never_led :: "'w runner \<Rightarrow> bool" where
  "never_led s \<longleftrightarrow> (\<forall>(i, leader) \<in> set (rnAnswers s). \<not> leader)"

lemma answers_recorded_to:
  assumes "answers_recorded s" "\<And>rd b. ph \<noteq> Running rd b"
  shows "answers_recorded (thread_to j (i, ph) s)"
  using assms set_update_subset_insert [of "rnThreads s" j "(i, ph)"] by (fastforce simp: answers_recorded_def)

lemma thread_step_recorded:
  assumes "thread_step answers others fs s s'" "answers_recorded s"
  shows "answers_recorded s' \<and> (\<exists>given. rnAnswers s' = given @ rnAnswers s \<and> snd ` set given \<subseteq> answers)"
  using assms(1)
proof cases
  case (call j i rd)
  then show ?thesis
    using answers_recorded_to [of "s\<lparr>rnStarts := (i, rd, rnClock s) # rnStarts s\<rparr>" "Called rd" j i] assms(2)
    by (simp add: answers_recorded_def)
next
  case (ask j i rd leader)
  then show ?thesis
    using assms(2) set_update_subset_insert [of "rnThreads s" j "(i, Running rd leader)"]
    by (intro conjI exI [of _ "[(i, leader)]"]) (fastforce simp: answers_recorded_def)+
next
  case (return_ j i rd leader w err)
  have "answers_recorded (s\<lparr>rnWorld := w\<rparr>)" using assms(2) by (simp add: answers_recorded_def)
  then show ?thesis using return_(1) answers_recorded_to [OF _ after_run_idle(2)] by simp
qed (use answers_recorded_to [OF assms(2)] assms(2) in \<open>simp_all, simp_all add: answers_recorded_def\<close>)

lemma follower_step:
  assumes step: "thread_step answers others (recurringFunctions conf e man) s s'" and rec: "answers_recorded s"
    and follows: "never_led s" and m: "fst (rnWorld s) = m" "leaderState m = MGR_NOT_LEADER"
  shows "(rnWorld s, rnWorld s') \<in> others\<^sup>="
  using step
proof cases
  case (return_ j i rd leader w err)
  have "(i, Running rd leader) \<in> set (rnThreads s)" using return_(2) by (metis nth_mem thread_at_def)
  then have "\<not> leader" using rec follows by (fastforce simp: answers_recorded_def never_led_def)
  then have "rfRun (recurringFunctions conf e man ! i) leader (rnWorld s) = Some (rnWorld s, None)"
    using follower_call [OF nth_mem [OF return_(3)], of m "snd (rnWorld s)"] m by (metis prod.collapse)
  then show ?thesis using return_ by simp
qed simp_all

text \<open>
  C27: while the leader lock does not answer that this server leads, its recurring functions change
  nothing: no timed-out task is failed, no task archived, and the schedules of the recurring tasks are left
  alone, whatever the threads' timing; the state of the server is what other activity made of it.
\<close>

theorem followers_change_nothing:
  assumes run: "runner_steps others (recurringFunctions conf e man)
      (runner_Start (recurringFunctions conf e man) (NewRunner now (m, sw))) s"
    and m: "leaderState m = MGR_NOT_LEADER"
    and apart: "\<And>u v. (u, v) \<in> others \<Longrightarrow> fst v = fst u"
    and follows: "never_led s"
  shows "((m, sw), rnWorld s) \<in> others\<^sup>*"
proof -
  have "answers_recorded s \<and>
      (never_led s \<longrightarrow> ((m, sw), rnWorld s) \<in> others\<^sup>* \<and> fst (rnWorld s) = m)"
    using run unfolding runner_steps_def
  proof (induction rule: rtranclp_induct)
    case base
    show ?case by (auto simp: runner_Start_def NewRunner_def answers_recorded_def)
  next
    case (step s1 s2)
    from step.hyps(2) show ?case
    proof cases
      case stop
      then show ?thesis using step.IH by (simp add: runner_Stop_def answers_recorded_def never_led_def)
    next
      case threads
      note r = thread_step_recorded [OF threads]
      have "((m, sw), rnWorld s2) \<in> others\<^sup>* \<and> fst (rnWorld s2) = m" if led: "never_led s2"
      proof -
        have led1: "never_led s1" using led r step.IH by (auto simp: never_led_def)
        then have ih: "((m, sw), rnWorld s1) \<in> others\<^sup>*" "fst (rnWorld s1) = m" using step.IH by simp_all
        have "(rnWorld s1, rnWorld s2) \<in> others\<^sup>="
          using follower_step [OF threads _ led1 ih(2) m] step.IH by simp
        moreover from this have "fst (rnWorld s2) = m" using ih(2) apart [of "rnWorld s1" "rnWorld s2"] by auto
        ultimately show ?thesis using ih(1) by (auto intro: rtrancl_into_rtrancl)
      qed
      then show ?thesis using r step.IH by simp
    qed
  qed
  then show ?thesis using follows by simp
qed

end
