(* ===== verification/LeaderRunnerExamples.thy ===== *)
theory LeaderRunnerExamples
  imports LeaderRunner RecurringExamples
begin

text \<open>The theorems about the runner of the recurring functions, at concrete runs.\<close>

section \<open>A function called twice\<close>

definition counting_function :: "nat rec_function" where
  "counting_function = buildWhenLeaderFunction ''counter'' 5 (\<lambda>w. Some (Suc w, None))"

definition counter_at :: "thread_phase \<Rightarrow> time \<Rightarrow> duration \<Rightarrow> nat \<Rightarrow> (nat \<times> reading \<times> time) list \<Rightarrow> nat runner" where
  "counter_at ph t ahead w starts = \<lparr>rnStopped = False, rnThreads = [(0, ph)], rnClock = t, rnOffset = ahead,
     rnForward = ahead, rnWorld = w, rnStarts = starts, rnAnswers = [(0, True)]\<rparr>"

text \<open>
  The function is called at once. While it runs the wall clock is set forward by 2, so after its return the thread
  sleeps for 3 of its interval of 5; its second iteration begins at 3, when the wall clock shows 5, and the call comes
  late, at 4.
\<close>

definition first_reading :: reading where
  "first_reading = \<lparr>rdWall = 0, rdClock = 0, rdForward = 0\<rparr>"

definition second_reading :: reading where
  "second_reading = \<lparr>rdWall = 5, rdClock = 3, rdForward = 2\<rparr>"

lemma counted_twice:
  "runner_steps {} [counting_function] (runner_Start [counting_function] (NewRunner 0 0))
     (counter_at (Called second_reading) 4 2 1 [(0, second_reading, 4), (0, first_reading, 0)])"
proof -
  let ?fs = "[counting_function]" and ?one = "[(0, first_reading, 0)]"
  let ?s0 = "runner_Start ?fs (NewRunner 0 (0 :: nat))"
  note defs = counter_at_def thread_at_def thread_to_def
  have f: "rfInterval counting_function = 5" "rfRun counting_function True 0 = Some (1, None)"
    by (simp_all add: counting_function_def buildWhenLeaderFunction_def)
  have c: "runner_steps {} ?fs ?s0 (began 0 0 True ?s0)"
    by (rule begins) (simp_all add: thread_at_def shouldRun_def runner_Start_def NewRunner_def)
  have s0: "began 0 0 True ?s0 = counter_at (Running first_reading True) 0 0 0 ?one"
    by (simp add: began_def defs runner_Start_def NewRunner_def read_clock_def wall_clock_def first_reading_def)
  have 1: "thread_step UNIV {} ?fs (counter_at (Running first_reading True) 0 0 0 ?one)
      (counter_at (Running first_reading True) 0 2 0 ?one)"
    using clock_set [of 2 UNIV "{}" ?fs "counter_at (Running first_reading True) 0 0 0 ?one"]
    by (simp add: defs max_skew_def)
  have wait: "after_run 5 0 2 0 = Asleep 3"
    using wrap64_id [of 3]
    by (simp add: after_run_def time_sub_def time_add_def min_duration_def max_duration_def)
  have 2: "thread_step UNIV {} ?fs (counter_at (Running first_reading True) 0 2 0 ?one) (counter_at (Asleep 3) 0 2 1 ?one)"
    using return_ [of "counter_at (Running first_reading True) 0 2 0 ?one" 0 0 first_reading True ?fs 1 None UNIV "{}"] f wait
    by (simp add: defs wall_clock_def first_reading_def)
  have 3: "thread_step UNIV {} ?fs (counter_at (Asleep 3) 0 2 1 ?one) (counter_at (Asleep 3) 3 2 1 ?one)"
    using time_passes [of 3 UNIV "{}" ?fs "counter_at (Asleep 3) 0 2 1 ?one"] by (simp add: defs)
  have 4: "thread_step UNIV {} ?fs (counter_at (Asleep 3) 3 2 1 ?one) (counter_at Ready 3 2 1 ?one)"
    using wake [of "counter_at (Asleep 3) 3 2 1 ?one" 0 0 3 UNIV "{}" ?fs] by (simp add: defs)
  have 5: "thread_step UNIV {} ?fs (counter_at Ready 3 2 1 ?one) (counter_at Entered 3 2 1 ?one)"
    using enter [of "counter_at Ready 3 2 1 ?one" 0 0 UNIV "{}" ?fs] by (simp add: defs shouldRun_def)
  have 6: "thread_step UNIV {} ?fs (counter_at Entered 3 2 1 ?one) (counter_at (Timed second_reading) 3 2 1 ?one)"
    using time_it [of "counter_at Entered 3 2 1 ?one" 0 0 UNIV "{}" ?fs]
    by (simp add: defs read_clock_def wall_clock_def second_reading_def)
  have 7: "thread_step UNIV {} ?fs (counter_at (Timed second_reading) 3 2 1 ?one) (counter_at (Timed second_reading) 4 2 1 ?one)"
    using time_passes [of 1 UNIV "{}" ?fs "counter_at (Timed second_reading) 3 2 1 ?one"] by (simp add: defs)
  have 8: "thread_step UNIV {} ?fs (counter_at (Timed second_reading) 4 2 1 ?one)
      (counter_at (Called second_reading) 4 2 1 ((0, second_reading, 4) # ?one))"
    using call [of "counter_at (Timed second_reading) 4 2 1 ?one" 0 0 second_reading UNIV "{}" ?fs] by (simp add: defs)
  show ?thesis
    using c unfolding s0
    by (rule walked) (rule thread_stepped [OF 1 thread_stepped [OF 2 thread_stepped [OF 3 thread_stepped [OF 4
      thread_stepped [OF 5 thread_stepped [OF 6 thread_stepped [OF 7 thread_stepped [OF 8 stays]]]]]]]])
qed

theorem recurring_calls_spaced_witness:
  "rdClock first_reading + rfInterval ([counting_function] ! 0) \<le> rdClock second_reading + (2 - 0) \<and>
   rdClock second_reading < rdClock first_reading + rfInterval ([counting_function] ! 0)"
proof -
  have "intervals_ok [counting_function]"
    by (simp add: intervals_ok_def counting_function_def buildWhenLeaderFunction_def)
  from recurring_calls_spaced [OF this counted_twice, where later = "[]" and between = "[]" and earlier = "[]"]
  have "rdClock first_reading + rfInterval ([counting_function] ! 0)
      \<le> rdClock second_reading + (rdForward second_reading - rdForward first_reading)"
    by (simp add: counter_at_def)
  moreover have "rdForward second_reading = 2" "rdForward first_reading = 0" "rdClock second_reading = 3"
    "rdClock first_reading = 0" "rfInterval counting_function = 5"
    by (simp_all add: second_reading_def first_reading_def counting_function_def buildWhenLeaderFunction_def)
  ultimately show ?thesis by simp
qed

section \<open>A server that does not lead\<close>

definition example_runner_conf :: Recurring where
  "example_runner_conf = \<lparr>
     rLeaderLock = \<lparr>lcRunInterval = 5, lcLeaderLockLease = 20\<rparr>,
     rTimedOutTasksReaper = \<lparr>trScrollSize = 10, trScrollTtl = 60, trRunInterval = 5\<rparr>,
     rTasksArchiver = \<lparr>taScrollSize = 10, taScrollTtl = 60, taArchiveOlderThan = 100, taRunInterval = 5\<rparr>,
     rRecurringTasks = \<lparr>rcScrollSize = 10, rcScrollTtl = 60, rcSyncRunInterval = 5, rcEnforceSyncRunInterval = 50\<rparr>\<rparr>"

definition silent_tasks :: "cron_world task_env" where
  "silent_tasks = es_client.extend (sys.extend
     (sys.fields (\<lambda>w. (w, 0)) (\<lambda>d w. w) (\<lambda>w. (w, ''0-1'')))
     (es_client.fields (\<lambda>ix i d w. (w, NoResponse)) (\<lambda>ix i w. (w, NoResponse))
       (\<lambda>ix i d l w. (w, NoResponse)) (\<lambda>ixs q w. (w, NoResponse)) (\<lambda>ttl ixs q w. (w, NoResponse))
       (\<lambda>ttl i w. (w, NoResponse)) (\<lambda>is w. (w, NoResponse)) (\<lambda>ops w. (w, NoResponse))
       (\<lambda>ixs q w. (w, NoResponse)) (\<lambda>ixs w. (w, NoResponse))))
     (task_env.fields (\<lambda>w. (w, 7)) (\<lambda>q w. (w, None)) (\<lambda>q at w. w))"

definition example_functions :: "cron_world server_state rec_function list" where
  "example_functions = recurringFunctions example_runner_conf silent_tasks (example_server marked_ok)"

definition example_scheduler :: "schedulerImpl \<times> cron_world" where
  "example_scheduler = (NewSchedulerImpl, cron_world0)"

definition example_runner ::
  "(nat \<times> thread_phase) list \<Rightarrow> (nat \<times> reading \<times> time) list \<Rightarrow> (nat \<times> bool) list \<Rightarrow> cron_world server_state runner" where
  "example_runner ths starts answers = \<lparr>rnStopped = False, rnThreads = ths, rnClock = 0, rnOffset = 0, rnForward = 0,
     rnWorld = (NewManager, example_scheduler), rnStarts = starts, rnAnswers = answers\<rparr>"

text \<open>The synchronisation is called, answered that it does not lead, and returns.\<close>

lemma follower_synced:
  "runner_steps {} example_functions (runner_Start example_functions (NewRunner 0 (NewManager, example_scheduler)))
     (example_runner [(0, Ready), (1, Ready), (2, Asleep 5), (3, Ready)] [(2, first_reading, 0)] [(2, False)])"
proof -
  let ?fs = example_functions
  let ?s0 = "runner_Start ?fs (NewRunner 0 (NewManager, example_scheduler))"
  let ?s1 = "example_runner [(0, Ready), (1, Ready), (2, Running first_reading False), (3, Ready)]
    [(2, first_reading, 0)] [(2, False)]"
  have len: "length ?fs = 4" and i: "rfInterval (?fs ! 2) = 5"
    by (simp_all add: example_functions_def recurringFunctions_def example_runner_conf_def)
  have f: "rfRun (?fs ! 2) False (NewManager, example_scheduler) = Some ((NewManager, example_scheduler), None)"
    unfolding example_functions_def
    by (rule follower_call, rule nth_mem) (simp_all add: recurringFunctions_def NewManager_def)
  have s0: "?s0 = example_runner [(0, Ready), (1, Ready), (2, Ready), (3, Ready)] [] []"
    using len by (simp add: runner_Start_def NewRunner_def example_runner_def upt_rec)
  have c: "runner_steps {} ?fs ?s0 (began 2 2 False ?s0)"
    by (rule begins) (simp_all add: s0 example_runner_def thread_at_def shouldRun_def eval_nat_numeral)
  have b: "began 2 2 False ?s0 = ?s1"
    by (simp add: s0 began_def example_runner_def thread_to_def read_clock_def wall_clock_def first_reading_def eval_nat_numeral)
  have r: "thread_step UNIV {} ?fs ?s1
      (example_runner [(0, Ready), (1, Ready), (2, Asleep 5), (3, Ready)] [(2, first_reading, 0)] [(2, False)])"
    using return_ [of ?s1 2 2 first_reading False ?fs "(NewManager, example_scheduler)" None UNIV "{}"]
      f i len after_run_now [of 5 0 0]
    by (simp add: example_runner_def thread_at_def thread_to_def wall_clock_def first_reading_def eval_nat_numeral)
  show ?thesis using c unfolding b by (rule walked) (rule thread_stepped [OF r stays])
qed

theorem followers_change_nothing_witness:
  "((NewManager, example_scheduler),
      rnWorld (example_runner [(0, Ready), (1, Ready), (2, Asleep 5), (3, Ready)] [(2, first_reading, 0)] [(2, False)])) \<in> {}\<^sup>*"
  by (rule followers_change_nothing [OF follower_synced [unfolded example_functions_def]])
    (simp_all add: NewManager_def never_led_def example_runner_def)

end
