(* ===== verification/IndexSetup.thy ===== *)
theory IndexSetup
  imports EsRecurring LeaderLock "HOL-Library.AList"
begin

text \<open>
  Preparing Elasticsearch: the index templates of
  \<open>internal/infra/elasticsearch/index/template.go\<close>, the lifecycle policy of
  \<open>lifecycle_management.go\<close>, the import into Kibana
  (\<open>internal/infra/kibana/saved_objects/importer.go\<close>), and the setup that runs what is missing,
  \<open>internal/infra/server/setup.go\<close>. The requests of the administration API are parameters.
\<close>

section \<open>Configuration\<close>

record CustomLifecyclePolicy =
  clpName :: string
  clpPolicy :: json_obj

record LifecycleSettings =
  lsEnabled :: bool
  lsCustomPolicy :: "CustomLifecyclePolicy option"

record KibanaClient =
  kcAddress :: string
  kcUser :: "(string \<times> string) option"

section \<open>The administration API\<close>

text \<open>
  \<open>IndicesGetTemplate\<close> answers with the names of templates (the keys of the object), and
  \<open>KibanaImport\<close>, a POST to Kibana, with its field \<open>success\<close>.
\<close>

record 'w es_admin =
  ILMPutLifecycle :: "string \<Rightarrow> json \<Rightarrow> 'w \<Rightarrow> 'w \<times> unit es_reply"
  ILMGetLifecycle :: "string \<Rightarrow> 'w \<Rightarrow> 'w \<times> unit es_reply"
  IndicesCreate :: "string \<Rightarrow> json \<Rightarrow> 'w \<Rightarrow> 'w \<times> unit es_reply"
  IndicesPutTemplate :: "string \<Rightarrow> json \<Rightarrow> 'w \<Rightarrow> 'w \<times> unit es_reply"
  IndicesGetTemplate :: "string list \<Rightarrow> 'w \<Rightarrow> 'w \<times> string list es_reply"
  KibanaImport :: "string \<Rightarrow> (string \<times> string) option \<Rightarrow> 'w \<Rightarrow> 'w \<times> bool es_reply"

datatype setup_error =
    PolicyNotInstalled "string list"
  | TemplatesNotInstalled "string list"
  | PutTemplateErrors "setup_error list"
  | SetupElasticsearchErr
  | SetupJsonSerdesErr
  | KibanaRequestErr
  | KibanaResponseErr

section \<open>Mappings\<close>

definition keyword_field :: json where
  "keyword_field = JObj [(''type'', JStr ''text''),
     (''fields'', JObj [(''keyword'', JObj [(''type'', JStr ''keyword''), (''ignore_above'', JNum 512)])])]"

definition typed :: "string \<Rightarrow> json" where
  "typed t = JObj [(''type'', JStr t)]"

definition unindexed :: json where
  "unindexed = JObj [(''type'', JStr ''object''), (''enabled'', JBool False)]"

definition properties :: "json_obj \<Rightarrow> json" where
  "properties ps = JObj [(''properties'', JObj ps)]"

definition baseTaskMappings :: json_obj where
  "baseTaskMappings = [
     (''_source'', JObj [(''enabled'', JBool True)]),
     (''dynamic'', JBool True),
     (''properties'', JObj [
        (''id'', keyword_field),
        (''queue'', keyword_field),
        (''retry_times'', typed ''long''),
        (''remaining_attempts'', typed ''long''),
        (''kind'', keyword_field),
        (''state'', typed ''keyword''),
        (''run_at'', typed ''date''),
        (''processing_timeout'', typed ''long''),
        (''priority'', typed ''long''),
        (''args'', unindexed),
        (''context'', unindexed),
        (''last_enqueued_at'', typed ''date''),
        (''last_claimed'', properties [
           (''worker_id'', keyword_field),
           (''claimed_at'', typed ''date''),
           (''times_out_at'', typed ''date''),
           (''last_report'', properties [(''at'', typed ''date''), (''data'', unindexed)]),
           (''result'', properties [(''at'', typed ''date''), (''failure'', unindexed),
              (''success'', unindexed)])]),
        (''recurring_task_id'', keyword_field),
        (''metadata'', properties [(''created_at'', typed ''date''), (''modified_at'', typed ''date'')])])]"

definition archivedTaskMappings :: json_obj where
  "archivedTaskMappings = baseTaskMappings"

definition lockMappings :: json_obj where
  "lockMappings = [(''_source'', JObj [(''enabled'', JBool True)]), (''dynamic'', JBool True)]"

definition recurringTaskMappings :: json_obj where
  "recurringTaskMappings = [
     (''_source'', JObj [(''enabled'', JBool True)]),
     (''dynamic'', JBool True),
     (''properties'', JObj [
        (''is_deleted'', typed ''boolean''),
        (''loaded_at'', typed ''date''),
        (''metadata'', properties [(''created_at'', typed ''date''), (''modified_at'', typed ''date'')]),
        (''schedule_expression'', keyword_field),
        (''skip_if_outstanding_tasks_exist'', typed ''boolean''),
        (''task_definition'', properties [
           (''kind'', keyword_field),
           (''priority'', typed ''long''),
           (''args'', unindexed),
           (''context'', unindexed),
           (''processing_timeout'', typed ''long''),
           (''queue'', keyword_field),
           (''retry_times'', typed ''long'')])])]"

section \<open>Templates\<close>

record Template =
  tpName :: string
  tpPatterns :: "string list"
  tpSettings :: "json_obj option"
  tpMappings :: json_obj

definition NewTemplate :: "string \<Rightarrow> string list \<Rightarrow> json_obj \<Rightarrow> Template" where
  "NewTemplate name patterns mappings =
     \<lparr>tpName = name, tpPatterns = patterns, tpSettings = None, tpMappings = mappings\<rparr>"

definition TasquesQueuesTemplate :: Template where
  "TasquesQueuesTemplate = NewTemplate ''.tasques_queues_index_template'' [BuildIndexName ''*''] baseTaskMappings"

definition TasquesArchiveTemplate :: Template where
  "TasquesArchiveTemplate =
     NewTemplate ''.tasques_archive_index_template'' [TasquesArchiveIndex] archivedTaskMappings"

definition TasquesLocksTemplate :: Template where
  "TasquesLocksTemplate = NewTemplate ''.tasques_leader_locks_index_template'' [LockIndexName] lockMappings"

definition TasquesRecurringTasksTemplate :: Template where
  "TasquesRecurringTasksTemplate =
     NewTemplate ''.tasques_recurring_tasks_index_template'' [TasquesRecurringTasksIndex] recurringTaskMappings"

text \<open>The name is not serialised; empty settings and mappings are omitted.\<close>

definition template_json :: "Template \<Rightarrow> json" where
  "template_json t = JObj ([(''index_patterns'', JArr (map JStr (tpPatterns t)))]
     @ (case tpSettings t of None \<Rightarrow> [] | Some s \<Rightarrow> if s = [] then [] else [(''settings'', JObj s)])
     @ (if tpMappings t = [] then [] else [(''mappings'', JObj (tpMappings t))]))"

section \<open>The lifecycle policy\<close>

definition DefaultArchivedTasquesPolicyName :: string where
  "DefaultArchivedTasquesPolicyName = ''tasques_archived_tasks_policy''"

definition DefaultArchivedTasquesPolicy :: json_obj where
  "DefaultArchivedTasquesPolicy = [(''phases'', JObj [
     (''hot'', JObj [(''actions'', JObj [(''rollover'', JObj [(''max_size'', JStr ''50GB''),
        (''max_age'', JStr ''1d'')])])]),
     (''warm'', JObj [(''min_age'', JStr ''7d''), (''actions'', JObj [(''readonly'', JObj [])])]),
     (''cold'', JObj [(''min_age'', JStr ''30d''), (''actions'', JObj [(''freeze'', JObj [])])])])]"

definition archivedTasksPolicyName :: "LifecycleSettings \<Rightarrow> string" where
  "archivedTasksPolicyName conf =
     (case lsCustomPolicy conf of Some p \<Rightarrow> clpName p | None \<Rightarrow> DefaultArchivedTasquesPolicyName)"

definition archivedTasksPolicy :: "LifecycleSettings \<Rightarrow> json" where
  "archivedTasksPolicy conf =
     (case lsCustomPolicy conf of
        Some p \<Rightarrow> JObj [(''policy'', JObj (clpPolicy p))]
      | None \<Rightarrow> JObj [(''policy'', JObj DefaultArchivedTasquesPolicy)])"

definition ArchivedTemplateHook :: "LifecycleSettings \<Rightarrow> Template \<Rightarrow> Template" where
  "ArchivedTemplateHook conf t =
     (if lsEnabled conf then
        (let settings = (case tpSettings t of None \<Rightarrow> [] | Some s \<Rightarrow> s)
         in t\<lparr>tpPatterns := [TasquesArchiveIndex @ ''-*''],
              tpSettings := Some (AList.update ''index.lifecycle.rollover_alias'' (JStr TasquesArchiveIndex)
                (AList.update ''index.lifecycle.name'' (JStr (archivedTasksPolicyName conf)) settings))\<rparr>)
      else t)"

definition InstallPolicies :: "'w es_admin \<Rightarrow> LifecycleSettings \<Rightarrow> 'w \<Rightarrow> 'w \<times> setup_error option" where
  "InstallPolicies a conf w =
     (if lsEnabled conf then
        (case ILMPutLifecycle a (archivedTasksPolicyName conf) (archivedTasksPolicy conf) w of
           (w1, NoResponse) \<Rightarrow> (w1, Some SetupElasticsearchErr)
         | (w1, Response statusCode _) \<Rightarrow> (w1, if statusCode = 200 then None else Some SetupElasticsearchErr))
      else (w, None))"

definition ilmCheck :: "'w es_admin \<Rightarrow> LifecycleSettings \<Rightarrow> 'w \<Rightarrow> 'w \<times> setup_error option" where
  "ilmCheck a conf w =
     (if lsEnabled conf then
        (let policyName = archivedTasksPolicyName conf in
         case ILMGetLifecycle a policyName w of
           (w1, NoResponse) \<Rightarrow> (w1, Some SetupElasticsearchErr)
         | (w1, Response statusCode _) \<Rightarrow>
             (w1, if statusCode = 200 then None
                  else if statusCode = 404 then Some (PolicyNotInstalled [policyName])
                  else Some SetupElasticsearchErr))
      else (w, None))"

definition buildWriteAlias :: "string \<Rightarrow> json" where
  "buildWriteAlias alias = JObj [(''aliases'', JObj [(alias, JObj [(''is_write_index'', JBool True)])])]"

text \<open>The condition on the status is the code's: every status meets it.\<close>

definition BootstrapIndices :: "'w es_admin \<Rightarrow> LifecycleSettings \<Rightarrow> 'w \<Rightarrow> 'w \<times> setup_error option" where
  "BootstrapIndices a conf w =
     (if lsEnabled conf then
        (case IndicesCreate a (''%3C'' @ TasquesArchiveIndex @ ''-%7Bnow%2Fd%7D-000001%3E'')
               (buildWriteAlias TasquesArchiveIndex) w of
           (w1, NoResponse) \<Rightarrow> (w1, Some SetupElasticsearchErr)
         | (w1, Response respStatus _) \<Rightarrow>
             (w1, if 200 \<le> respStatus \<or> respStatus \<le> 299 then None else Some SetupElasticsearchErr))
      else (w, None))"

section \<open>Installing and checking the templates\<close>

definition DefaultTemplates :: "LifecycleSettings \<Rightarrow> Template list" where
  "DefaultTemplates conf = [TasquesQueuesTemplate, ArchivedTemplateHook conf TasquesArchiveTemplate,
     TasquesLocksTemplate, TasquesRecurringTasksTemplate]"

definition putTemplate :: "'w es_admin \<Rightarrow> Template \<Rightarrow> 'w \<Rightarrow> 'w \<times> setup_error option" where
  "putTemplate a t w =
     (case IndicesPutTemplate a (tpName t) (template_json t) w of
        (w1, NoResponse) \<Rightarrow> (w1, Some SetupElasticsearchErr)
      | (w1, Response statusCode _) \<Rightarrow> (w1, if statusCode = 200 then None else Some SetupElasticsearchErr))"

fun put_each :: "'w es_admin \<Rightarrow> Template list \<Rightarrow> 'w \<Rightarrow> 'w \<times> setup_error list" where
  "put_each a [] w = (w, [])"
| "put_each a (t # ts) w =
     (let (w1, err) = putTemplate a t w; (w2, errs) = put_each a ts w1
      in (w2, (case err of None \<Rightarrow> errs | Some e \<Rightarrow> e # errs)))"

definition templatesRun :: "'w es_admin \<Rightarrow> Template list \<Rightarrow> 'w \<Rightarrow> 'w \<times> setup_error option" where
  "templatesRun a ts w =
     (let (w1, errors) = put_each a ts w
      in (w1, if errors \<noteq> [] then Some (PutTemplateErrors errors) else None))"

definition templatesCheck :: "'w es_admin \<Rightarrow> Template list \<Rightarrow> 'w \<Rightarrow> 'w \<times> setup_error option" where
  "templatesCheck a ts w =
     (let indexTemplateNames = map tpName ts in
      case IndicesGetTemplate a indexTemplateNames w of
        (w1, NoResponse) \<Rightarrow> (w1, Some SetupElasticsearchErr)
      | (w1, Response statusCode body) \<Rightarrow>
          (w1, if statusCode = 200 then
                 (case body of
                    None \<Rightarrow> Some SetupJsonSerdesErr
                  | Some mappings \<Rightarrow>
                      (let notPresent = filter (\<lambda>name. name \<notin> set mappings) indexTemplateNames
                       in if notPresent \<noteq> [] then Some (TemplatesNotInstalled notPresent) else None))
               else if statusCode = 404 then Some (TemplatesNotInstalled indexTemplateNames)
               else Some SetupElasticsearchErr))"

section \<open>Kibana\<close>

definition kibanaRun :: "'w es_admin \<Rightarrow> KibanaClient \<Rightarrow> 'w \<Rightarrow> 'w \<times> setup_error option" where
  "kibanaRun a conf w =
     (case KibanaImport a (kcAddress conf @ ''/api/saved_objects/_import?overwrite=true'') (kcUser conf) w of
        (w1, NoResponse) \<Rightarrow> (w1, Some KibanaRequestErr)
      | (w1, Response statusCode body) \<Rightarrow>
          (w1, if statusCode = 200 then
                 (case body of
                    None \<Rightarrow> Some SetupJsonSerdesErr
                  | Some success \<Rightarrow> if success then None else Some KibanaResponseErr)
               else Some KibanaResponseErr))"

section \<open>The setup\<close>

record Setup =
  suIlm :: LifecycleSettings
  suTemplates :: "Template list"
  suKibana :: KibanaClient

text \<open>\<open>None\<close> is a panic: the optional configuration of Kibana is dereferenced.\<close>

definition NewSetup :: "LifecycleSettings \<Rightarrow> KibanaClient option \<Rightarrow> Setup option" where
  "NewSetup lifecycle kibana =
     (case kibana of
        None \<Rightarrow> None
      | Some k \<Rightarrow> Some \<lparr>suIlm = lifecycle, suTemplates = DefaultTemplates lifecycle, suKibana = k\<rparr>)"

definition setupCheck :: "'w es_admin \<Rightarrow> Setup \<Rightarrow> 'w \<Rightarrow> 'w \<times> setup_error option" where
  "setupCheck a s w =
     (case ilmCheck a (suIlm s) w of
        (w1, Some err) \<Rightarrow> (w1, Some err)
      | (w1, None) \<Rightarrow> templatesCheck a (suTemplates s) w1)"

definition setup_templates :: "'w es_admin \<Rightarrow> Setup \<Rightarrow> 'w \<Rightarrow> 'w \<times> setup_error option" where
  "setup_templates a s w =
     (case templatesCheck a (suTemplates s) w of
        (w1, None) \<Rightarrow> (w1, None)
      | (w1, Some (TemplatesNotInstalled names)) \<Rightarrow>
          (case templatesRun a (suTemplates s) w1 of
             (w2, Some err) \<Rightarrow> (w2, Some err)
           | (w2, None) \<Rightarrow> kibanaRun a (suKibana s) w2)
      | (w1, Some err) \<Rightarrow> (w1, Some err))"

definition RunIfNeeded :: "'w es_admin \<Rightarrow> Setup \<Rightarrow> 'w \<Rightarrow> 'w \<times> setup_error option" where
  "RunIfNeeded a s w =
     (case ilmCheck a (suIlm s) w of
        (w1, None) \<Rightarrow> setup_templates a s w1
      | (w1, Some (PolicyNotInstalled names)) \<Rightarrow>
          (case InstallPolicies a (suIlm s) w1 of
             (w2, Some err) \<Rightarrow> (w2, Some err)
           | (w2, None) \<Rightarrow>
               (case setup_templates a s w2 of
                  (w3, Some err) \<Rightarrow> (w3, Some err)
                | (w3, None) \<Rightarrow> BootstrapIndices a (suIlm s) w3))
      | (w1, Some err) \<Rightarrow> (w1, Some err))"

end
