(* ===== verification/SetupSafety.thy ===== *)
theory SetupSafety
  imports IndexSetup
begin

text \<open>
  What the setup promises: the documents the services store fit the mappings it installs; a setup
  that ran without error is found by the check of the server. And what it does not: a setup that
  was interrupted never creates the archive index afterwards.
\<close>

section \<open>Documents and mappings\<close>

definition field_mapping :: "json \<Rightarrow> string \<Rightarrow> json option" where
  "field_mapping m k =
     (case m of JObj ms \<Rightarrow>
        (case map_of ms ''properties'' of Some (JObj ps) \<Rightarrow> map_of ps k | _ \<Rightarrow> None)
      | _ \<Rightarrow> None)"

definition has_type :: "json \<Rightarrow> string \<Rightarrow> bool" where
  "has_type m t \<longleftrightarrow> (case m of JObj ms \<Rightarrow> map_of ms ''type'' = Some (JStr t) | _ \<Rightarrow> False)"

definition fits_long :: "int \<Rightarrow> bool" where
  "fits_long n \<longleftrightarrow> - (2 ^ 63) \<le> n \<and> n < 2 ^ 63"

text \<open>
  A document fits a mapping if every field has one, of the type of its value: nothing is left to
  dynamic mapping, and nothing is refused. An object that is not indexed may hold anything.
\<close>

fun fits :: "json \<Rightarrow> json \<Rightarrow> bool" where
  "fits m (JObj fs) \<longleftrightarrow> m = unindexed \<or>
     (\<forall>(k, v) \<in> set fs. case field_mapping m k of None \<Rightarrow> False | Some m' \<Rightarrow> fits m' v)"
| "fits m (JNum n) \<longleftrightarrow> has_type m ''long'' \<and> fits_long n"
| "fits m (JStr s) \<longleftrightarrow> has_type m ''text'' \<or> has_type m ''keyword''"
| "fits m (JTime t) \<longleftrightarrow> has_type m ''date''"
| "fits m (JBool b) \<longleftrightarrow> has_type m ''boolean''"
| "fits m _ \<longleftrightarrow> False"

lemma fits_fields:
  "fits m (JObj fs) \<longleftrightarrow> m = unindexed \<or>
     list_all (\<lambda>x. case field_mapping m (fst x) of None \<Rightarrow> False | Some m' \<Rightarrow> fits m' (snd x)) fs"
  by (auto simp: list_all_iff split_def)

lemma fits_unindexed [simp]: "fits unindexed (JObj fs)"
  by simp

lemma mapping_types [simp]:
  "has_type (typed t) t' \<longleftrightarrow> t = t'" "has_type keyword_field ''text''"
  by (simp_all add: has_type_def typed_def keyword_field_def)

lemma properties_mapping [simp]:
  "field_mapping (properties ps) k = map_of ps k" "properties ps \<noteq> unindexed"
  by (simp_all add: field_mapping_def properties_def unindexed_def)

lemma base_mapping:
  "field_mapping (JObj baseTaskMappings) ''id'' = Some keyword_field"
  "field_mapping (JObj baseTaskMappings) ''queue'' = Some keyword_field"
  "field_mapping (JObj baseTaskMappings) ''retry_times'' = Some (typed ''long'')"
  "field_mapping (JObj baseTaskMappings) ''remaining_attempts'' = Some (typed ''long'')"
  "field_mapping (JObj baseTaskMappings) ''kind'' = Some keyword_field"
  "field_mapping (JObj baseTaskMappings) ''state'' = Some (typed ''keyword'')"
  "field_mapping (JObj baseTaskMappings) ''run_at'' = Some (typed ''date'')"
  "field_mapping (JObj baseTaskMappings) ''processing_timeout'' = Some (typed ''long'')"
  "field_mapping (JObj baseTaskMappings) ''priority'' = Some (typed ''long'')"
  "field_mapping (JObj baseTaskMappings) ''args'' = Some unindexed"
  "field_mapping (JObj baseTaskMappings) ''context'' = Some unindexed"
  "field_mapping (JObj baseTaskMappings) ''last_enqueued_at'' = Some (typed ''date'')"
  "field_mapping (JObj baseTaskMappings) ''recurring_task_id'' = Some keyword_field"
  "JObj baseTaskMappings \<noteq> unindexed"
  by (simp_all add: field_mapping_def baseTaskMappings_def unindexed_def)

lemma fits_metadata [simp]:
  "fits (properties [(''created_at'', typed ''date''), (''modified_at'', typed ''date'')]) (metadata_json md)"
  by (simp add: metadata_json_def)

lemma fits_last_claimed [simp]:
  "fits (properties [(''worker_id'', keyword_field), (''claimed_at'', typed ''date''),
     (''times_out_at'', typed ''date''),
     (''last_report'', properties [(''at'', typed ''date''), (''data'', unindexed)]),
     (''result'', properties [(''at'', typed ''date''), (''failure'', unindexed), (''success'', unindexed)])])
     (lastClaimed_json l)"
  by (auto simp: lastClaimed_json_def report_json_def result_json_def opt_field_def split: option.split)

lemma base_objects:
  "field_mapping (JObj baseTaskMappings) ''last_claimed'' = Some (properties [(''worker_id'', keyword_field),
     (''claimed_at'', typed ''date''), (''times_out_at'', typed ''date''),
     (''last_report'', properties [(''at'', typed ''date''), (''data'', unindexed)]),
     (''result'', properties [(''at'', typed ''date''), (''failure'', unindexed), (''success'', unindexed)])])"
  "field_mapping (JObj baseTaskMappings) ''metadata'' =
     Some (properties [(''created_at'', typed ''date''), (''modified_at'', typed ''date'')])"
  by (simp_all add: field_mapping_def baseTaskMappings_def)

lemma fits_opt: "list_all P (opt_field k f v) \<longleftrightarrow> (\<forall>x. v = Some x \<longrightarrow> P (k, f x))"
  by (simp add: opt_field_def split: option.split)

lemma recurring_mapping:
  "field_mapping (JObj recurringTaskMappings) ''is_deleted'' = Some (typed ''boolean'')"
  "field_mapping (JObj recurringTaskMappings) ''loaded_at'' = Some (typed ''date'')"
  "field_mapping (JObj recurringTaskMappings) ''schedule_expression'' = Some keyword_field"
  "field_mapping (JObj recurringTaskMappings) ''skip_if_outstanding_tasks_exist'' = Some (typed ''boolean'')"
  "field_mapping (JObj recurringTaskMappings) ''metadata'' =
     Some (properties [(''created_at'', typed ''date''), (''modified_at'', typed ''date'')])"
  "field_mapping (JObj recurringTaskMappings) ''task_definition'' = Some (properties [
     (''kind'', keyword_field), (''priority'', typed ''long''), (''args'', unindexed), (''context'', unindexed),
     (''processing_timeout'', typed ''long''), (''queue'', keyword_field), (''retry_times'', typed ''long'')])"
  "JObj recurringTaskMappings \<noteq> unindexed"
  by (simp_all add: field_mapping_def recurringTaskMappings_def unindexed_def)

lemma fits_task_definition:
  "fits (properties [(''kind'', keyword_field), (''priority'', typed ''long''), (''args'', unindexed),
     (''context'', unindexed), (''processing_timeout'', typed ''long''), (''queue'', keyword_field),
     (''retry_times'', typed ''long'')]) (taskDef_json d) \<longleftrightarrow>
   fits_long (uint (pdRetryTimes d)) \<and> fits_long (pdProcessingTimeout d) \<and> fits_long (pdPriority d)"
  unfolding taskDef_json_def fits_fields by (auto simp: fits_opt)

text \<open>
  The document of the leader lock. Its template names no field: they are left to dynamic mapping, which is on, and
  which takes a text, a time or a 64-bit number.
\<close>

definition leader_data_json :: "leaderData \<Rightarrow> json" where
  "leader_data_json d = JObj [(''leader_id'', JStr (LeaderId d)), (''at'', JTime (ldAt d)),
     (''leader_lock_lease'', JNum (ldLease d))]"

fun dynamic_value :: "json \<Rightarrow> bool" where
  "dynamic_value (JNum n) \<longleftrightarrow> fits_long n"
| "dynamic_value (JObj fs) \<longleftrightarrow> False"
| "dynamic_value (JArr xs) \<longleftrightarrow> False"
| "dynamic_value _ \<longleftrightarrow> True"

definition is_dynamic :: "json \<Rightarrow> bool" where
  "is_dynamic m \<longleftrightarrow> (case m of JObj ms \<Rightarrow> map_of ms ''dynamic'' = Some (JBool True) | _ \<Rightarrow> False)"

definition fits_dynamic :: "json \<Rightarrow> json_obj \<Rightarrow> bool" where
  "fits_dynamic m fs \<longleftrightarrow> list_all (\<lambda>x. case field_mapping m (fst x) of
     None \<Rightarrow> is_dynamic m \<and> dynamic_value (snd x) | Some m' \<Rightarrow> fits m' (snd x)) fs"

definition json_fields :: "json \<Rightarrow> json_obj" where
  "json_fields j = (case j of JObj fs \<Rightarrow> fs | _ \<Rightarrow> [])"

text \<open>
  Which mappings an index gets: those of the templates with a pattern that matches its name. The patterns have at most a wildcard
  at their end.
\<close>

definition pattern_matches :: "string \<Rightarrow> string \<Rightarrow> bool" where
  "pattern_matches pat ix \<longleftrightarrow>
     (if pat \<noteq> [] \<and> last pat = CHR ''*'' then prefix (butlast pat) ix else ix = pat)"

definition mappings_of :: "LifecycleSettings \<Rightarrow> string \<Rightarrow> json list" where
  "mappings_of conf ix = map (\<lambda>t. JObj (tpMappings t))
     (filter (\<lambda>t. list_ex (\<lambda>pat. pattern_matches pat ix) (tpPatterns t)) (DefaultTemplates conf))"

text \<open>The archive is one index, or with a lifecycle policy a series of them behind an alias of that name.\<close>

definition archive_index :: "LifecycleSettings \<Rightarrow> string \<Rightarrow> string" where
  "archive_index conf rollover = (if lsEnabled conf then TasquesArchiveIndex @ ''-'' @ rollover else TasquesArchiveIndex)"

lemma index_names:
  "BuildIndexName q = ''.tasques_queue-'' @ q" "TasquesArchiveIndex = ''.tasques_archive''"
  "LockIndexName = ''.tasques_leader_locks''" "TasquesRecurringTasksIndex = ''.tasques_recurring_tasks''"
  by (simp_all add: BuildIndexName_def TasquesQueuePrefix_def TasquesArchiveIndex_def LockIndexName_def
      TasquesRecurringTasksIndex_def)

lemma installed_templates:
  "DefaultTemplates conf = [
     \<lparr>tpName = ''.tasques_queues_index_template'', tpPatterns = [''.tasques_queue-*''], tpSettings = None, tpMappings = baseTaskMappings\<rparr>,
     \<lparr>tpName = ''.tasques_archive_index_template'',
      tpPatterns = [if lsEnabled conf then ''.tasques_archive-*'' else ''.tasques_archive''],
      tpSettings = tpSettings (ArchivedTemplateHook conf TasquesArchiveTemplate), tpMappings = archivedTaskMappings\<rparr>,
     \<lparr>tpName = ''.tasques_leader_locks_index_template'', tpPatterns = [''.tasques_leader_locks''], tpSettings = None, tpMappings = lockMappings\<rparr>,
     \<lparr>tpName = ''.tasques_recurring_tasks_index_template'', tpPatterns = [''.tasques_recurring_tasks''], tpSettings = None,
      tpMappings = recurringTaskMappings\<rparr>]"
  by (simp add: DefaultTemplates_def TasquesQueuesTemplate_def TasquesArchiveTemplate_def TasquesLocksTemplate_def
      TasquesRecurringTasksTemplate_def ArchivedTemplateHook_def NewTemplate_def index_names Let_def)

lemma index_mappings:
  "mappings_of conf (BuildIndexName q) = [JObj baseTaskMappings]"
  "mappings_of conf (archive_index conf rollover) = [JObj archivedTaskMappings]"
  "mappings_of conf TasquesArchiveIndex = (if lsEnabled conf then [] else [JObj archivedTaskMappings])"
  "mappings_of conf LockIndexName = [JObj lockMappings]"
  "mappings_of conf TasquesRecurringTasksIndex = [JObj recurringTaskMappings]"
  by (simp_all add: mappings_of_def installed_templates pattern_matches_def archive_index_def index_names)

text \<open>
  C36: the mapping of every index the server writes to is the one of the setup: exactly one of the installed templates
  matches its name, for the index of each queue, the archive, the leader locks and the recurring tasks. Every task, queued or archived,
  and every recurring task fits its mapping field by field exactly as long as its numbers are 64-bit
  signed: retry times of 2^63 or more, which the API accepts, are refused by Elasticsearch. The document of a leader lock
  is left to dynamic mapping, which takes it. The exception is the archive under a lifecycle policy whose write index was never
  created: what is written under the bare name then meets no template.
\<close>

theorem documents_fit_mappings:
  "mappings_of conf (BuildIndexName q) = [JObj baseTaskMappings] \<and>
   mappings_of conf (archive_index conf rollover) = [JObj archivedTaskMappings] \<and>
   mappings_of conf TasquesArchiveIndex = (if lsEnabled conf then [] else [JObj archivedTaskMappings]) \<and>
   mappings_of conf LockIndexName = [JObj lockMappings] \<and>
   mappings_of conf TasquesRecurringTasksIndex = [JObj recurringTaskMappings] \<and>
   (fits (JObj baseTaskMappings) (persisted_json p) \<longleftrightarrow>
      uint (pRetryTimes p) < 2 ^ 63 \<and> uint (pRemainingAttempts p) < 2 ^ 63 \<and>
      fits_long (pProcessingTimeout p) \<and> fits_long (pPriority p)) \<and>
   (fits (JObj archivedTaskMappings) (persisted_json p) \<longleftrightarrow> fits (JObj baseTaskMappings) (persisted_json p)) \<and>
   (fits (JObj recurringTaskMappings) (recurring_json r) \<longleftrightarrow>
      uint (pdRetryTimes (prTaskDefinition r)) < 2 ^ 63 \<and>
      fits_long (pdProcessingTimeout (prTaskDefinition r)) \<and> fits_long (pdPriority (prTaskDefinition r))) \<and>
   (fits_dynamic (JObj lockMappings) (json_fields (leader_data_json d)) \<longleftrightarrow> fits_long (ldLease d))"
proof -
  have long: "fits_long (uint (x :: u64)) \<longleftrightarrow> uint x < 2 ^ 63" for x
    by (auto simp: fits_long_def intro: order_trans [OF _ uint_ge_0])
  have tasks: "fits (JObj baseTaskMappings) (persisted_json p) \<longleftrightarrow>
      uint (pRetryTimes p) < 2 ^ 63 \<and> uint (pRemainingAttempts p) < 2 ^ 63 \<and>
      fits_long (pProcessingTimeout p) \<and> fits_long (pPriority p)"
    unfolding persisted_json_def fits_fields
    by (auto simp: fits_opt base_mapping base_objects State_MarshalJSON_def long simp del: fits.simps(1))
  have recurring: "fits (JObj recurringTaskMappings) (recurring_json r) \<longleftrightarrow>
      uint (pdRetryTimes (prTaskDefinition r)) < 2 ^ 63 \<and>
      fits_long (pdProcessingTimeout (prTaskDefinition r)) \<and> fits_long (pdPriority (prTaskDefinition r))"
    unfolding recurring_json_def fits_fields
    by (auto simp: fits_opt recurring_mapping fits_task_definition long simp del: fits.simps(1))
  have lock: "fits_dynamic (JObj lockMappings) (json_fields (leader_data_json d)) \<longleftrightarrow> fits_long (ldLease d)"
    by (simp add: fits_dynamic_def json_fields_def leader_data_json_def lockMappings_def field_mapping_def is_dynamic_def)
  show ?thesis
    by (intro conjI index_mappings tasks recurring lock) (simp only: archivedTaskMappings_def)
qed


section \<open>The documented behaviour of the administration API\<close>

text \<open>
  \<open>pols\<close> and \<open>tpls\<close> are the installed policies and templates: a request never removes one, a put
  answered with 200 adds one, and a get answers with what is there.
\<close>

definition grows :: "('w \<Rightarrow> 'a set) \<Rightarrow> ('w \<Rightarrow> 'b set) \<Rightarrow> 'w \<Rightarrow> 'w \<Rightarrow> bool" where
  "grows pols tpls w w' \<longleftrightarrow> pols w \<subseteq> pols w' \<and> tpls w \<subseteq> tpls w'"

definition admin_laws :: "'w es_admin \<Rightarrow> ('w \<Rightarrow> string set) \<Rightarrow> ('w \<Rightarrow> string set) \<Rightarrow> bool" where
  "admin_laws a pols tpls \<longleftrightarrow>
     (\<forall>p b w w' r. ILMPutLifecycle a p b w = (w', r) \<longrightarrow>
        grows pols tpls w w' \<and> (\<forall>x. r = Response 200 x \<longrightarrow> p \<in> pols w')) \<and>
     (\<forall>p w w' r. ILMGetLifecycle a p w = (w', r) \<longrightarrow>
        grows pols tpls w w' \<and> (\<forall>x. r = Response 200 x \<longrightarrow> p \<in> pols w') \<and>
        (\<forall>x. r = Response 404 x \<longrightarrow> p \<notin> pols w)) \<and>
     (\<forall>i b w w' r. IndicesCreate a i b w = (w', r) \<longrightarrow> grows pols tpls w w') \<and>
     (\<forall>t b w w' r. IndicesPutTemplate a t b w = (w', r) \<longrightarrow>
        grows pols tpls w w' \<and> (\<forall>x. r = Response 200 x \<longrightarrow> t \<in> tpls w')) \<and>
     (\<forall>ts w w' r. IndicesGetTemplate a ts w = (w', r) \<longrightarrow>
        grows pols tpls w w' \<and>
        (\<forall>found. r = Response 200 (Some found) \<longrightarrow> set found \<subseteq> tpls w' \<and> set ts \<inter> tpls w \<subseteq> set found) \<and>
        (\<forall>x. r = Response 404 x \<longrightarrow> set ts \<inter> tpls w = {})) \<and>
     (\<forall>ad u w w' r. KibanaImport a ad u w = (w', r) \<longrightarrow> grows pols tpls w w')"

lemma grows_refl [simp]: "grows pols tpls w w"
  by (simp add: grows_def)

lemma grows_trans [trans]: "grows pols tpls u v \<Longrightarrow> grows pols tpls v w \<Longrightarrow> grows pols tpls u w"
  by (auto simp: grows_def)

lemma grows_keeps:
  assumes "grows pols tpls u v"
  shows "p \<in> pols u \<Longrightarrow> p \<in> pols v" and "ts \<subseteq> tpls u \<Longrightarrow> ts \<subseteq> tpls v"
  using assms by (auto simp: grows_def)

lemma put_policy_law:
  "admin_laws a pols tpls \<Longrightarrow> ILMPutLifecycle a p b w = (w', r) \<Longrightarrow>
     grows pols tpls w w' \<and> (\<forall>x. r = Response 200 x \<longrightarrow> p \<in> pols w')"
  by (unfold admin_laws_def, drule conjunct1, elim allE, erule (1) mp)

lemma get_policy_law:
  "admin_laws a pols tpls \<Longrightarrow> ILMGetLifecycle a p w = (w', r) \<Longrightarrow>
     grows pols tpls w w' \<and> (\<forall>x. r = Response 200 x \<longrightarrow> p \<in> pols w') \<and>
     (\<forall>x. r = Response 404 x \<longrightarrow> p \<notin> pols w)"
  by (unfold admin_laws_def, drule conjunct2, drule conjunct1, elim allE, erule (1) mp)

lemma create_index_law:
  "admin_laws a pols tpls \<Longrightarrow> IndicesCreate a i b w = (w', r) \<Longrightarrow> grows pols tpls w w'"
  by (unfold admin_laws_def, drule conjunct2, drule conjunct2, drule conjunct1, elim allE, erule (1) mp)

lemma put_template_law:
  "admin_laws a pols tpls \<Longrightarrow> IndicesPutTemplate a t b w = (w', r) \<Longrightarrow>
     grows pols tpls w w' \<and> (\<forall>x. r = Response 200 x \<longrightarrow> t \<in> tpls w')"
  by (unfold admin_laws_def, drule conjunct2, drule conjunct2, drule conjunct2, drule conjunct1,
      elim allE, erule (1) mp)

lemma get_template_law:
  "admin_laws a pols tpls \<Longrightarrow> IndicesGetTemplate a ts w = (w', r) \<Longrightarrow> grows pols tpls w w' \<and>
     (\<forall>found. r = Response 200 (Some found) \<longrightarrow> set found \<subseteq> tpls w' \<and> set ts \<inter> tpls w \<subseteq> set found) \<and>
     (\<forall>x. r = Response 404 x \<longrightarrow> set ts \<inter> tpls w = {})"
  by (unfold admin_laws_def, drule conjunct2, drule conjunct2, drule conjunct2, drule conjunct2,
      drule conjunct1, elim allE, erule (1) mp)

lemma import_law:
  "admin_laws a pols tpls \<Longrightarrow> KibanaImport a ad u w = (w', r) \<Longrightarrow> grows pols tpls w w'"
  by (unfold admin_laws_def, drule conjunct2, drule conjunct2, drule conjunct2, drule conjunct2,
      drule conjunct2, elim allE, erule (1) mp)

text \<open>The steps of the setup, under these laws.\<close>

lemma ilmCheck_rule:
  assumes laws: "admin_laws a pols tpls" and run: "ilmCheck a conf w = (w', err)"
  shows "grows pols tpls w w' \<and>
     (err = None \<and> lsEnabled conf \<longrightarrow> archivedTasksPolicyName conf \<in> pols w') \<and>
     (\<forall>ps. err = Some (PolicyNotInstalled ps) \<longrightarrow>
        lsEnabled conf \<and> archivedTasksPolicyName conf \<notin> pols w) \<and>
     (\<forall>ts. err \<noteq> Some (TemplatesNotInstalled ts))"
proof -
  obtain v r where r: "ILMGetLifecycle a (archivedTasksPolicyName conf) w = (v, r)"
    by (rule prod.exhaust)
  note law = get_policy_law [OF laws r]
  show ?thesis
    using run r law by (cases r) (auto simp: ilmCheck_def Let_def split: if_splits)
qed

lemma InstallPolicies_rule:
  assumes laws: "admin_laws a pols tpls" and run: "InstallPolicies a conf w = (w', err)"
  shows "grows pols tpls w w' \<and>
     (err = None \<and> lsEnabled conf \<longrightarrow> archivedTasksPolicyName conf \<in> pols w')"
proof -
  obtain v r where r: "ILMPutLifecycle a (archivedTasksPolicyName conf) (archivedTasksPolicy conf) w = (v, r)"
    by (rule prod.exhaust)
  note law = put_policy_law [OF laws r]
  show ?thesis
    using run r law by (cases r) (auto simp: InstallPolicies_def Let_def split: if_splits)
qed

lemma BootstrapIndices_rule:
  assumes laws: "admin_laws a pols tpls" and run: "BootstrapIndices a conf w = (w', err)"
  shows "grows pols tpls w w'"
proof -
  obtain v r where r: "IndicesCreate a (''%3C'' @ TasquesArchiveIndex @ ''-%7Bnow%2Fd%7D-000001%3E'')
      (buildWriteAlias TasquesArchiveIndex) w = (v, r)"
    by (rule prod.exhaust)
  note law = create_index_law [OF laws r]
  show ?thesis
    using run r law by (cases r) (auto simp: BootstrapIndices_def Let_def split: if_splits)
qed

lemma putTemplate_rule:
  assumes laws: "admin_laws a pols tpls" and run: "putTemplate a t w = (w', err)"
  shows "grows pols tpls w w' \<and> (err = None \<longrightarrow> tpName t \<in> tpls w')"
proof -
  obtain v r where r: "IndicesPutTemplate a (tpName t) (template_json t) w = (v, r)"
    by (rule prod.exhaust)
  note law = put_template_law [OF laws r]
  show ?thesis
    using run r law by (cases r) (auto simp: putTemplate_def Let_def split: if_splits)
qed

lemma put_each_rule:
  assumes laws: "admin_laws a pols tpls"
  shows "put_each a ts w = (w', errs) \<Longrightarrow> grows pols tpls w w' \<and> (errs = [] \<longrightarrow> tpName ` set ts \<subseteq> tpls w')"
proof (induction ts arbitrary: w errs)
  case (Cons t ts)
  obtain w1 err where one: "putTemplate a t w = (w1, err)" by fastforce
  obtain errs' where rest: "put_each a ts w1 = (w', errs')"
    "errs = (case err of None \<Rightarrow> errs' | Some e \<Rightarrow> e # errs')"
    using Cons.prems one by (auto split: prod.splits)
  note o = putTemplate_rule [OF laws one] and r = Cons.IH [OF rest(1)]
  have "grows pols tpls w w'" by (rule grows_trans [OF conjunct1 [OF o] conjunct1 [OF r]])
  moreover have "errs = [] \<longrightarrow> tpName ` set (t # ts) \<subseteq> tpls w'"
    using o r rest(2) by (auto simp: grows_def split: option.splits)
  ultimately show ?case by blast
qed simp

lemma templatesCheck_rule:
  assumes laws: "admin_laws a pols tpls"
  shows "templatesCheck a ts w = (w', err) \<Longrightarrow> grows pols tpls w w' \<and>
     (err = None \<longrightarrow> tpName ` set ts \<subseteq> tpls w') \<and>
     (\<forall>ns. err = Some (TemplatesNotInstalled ns) \<longrightarrow> ts \<noteq> [] \<longrightarrow> \<not> tpName ` set ts \<subseteq> tpls w) \<and>
     (\<forall>ps. err \<noteq> Some (PolicyNotInstalled ps))"
proof -
  assume check: "templatesCheck a ts w = (w', err)"
  obtain r where r: "IndicesGetTemplate a (map tpName ts) w = (w', r)"
    using check by (auto simp: templatesCheck_def Let_def split: prod.splits es_reply.splits)
  note g = get_template_law [OF laws r]
  show ?thesis
  proof (cases r)
    case NoResponse
    then show ?thesis using check r g by (auto simp: templatesCheck_def)
  next
    case (Response s body)
    then show ?thesis
      using check r g
      by (cases body; cases ts)
        (auto simp: templatesCheck_def Let_def filter_empty_conv filter_eq_Cons_iff split: if_splits)
  qed
qed

lemma kibanaRun_rule:
  assumes laws: "admin_laws a pols tpls" and run: "kibanaRun a conf w = (w', err)"
  shows "grows pols tpls w w'"
proof -
  obtain v r where r: "KibanaImport a (kcAddress conf @ ''/api/saved_objects/_import?overwrite=true'') (kcUser conf) w = (v, r)"
    by (rule prod.exhaust)
  note law = import_law [OF laws r]
  show ?thesis
    using run r law by (cases r) (auto simp: kibanaRun_def Let_def split: if_splits option.splits)
qed

lemma setup_templates_rule:
  assumes laws: "admin_laws a pols tpls" and run: "setup_templates a s w = (w', err)"
  shows "grows pols tpls w w' \<and> (err = None \<longrightarrow> tpName ` set (suTemplates s) \<subseteq> tpls w')"
proof -
  obtain w1 e where c: "templatesCheck a (suTemplates s) w = (w1, e)" by fastforce
  note check = templatesCheck_rule [OF laws c]
  obtain w2 errors where p: "put_each a (suTemplates s) w1 = (w2, errors)" by fastforce
  note put = put_each_rule [OF laws p]
  obtain w3 k where i: "kibanaRun a (suKibana s) w2 = (w3, k)" by fastforce
  note imported = kibanaRun_rule [OF laws i]
  show ?thesis
  proof (cases "\<exists>ns. e = Some (TemplatesNotInstalled ns)")
    case True
    then show ?thesis
      using run c p i check put imported
      by (auto simp: setup_templates_def templatesRun_def grows_def split: if_splits)
  next
    case False
    then show ?thesis
      using run c check
      by (cases e) (auto simp: setup_templates_def split: setup_error.splits)
  qed
qed

lemma RunIfNeeded_rule:
  assumes laws: "admin_laws a pols tpls" and run: "RunIfNeeded a s w = (w', err)"
  shows "grows pols tpls w w' \<and>
     (err = None \<longrightarrow> tpName ` set (suTemplates s) \<subseteq> tpls w' \<and>
        (lsEnabled (suIlm s) \<longrightarrow> archivedTasksPolicyName (suIlm s) \<in> pols w'))"
proof -
  obtain w1 e where c: "ilmCheck a (suIlm s) w = (w1, e)" by fastforce
  note check = ilmCheck_rule [OF laws c]
  obtain v f where t: "setup_templates a s w1 = (v, f)" by fastforce
  note direct = setup_templates_rule [OF laws t]
  obtain w2 g where p: "InstallPolicies a (suIlm s) w1 = (w2, g)" by fastforce
  note put = InstallPolicies_rule [OF laws p]
  obtain w3 h where u: "setup_templates a s w2 = (w3, h)" by fastforce
  note templates = setup_templates_rule [OF laws u]
  obtain w4 b where x: "BootstrapIndices a (suIlm s) w3 = (w4, b)" by fastforce
  note boot = BootstrapIndices_rule [OF laws x]
  have g1: "grows pols tpls w v" by (rule grows_trans [OF conjunct1 [OF check] conjunct1 [OF direct]])
  have g2: "grows pols tpls w w2" by (rule grows_trans [OF conjunct1 [OF check] conjunct1 [OF put]])
  have g3: "grows pols tpls w w3" by (rule grows_trans [OF g2 conjunct1 [OF templates]])
  have g4: "grows pols tpls w w4" by (rule grows_trans [OF g3 boot])
  have p1: "e = None \<longrightarrow> lsEnabled (suIlm s) \<longrightarrow> archivedTasksPolicyName (suIlm s) \<in> pols v"
    using check grows_keeps(1) [OF conjunct1 [OF direct]] by blast
  have p4: "g = None \<longrightarrow> lsEnabled (suIlm s) \<longrightarrow> archivedTasksPolicyName (suIlm s) \<in> pols w4"
    using put grows_keeps(1) [OF grows_trans [OF conjunct1 [OF templates] boot]] by blast
  have t4: "h = None \<longrightarrow> tpName ` set (suTemplates s) \<subseteq> tpls w4"
    using templates grows_keeps(2) [OF boot] by blast
  show ?thesis
  proof (cases "\<exists>ps. e = Some (PolicyNotInstalled ps)")
    case True
    then show ?thesis
      using run c p u x check g2 g3 g4 p4 t4
      by (auto simp: RunIfNeeded_def split: option.splits)
  next
    case False
    then show ?thesis
      using run c t conjunct1 [OF check] direct g1 p1
      by (cases e) (auto simp: RunIfNeeded_def split: setup_error.splits)
  qed
qed

lemma installed_passes_check:
  assumes laws: "admin_laws a pols tpls" and ne: "suTemplates s \<noteq> []"
    and there: "tpName ` set (suTemplates s) \<subseteq> tpls w"
      "lsEnabled (suIlm s) \<longrightarrow> archivedTasksPolicyName (suIlm s) \<in> pols w"
    and check: "setupCheck a s w = (w', err)"
  shows "err \<noteq> Some (PolicyNotInstalled ps) \<and> err \<noteq> Some (TemplatesNotInstalled ts)"
proof -
  obtain v e where c: "ilmCheck a (suIlm s) w = (v, e)" by fastforce
  note ilm = ilmCheck_rule [OF laws c]
  obtain u f where t: "templatesCheck a (suTemplates s) v = (u, f)" by fastforce
  note tpl = templatesCheck_rule [OF laws t]
  have pol: "e \<noteq> Some (PolicyNotInstalled qs)" for qs
    using ilm there(2) by blast
  have "tpName ` set (suTemplates s) \<subseteq> tpls v"
    using there(1) by (rule grows_keeps(2) [OF conjunct1 [OF ilm]])
  then have "f \<noteq> Some (TemplatesNotInstalled ns)" for ns using tpl ne by blast
  then show ?thesis
    using check c t tpl ilm pol by (cases e) (auto simp: setupCheck_def)
qed

text \<open>
  A setup that returned without an error has done its work: a check of the same settings, at
  that moment or at any later one, never reports a missing policy or a missing template.
\<close>

lemma setup_suffices:
  assumes laws: "admin_laws a pols tpls"
    and run: "RunIfNeeded a s w = (w1, None)" and later: "grows pols tpls w1 w2"
    and same: "suIlm s' = suIlm s" "suTemplates s' = suTemplates s" and ne: "suTemplates s \<noteq> []"
    and check: "setupCheck a s' w2 = (w3, err)"
  shows "err \<noteq> Some (PolicyNotInstalled ps) \<and> err \<noteq> Some (TemplatesNotInstalled ts)"
proof -
  note ran = RunIfNeeded_rule [OF laws run] and lasting = grows_keeps [OF later]
  have "tpName ` set (suTemplates s') \<subseteq> tpls w2" using ran same by (intro lasting(2)) simp
  moreover have "lsEnabled (suIlm s') \<longrightarrow> archivedTasksPolicyName (suIlm s') \<in> pols w2"
    using ran same by (auto intro: lasting(1))
  ultimately show ?thesis using laws ne check same by (intro installed_passes_check) auto
qed

section \<open>An interrupted setup\<close>

text \<open>
  \<open>indices\<close> is what the cluster has created explicitly; only \<open>IndicesCreate\<close> changes it.
\<close>

definition only_create_makes :: "'w es_admin \<Rightarrow> ('w \<Rightarrow> 'c) \<Rightarrow> bool" where
  "only_create_makes a indices \<longleftrightarrow>
     (\<forall>p b w. indices (fst (ILMPutLifecycle a p b w)) = indices w) \<and>
     (\<forall>p w. indices (fst (ILMGetLifecycle a p w)) = indices w) \<and>
     (\<forall>t b w. indices (fst (IndicesPutTemplate a t b w)) = indices w) \<and>
     (\<forall>ts w. indices (fst (IndicesGetTemplate a ts w)) = indices w) \<and>
     (\<forall>ad u w. indices (fst (KibanaImport a ad u w)) = indices w)"

text \<open>The setup, run \<open>n\<close> times.\<close>

primrec setup_runs :: "'w es_admin \<Rightarrow> Setup \<Rightarrow> nat \<Rightarrow> 'w \<Rightarrow> 'w" where
  "setup_runs a s 0 w = w"
| "setup_runs a s (Suc n) w = setup_runs a s n (fst (RunIfNeeded a s w))"

lemma setup_reaches:
  "fst (ilmCheck a conf w) = (if lsEnabled conf then fst (ILMGetLifecycle a (archivedTasksPolicyName conf) w) else w)"
  "fst (InstallPolicies a conf w) =
     (if lsEnabled conf
      then fst (ILMPutLifecycle a (archivedTasksPolicyName conf) (archivedTasksPolicy conf) w) else w)"
  "fst (putTemplate a t w) = fst (IndicesPutTemplate a (tpName t) (template_json t) w)"
  "fst (templatesCheck a ts w) = fst (IndicesGetTemplate a (map tpName ts) w)"
  "fst (kibanaRun a k w) =
     fst (KibanaImport a (kcAddress k @ ''/api/saved_objects/_import?overwrite=true'') (kcUser k) w)"
  by (simp_all add: ilmCheck_def InstallPolicies_def putTemplate_def templatesCheck_def kibanaRun_def Let_def
      split: prod.split es_reply.split)

lemma setup_makes:
  assumes q: "only_create_makes a indices"
  shows ilmCheck_makes: "indices (fst (ilmCheck a conf w)) = indices w"
    and InstallPolicies_makes: "indices (fst (InstallPolicies a conf w)) = indices w"
    and putTemplate_makes: "indices (fst (putTemplate a t w)) = indices w"
    and templatesCheck_makes: "indices (fst (templatesCheck a ts w)) = indices w"
    and kibanaRun_makes: "indices (fst (kibanaRun a k w)) = indices w"
  using q by (simp_all add: setup_reaches only_create_makes_def)

lemma put_each_makes:
  assumes q: "only_create_makes a indices"
  shows "indices (fst (put_each a ts w)) = indices w"
proof (induction ts arbitrary: w)
  case (Cons t ts)
  then show ?case using putTemplate_makes [OF q] by (simp add: case_prod_beta)
qed simp

lemma setup_templates_makes:
  assumes q: "only_create_makes a indices"
  shows "indices (fst (setup_templates a s w)) = indices w"
proof -
  obtain w1 e where c: "templatesCheck a (suTemplates s) w = (w1, e)" by fastforce
  obtain w2 errors where p: "put_each a (suTemplates s) w1 = (w2, errors)" by fastforce
  have "indices w1 = indices w" "indices w2 = indices w1"
    using templatesCheck_makes [OF q, of "suTemplates s" w] put_each_makes [OF q, of "suTemplates s" w1] c p
    by simp_all
  then show ?thesis
    using c p kibanaRun_makes [OF q, of "suKibana s" w2]
    by (cases e) (auto simp: setup_templates_def templatesRun_def split: setup_error.split)
qed

text \<open>Once the policy is installed, no run of the setup creates the index.\<close>

lemma RunIfNeeded_without_bootstrap:
  assumes laws: "admin_laws a pols tpls" and q: "only_create_makes a indices"
    and there: "archivedTasksPolicyName (suIlm s) \<in> pols w"
  shows "indices (fst (RunIfNeeded a s w)) = indices w"
proof -
  obtain w1 e where c: "ilmCheck a (suIlm s) w = (w1, e)" by fastforce
  have "e \<noteq> Some (PolicyNotInstalled ps)" for ps
    using ilmCheck_rule [OF laws c] there by blast
  moreover have "indices w1 = indices w" using ilmCheck_makes [OF q, of "suIlm s" w] c by simp
  ultimately show ?thesis
    using c setup_templates_makes [OF q, of s w1]
    by (cases e) (auto simp: RunIfNeeded_def split: setup_error.split)
qed

lemma setup_runs_without_bootstrap:
  assumes laws: "admin_laws a pols tpls" and q: "only_create_makes a indices"
  shows "archivedTasksPolicyName (suIlm s) \<in> pols w \<Longrightarrow> indices (setup_runs a s n w) = indices w"
proof (induction n arbitrary: w)
  case (Suc n)
  have "grows pols tpls w (fst (RunIfNeeded a s w))"
    using RunIfNeeded_rule [OF laws] by (metis prod.collapse)
  from grows_keeps(1) [OF this Suc.prems]
  show ?case using Suc.IH RunIfNeeded_without_bootstrap [OF laws q Suc.prems] by simp
qed simp

text \<open>
  C40: the write index of the archive is created only at the end of the run that installs the
  policy. When that run fails at the templates, its error is returned, and no further run creates the index,
  however often the setup is run and whether or not it then returns without an error.
\<close>

theorem interrupted_setup_never_bootstraps:
  assumes laws: "admin_laws a pols tpls" and q: "only_create_makes a indices"
    and managed: "lsEnabled (suIlm s)"
    and missing: "ilmCheck a (suIlm s) w = (w1, Some (PolicyNotInstalled ps))"
    and installed: "InstallPolicies a (suIlm s) w1 = (w2, None)"
    and failed: "setup_templates a s w2 = (w3, Some err)"
  shows "RunIfNeeded a s w = (w3, Some err) \<and> indices (setup_runs a s n w3) = indices w"
proof -
  have "archivedTasksPolicyName (suIlm s) \<in> pols w2"
    using InstallPolicies_rule [OF laws installed] managed by simp
  then have "archivedTasksPolicyName (suIlm s) \<in> pols w3"
    by (rule grows_keeps(1) [OF conjunct1 [OF setup_templates_rule [OF laws failed]]])
  then have "indices (setup_runs a s n w3) = indices w3"
    by (rule setup_runs_without_bootstrap [OF laws q])
  also have "\<dots> = indices w"
    using setup_templates_makes [OF q, of s w2] InstallPolicies_makes [OF q, of "suIlm s" w1]
      ilmCheck_makes [OF q, of "suIlm s" w] missing installed failed by simp
  finally show ?thesis using missing installed failed by (simp add: RunIfNeeded_def)
qed

end
