(* ===== verification/Server.thy ===== *)
theory Server
  imports LeaderRunner SetupSafety RecurringApi
begin

text \<open>
  The server as a whole: the configuration (\<open>internal/config/models.go\<close>), the components it is assembled
  from and its start and stop (\<open>NewComponents\<close> and \<open>Run\<close> of \<open>internal/infra/server/components.go\<close>), and who
  may call the API (\<open>NewTopLevelRoutesGroup\<close> of \<open>internal/infra/server/routing/global.go\<close>).
\<close>

section \<open>Configuration\<close>

record BasicAuthUser =
  bauName :: string
  bauPassword :: string

record Auth =
  BasicAuth :: "BasicAuthUser list"

record Logging =
  logJson :: "bool option"
  logFile :: "string option"
  logLevel :: "string option"

record ElasticsearchClient =
  ecAddresses :: "string list"
  ecUser :: "BasicAuthUser option"

record ApmClient =
  apmAddress :: "string option"
  apmSecretToken :: "string option"

record App =
  appBindAddress :: string
  appShutdownTimeout :: duration
  appElasticsearch :: ElasticsearchClient
  appKibanaClient :: "KibanaClient option"
  appApmClient :: "ApmClient option"
  appAuth :: "Auth option"
  appLogging :: "Logging option"
  appTasks :: TasksConf
  appRecurring :: Recurring
  appLifecycleSetup :: LifecycleSettings

section \<open>Assembly\<close>

text \<open>
  The libraries: the Elasticsearch client as each service uses it, cron, the order of iterations over maps, the
  source of uuids. \<open>newClient\<close> is the error of building the client, if there is one.
\<close>

record 'w libraries =
  tasks_client :: "'w task_env"
  recurring_client :: "'w recurring_env"
  cron_library :: "'w cron"
  map_order :: "schedulerImpl \<times> 'w \<Rightarrow> (recurring_id \<rightharpoonup> RTask) \<Rightarrow> RTask list"
  uuid_source :: "'w \<Rightarrow> 'w \<times> string"
  newClient :: "ElasticsearchClient \<Rightarrow> string option"

record 'w components =
  cmConfig :: App
  cmTasksService :: "'w Service"
  cmRecurringService :: "'w RService"
  cmManager :: Manager
  cmScheduler :: schedulerImpl
  cmLock :: EsLock
  cmFunctions :: "'w server_state rec_function list"
  cmSetup :: Setup

definition buildRecurringTasksLeaderLock :: "LeaderLockConf \<Rightarrow> ('w \<Rightarrow> 'w \<times> string) \<Rightarrow> 'w \<Rightarrow> 'w \<times> EsLock" where
  "buildRecurringTasksLeaderLock conf uuid w =
     NewLeaderLock uuid ''recurring-tasks-leader'' (lcRunInterval conf) (lcLeaderLockLease conf) w"

text \<open>\<open>None\<close> is a panic, in \<open>NewSetup\<close>.\<close>

definition NewComponents :: "'w libraries \<Rightarrow> App \<Rightarrow> 'w \<Rightarrow> ('w \<times> (string + 'w components)) option" where
  "NewComponents libs conf w =
     (case newClient libs (appElasticsearch conf) of
        Some err \<Rightarrow> Some (w, Inl err)
      | None \<Rightarrow>
          (case NewSetup (appLifecycleSetup conf) (appKibanaClient conf) of
             None \<Rightarrow> None
           | Some su \<Rightarrow>
               (let rconf = rRecurringTasks (appRecurring conf);
                    manager_env = recurring_components (cron_library libs) (recurring_client libs)
                      (rcScrollSize rconf) (rcScrollTtl rconf) (map_order libs);
                    (w1, lock) = buildRecurringTasksLeaderLock (rLeaderLock (appRecurring conf)) (uuid_source libs) w
                in Some (w1, Inr \<lparr>cmConfig = conf,
                     cmTasksService = NewService (tasks_client libs) (appTasks conf),
                     cmRecurringService = NewRService (recurring_client libs) (rcScrollSize rconf) (rcScrollTtl rconf),
                     cmManager = NewManager, cmScheduler = NewSchedulerImpl, cmLock = lock,
                     cmFunctions = recurringFunctions (appRecurring conf) (tasks_client libs) manager_env,
                     cmSetup = su\<rparr>))))"

section \<open>Who may call the API\<close>

text \<open>
  The accounts by name, a later entry replacing an earlier one; gin's \<open>BasicAuth\<close> over them is a parameter that
  says which requests it lets through. Without accounts every request is.
\<close>

definition accounts :: "Auth option \<Rightarrow> string \<rightharpoonup> string" where
  "accounts auth =
     (case auth of
        None \<Rightarrow> Map.empty
      | Some a \<Rightarrow> fold (\<lambda>u m. m(bauName u \<mapsto> bauPassword u)) (BasicAuth a) Map.empty)"

definition NewTopLevelRoutesGroup ::
  "((string \<rightharpoonup> string) \<Rightarrow> 'req \<Rightarrow> bool) \<Rightarrow> Auth option \<Rightarrow> 'req \<Rightarrow> bool" where
  "NewTopLevelRoutesGroup basicAuth auth req =
     (if accounts auth \<noteq> Map.empty then basicAuth (accounts auth) req else True)"

lemma accounts_last:
  "accounts (Some a) = map_of (map (\<lambda>u. (bauName u, bauPassword u)) (rev (BasicAuth a)))"
proof -
  have "fold (\<lambda>u m. m(bauName u \<mapsto> bauPassword u)) us m =
      m ++ map_of (map (\<lambda>u. (bauName u, bauPassword u)) (rev us))" for us m
    by (induction us arbitrary: m) (auto simp: map_add_def fun_eq_iff split: option.splits)
  from this [of "BasicAuth a" Map.empty] show ?thesis by (simp add: accounts_def)
qed

lemma api_open_iff_no_users:
  "(\<forall>basicAuth req. NewTopLevelRoutesGroup basicAuth auth req) \<longleftrightarrow> (case auth of None \<Rightarrow> True | Some a \<Rightarrow> BasicAuth a = [])"
proof -
  have "accounts auth = Map.empty \<longleftrightarrow> (case auth of None \<Rightarrow> True | Some a \<Rightarrow> BasicAuth a = [])"
    by (cases auth) (simp add: accounts_def, simp add: accounts_last)
  then show ?thesis by (auto simp: NewTopLevelRoutesGroup_def)
qed

section \<open>Start and stop\<close>

text \<open>The stage of \<open>Run\<close>: serving, and after the signal what has been stopped so far.\<close>

datatype server_stage = Serving | CronStopped | RunnerStopped | LockStopped

record 'w server =
  svLock :: EsLock
  svRunner :: "'w server_state runner"
  svStage :: server_stage

text \<open>
  \<open>Run\<close> up to serving: an error of the check ends the process. Then the lock, the runner and cron are started, in this order;
  the runner starts at the time given.
\<close>

definition server_start :: "'w es_admin \<Rightarrow> 'w cron \<Rightarrow> 'w components \<Rightarrow> time \<Rightarrow> 'w \<Rightarrow> 'w \<times> (setup_error + 'w server)" where
  "server_start a c cmp now w =
     (case setupCheck a (cmSetup cmp) w of
        (w1, Some err) \<Rightarrow> (w1, Inl err)
      | (w1, None) \<Rightarrow>
          (let lock = lock_Start (cmLock cmp);
               runner = runner_Start (cmFunctions cmp) (NewRunner now (cmManager cmp, (cmScheduler cmp, w1)));
               sched = cronStart c (snd (rnWorld runner))
           in (snd sched, Inr \<lparr>svLock = lock, svRunner = runner\<lparr>rnWorld := (fst (rnWorld runner), sched)\<rparr>,
                svStage = Serving\<rparr>)))"

definition to_world :: "'w server_state \<Rightarrow> 'w server \<Rightarrow> 'w server" where
  "to_world w sv = sv\<lparr>svRunner := (svRunner sv)\<lparr>rnWorld := w\<rparr>\<rparr>"

text \<open>
  What a server does from then on. The threads of the runner are answered by the lock as it is when they ask it;
  the loop of the lock makes its passes, each under \<open>stateLock\<close>, which \<open>Stop\<close> takes too; the signal may come at
  any time, and \<open>Run\<close> then stops cron, the runner and the lock, one after the other. \<open>others\<close> is the rest of the
  world: the requests of the API, the jobs of cron, other servers.
\<close>

inductive server_step ::
  "('w server_state \<times> 'w server_state) set \<Rightarrow> 'w lock_client \<Rightarrow> 'w cron \<Rightarrow> 'w server_state rec_function list \<Rightarrow>
   'w server \<Rightarrow> 'w server \<Rightarrow> bool"
  for others lc c fs where
  threads_act: "thread_step {IsLeader (svLock sv)} others fs (svRunner sv) r \<Longrightarrow>
    server_step others lc c fs sv (sv\<lparr>svRunner := r\<rparr>)"
| lock_pass: "rnWorld (svRunner sv) = (m, sched, w) \<Longrightarrow> loop_body lc (svLock sv) w = (w1, lock, wait) \<Longrightarrow>
    server_step others lc c fs sv (to_world (m, sched, w1) (sv\<lparr>svLock := lock\<rparr>))"
| stop_cron: "svStage sv = Serving \<Longrightarrow> rnWorld (svRunner sv) = (m, sched) \<Longrightarrow>
    server_step others lc c fs sv (to_world (m, cronStop c sched) (sv\<lparr>svStage := CronStopped\<rparr>))"
| stop_runner: "svStage sv = CronStopped \<Longrightarrow>
    server_step others lc c fs sv (sv\<lparr>svRunner := runner_Stop (svRunner sv), svStage := RunnerStopped\<rparr>)"
| stop_lock: "svStage sv = RunnerStopped \<Longrightarrow>
    server_step others lc c fs sv (sv\<lparr>svLock := lock_Stop (svLock sv), svStage := LockStopped\<rparr>)"

definition server_steps where
  "server_steps others lc c fs = (server_step others lc c fs)\<^sup>*\<^sup>*"

section \<open>What a stopped server still does\<close>

text \<open>The stage says what has been stopped; every thread has a function of its own.\<close>

definition stage_ok :: "'w server \<Rightarrow> bool" where
  "stage_ok sv \<longleftrightarrow> (svStage sv \<in> {RunnerStopped, LockStopped} \<longrightarrow> rnStopped (svRunner sv)) \<and>
     (svStage sv = LockStopped \<longrightarrow> lkState (svLock sv) = STOPPED) \<and>
     distinct (map fst (rnThreads (svRunner sv)))"

lemma stopped_pass: "lkState l = STOPPED \<Longrightarrow> loop_body lc l w = (w, l, None)"
  by (simp add: loop_body_def)

lemma thread_step_stopped: "thread_step answers others fs s s' \<Longrightarrow> rnStopped s' = rnStopped s"
  by (erule thread_stepE) simp_all

lemma server_step_stage: "server_step others lc c fs sv sv' \<Longrightarrow> stage_ok sv \<Longrightarrow> stage_ok sv'"
proof (induction rule: server_step.induct)
  case (threads_act sv r)
  then show ?case
    using thread_step_stopped [OF threads_act.hyps] thread_step_labels [OF threads_act.hyps] by (simp add: stage_ok_def)
next
  case (lock_pass sv m sched w w1 lock wait)
  then show ?case using stopped_pass [of "svLock sv" lc w] by (auto simp: stage_ok_def to_world_def)
qed (auto simp: stage_ok_def to_world_def runner_Stop_def lock_Stop_def)

lemma server_steps_stage: "server_steps others lc c fs sv sv' \<Longrightarrow> stage_ok sv \<Longrightarrow> stage_ok sv'"
  unfolding server_steps_def by (induction rule: rtranclp_induct) (auto intro: server_step_stage)

lemma started_stage: "server_start a c cmp now w = (w2, Inr sv) \<Longrightarrow> stage_ok sv"
  by (auto simp: server_start_def runner_Start_def NewRunner_def stage_ok_def comp_def Let_def split: prod.splits option.splits)

text \<open>What has happened since a state \<open>s1\<close> in which the runner had been stopped.\<close>

definition since_stop :: "'w server \<Rightarrow> 'w server \<Rightarrow> bool" where
  "since_stop s1 sv \<longleftrightarrow> svStage sv \<in> {RunnerStopped, LockStopped} \<and>
     (svStage s1 = LockStopped \<longrightarrow> svStage sv = LockStopped) \<and> stage_ok sv \<and>
     (\<forall>i. calls_of i (svRunner sv) + in_flight i (svRunner sv) = calls_of i (svRunner s1) + in_flight i (svRunner s1)) \<and>
     (\<exists>given. rnAnswers (svRunner sv) = given @ rnAnswers (svRunner s1) \<and>
        (svStage s1 = LockStopped \<longrightarrow> True \<notin> snd ` set given))"

lemma thread_step_answers:
  "thread_step answers others fs s s' \<Longrightarrow> \<exists>given. rnAnswers s' = given @ rnAnswers s \<and> snd ` set given \<subseteq> answers"
  by (erule thread_stepE) (auto intro: exI [of _ "[(i, leader)]" for i leader])

lemma since_stop_step:
  assumes "server_step others lc c fs sv sv'" "since_stop s1 sv"
  shows "since_stop s1 sv'"
proof -
  have ok: "stage_ok sv'" using assms server_step_stage by (auto simp: since_stop_def)
  from assms(1) show ?thesis
  proof cases
    case (threads_act r)
    have stopped: "rnStopped (svRunner sv)" using assms(2) by (auto simp: since_stop_def stage_ok_def)
    obtain given where g: "rnAnswers r = given @ rnAnswers (svRunner sv)" "snd ` set given \<subseteq> {IsLeader (svLock sv)}"
      using thread_step_answers [OF threads_act(2)] by auto
    obtain old where o: "rnAnswers (svRunner sv) = old @ rnAnswers (svRunner s1)"
        "svStage s1 = LockStopped \<longrightarrow> True \<notin> snd ` set old"
      using assms(2) by (auto simp: since_stop_def)
    have "\<not> IsLeader (svLock sv)" if "svStage s1 = LockStopped"
      using assms(2) that by (auto simp: since_stop_def stage_ok_def IsLeader_def)
    then have "svStage s1 = LockStopped \<longrightarrow> True \<notin> snd ` set (given @ old)"
      using g(2) o(2) by auto
    moreover have "rnAnswers r = (given @ old) @ rnAnswers (svRunner s1)" using g(1) o(1) by simp
    ultimately have "\<exists>given. rnAnswers r = given @ rnAnswers (svRunner s1) \<and>
        (svStage s1 = LockStopped \<longrightarrow> True \<notin> snd ` set given)" by blast
    then show ?thesis
      using threads_act assms(2) ok stopped_step [OF threads_act(2) stopped] by (simp add: since_stop_def)
  next
    case (lock_pass m sched w w1 lock wait)
    then show ?thesis using ok assms(2) by (simp add: since_stop_def to_world_def calls_of_def in_flight_def)
  next
    case (stop_cron m sched)
    then show ?thesis using assms(2) by (simp add: since_stop_def)
  next
    case stop_runner
    then show ?thesis using assms(2) by (simp add: since_stop_def)
  next
    case stop_lock
    then show ?thesis using ok assms(2) by (auto simp: since_stop_def calls_of_def in_flight_def)
  qed
qed

lemma since_stop_steps: "server_steps others lc c fs s1 s2 \<Longrightarrow> since_stop s1 s1 \<Longrightarrow> since_stop s1 s2"
  unfolding server_steps_def by (induction rule: rtranclp_induct) (auto intro: since_stop_step)

text \<open>
  C28: a server serves only over a cluster that has the templates and the lifecycle policy of its
  configuration. Whatever it has done when the signal comes, from the moment its runner is stopped each of its recurring functions
  is called at most once more, and only by a thread that had passed its test of the stop flag; from the moment
  its lock is stopped too, the server does not lead, no function is told that it does, and the
  lock's loop ends at its next pass without another request.
\<close>

theorem server_lifecycle:
  assumes laws: "admin_laws a pols tpls"
    and built: "NewComponents libs conf w0 = Some (w1, Inr cmp)"
    and start: "server_start a c cmp now w = (w2, Inr sv)"
    and run: "server_steps others lc c (cmFunctions cmp) sv s1"
    and stopped: "svStage s1 = RunnerStopped \<or> svStage s1 = LockStopped"
    and rest: "server_steps others lc c (cmFunctions cmp) s1 s2"
  shows "(\<exists>w3. setupCheck a (cmSetup cmp) w = (w3, None) \<and>
      tpName ` set (DefaultTemplates (appLifecycleSetup conf)) \<subseteq> tpls w3 \<and>
      (lsEnabled (appLifecycleSetup conf) \<longrightarrow> archivedTasksPolicyName (appLifecycleSetup conf) \<in> pols w3)) \<and>
    calls_of i (svRunner s2) \<le> calls_of i (svRunner s1) + in_flight i (svRunner s1) \<and>
    in_flight i (svRunner s1) \<le> 1 \<and>
    (svStage s1 = LockStopped \<longrightarrow>
      \<not> IsLeader (svLock s2) \<and> loop_body lc (svLock s2) v = (v, svLock s2, None) \<and>
      (\<exists>given. rnAnswers (svRunner s2) = given @ rnAnswers (svRunner s1) \<and> True \<notin> snd ` set given))"
proof -
  obtain k where "NewSetup (appLifecycleSetup conf) (Some k) = Some (cmSetup cmp)"
    using built by (auto simp: NewComponents_def NewSetup_def Let_def split: option.splits prod.splits)
  then have made: "suIlm (cmSetup cmp) = appLifecycleSetup conf"
      "suTemplates (cmSetup cmp) = DefaultTemplates (appLifecycleSetup conf)"
    by (simp_all add: NewSetup_def eq_commute [of _ "cmSetup cmp"])
  obtain w3 where check: "setupCheck a (cmSetup cmp) w = (w3, None)"
    using start by (auto simp: server_start_def Let_def split: prod.splits option.splits)
  obtain v1 where ilm: "ilmCheck a (suIlm (cmSetup cmp)) w = (v1, None)"
      and tpl: "templatesCheck a (suTemplates (cmSetup cmp)) v1 = (w3, None)"
    using check by (auto simp: setupCheck_def split: prod.splits option.splits)
  note i = ilmCheck_rule [OF laws ilm] and t = templatesCheck_rule [OF laws tpl]
  have "lsEnabled (appLifecycleSetup conf) \<longrightarrow> archivedTasksPolicyName (appLifecycleSetup conf) \<in> pols w3"
    using i grows_keeps(1) [OF conjunct1 [OF t]] made by simp
  moreover have "tpName ` set (DefaultTemplates (appLifecycleSetup conf)) \<subseteq> tpls w3" using t made by simp
  moreover have ok: "stage_ok s1" by (rule server_steps_stage [OF run started_stage [OF start]])
  then have since: "since_stop s1 s2"
    using stopped by (intro since_stop_steps [OF rest]) (auto simp: since_stop_def)
  have "calls_of i (svRunner s2) + in_flight i (svRunner s2) = calls_of i (svRunner s1) + in_flight i (svRunner s1)"
    using since by (simp add: since_stop_def)
  then have "calls_of i (svRunner s2) \<le> calls_of i (svRunner s1) + in_flight i (svRunner s1)" by linarith
  moreover have "in_flight i (svRunner s1) \<le> 1" using ok by (intro in_flight_once) (simp add: stage_ok_def)
  moreover have "\<not> IsLeader (svLock s2) \<and> loop_body lc (svLock s2) v = (v, svLock s2, None)"
    if "svStage s1 = LockStopped"
    using since that by (simp add: since_stop_def stage_ok_def IsLeader_def stopped_pass)
  moreover have "svStage s1 = LockStopped \<longrightarrow> (\<exists>given. rnAnswers (svRunner s2) = given @ rnAnswers (svRunner s1) \<and>
      True \<notin> snd ` set given)"
    using since by (auto simp: since_stop_def)
  ultimately show ?thesis using check by simp
qed

end
