(* ===== verification/CommandLine.thy ===== *)
theory CommandLine
  imports Server
begin

text \<open>
  The commands of the program (\<open>app/cmd\<close>): reading the configuration, setting up logging and APM, then
  either the server (\<open>root.go\<close>) or the setup (\<open>setup.go\<close>). The command line parser, the configuration reader,
  the logger, the APM agent and the operating system are libraries, fields of a record. A process goes on with a
  value, ends by \<open>log.Fatal\<close> or \<open>os.Exit(1)\<close>, or panics.
\<close>

section \<open>Libraries\<close>

text \<open>\<open>Tasques\<close> and \<open>TopLevel\<close> only wrap the settings of the server, for the names in the file.\<close>

record Tasques =
  Server :: App

record TopLevel =
  Tasques :: Tasques

text \<open>Where the configuration is looked for: a file, or a name in a list of directories.\<close>

datatype config_source = ConfigFile string | ConfigName string "string list"

record ('w, 'lvl) platform =
  ReadInConfig :: "config_source \<Rightarrow> 'w \<Rightarrow> 'w \<times> string option"
  Unmarshal :: "'w \<Rightarrow> string + TopLevel"
  ParseLevel :: "string \<Rightarrow> string + 'lvl"
  InfoLevel :: 'lvl
  OpenFile :: "string \<Rightarrow> 'w \<Rightarrow> 'w \<times> string option"
  Getenv :: "string \<Rightarrow> 'w \<Rightarrow> string"
  Setenv :: "string \<Rightarrow> string \<Rightarrow> 'w \<Rightarrow> 'w \<times> string option"
  NewTracer :: "'w \<Rightarrow> 'w \<times> string option"

datatype fatal =
    ConfigUnreadable string
  | ConfigInvalid string
  | LogFileFailed string
  | ApmFailed string
  | ClientFailed string
  | SetupFailed setup_error
  | MarshalFailed string

datatype 'a process = Running 'a | Fatal fatal | Panic

fun proceed :: "'w \<times> 'a process \<Rightarrow> ('a \<Rightarrow> 'w \<Rightarrow> 'w \<times> 'b process) \<Rightarrow> 'w \<times> 'b process" where
  "proceed (w, Running x) k = k x w"
| "proceed (w, Fatal f) k = (w, Fatal f)"
| "proceed (w, Panic) k = (w, Panic)"

lemma proceed_cases:
  assumes "proceed r k = (w, p)"
  obtains (running) w1 x where "r = (w1, Running x)" "k x w1 = (w, p)"
    | (fatal) f where "r = (w, Fatal f)" "p = Fatal f"
    | (panic) "r = (w, Panic)" "p = Panic"
  using assms by (cases "(r, k)" rule: proceed.cases) auto

text \<open>A call that ends the process if it fails.\<close>

definition or_die :: "(string \<Rightarrow> fatal) \<Rightarrow> 'w \<times> string option \<Rightarrow> 'w \<times> unit process" where
  "or_die f r = (case r of (w, Some err) \<Rightarrow> (w, Fatal (f err)) | (w, None) \<Rightarrow> (w, Running ()))"

section \<open>Initialisation\<close>

definition defaultConfigPaths :: "string list" where
  "defaultConfigPaths = [''.'', ''./config'', ''/app/config'']"

definition initConfig :: "('w, 'lvl) platform \<Rightarrow> string \<Rightarrow> 'w \<Rightarrow> 'w \<times> App process" where
  "initConfig os configFile w =
     (let source = (if configFile \<noteq> [] then ConfigFile configFile else ConfigName ''tasques'' defaultConfigPaths)
      in proceed (or_die ConfigUnreadable (ReadInConfig os source w)) (\<lambda>_ w1.
           (case Unmarshal os w1 of
              Inl err \<Rightarrow> (w1, Fatal (ConfigInvalid err))
            | Inr t \<Rightarrow> (w1, Running (Server (Tasques t))))))"

text \<open>What the logger is set to. Without a file it writes to the standard error.\<close>

record 'lvl logger =
  lgJson :: bool
  lgFile :: "string option"
  lgLevel :: 'lvl

definition configureLogging :: "('w, 'lvl) platform \<Rightarrow> App \<Rightarrow> 'w \<Rightarrow> 'w \<times> 'lvl logger process" where
  "configureLogging os conf w =
     (let logging = appLogging conf;
          jsonLogging = (case logging of None \<Rightarrow> False
            | Some l \<Rightarrow> (case logJson l of None \<Rightarrow> False | Some j \<Rightarrow> j));
          file = (case logging of None \<Rightarrow> None | Some l \<Rightarrow> logFile l);
          level = (case logging of None \<Rightarrow> None
            | Some l \<Rightarrow> (case logLevel l of None \<Rightarrow> None
                | Some s \<Rightarrow> (case ParseLevel os s of Inl err \<Rightarrow> None | Inr parsedLevel \<Rightarrow> Some parsedLevel)));
          set = (\<lambda>w1. (w1, Running \<lparr>lgJson = jsonLogging, lgFile = file,
            lgLevel = (case level of None \<Rightarrow> InfoLevel os | Some l \<Rightarrow> l)\<rparr>))
      in (case file of
            None \<Rightarrow> set w
          | Some f \<Rightarrow> proceed (or_die LogFileFailed (OpenFile os f w)) (\<lambda>_. set)))"

definition setenv_optional :: "('w, 'lvl) platform \<Rightarrow> string \<Rightarrow> string option \<Rightarrow> 'w \<Rightarrow> 'w \<times> unit process" where
  "setenv_optional os name val w =
     (case val of None \<Rightarrow> (w, Running ()) | Some v \<Rightarrow> or_die ApmFailed (Setenv os name v w))"

definition configureApm :: "('w, 'lvl) platform \<Rightarrow> App \<Rightarrow> 'w \<Rightarrow> 'w \<times> unit process" where
  "configureApm os conf w =
     proceed (if Getenv os ''ELASTIC_APM_SERVICE_NAME'' w = []
              then or_die ApmFailed (Setenv os ''ELASTIC_APM_SERVICE_NAME'' ''tasques'' w) else (w, Running ()))
       (\<lambda>_ w1. proceed
          (case appApmClient conf of
             None \<Rightarrow> (w1, Running ())
           | Some apmConf \<Rightarrow> proceed (setenv_optional os ''ELASTIC_APM_SERVER_URL'' (apmAddress apmConf) w1)
               (\<lambda>_. setenv_optional os ''ELASTIC_APM_SECRET_TOKEN'' (apmSecretToken apmConf)))
       (\<lambda>_ w2. or_die ApmFailed (NewTracer os w2)))"

text \<open>\<open>cobra.OnInitialize\<close> runs the three before the command.\<close>

definition initialize :: "('w, 'lvl) platform \<Rightarrow> string \<Rightarrow> 'w \<Rightarrow> 'w \<times> App process" where
  "initialize os configFile w =
     proceed (initConfig os configFile w) (\<lambda>conf w1.
     proceed (configureLogging os conf w1) (\<lambda>_ w2.
     proceed (configureApm os conf w2) (\<lambda>_ w3. (w3, Running conf))))"

section \<open>Commands\<close>

definition rootCmd ::
  "('w, 'lvl) platform \<Rightarrow> 'w libraries \<Rightarrow> 'w es_admin \<Rightarrow> string \<Rightarrow> time \<Rightarrow> 'w \<Rightarrow> 'w \<times> 'w server process" where
  "rootCmd os libs a configFile now w =
     proceed (initialize os configFile w) (\<lambda>conf w1.
       (case NewComponents libs conf w1 of
          None \<Rightarrow> (w1, Panic)
        | Some (w2, Inl err) \<Rightarrow> (w2, Fatal (ClientFailed err))
        | Some (w2, Inr cmp) \<Rightarrow>
            (case server_start a (cron_library libs) cmp now w2 of
               (w3, Inl err) \<Rightarrow> (w3, Fatal (SetupFailed err))
             | (w3, Inr sv) \<Rightarrow> (w3, Running sv))))"

definition setupCmd ::
  "('w, 'lvl) platform \<Rightarrow> 'w libraries \<Rightarrow> 'w es_admin \<Rightarrow> string \<Rightarrow> 'w \<Rightarrow> 'w \<times> unit process" where
  "setupCmd os libs a configFile w =
     proceed (initialize os configFile w) (\<lambda>conf w1.
       (case newClient libs (appElasticsearch conf) of
          Some err \<Rightarrow> (w1, Fatal (ClientFailed err))
        | None \<Rightarrow>
            (case NewSetup (appLifecycleSetup conf) (appKibanaClient conf) of
               None \<Rightarrow> (w1, Panic)
             | Some s \<Rightarrow>
                 (case RunIfNeeded a s w1 of
                    (w2, Some err) \<Rightarrow> (w2, Fatal (SetupFailed err))
                  | (w2, None) \<Rightarrow> (w2, Running ())))))"

text \<open>
  \<open>show config\<close> prints the configuration through the logger, at its level \<open>info\<close>: it returns what is printed, which is nothing if
  the level that is configured leaves such messages out. \<open>marshal\<close> is \<open>json.MarshalIndent\<close>, \<open>shows\<close> the filter of the logger.
\<close>

definition showConfigCmd ::
  "('w, 'lvl) platform \<Rightarrow> (App \<Rightarrow> string + string) \<Rightarrow> ('lvl \<Rightarrow> bool) \<Rightarrow> string \<Rightarrow> 'w \<Rightarrow> 'w \<times> string option process" where
  "showConfigCmd os marshal shows configFile w =
     proceed (initConfig os configFile w) (\<lambda>conf w1.
     proceed (configureLogging os conf w1) (\<lambda>lg w2.
     proceed (configureApm os conf w2) (\<lambda>_ w3.
       (case marshal conf of
          Inl err \<Rightarrow> (w3, Fatal (MarshalFailed err))
        | Inr out \<Rightarrow> (w3, Running (if shows (lgLevel lg) then Some out else None))))))"

text \<open>
  \<open>Execute\<close>, the whole of \<open>main\<close>, and the status the process ends with. A command line that \<open>cobra\<close> refuses runs no command: its
  error is logged, and \<open>main\<close> returns. \<open>log_file\<close> reads the variable of the log file; the error of closing it is ignored. Neither the end
  by \<open>log.Fatal\<close> nor a panic reaches the closing.
\<close>

definition closeLogFile :: "('w \<Rightarrow> string option) \<Rightarrow> (string \<Rightarrow> 'w \<Rightarrow> 'w) \<Rightarrow> 'w \<Rightarrow> 'w" where
  "closeLogFile log_file close w = (case log_file w of None \<Rightarrow> w | Some f \<Rightarrow> close f w)"

definition Execute ::
  "('w \<Rightarrow> string option) \<Rightarrow> (string \<Rightarrow> 'w \<Rightarrow> 'w) \<Rightarrow> string + ('w \<Rightarrow> 'w \<times> 'a process) \<Rightarrow> 'w \<Rightarrow> 'w \<times> nat" where
  "Execute log_file close parsed w =
     (case parsed of
        Inl err \<Rightarrow> (closeLogFile log_file close (closeLogFile log_file close w), 0)
      | Inr cmd \<Rightarrow>
          (case cmd w of
             (w1, Running x) \<Rightarrow> (closeLogFile log_file close w1, 0)
           | (w1, Fatal f) \<Rightarrow> (w1, 1)
           | (w1, Panic) \<Rightarrow> (w1, 2)))"

text \<open>A configured level above \<open>info\<close> silences \<open>show config\<close>; a command line that is refused ends with the status of success.\<close>

lemma show_config_silent:
  assumes "configureLogging os conf w1 = (w2, Running lg)" and "\<not> shows (lgLevel lg)"
    and "initConfig os configFile w = (w1, Running conf)" and "configureApm os conf w2 = (w3, Running ())"
    and "marshal conf = Inr out"
  shows "showConfigCmd os marshal shows configFile w = (w3, Running None)"
  using assms by (simp add: showConfigCmd_def)

lemma refused_command_succeeds: "snd (Execute log_file close (Inl err) w) = 0"
  by (simp add: Execute_def)

section \<open>Setting up, then serving\<close>

lemma setupCmd_ran:
  assumes "setupCmd os libs a path w = (w', Running ())"
  obtains conf w1 s where "initialize os path w = (w1, Running conf)"
    and "NewSetup (appLifecycleSetup conf) (appKibanaClient conf) = Some s" and "RunIfNeeded a s w1 = (w', None)"
  using assms unfolding setupCmd_def
  by (elim proceed_cases) (auto split: option.splits prod.splits)

fun blameless :: "'a process \<Rightarrow> bool" where
  "blameless (Fatal f) \<longleftrightarrow> (\<forall>err. f \<noteq> SetupFailed err)"
| "blameless _ \<longleftrightarrow> True"

lemma blameless_proceed:
  "blameless (snd r) \<Longrightarrow> (\<And>x w. blameless (snd (k x w))) \<Longrightarrow> blameless (snd (proceed r k))"
  by (cases "(r, k)" rule: proceed.cases) auto

lemma blameless_or_die:
  "(\<And>err. blameless (Fatal (f err) :: unit process)) \<Longrightarrow> blameless (snd (or_die f r))"
  by (simp add: or_die_def split: prod.splits option.splits)

lemma initialize_blameless: "blameless (snd (initialize os path w))"
  unfolding initialize_def initConfig_def configureLogging_def configureApm_def setenv_optional_def Let_def
  by (intro blameless_proceed) (auto intro!: blameless_proceed blameless_or_die split: option.splits sum.splits)

lemma rootCmd_refused:
  assumes "rootCmd os libs a path now w = (w', Fatal (SetupFailed err))"
  obtains conf w1 w2 cmp where "initialize os path w = (w1, Running conf)"
    and "NewComponents libs conf w1 = Some (w2, Inr cmp)" and "setupCheck a (cmSetup cmp) w2 = (w', Some err)"
  using assms initialize_blameless [of os path w] unfolding rootCmd_def
  by (elim proceed_cases)
    (auto simp: server_start_def Let_def intro: that split: option.splits sum.splits prod.splits)

lemma NewComponents_made:
  assumes "NewComponents libs conf w = Some (w', Inr cmp)"
  shows "w' = fst (uuid_source libs w)" "suIlm (cmSetup cmp) = appLifecycleSetup conf"
    "suTemplates (cmSetup cmp) = DefaultTemplates (appLifecycleSetup conf)"
  using assms
  by (auto simp: NewComponents_def NewSetup_def buildRecurringTasksLeaderLock_def NewLeaderLock_def buildProcessId_def Let_def
      split: option.splits prod.splits)

text \<open>
  C29: a server started after a setup that ended well, on any machine, finds what it needs. If both commands read
  the same lifecycle settings, and the templates and the policy stay, then the check of the server never refuses to
  start for a missing policy or template.
\<close>

theorem setup_then_serve:
  assumes laws: "admin_laws a pols tpls"
    and set_up: "setupCmd os libs a path w = (w1, Running ())" and later: "grows pols tpls w1 w2"
    and keeps: "\<And>v. grows pols tpls v (fst (initialize os' path' v))" "\<And>v. grows pols tpls v (fst (uuid_source libs' v))"
    and same: "\<And>u u' conf conf'. initialize os path w = (u, Running conf) \<Longrightarrow>
      initialize os' path' w2 = (u', Running conf') \<Longrightarrow> appLifecycleSetup conf' = appLifecycleSetup conf"
  shows "rootCmd os' libs' a path' now w2 \<noteq> (w3, Fatal (SetupFailed (PolicyNotInstalled ps))) \<and>
    rootCmd os' libs' a path' now w2 \<noteq> (w3, Fatal (SetupFailed (TemplatesNotInstalled ts)))"
proof -
  obtain conf v s where s: "initialize os path w = (v, Running conf)"
      "NewSetup (appLifecycleSetup conf) (appKibanaClient conf) = Some s" "RunIfNeeded a s v = (w1, None)"
    using setupCmd_ran [OF set_up] .
  have "err \<noteq> PolicyNotInstalled ps \<and> err \<noteq> TemplatesNotInstalled ts"
    if refused: "rootCmd os' libs' a path' now w2 = (w3, Fatal (SetupFailed err))" for err
  proof -
    obtain conf' u1 u2 cmp where r: "initialize os' path' w2 = (u1, Running conf')"
        "NewComponents libs' conf' u1 = Some (u2, Inr cmp)" "setupCheck a (cmSetup cmp) u2 = (w3, Some err)"
      using rootCmd_refused [OF refused] .
    note made = NewComponents_made [OF r(2)]
    have "grows pols tpls w1 u2"
      using grows_trans [OF later grows_trans [OF keeps(1) [of w2, unfolded r(1) fst_conv] keeps(2) [of u1]]] made(1) by simp
    then have "Some err \<noteq> Some (PolicyNotInstalled ps) \<and> Some err \<noteq> Some (TemplatesNotInstalled ts)"
      using r(3) s(2) made same [OF s(1) r(1)]
      by (intro setup_suffices [OF laws s(3)]) (auto simp: NewSetup_def DefaultTemplates_def split: option.splits)
    then show ?thesis by simp
  qed
  then show ?thesis by auto
qed

end
