(* ===== verification/SetupExamples.thy ===== *)
theory SetupExamples
  imports SetupSafety
begin

text \<open>
  An administration API in memory, which meets the laws assumed of Elasticsearch, and the theorems about the
  setup at concrete runs of it.
\<close>

record admin_memory =
  amPolicies :: "string list"
  amTemplates :: "string list"
  amIndices :: "string list"
  amRefusals :: nat

text \<open>The first \<open>amRefusals\<close> templates are refused, as by a cluster that is not ready.\<close>

definition memory_admin :: "admin_memory es_admin" where
  "memory_admin = \<lparr>
     ILMPutLifecycle = (\<lambda>p b w. (w\<lparr>amPolicies := p # amPolicies w\<rparr>, Response 200 None)),
     ILMGetLifecycle = (\<lambda>p w. (w, Response (if p \<in> set (amPolicies w) then 200 else 404) None)),
     IndicesCreate = (\<lambda>i b w. (w\<lparr>amIndices := i # amIndices w\<rparr>, Response 200 None)),
     IndicesPutTemplate = (\<lambda>t b w.
       (if amRefusals w = 0 then (w\<lparr>amTemplates := t # amTemplates w\<rparr>, Response 200 None)
        else (w\<lparr>amRefusals := amRefusals w - 1\<rparr>, Response 503 None))),
     IndicesGetTemplate = (\<lambda>ts w.
       (let found = filter (\<lambda>t. t \<in> set (amTemplates w)) ts
        in (w, if found = [] then Response 404 (Some []) else Response 200 (Some found)))),
     KibanaImport = (\<lambda>ad u w. (w, Response 200 (Some True)))\<rparr>"

definition installed_policies :: "admin_memory \<Rightarrow> string set" where
  "installed_policies w = set (amPolicies w)"

definition installed_templates :: "admin_memory \<Rightarrow> string set" where
  "installed_templates w = set (amTemplates w)"

lemma memory_admin_laws: "admin_laws memory_admin installed_policies installed_templates"
  unfolding admin_laws_def
  by (intro conjI)
    (auto simp: memory_admin_def grows_def installed_policies_def installed_templates_def Let_def
      filter_empty_conv split: if_splits)

lemma memory_admin_makes: "only_create_makes memory_admin amIndices"
  by (simp add: only_create_makes_def memory_admin_def Let_def)

definition example_settings :: LifecycleSettings where
  "example_settings = \<lparr>lsEnabled = True, lsCustomPolicy = None\<rparr>"

definition example_setup :: Setup where
  "example_setup = \<lparr>suIlm = example_settings, suTemplates = DefaultTemplates example_settings,
     suKibana = \<lparr>kcAddress = ''http://kibana'', kcUser = None\<rparr>\<rparr>"

definition empty_cluster :: "nat \<Rightarrow> admin_memory" where
  "empty_cluster n = \<lparr>amPolicies = [], amTemplates = [], amIndices = [], amRefusals = n\<rparr>"

lemmas example_setup_defs = example_setup_def example_settings_def empty_cluster_def
  RunIfNeeded_def ilmCheck_def InstallPolicies_def setup_templates_def templatesCheck_def templatesRun_def
  putTemplate_def kibanaRun_def BootstrapIndices_def setupCheck_def memory_admin_def DefaultTemplates_def
  ArchivedTemplateHook_def NewTemplate_def TasquesQueuesTemplate_def TasquesArchiveTemplate_def
  TasquesLocksTemplate_def TasquesRecurringTasksTemplate_def archivedTasksPolicyName_def

lemma example_made: "NewSetup example_settings (Some \<lparr>kcAddress = ''http://kibana'', kcUser = None\<rparr>) = Some example_setup"
  by (simp add: NewSetup_def example_setup_def)

lemma example_first_run:
  "RunIfNeeded memory_admin example_setup (empty_cluster 0) = (fst (RunIfNeeded memory_admin example_setup (empty_cluster 0)), None)"
  by (simp add: example_setup_defs Let_def)

theorem interrupted_setup_never_bootstraps_witness:
  "\<exists>w err. RunIfNeeded memory_admin example_setup (empty_cluster 1) = (w, Some err) \<and>
     amIndices (setup_runs memory_admin example_setup 1 w) = [] \<and>
     snd (RunIfNeeded memory_admin example_setup w) = None"
proof -
  let ?a = memory_admin and ?s = example_setup and ?w = "empty_cluster 1"
  have missing: "ilmCheck ?a (suIlm ?s) ?w = (?w, Some (PolicyNotInstalled [DefaultArchivedTasquesPolicyName]))"
    by (simp add: example_setup_defs Let_def)
  have put: "InstallPolicies ?a (suIlm ?s) ?w
      = (?w\<lparr>amPolicies := [DefaultArchivedTasquesPolicyName]\<rparr>, None)"
    by (simp add: example_setup_defs Let_def)
  obtain w err where failed: "setup_templates ?a ?s (?w\<lparr>amPolicies := [DefaultArchivedTasquesPolicyName]\<rparr>) = (w, Some err)"
      and again: "snd (RunIfNeeded ?a ?s w) = None"
    by (simp add: example_setup_defs Let_def)
  have "lsEnabled (suIlm ?s)" by (simp add: example_setup_def example_settings_def)
  from interrupted_setup_never_bootstraps [OF memory_admin_laws memory_admin_makes this missing put failed, of 1]
  show ?thesis using again by (auto simp: empty_cluster_def)
qed

end
