(* ===== verification/ServerExamples.thy ===== *)
theory ServerExamples
  imports Server SetupExamples
begin

text \<open>A server started over a cluster that has been set up, and stopped.\<close>

text \<open>An Elasticsearch client that gets no response, and a cron without entries, over any world.\<close>

definition silent_elastic :: "('w, 'd) es_client" where
  "silent_elastic = \<lparr>
     getUTC = (\<lambda>w. (w, 0)), Sleep = (\<lambda>d w. w), new_uuid = (\<lambda>w. (w, ''0-1'')),
     CreateRequest = (\<lambda>ix i d w. (w, NoResponse)), GetRequest = (\<lambda>ix i w. (w, NoResponse)),
     IndexRequest = (\<lambda>ix i d l w. (w, NoResponse)), SearchRequest = (\<lambda>ixs q w. (w, NoResponse)),
     ScrollSearchRequest = (\<lambda>ttl ixs q w. (w, NoResponse)), ScrollRequest = (\<lambda>ttl i w. (w, NoResponse)),
     ClearScrollRequest = (\<lambda>is w. (w, NoResponse)), BulkRequest = (\<lambda>ops w. (w, NoResponse)),
     CountRequest = (\<lambda>ixs q w. (w, NoResponse)), IndicesRefreshRequest = (\<lambda>ixs w. (w, NoResponse))\<rparr>"

definition example_libraries :: "admin_memory libraries" where
  "example_libraries = \<lparr>
     tasks_client = es_client.extend silent_elastic
       (task_env.fields (\<lambda>w. (w, 7)) (\<lambda>q w. (w, None)) (\<lambda>q at w. w)),
     recurring_client = silent_elastic,
     cron_library = \<lparr>ParseStandard = (\<lambda>s. True), AddJob = (\<lambda>s j w. (w, 1, None)), RemoveEntry = (\<lambda>i w. w),
       StartCron = (\<lambda>w. w), StopCron = (\<lambda>w. w)\<rparr>,
     map_order = (\<lambda>sw tasks. []), uuid_source = (\<lambda>w. (w, ''0-1'')), newClient = (\<lambda>conf. None)\<rparr>"

definition example_app :: App where
  "example_app = \<lparr>appBindAddress = ''localhost:8080'', appShutdownTimeout = 5,
     appElasticsearch = \<lparr>ecAddresses = [''http://localhost:9200''], ecUser = None\<rparr>,
     appKibanaClient = Some \<lparr>kcAddress = ''http://kibana'', kcUser = None\<rparr>, appApmClient = None,
     appAuth = Some \<lparr>BasicAuth = [\<lparr>bauName = ''u'', bauPassword = ''p''\<rparr>]\<rparr>, appLogging = None,
     appTasks = \<lparr>Defaults = \<lparr>BlockFor = 10, BlockForRetryMinWait = 1, BlockForRetryMaxRetries = 2,
         WorkerProcessingTimeout = 30, ClaimAmount = 1, ClaimAmountSearchMultiplier = 2,
         RetryTimes = 3, VersionConflictRetryTimes = 500\<rparr>,
       QueuesConf = \<lparr>LastActivityTrackerMaxSize = 100, RefreshIfLastTouchedOver = 5,
         RefreshIfLastTouchedUnder = 1\<rparr>\<rparr>,
     appRecurring = \<lparr>
       rLeaderLock = \<lparr>lcRunInterval = 5, lcLeaderLockLease = 20\<rparr>,
       rTimedOutTasksReaper = \<lparr>trScrollSize = 10, trScrollTtl = 60, trRunInterval = 5\<rparr>,
       rTasksArchiver = \<lparr>taScrollSize = 10, taScrollTtl = 60, taArchiveOlderThan = 100, taRunInterval = 5\<rparr>,
       rRecurringTasks = \<lparr>rcScrollSize = 10, rcScrollTtl = 60, rcSyncRunInterval = 5, rcEnforceSyncRunInterval = 50\<rparr>\<rparr>,
     appLifecycleSetup = example_settings\<rparr>"

text \<open>The cluster after the setup of \<open>SetupExamples\<close>.\<close>

definition prepared_cluster :: admin_memory where
  "prepared_cluster = fst (RunIfNeeded memory_admin example_setup (empty_cluster 0))"

definition example_components :: "admin_memory components" where
  "example_components = (case NewComponents example_libraries example_app prepared_cluster of
     Some (w, Inr cmp) \<Rightarrow> cmp
   | _ \<Rightarrow> \<lparr>cmConfig = example_app, cmTasksService = NewService (tasks_client example_libraries) (appTasks example_app),
       cmRecurringService = NewRService silent_elastic 0 0, cmManager = NewManager, cmScheduler = NewSchedulerImpl,
       cmLock = snd (NewLeaderLock (\<lambda>w. (w, [])) [] 0 0 ()), cmFunctions = [], cmSetup = example_setup\<rparr>)"

lemma example_built:
  "NewComponents example_libraries example_app prepared_cluster = Some (prepared_cluster, Inr example_components)"
  and example_components_setup: "cmSetup example_components = example_setup"
  by (simp_all add: example_components_def NewComponents_def buildRecurringTasksLeaderLock_def NewLeaderLock_def
      buildProcessId_def NewSetup_def example_setup_def example_app_def example_libraries_def Let_def)

lemma example_started:
  "\<exists>sv. server_start memory_admin (cron_library example_libraries) example_components 0 prepared_cluster
     = (prepared_cluster, Inr sv)"
proof -
  have "setupCheck memory_admin example_setup prepared_cluster = (prepared_cluster, None)"
    unfolding prepared_cluster_def by (simp add: example_setup_defs Let_def)
  then show ?thesis
    by (simp add: server_start_def example_components_setup cronStart_def runner_Start_def NewRunner_def Let_def) (simp add: example_libraries_def)
qed

text \<open>
  The signal comes when the first thread of a server has passed its test and read the clock: everything is stopped, and
  the thread then calls its function, which is told that the server does not lead.
\<close>

lemma stopped_in_flight:
  assumes sv: "svStage sv = Serving" "rnWorld (svRunner sv) = (m, sched)"
    and th: "thread_at (svRunner sv) 0 (0, Ready)" "shouldRun (svRunner sv)" "in_flight 0 (svRunner sv) = 0"
  obtains s1 s2 where "server_steps others lc c fs sv s1" "svStage s1 = LockStopped" "server_steps others lc c fs s1 s2"
    "calls_of 0 (svRunner s1) = calls_of 0 (svRunner sv)" "in_flight 0 (svRunner s1) = 1"
    "calls_of 0 (svRunner s2) = Suc (calls_of 0 (svRunner sv))"
proof -
  let ?step = "server_step others lc c fs"
  let ?rd = "read_clock (svRunner sv)"
  let ?a = "sv\<lparr>svRunner := thread_to 0 (0, Entered) (svRunner sv)\<rparr>"
  let ?b = "?a\<lparr>svRunner := thread_to 0 (0, Timed (read_clock (svRunner ?a))) (svRunner ?a)\<rparr>"
  let ?d = "to_world (m, cronStop c sched) (?b\<lparr>svStage := CronStopped\<rparr>)"
  let ?e = "?d\<lparr>svRunner := runner_Stop (svRunner ?d), svStage := RunnerStopped\<rparr>"
  let ?s1 = "?e\<lparr>svLock := lock_Stop (svLock ?e), svStage := LockStopped\<rparr>"
  let ?s2 = "?s1\<lparr>svRunner := thread_to 0 (0, Called ?rd)
      (svRunner ?s1\<lparr>rnStarts := (0, ?rd, rnClock (svRunner ?s1)) # rnStarts (svRunner ?s1)\<rparr>)\<rparr>"
  note defs = to_world_def runner_Stop_def
  have j: "0 < length (rnThreads (svRunner sv))" using th(1) by (simp add: thread_at_def)
  have rd: "read_clock (svRunner ?a) = ?rd" by (simp add: read_clock_def wall_clock_def)
  have 1: "?step sv ?a" by (rule threads_act) (rule enter [OF th(1,2)])
  have 2: "?step ?a ?b" by (rule threads_act, rule time_it) (use j in \<open>simp add: thread_at_def\<close>)
  have 3: "?step ?b ?d" by (rule stop_cron) (use sv in simp_all)
  have 4: "?step ?d ?e" by (rule stop_runner) (simp add: defs)
  have 5: "?step ?e ?s1" by (rule stop_lock) simp
  have 6: "?step ?s1 ?s2"
    by (rule threads_act, rule call) (use j rd in \<open>simp add: thread_at_def defs\<close>)
  show ?thesis
  proof (rule that)
    show "server_steps others lc c fs sv ?s1"
      unfolding server_steps_def
      by (rule converse_rtranclp_into_rtranclp [of ?step, OF 1 converse_rtranclp_into_rtranclp [of ?step, OF 2
        converse_rtranclp_into_rtranclp [of ?step, OF 3 converse_rtranclp_into_rtranclp [of ?step, OF 4 r_into_rtranclp [of ?step, OF 5]]]]])
    show "server_steps others lc c fs ?s1 ?s2"
      unfolding server_steps_def by (rule r_into_rtranclp [of ?step, OF 6])
    show "in_flight 0 (svRunner ?s1) = 1"
      using in_flight_moved [OF th(1), of "svRunner ?s1" "Timed ?rd" 0] th(3) rd by (simp add: defs)
    show "calls_of 0 (svRunner ?s1) = calls_of 0 (svRunner sv)"
      "calls_of 0 (svRunner ?s2) = Suc (calls_of 0 (svRunner sv))"
      by (simp_all add: calls_of_def defs)
  qed simp
qed

lemma started_ready:
  assumes "server_start memory_admin (cron_library example_libraries) example_components 0 prepared_cluster
     = (prepared_cluster, Inr sv)"
  shows "svStage sv = Serving" "thread_at (svRunner sv) 0 (0, Ready)" "shouldRun (svRunner sv)"
    "in_flight 0 (svRunner sv) = 0" "calls_of 0 (svRunner sv) = 0"
proof -
  have n: "length (cmFunctions example_components) = 4"
    by (simp add: example_components_def NewComponents_def buildRecurringTasksLeaderLock_def NewLeaderLock_def
      buildProcessId_def NewSetup_def example_setup_def example_app_def example_libraries_def recurringFunctions_def Let_def)
  obtain l w where sv: "sv = \<lparr>svLock = l, svRunner = (runner_Start (cmFunctions example_components)
      (NewRunner 0 (cmManager example_components, (cmScheduler example_components, w))))\<lparr>rnWorld := rnWorld (svRunner sv)\<rparr>,
      svStage = Serving\<rparr>"
    using assms by (auto simp: server_start_def Let_def split: prod.splits option.splits)
  have th: "rnThreads (svRunner sv) = [(0, Ready), (1, Ready), (2, Ready), (3, Ready)]"
    by (subst sv) (simp add: runner_Start_def NewRunner_def n upt_rec)
  show "svStage sv = Serving" by (subst sv) simp
  show "thread_at (svRunner sv) 0 (0, Ready)" by (simp add: thread_at_def th)
  show "in_flight 0 (svRunner sv) = 0" by (simp add: in_flight_def th)
  show "shouldRun (svRunner sv)" by (subst sv) (simp add: shouldRun_def runner_Start_def)
  show "calls_of 0 (svRunner sv) = 0" by (subst sv) (simp add: calls_of_def runner_Start_def NewRunner_def)
qed

theorem server_lifecycle_witness:
  "\<exists>sv s1 s2. server_start memory_admin (cron_library example_libraries) example_components 0 prepared_cluster
     = (prepared_cluster, Inr sv) \<and>
     server_steps {} silent_elastic (cron_library example_libraries) (cmFunctions example_components) s1 s2 \<and>
     calls_of 0 (svRunner s1) = 0 \<and> calls_of 0 (svRunner s2) = 1 \<and> in_flight 0 (svRunner s1) = 1 \<and>
     \<not> IsLeader (svLock s2) \<and>
     ''tasques_archived_tasks_policy'' \<in> set (amPolicies prepared_cluster)"
proof -
  obtain sv where sv: "server_start memory_admin (cron_library example_libraries) example_components 0 prepared_cluster
     = (prepared_cluster, Inr sv)"
    using example_started by blast
  obtain m sched where w: "rnWorld (svRunner sv) = (m, sched)" by (rule prod.exhaust)
  note ready = started_ready [OF sv]
  obtain s1 s2 where s: "server_steps {} silent_elastic (cron_library example_libraries) (cmFunctions example_components) sv s1"
      "svStage s1 = LockStopped"
      "server_steps {} silent_elastic (cron_library example_libraries) (cmFunctions example_components) s1 s2"
      "calls_of 0 (svRunner s1) = 0" "in_flight 0 (svRunner s1) = 1" "calls_of 0 (svRunner s2) = 1"
    using stopped_in_flight [OF ready(1) w ready(2-4)] ready(5) by (metis One_nat_def)
  have "setupCheck memory_admin example_setup prepared_cluster = (prepared_cluster, None)"
    unfolding prepared_cluster_def by (simp add: example_setup_defs Let_def)
  moreover have "lsEnabled (appLifecycleSetup example_app)"
    "archivedTasksPolicyName (appLifecycleSetup example_app) = ''tasques_archived_tasks_policy''"
    by (simp_all add: example_app_def example_settings_def archivedTasksPolicyName_def DefaultArchivedTasquesPolicyName_def)
  ultimately have "''tasques_archived_tasks_policy'' \<in> set (amPolicies prepared_cluster)" "\<not> IsLeader (svLock s2)"
    using server_lifecycle [OF memory_admin_laws example_built sv s(1) disjI2 [OF s(2)] s(3)] s(2)
    by (auto simp: example_components_setup installed_policies_def)
  then show ?thesis using sv s by (intro exI [of _ sv] exI [of _ s1] exI [of _ s2]) simp
qed

end
