(* ===== verification/CommandExamples.thy ===== *)
theory CommandExamples
  imports CommandLine ServerExamples
begin

text \<open>The setup command on an empty cluster, then the server.\<close>

definition example_platform :: "(admin_memory, nat) platform" where
  "example_platform = \<lparr>
     ReadInConfig = (\<lambda>source w. (w, None)), Unmarshal = (\<lambda>w. Inr \<lparr>Tasques = \<lparr>Server = example_app\<rparr>\<rparr>),
     ParseLevel = (\<lambda>s. Inl ''unknown''), InfoLevel = 1, OpenFile = (\<lambda>f w. (w, None)), Getenv = (\<lambda>n w. []),
     Setenv = (\<lambda>n v w. (w, None)), NewTracer = (\<lambda>w. (w, None))\<rparr>"

lemma example_initialized: "initialize example_platform [] w = (w, Running example_app)"
  by (simp add: initialize_def initConfig_def configureLogging_def configureApm_def or_die_def example_platform_def
      example_app_def)

lemma example_setup_ran:
  "setupCmd example_platform example_libraries memory_admin [] (empty_cluster 0) = (prepared_cluster, Running ())"
proof -
  have "NewSetup (appLifecycleSetup example_app) (appKibanaClient example_app) = Some example_setup"
    "newClient example_libraries (appElasticsearch example_app) = None"
    using example_made by (simp_all add: example_app_def example_libraries_def)
  then show ?thesis
    by (simp add: setupCmd_def example_initialized example_first_run [folded prepared_cluster_def])
qed

theorem setup_then_serve_witness:
  "setupCmd example_platform example_libraries memory_admin [] (empty_cluster 0) = (prepared_cluster, Running ()) \<and>
   (\<nexists>w. rootCmd example_platform example_libraries memory_admin [] 0 prepared_cluster = (w, Fatal (SetupFailed (PolicyNotInstalled [])))) \<and>
   (\<nexists>w. rootCmd example_platform example_libraries memory_admin [] 0 prepared_cluster = (w, Fatal (SetupFailed (TemplatesNotInstalled []))))"
proof -
  have "rootCmd example_platform example_libraries memory_admin [] 0 prepared_cluster \<noteq> (w, Fatal (SetupFailed (PolicyNotInstalled []))) \<and>
      rootCmd example_platform example_libraries memory_admin [] 0 prepared_cluster \<noteq> (w, Fatal (SetupFailed (TemplatesNotInstalled [])))" for w
    using setup_then_serve [OF memory_admin_laws example_setup_ran grows_refl, of example_platform "[]" example_libraries 0 w "[]" "[]"]
    by (auto simp: example_initialized example_libraries_def)
  then show ?thesis using example_setup_ran by blast
qed

end
