(* ===== verification/ClientModels.thy ===== *)
theory ClientModels
  imports RecurringApi
begin

text \<open>
  The models of the generated client (\<open>models\<close>): what a client sends as JSON and what it reads of the server's
  JSON. A field that is a pointer is an option; a field of type \<open>interface{}\<close> holds any JSON, \<open>JNull\<close> for nil. With
  \<open>omitempty\<close> a field is left out if it holds the zero value of its type; a \<open>strfmt.DateTime\<close>
  is a struct and never left out.
\<close>

section \<open>Decoding\<close>

text \<open>
  \<open>encoding/json\<close> into a typed field: a value of another type and a number out of the range of the type are errors,
  a \<open>null\<close> leaves the field as it is. A struct is read field by field, unknown fields are ignored. Times are read where
  times are written.
\<close>

type_synonym 'a decoded = "string + 'a"

fun and_then :: "'e + 'a \<Rightarrow> ('a \<Rightarrow> 'e + 'b) \<Rightarrow> 'e + 'b" where
  "and_then (Inl err) f = Inl err"
| "and_then (Inr x) f = f x"

lemma and_then_Inr_iff [result_simps]: "and_then r f = Inr y \<longleftrightarrow> (\<exists>x. r = Inr x \<and> f x = Inr y)"
  by (cases r) auto

definition member :: "json \<Rightarrow> string \<Rightarrow> json" where
  "member j k = (case j of JObj fs \<Rightarrow> (case map_of fs k of None \<Rightarrow> JNull | Some v \<Rightarrow> v) | _ \<Rightarrow> JNull)"

fun is_object :: "json \<Rightarrow> bool" where
  "is_object (JObj fs) = True"
| "is_object _ = False"

fun as_int64 :: "json \<Rightarrow> int decoded" where
  "as_int64 (JNum n) = (if - (2 ^ 63) \<le> n \<and> n < 2 ^ 63 then Inr n else Inl ''number out of range'')"
| "as_int64 _ = Inl ''wrong type''"

fun as_uint64 :: "json \<Rightarrow> u64 decoded" where
  "as_uint64 (JNum n) = (if 0 \<le> n \<and> n < 2 ^ 64 then Inr (word_of_int n) else Inl ''number out of range'')"
| "as_uint64 _ = Inl ''wrong type''"

fun as_string :: "json \<Rightarrow> string decoded" where
  "as_string (JStr s) = Inr s"
| "as_string _ = Inl ''wrong type''"

fun as_time :: "json \<Rightarrow> time decoded" where
  "as_time (JTime t) = Inr t"
| "as_time _ = Inl ''wrong type''"

fun as_object :: "json \<Rightarrow> json_obj decoded" where
  "as_object (JObj fs) = Inr fs"
| "as_object _ = Inl ''wrong type''"

text \<open>A pointer stays nil, a value stays zero, if the field is missing or null.\<close>

definition nullable :: "(json \<Rightarrow> 'a decoded) \<Rightarrow> json \<Rightarrow> 'a option decoded" where
  "nullable dec j = (if j = JNull then Inr None else map_result Some (dec j))"

definition or_zero :: "'a \<Rightarrow> (json \<Rightarrow> 'a decoded) \<Rightarrow> json \<Rightarrow> 'a decoded" where
  "or_zero z dec j = (if j = JNull then Inr z else dec j)"

definition when_object :: "(json \<Rightarrow> 'a decoded) \<Rightarrow> json \<Rightarrow> 'a decoded" where
  "when_object dec j = (if is_object j then dec j else Inl ''wrong type'')"

section \<open>Tasks as the server sends them\<close>

text \<open>\<open>internal/api/models\<close>; \<open>render\<close> is \<open>time.Duration.String\<close>.\<close>

definition version_json :: "ApiVersion \<Rightarrow> json" where
  "version_json v = JObj [(''seq_num'', JNum (uint (avSeqNum v))), (''primary_term'', JNum (uint (avPrimaryTerm v)))]"

definition api_metadata_json :: "ApiMetadata \<Rightarrow> json" where
  "api_metadata_json m = JObj [(''created_at'', JTime (amCreatedAt m)), (''modified_at'', JTime (amModifiedAt m)),
     (''version'', version_json (amVersion m))]"

definition api_report_json :: "ApiReport \<Rightarrow> json" where
  "api_report_json r = JObj ([(''at'', JTime (apAt r))] @ opt_field ''data'' JObj (apData r))"

definition api_result_json :: "ApiResult \<Rightarrow> json" where
  "api_result_json r = JObj ([(''at'', JTime (asAt r))]
     @ opt_field ''failure'' JObj (asFailure r) @ opt_field ''success'' JObj (asSuccess r))"

definition api_last_claimed_json :: "ApiLastClaimed \<Rightarrow> json" where
  "api_last_claimed_json l = JObj ([(''worker_id'', JStr (alWorkerId l)), (''claimed_at'', JTime (alClaimedAt l)),
     (''times_out_at'', JTime (alTimesOutAt l))]
     @ opt_field ''last_report'' api_report_json (alLastReport l) @ opt_field ''result'' api_result_json (alResult l))"

definition api_task_json :: "(duration \<Rightarrow> string) \<Rightarrow> ApiTask \<Rightarrow> json" where
  "api_task_json render t = JObj ([(''id'', JStr (atID t)), (''queue'', JStr (atQueue t)),
     (''retry_times'', JNum (uint (atRetryTimes t))), (''attempted'', JNum (uint (atAttempted t))),
     (''kind'', JStr (atKind t)), (''state'', State_MarshalJSON (atState t)), (''priority'', JNum (atPriority t)),
     (''processing_timeout'', JStr (render (atProcessingTimeout t))), (''run_at'', JTime (atRunAt t))]
     @ opt_field ''args'' JObj (atArgs t) @ opt_field ''context'' JObj (atContext t)
     @ opt_field ''last_claimed'' api_last_claimed_json (atLastClaimed t)
     @ [(''last_enqueued_at'', JTime (atLastEnqueuedAt t)), (''metadata'', api_metadata_json (atMetadata t))]
     @ opt_field ''recurring_task_id'' JStr (atRecurringTaskId t))"

section \<open>Tasks as the client reads them\<close>

record CommonVersion =
  cvPrimaryTerm :: int
  cvSeqNum :: int

record CommonMetadata =
  cmCreatedAt :: time
  cmModifiedAt :: time
  cmVersion :: "CommonVersion option"

record TaskReport =
  mpAt :: "time option"
  mpData :: json

record TaskResult =
  msAt :: "time option"
  msFailure :: json
  msSuccess :: json

record TaskLastClaimed =
  mlClaimedAt :: "time option"
  mlLastReport :: "TaskReport option"
  mlResult :: "TaskResult option"
  mlTimesOutAt :: "time option"
  mlWorkerID :: "string option"

record TaskTask =
  mtArgs :: json
  mtAttempted :: "int option"
  mtContext :: json
  mtID :: "string option"
  mtKind :: "string option"
  mtLastClaimed :: "TaskLastClaimed option"
  mtLastEnqueuedAt :: "time option"
  mtMetadata :: "CommonMetadata option"
  mtPriority :: "int option"
  mtProcessingTimeout :: "string option"
  mtQueue :: "string option"
  mtRecurringTaskID :: string
  mtRetryTimes :: "int option"
  mtRunAt :: "time option"
  mtState :: "string option"

definition readCommonVersion :: "json \<Rightarrow> CommonVersion decoded" where
  "readCommonVersion = when_object (\<lambda>j.
     and_then (or_zero 0 as_int64 (member j ''primary_term'')) (\<lambda>primaryTerm.
     and_then (or_zero 0 as_int64 (member j ''seq_num'')) (\<lambda>seqNum.
     Inr \<lparr>cvPrimaryTerm = primaryTerm, cvSeqNum = seqNum\<rparr>)))"

definition readCommonMetadata :: "json \<Rightarrow> CommonMetadata decoded" where
  "readCommonMetadata = when_object (\<lambda>j.
     and_then (or_zero TimeZero as_time (member j ''created_at'')) (\<lambda>createdAt.
     and_then (or_zero TimeZero as_time (member j ''modified_at'')) (\<lambda>modifiedAt.
     and_then (nullable readCommonVersion (member j ''version'')) (\<lambda>version.
     Inr \<lparr>cmCreatedAt = createdAt, cmModifiedAt = modifiedAt, cmVersion = version\<rparr>))))"

definition readTaskReport :: "json \<Rightarrow> TaskReport decoded" where
  "readTaskReport = when_object (\<lambda>j.
     and_then (nullable as_time (member j ''at'')) (\<lambda>at.
     Inr \<lparr>mpAt = at, mpData = member j ''data''\<rparr>))"

definition readTaskResult :: "json \<Rightarrow> TaskResult decoded" where
  "readTaskResult = when_object (\<lambda>j.
     and_then (nullable as_time (member j ''at'')) (\<lambda>at.
     Inr \<lparr>msAt = at, msFailure = member j ''failure'', msSuccess = member j ''success''\<rparr>))"

definition readTaskLastClaimed :: "json \<Rightarrow> TaskLastClaimed decoded" where
  "readTaskLastClaimed = when_object (\<lambda>j.
     and_then (nullable as_time (member j ''claimed_at'')) (\<lambda>claimedAt.
     and_then (nullable readTaskReport (member j ''last_report'')) (\<lambda>lastReport.
     and_then (nullable readTaskResult (member j ''result'')) (\<lambda>result.
     and_then (nullable as_time (member j ''times_out_at'')) (\<lambda>timesOutAt.
     and_then (nullable as_string (member j ''worker_id'')) (\<lambda>workerID.
     Inr \<lparr>mlClaimedAt = claimedAt, mlLastReport = lastReport, mlResult = result, mlTimesOutAt = timesOutAt,
       mlWorkerID = workerID\<rparr>))))))"

definition readTaskTask :: "json \<Rightarrow> TaskTask decoded" where
  "readTaskTask = when_object (\<lambda>j.
     and_then (nullable as_int64 (member j ''attempted'')) (\<lambda>attempted.
     and_then (nullable as_string (member j ''id'')) (\<lambda>id.
     and_then (nullable as_string (member j ''kind'')) (\<lambda>kind.
     and_then (nullable readTaskLastClaimed (member j ''last_claimed'')) (\<lambda>lastClaimed.
     and_then (nullable as_time (member j ''last_enqueued_at'')) (\<lambda>lastEnqueuedAt.
     and_then (nullable readCommonMetadata (member j ''metadata'')) (\<lambda>metadata.
     and_then (nullable as_int64 (member j ''priority'')) (\<lambda>priority.
     and_then (nullable as_string (member j ''processing_timeout'')) (\<lambda>processingTimeout.
     and_then (nullable as_string (member j ''queue'')) (\<lambda>queue.
     and_then (or_zero [] as_string (member j ''recurring_task_id'')) (\<lambda>recurringTaskID.
     and_then (nullable as_int64 (member j ''retry_times'')) (\<lambda>retryTimes.
     and_then (nullable as_time (member j ''run_at'')) (\<lambda>runAt.
     and_then (nullable as_string (member j ''state'')) (\<lambda>state.
     Inr \<lparr>mtArgs = member j ''args'', mtAttempted = attempted, mtContext = member j ''context'', mtID = id,
       mtKind = kind, mtLastClaimed = lastClaimed, mtLastEnqueuedAt = lastEnqueuedAt, mtMetadata = metadata,
       mtPriority = priority, mtProcessingTimeout = processingTimeout, mtQueue = queue,
       mtRecurringTaskID = recurringTaskID, mtRetryTimes = retryTimes, mtRunAt = runAt, mtState = state\<rparr>))))))))))))))"

section \<open>Validation\<close>

text \<open>
  \<open>Validate\<close> of the models: a required pointer must not be nil, and the text of a date must be one, which
  \<open>isDateTime\<close> says of its instant. The errors of a model are collected.
\<close>

datatype validation_error = Required string | FormatOf string | Composite "validation_error list"

definition required :: "string \<Rightarrow> 'a option \<Rightarrow> validation_error option" where
  "required name v = (if v = None then Some (Required name) else None)"

definition required_time :: "(time \<Rightarrow> bool) \<Rightarrow> string \<Rightarrow> time option \<Rightarrow> validation_error option" where
  "required_time isDateTime name v =
     (case v of
        None \<Rightarrow> Some (Required name)
      | Some t \<Rightarrow> if isDateTime t then None else Some (FormatOf name))"

definition collect :: "validation_error option list \<Rightarrow> validation_error option" where
  "collect res =
     (let errs = [e. Some e \<leftarrow> res] in if length errs > 0 then Some (Composite errs) else None)"

definition validateTaskReport :: "(time \<Rightarrow> bool) \<Rightarrow> TaskReport \<Rightarrow> validation_error option" where
  "validateTaskReport isDateTime m = collect [required_time isDateTime ''at'' (mpAt m)]"

definition validateTaskResult :: "(time \<Rightarrow> bool) \<Rightarrow> TaskResult \<Rightarrow> validation_error option" where
  "validateTaskResult isDateTime m = collect [required_time isDateTime ''at'' (msAt m)]"

definition validate_present :: "('a \<Rightarrow> validation_error option) \<Rightarrow> 'a option \<Rightarrow> validation_error option" where
  "validate_present val v = (case v of None \<Rightarrow> None | Some x \<Rightarrow> val x)"

definition validateTaskLastClaimed :: "(time \<Rightarrow> bool) \<Rightarrow> TaskLastClaimed \<Rightarrow> validation_error option" where
  "validateTaskLastClaimed isDateTime m = collect [
     required_time isDateTime ''claimed_at'' (mlClaimedAt m),
     validate_present (validateTaskReport isDateTime) (mlLastReport m),
     validate_present (validateTaskResult isDateTime) (mlResult m),
     required_time isDateTime ''times_out_at'' (mlTimesOutAt m),
     required ''worker_id'' (mlWorkerID m)]"

definition validateCommonVersion :: "CommonVersion \<Rightarrow> validation_error option" where
  "validateCommonVersion m = None"

definition validate_optional_time :: "(time \<Rightarrow> bool) \<Rightarrow> string \<Rightarrow> time \<Rightarrow> validation_error option" where
  "validate_optional_time isDateTime name t = (if t = TimeZero \<or> isDateTime t then None else Some (FormatOf name))"

definition validateCommonMetadata :: "(time \<Rightarrow> bool) \<Rightarrow> CommonMetadata \<Rightarrow> validation_error option" where
  "validateCommonMetadata isDateTime m = collect [
     validate_optional_time isDateTime ''created_at'' (cmCreatedAt m),
     validate_optional_time isDateTime ''modified_at'' (cmModifiedAt m),
     validate_present validateCommonVersion (cmVersion m)]"

definition validate_metadata :: "(time \<Rightarrow> bool) \<Rightarrow> CommonMetadata option \<Rightarrow> validation_error option" where
  "validate_metadata isDateTime v =
     (case v of None \<Rightarrow> Some (Required ''metadata'') | Some m \<Rightarrow> validateCommonMetadata isDateTime m)"

definition validateTaskTask :: "(time \<Rightarrow> bool) \<Rightarrow> TaskTask \<Rightarrow> validation_error option" where
  "validateTaskTask isDateTime m = collect [
     required ''attempted'' (mtAttempted m), required ''id'' (mtID m), required ''kind'' (mtKind m),
     validate_present (validateTaskLastClaimed isDateTime) (mtLastClaimed m),
     required_time isDateTime ''last_enqueued_at'' (mtLastEnqueuedAt m),
     validate_metadata isDateTime (mtMetadata m), required ''priority'' (mtPriority m),
     required ''processing_timeout'' (mtProcessingTimeout m), required ''queue'' (mtQueue m),
     required ''retry_times'' (mtRetryTimes m), required_time isDateTime ''run_at'' (mtRunAt m),
     required ''state'' (mtState m)]"

section \<open>The client reads what the server sends\<close>

named_theorems read_simps "reading the JSON of the server"

lemma member_simps [read_simps]:
  "member (JObj ((k, v) # fs)) k' = (if k = k' then v else member (JObj fs) k')"
  "member (JObj []) k' = JNull"
  "member (JObj (opt_field k f x @ fs)) k' =
     (if k = k' then (case x of None \<Rightarrow> member (JObj fs) k' | Some y \<Rightarrow> f y) else member (JObj fs) k')"
  by (auto simp: member_def opt_field_def split: option.splits)

lemma reader_simps [read_simps]:
  "nullable dec JNull = Inr None" "or_zero z dec JNull = Inr z"
  "j \<noteq> JNull \<Longrightarrow> nullable dec j = map_result Some (dec j)" "j \<noteq> JNull \<Longrightarrow> or_zero z dec j = dec j"
  "when_object dec (JObj fs) = dec (JObj fs)"
  by (simp_all add: nullable_def or_zero_def when_object_def)

definition client_version :: "ApiVersion \<Rightarrow> CommonVersion" where
  "client_version v = \<lparr>cvPrimaryTerm = uint (avPrimaryTerm v), cvSeqNum = uint (avSeqNum v)\<rparr>"

definition client_metadata :: "ApiMetadata \<Rightarrow> CommonMetadata" where
  "client_metadata m = \<lparr>cmCreatedAt = amCreatedAt m, cmModifiedAt = amModifiedAt m,
     cmVersion = Some (client_version (amVersion m))\<rparr>"

definition json_or_null :: "json_obj option \<Rightarrow> json" where
  "json_or_null d = (case d of None \<Rightarrow> JNull | Some fs \<Rightarrow> JObj fs)"

definition client_report :: "ApiReport \<Rightarrow> TaskReport" where
  "client_report r = \<lparr>mpAt = Some (apAt r), mpData = json_or_null (apData r)\<rparr>"

definition client_result :: "ApiResult \<Rightarrow> TaskResult" where
  "client_result r = \<lparr>msAt = Some (asAt r), msFailure = json_or_null (asFailure r), msSuccess = json_or_null (asSuccess r)\<rparr>"

definition client_last_claimed :: "ApiLastClaimed \<Rightarrow> TaskLastClaimed" where
  "client_last_claimed l = \<lparr>mlClaimedAt = Some (alClaimedAt l), mlLastReport = map_option client_report (alLastReport l),
     mlResult = map_option client_result (alResult l), mlTimesOutAt = Some (alTimesOutAt l),
     mlWorkerID = Some (alWorkerId l)\<rparr>"

definition client_task :: "(duration \<Rightarrow> string) \<Rightarrow> ApiTask \<Rightarrow> TaskTask" where
  "client_task render t = \<lparr>mtArgs = json_or_null (atArgs t), mtAttempted = Some (uint (atAttempted t)),
     mtContext = json_or_null (atContext t), mtID = Some (atID t), mtKind = Some (atKind t),
     mtLastClaimed = map_option client_last_claimed (atLastClaimed t), mtLastEnqueuedAt = Some (atLastEnqueuedAt t),
     mtMetadata = Some (client_metadata (atMetadata t)), mtPriority = Some (atPriority t),
     mtProcessingTimeout = Some (render (atProcessingTimeout t)), mtQueue = Some (atQueue t),
     mtRecurringTaskID = (case atRecurringTaskId t of None \<Rightarrow> [] | Some i \<Rightarrow> i),
     mtRetryTimes = Some (uint (atRetryTimes t)), mtRunAt = Some (atRunAt t), mtState = Some (State_String (atState t))\<rparr>"

definition int64 :: "int \<Rightarrow> bool" where
  "int64 n \<longleftrightarrow> - (2 ^ 63) \<le> n \<and> n < 2 ^ 63"

definition readable_version :: "ApiVersion \<Rightarrow> bool" where
  "readable_version v \<longleftrightarrow> uint (avSeqNum v) < 2 ^ 63 \<and> uint (avPrimaryTerm v) < 2 ^ 63"

definition readable :: "ApiTask \<Rightarrow> bool" where
  "readable t \<longleftrightarrow> uint (atRetryTimes t) < 2 ^ 63 \<and> uint (atAttempted t) < 2 ^ 63 \<and> int64 (atPriority t) \<and>
     readable_version (amVersion (atMetadata t))"

lemma int64_uint [simp]: "int64 (uint (x :: u64)) \<longleftrightarrow> uint x < 2 ^ 63"
  by (simp add: int64_def order_trans [OF _ uint_ge_0])

lemma as_int64_iff [read_simps]:
  "as_int64 (JNum n) = (if int64 n then Inr n else Inl ''number out of range'')"
  by (simp add: int64_def)

declare as_int64.simps(1) [simp del]

lemma read_version:
  "readCommonVersion (version_json v) =
     (if readable_version v then Inr (client_version v) else Inl ''number out of range'')"
  by (simp add: readCommonVersion_def version_json_def read_simps readable_version_def client_version_def)

lemma read_metadata:
  "readCommonMetadata (api_metadata_json m) =
     (if readable_version (amVersion m) then Inr (client_metadata m) else Inl ''number out of range'')"
  using read_version [of "amVersion m"]
  by (simp add: readCommonMetadata_def api_metadata_json_def read_simps client_metadata_def version_json_def)

lemma member_last [read_simps]:
  "member (JObj (opt_field k f x)) k' = (if k = k' then (case x of None \<Rightarrow> JNull | Some y \<Rightarrow> f y) else JNull)"
  using member_simps(3) [of k f x "[]" k'] by (simp add: member_simps split: option.splits)

lemma read_report: "readTaskReport (api_report_json r) = Inr (client_report r)"
  by (simp add: readTaskReport_def api_report_json_def read_simps client_report_def json_or_null_def split: option.splits)

lemma read_result: "readTaskResult (api_result_json r) = Inr (client_result r)"
  by (simp add: readTaskResult_def api_result_json_def read_simps client_result_def json_or_null_def split: option.splits)

lemma not_null [read_simps]:
  "api_report_json r \<noteq> JNull" "api_result_json s \<noteq> JNull" "api_last_claimed_json l \<noteq> JNull"
  "api_metadata_json m \<noteq> JNull" "version_json v \<noteq> JNull" "State_MarshalJSON st \<noteq> JNull"
  by (simp_all add: api_report_json_def api_result_json_def api_last_claimed_json_def api_metadata_json_def
      version_json_def State_MarshalJSON_def)

lemma read_last_claimed: "readTaskLastClaimed (api_last_claimed_json l) = Inr (client_last_claimed l)"
proof -
  have "nullable readTaskReport (case alLastReport l of None \<Rightarrow> JNull | Some r \<Rightarrow> api_report_json r)
      = Inr (map_option client_report (alLastReport l))"
    by (simp add: read_simps read_report split: option.splits)
  moreover have "nullable readTaskResult (case alResult l of None \<Rightarrow> JNull | Some r \<Rightarrow> api_result_json r)
      = Inr (map_option client_result (alResult l))"
    by (simp add: read_simps read_result split: option.splits)
  ultimately show ?thesis
    by (simp add: readTaskLastClaimed_def api_last_claimed_json_def read_simps client_last_claimed_def cong: option.case_cong)
qed

lemma read_task:
  "readTaskTask (api_task_json render t) =
     (if readable t then Inr (client_task render t) else Inl ''number out of range'')"
proof -
  have claimed: "nullable readTaskLastClaimed (case atLastClaimed t of None \<Rightarrow> JNull | Some l \<Rightarrow> api_last_claimed_json l)
      = Inr (map_option client_last_claimed (atLastClaimed t))"
    by (simp add: read_simps read_last_claimed split: option.splits)
  have recurring: "or_zero [] as_string (case atRecurringTaskId t of None \<Rightarrow> JNull | Some i \<Rightarrow> JStr i)
      = Inr (case atRecurringTaskId t of None \<Rightarrow> [] | Some i \<Rightarrow> i)"
    by (simp add: read_simps split: option.splits)
  show ?thesis
    by (simp add: readTaskTask_def api_task_json_def read_simps claimed recurring read_metadata State_MarshalJSON_def
        client_task_def json_or_null_def readable_def cong: option.case_cong)
qed

lemma present_simps [simp]:
  "validate_present val None = None" "validate_present val (Some x) = val x"
  by (simp_all add: validate_present_def)

lemma validated:
  assumes "\<And>t. isDateTime t"
  shows "validateTaskTask isDateTime (client_task render t) = None"
proof -
  have times: "required_time isDateTime k (Some t) = None" "validate_optional_time isDateTime k t = None" for k t
    using assms by (simp_all add: required_time_def validate_optional_time_def)
  have "validate_present (validateTaskReport isDateTime) (map_option client_report r) = None"
    and "validate_present (validateTaskResult isDateTime) (map_option client_result s) = None" for r s
    by (cases r; cases s; simp add: validateTaskReport_def validateTaskResult_def client_report_def client_result_def
        collect_def times)+
  then have "validateTaskLastClaimed isDateTime (client_last_claimed l) = None" for l
    by (simp add: validateTaskLastClaimed_def client_last_claimed_def collect_def times required_def)
  then have last: "validate_present (validateTaskLastClaimed isDateTime) (map_option client_last_claimed l) = None" for l
    by (cases l) simp_all
  show ?thesis
    by (simp add: validateTaskTask_def client_task_def last collect_def required_def times validate_metadata_def
        validateCommonMetadata_def client_metadata_def validateCommonVersion_def)
qed

lemma uint_inject: "uint (x :: u64) = uint y \<longleftrightarrow> x = y"
  by (rule word_uint_eq_iff [symmetric])

lemma State_String_eq [simp]: "State_String a = State_String b \<longleftrightarrow> a = b"
  by (cases a; cases b) simp_all

lemma json_or_null_inject [simp]: "json_or_null a = json_or_null b \<longleftrightarrow> a = b"
  by (simp add: json_or_null_def split: option.splits)

lemma client_metadata_inject: "client_metadata a = client_metadata b \<Longrightarrow> a = b"
  by (auto simp: client_metadata_def client_version_def uint_inject intro!: ApiMetadata.equality ApiVersion.equality)

lemma client_last_claimed_inject: "client_last_claimed a = client_last_claimed b \<Longrightarrow> a = b"
proof -
  have r: "inj client_report" and s: "inj client_result"
    by (auto simp: client_report_def client_result_def intro!: injI ApiReport.equality ApiResult.equality)
  show "client_last_claimed a = client_last_claimed b \<Longrightarrow> a = b"
    using injD [OF option.inj_map [OF r]] injD [OF option.inj_map [OF s]]
    by (auto simp: client_last_claimed_def intro!: ApiLastClaimed.equality)
qed

lemma client_task_inject:
  assumes same: "client_task render a = client_task render b" and render: "inj render"
    and ids: "atRecurringTaskId a \<noteq> Some []" "atRecurringTaskId b \<noteq> Some []"
  shows "a = b"
proof -
  have "inj client_last_claimed" by (rule injI) (rule client_last_claimed_inject)
  note last = injD [OF option.inj_map [OF this]]
  have "atRecurringTaskId a = atRecurringTaskId b"
    using same ids by (auto simp: client_task_def split: option.splits)
  then show ?thesis
    using same injD [OF render] last
    by (intro ApiTask.equality) (auto simp: client_task_def uint_inject dest: client_metadata_inject)
qed

text \<open>
  C33: the client reads a task that the server sends exactly if its numbers are 64-bit signed; then what
  it reads passes the validation of the client's model, and, recurring task ids that are empty strings aside, nothing of the task is lost: two tasks that
  the client reads as the same are the same.
\<close>

theorem client_reads_tasks:
  "((\<exists>m. readTaskTask (api_task_json render t) = Inr m) \<longleftrightarrow> readable t) \<and>
   (\<forall>m isDateTime. readTaskTask (api_task_json render t) = Inr m \<longrightarrow>
      ((\<forall>u. isDateTime u) \<longrightarrow> validateTaskTask isDateTime m = None) \<and>
      (inj render \<longrightarrow> (\<forall>t'. readTaskTask (api_task_json render t') = Inr m \<longrightarrow>
         atRecurringTaskId t \<noteq> Some [] \<longrightarrow> atRecurringTaskId t' \<noteq> Some [] \<longrightarrow> t' = t)))"
  using validated client_task_inject by (auto simp: read_task split: if_splits)

end
