(* ===== verification/ClientRequests.thy ===== *)
theory ClientRequests
  imports ClientModels
begin

text \<open>
  What a client sends and what the server makes of it: the models of requests of the generated client
  (\<open>models\<close>) with the JSON they are written to, and the decoding of that JSON into the models of the API
  (\<open>internal/api/models\<close>).
\<close>

section \<open>What the client sends\<close>

text \<open>\<open>nil\<close> and the zero values of numbers and strings are left out where the field says \<open>omitempty\<close>.\<close>

definition omit_null :: "string \<Rightarrow> json \<Rightarrow> json_obj" where
  "omit_null k j = opt_field k (\<lambda>x. x) (if j = JNull then None else Some j)"

definition omit_zero :: "string \<Rightarrow> int \<Rightarrow> json_obj" where
  "omit_zero k n = opt_field k JNum (if n = 0 then None else Some n)"

definition omit_empty :: "string \<Rightarrow> string \<Rightarrow> json_obj" where
  "omit_empty k s = opt_field k JStr (if s = [] then None else Some s)"

definition or_null :: "('a \<Rightarrow> json) \<Rightarrow> 'a option \<Rightarrow> json" where
  "or_null f v = (case v of None \<Rightarrow> JNull | Some x \<Rightarrow> f x)"

record TaskNewTask =
  mnArgs :: json
  mnContext :: json
  mnKind :: "string option"
  mnPriority :: int
  mnProcessingTimeout :: string
  mnQueue :: "qname option"
  mnRetryTimes :: int
  mnRunAt :: time

text \<open>\<open>sent\<close> is the instant that \<open>strfmt\<close> renders a time to.\<close>

definition new_task_json :: "(time \<Rightarrow> time) \<Rightarrow> TaskNewTask \<Rightarrow> json" where
  "new_task_json sent m = JObj (omit_null ''args'' (mnArgs m) @ omit_null ''context'' (mnContext m)
     @ [(''kind'', or_null JStr (mnKind m))] @ omit_zero ''priority'' (mnPriority m)
     @ omit_empty ''processing_timeout'' (mnProcessingTimeout m) @ [(''queue'', or_null JStr (mnQueue m))]
     @ omit_zero ''retry_times'' (mnRetryTimes m) @ [(''run_at'', JTime (sent (mnRunAt m)))])"

definition validateTaskNewTask :: "(time \<Rightarrow> bool) \<Rightarrow> TaskNewTask \<Rightarrow> validation_error option" where
  "validateTaskNewTask isDateTime m = collect [required ''kind'' (mnKind m), required ''queue'' (mnQueue m),
     validate_optional_time isDateTime ''run_at'' (mnRunAt m)]"

record RecurringTaskDefinition =
  mdArgs :: json
  mdContext :: json
  mdKind :: "string option"
  mdPriority :: int
  mdProcessingTimeout :: string
  mdQueue :: "qname option"
  mdRetryTimes :: int

definition definition_json :: "RecurringTaskDefinition \<Rightarrow> json" where
  "definition_json m = JObj (omit_null ''args'' (mdArgs m) @ omit_null ''context'' (mdContext m)
     @ [(''kind'', or_null JStr (mdKind m))] @ omit_zero ''priority'' (mdPriority m)
     @ omit_empty ''processing_timeout'' (mdProcessingTimeout m) @ [(''queue'', or_null JStr (mdQueue m))]
     @ omit_zero ''retry_times'' (mdRetryTimes m))"

definition validateRecurringTaskDefinition :: "RecurringTaskDefinition \<Rightarrow> validation_error option" where
  "validateRecurringTaskDefinition m = collect [required ''kind'' (mdKind m), required ''queue'' (mdQueue m)]"

definition validate_definition :: "RecurringTaskDefinition option \<Rightarrow> validation_error option" where
  "validate_definition v =
     (case v of None \<Rightarrow> Some (Required ''task_definition'') | Some d \<Rightarrow> validateRecurringTaskDefinition d)"

record RecurringNewTask =
  mrID :: "string option"
  mrScheduleExpression :: "string option"
  mrTaskDefinition :: "RecurringTaskDefinition option"

definition recurring_new_task_json :: "RecurringNewTask \<Rightarrow> json" where
  "recurring_new_task_json m = JObj [(''id'', or_null JStr (mrID m)),
     (''schedule_expression'', or_null JStr (mrScheduleExpression m)),
     (''task_definition'', or_null definition_json (mrTaskDefinition m))]"

definition validateRecurringNewTask :: "RecurringNewTask \<Rightarrow> validation_error option" where
  "validateRecurringNewTask m = collect [required ''id'' (mrID m),
     required ''schedule_expression'' (mrScheduleExpression m), validate_definition (mrTaskDefinition m)]"

record RecurringTaskUpdate =
  muScheduleExpression :: string
  muTaskDefinition :: "RecurringTaskDefinition option"

definition recurring_update_json :: "RecurringTaskUpdate \<Rightarrow> json" where
  "recurring_update_json m = JObj (omit_empty ''schedule_expression'' (muScheduleExpression m)
     @ opt_field ''task_definition'' definition_json (muTaskDefinition m))"

definition validateRecurringTaskUpdate :: "RecurringTaskUpdate \<Rightarrow> validation_error option" where
  "validateRecurringTaskUpdate m =
     collect [validate_present validateRecurringTaskDefinition (muTaskDefinition m)]"

record TaskClaim =
  mcAmount :: int
  mcBlockFor :: string
  mcQueues :: "qname list option"

definition strings_json :: "string list \<Rightarrow> json" where
  "strings_json ss = JArr (map JStr ss)"

definition task_claim_json :: "TaskClaim \<Rightarrow> json" where
  "task_claim_json m = JObj (omit_zero ''amount'' (mcAmount m) @ omit_empty ''block_for'' (mcBlockFor m)
     @ [(''queues'', or_null strings_json (mcQueues m))])"

definition validateTaskClaim :: "TaskClaim \<Rightarrow> validation_error option" where
  "validateTaskClaim m = collect [required ''queues'' (mcQueues m)]"

text \<open>The data of a report, of a success and of a failure.\<close>

record TaskNewReport =
  mnrData :: json

definition task_new_report_json :: "TaskNewReport \<Rightarrow> json" where
  "task_new_report_json m = JObj (omit_null ''data'' (mnrData m))"

record TaskSuccess =
  msuData :: json

definition task_success_json :: "TaskSuccess \<Rightarrow> json" where
  "task_success_json m = JObj (omit_null ''data'' (msuData m))"

record TaskFailure =
  mfaData :: json

definition task_failure_json :: "TaskFailure \<Rightarrow> json" where
  "task_failure_json m = JObj (omit_null ''data'' (mfaData m))"

section \<open>What the server reads\<close>

text \<open>
  A duration is written as a string; of a number, which \<open>Duration_UnmarshalJSON\<close> does not assign, the zero value remains.
\<close>

fun as_duration :: "(string \<Rightarrow> string + duration) \<Rightarrow> json \<Rightarrow> duration decoded" where
  "as_duration ParseDuration (JStr s) =
     (case Duration_UnmarshalJSON ParseDuration (\<lambda>_. (0, None)) (CHR 0x22 # s @ [CHR 0x22]) 0 of
        (d, None) \<Rightarrow> Inr d
      | (_, Some err) \<Rightarrow> Inl err)"
| "as_duration ParseDuration (JNum n) = map_result (\<lambda>_. 0) (as_int64 (JNum n))"
| "as_duration ParseDuration _ = Inl ''wrong type''"

fun as_bool :: "json \<Rightarrow> bool decoded" where
  "as_bool (JBool b) = Inr b"
| "as_bool _ = Inl ''wrong type''"

fun as_strings :: "json list \<Rightarrow> string list decoded" where
  "as_strings [] = Inr []"
| "as_strings (j # js) = and_then (or_zero [] as_string j) (\<lambda>s. map_result ((#) s) (as_strings js))"

fun as_string_array :: "json \<Rightarrow> string list decoded" where
  "as_string_array (JArr js) = as_strings js"
| "as_string_array _ = Inl ''wrong type''"

definition readNewTask :: "(string \<Rightarrow> string + duration) \<Rightarrow> json \<Rightarrow> ApiNewTask decoded" where
  "readNewTask pd = when_object (\<lambda>j.
     and_then (nullable as_string (member j ''id'')) (\<lambda>id.
     and_then (or_zero [] as_string (member j ''queue'')) (\<lambda>queue.
     and_then (nullable as_uint64 (member j ''retry_times'')) (\<lambda>retryTimes.
     and_then (or_zero [] as_string (member j ''kind'')) (\<lambda>kind.
     and_then (nullable as_int64 (member j ''priority'')) (\<lambda>priority.
     and_then (nullable (as_duration pd) (member j ''processing_timeout'')) (\<lambda>processingTimeout.
     and_then (nullable as_time (member j ''run_at'')) (\<lambda>runAt.
     and_then (nullable as_object (member j ''args'')) (\<lambda>args.
     and_then (nullable as_object (member j ''context'')) (\<lambda>context.
     Inr \<lparr>anID = id, anQueue = queue, anRetryTimes = retryTimes, anKind = kind, anPriority = priority,
       anProcessingTimeout = processingTimeout, anRunAt = runAt, anArgs = args, anContext = context\<rparr>))))))))))"

definition readTaskDefinition :: "(string \<Rightarrow> string + duration) \<Rightarrow> json \<Rightarrow> ApiTaskDefinition decoded" where
  "readTaskDefinition pd = when_object (\<lambda>j.
     and_then (or_zero [] as_string (member j ''queue'')) (\<lambda>queue.
     and_then (nullable as_uint64 (member j ''retry_times'')) (\<lambda>retryTimes.
     and_then (or_zero [] as_string (member j ''kind'')) (\<lambda>kind.
     and_then (nullable as_int64 (member j ''priority'')) (\<lambda>priority.
     and_then (nullable (as_duration pd) (member j ''processing_timeout'')) (\<lambda>processingTimeout.
     and_then (nullable as_object (member j ''args'')) (\<lambda>args.
     and_then (nullable as_object (member j ''context'')) (\<lambda>context.
     Inr \<lparr>adQueue = queue, adRetryTimes = retryTimes, adKind = kind, adPriority = priority,
       adProcessingTimeout = processingTimeout, adArgs = args, adContext = context\<rparr>))))))))"

definition zero_definition :: ApiTaskDefinition where
  "zero_definition = \<lparr>adQueue = [], adRetryTimes = None, adKind = [], adPriority = None,
     adProcessingTimeout = None, adArgs = None, adContext = None\<rparr>"

definition readNewRTask :: "(string \<Rightarrow> string + duration) \<Rightarrow> json \<Rightarrow> ApiNewRTask decoded" where
  "readNewRTask pd = when_object (\<lambda>j.
     and_then (or_zero [] as_string (member j ''id'')) (\<lambda>id.
     and_then (or_zero [] as_string (member j ''schedule_expression'')) (\<lambda>scheduleExpression.
     and_then (nullable as_bool (member j ''skip_if_outstanding_tasks_exist'')) (\<lambda>skip.
     and_then (or_zero zero_definition (readTaskDefinition pd) (member j ''task_definition'')) (\<lambda>def.
     Inr \<lparr>anrID = id, anrScheduleExpression = scheduleExpression, anrSkipIfOutstandingTasksExist = skip,
       anrTaskDefinition = def\<rparr>)))))"

definition readRTaskUpdate :: "(string \<Rightarrow> string + duration) \<Rightarrow> json \<Rightarrow> ApiRTaskUpdate decoded" where
  "readRTaskUpdate pd = when_object (\<lambda>j.
     and_then (nullable as_string (member j ''schedule_expression'')) (\<lambda>scheduleExpression.
     and_then (nullable as_bool (member j ''skip_if_outstanding_tasks_exist'')) (\<lambda>skip.
     and_then (nullable (readTaskDefinition pd) (member j ''task_definition'')) (\<lambda>def.
     Inr \<lparr>auScheduleExpression = scheduleExpression, auSkipIfOutstandingTasksExist = skip,
       auTaskDefinition = def\<rparr>))))"

definition readClaim :: "(string \<Rightarrow> string + duration) \<Rightarrow> json \<Rightarrow> ApiClaim decoded" where
  "readClaim pd = when_object (\<lambda>j.
     and_then (nullable as_string_array (member j ''queues'')) (\<lambda>queues.
     and_then (nullable as_uint64 (member j ''amount'')) (\<lambda>amount.
     and_then (nullable (as_duration pd) (member j ''block_for'')) (\<lambda>blockFor.
     Inr \<lparr>acQueues = queues, acAmount = amount, acBlockFor = blockFor\<rparr>))))"

text \<open>\<open>NewReport\<close>, \<open>Success\<close> and \<open>Failure\<close>.\<close>

definition readData :: "json \<Rightarrow> json_obj option decoded" where
  "readData = when_object (\<lambda>j. nullable as_object (member j ''data''))"

section \<open>A new task, from the client to the domain\<close>

lemma member_opt [read_simps]:
  "member (JObj (omit_null k j @ fs)) k' =
     (if k = k' then (if j = JNull then member (JObj fs) k' else j) else member (JObj fs) k')"
  "member (JObj (omit_zero k n @ fs)) k' =
     (if k = k' then (if n = 0 then member (JObj fs) k' else JNum n) else member (JObj fs) k')"
  "member (JObj (omit_empty k t @ fs)) k' =
     (if k = k' then (if t = [] then member (JObj fs) k' else JStr t) else member (JObj fs) k')"
  "member (JObj (omit_null k j)) k' = (if k = k' then j else JNull)"
  "member (JObj (omit_zero k n)) k' = (if k = k' then (if n = 0 then JNull else JNum n) else JNull)"
  by (simp_all add: omit_null_def omit_zero_def omit_empty_def read_simps)

lemma or_null_Some [read_simps]: "or_null f (Some x) = f x"
  by (simp add: or_null_def)

lemma json_if [read_simps]: "(if j = JNull then JNull else j) = j"
  by simp

lemma as_duration_str [read_simps]: "as_duration pd (JStr t) = pd t"
  by (simp add: Duration_UnmarshalJSON_def split: sum.splits)

declare as_duration.simps(1) [simp del]

fun object_or_null :: "json \<Rightarrow> bool" where
  "object_or_null JNull = True"
| "object_or_null (JObj fs) = True"
| "object_or_null _ = False"

fun object_of :: "json \<Rightarrow> json_obj option" where
  "object_of (JObj fs) = Some fs"
| "object_of _ = None"

lemma nullable_object [read_simps]:
  "nullable as_object j = (if object_or_null j then Inr (object_of j) else Inl ''wrong type'')"
  by (cases j) (simp_all add: nullable_def)

text \<open>What the client leaves out is nil for the server.\<close>

definition sent_retries :: "int \<Rightarrow> u64 option decoded" where
  "sent_retries n = (if n = 0 then Inr None else if 0 < n then Inr (Some (word_of_int n)) else Inl ''number out of range'')"

definition sent_timeout :: "(string \<Rightarrow> string + duration) \<Rightarrow> string \<Rightarrow> duration option decoded" where
  "sent_timeout pd t = (if t = [] then Inr None else map_result Some (pd t))"

lemma read_retries [read_simps]:
  "int64 n \<Longrightarrow> nullable as_uint64 (if n = 0 then JNull else JNum n) = sent_retries n"
  by (auto simp: nullable_def sent_retries_def int64_def)

lemma read_timeout [read_simps]:
  "nullable (as_duration pd) (if t = [] then JNull else JStr t) = sent_timeout pd t"
  by (simp add: nullable_def sent_timeout_def as_duration_str)

lemma read_priority [read_simps]:
  "int64 n \<Longrightarrow> nullable as_int64 (if n = 0 then JNull else JNum n) = Inr (if n = 0 then None else Some n)"
  by (simp add: nullable_def as_int64_iff)

definition acceptable :: "(string \<Rightarrow> string + duration) \<Rightarrow> int \<Rightarrow> string \<Rightarrow> json \<Rightarrow> json \<Rightarrow> bool" where
  "acceptable pd n t args context \<longleftrightarrow> 0 \<le> n \<and> (t = [] \<or> (\<exists>d. pd t = Inr d)) \<and> object_or_null args \<and> object_or_null context"

lemma read_new_task:
  assumes "mnKind m = Some kind" "mnQueue m = Some queue" "int64 (mnPriority m)" "int64 (mnRetryTimes m)"
  shows "readNewTask pd (new_task_json sent m) =
     and_then (sent_retries (mnRetryTimes m)) (\<lambda>retryTimes. and_then (sent_timeout pd (mnProcessingTimeout m)) (\<lambda>timeout.
     if \<not> object_or_null (mnArgs m) \<or> \<not> object_or_null (mnContext m) then Inl ''wrong type'' else
     Inr \<lparr>anID = None, anQueue = queue, anRetryTimes = retryTimes, anKind = kind,
       anPriority = (if mnPriority m = 0 then None else Some (mnPriority m)), anProcessingTimeout = timeout,
       anRunAt = Some (sent (mnRunAt m)), anArgs = object_of (mnArgs m), anContext = object_of (mnContext m)\<rparr>))"
  using assms by (simp add: readNewTask_def new_task_json_def read_simps cong: if_cong)

lemma and_then_assoc: "and_then (and_then r f) g = and_then r (\<lambda>x. and_then (f x) g)"
  by (cases r) simp_all

lemma sent_retries_Inr: "sent_retries n = Inr r \<longleftrightarrow> 0 \<le> n \<and> r = (if n = 0 then None else Some (word_of_int n))"
  by (auto simp: sent_retries_def)

lemma sent_timeout_Inr:
  "sent_timeout pd t = Inr r \<longleftrightarrow> (if t = [] then r = None else (\<exists>d. pd t = Inr d \<and> r = Some d))"
  by (auto simp: sent_timeout_def result_simps)

text \<open>
  What the client asks for when it creates a task. The server accepts exactly what has no negative number of
  retries, a timeout that parses, and objects as arguments and context. The new task then has no id of
  its own and the values the client gave, except that zero retries, no timeout and the zero time stand
  for the defaults: a client cannot ask for a task that is never retried.
\<close>

lemma client_new_task:
  assumes valid: "validateTaskNewTask isDateTime m = None" and ints: "int64 (mnPriority m)" "int64 (mnRetryTimes m)"
  shows "((\<exists>a. readNewTask pd (new_task_json sent m) = Inr a) \<longleftrightarrow>
      acceptable pd (mnRetryTimes m) (mnProcessingTimeout m) (mnArgs m) (mnContext m)) \<and>
    (\<forall>a. readNewTask pd (new_task_json sent m) = Inr a \<longrightarrow>
      (let n = ToDomainNewTask a defaultRetries now defaultTimeout in
         nId n = None \<and> mnQueue m = Some (nQueue n) \<and> mnKind m = Some (nKind n) \<and> nPriority n = mnPriority m \<and>
         (if mnRetryTimes m = 0 then nRetryTimes n = defaultRetries else uint (nRetryTimes n) = mnRetryTimes m) \<and>
         (if mnProcessingTimeout m = [] then nProcessingTimeout n = defaultTimeout
          else pd (mnProcessingTimeout m) = Inr (nProcessingTimeout n)) \<and>
         nRunAt n = (if sent (mnRunAt m) = TimeZero then now else sent (mnRunAt m)) \<and>
         json_or_null (nArgs n) = mnArgs m \<and> json_or_null (nContext n) = mnContext m))"
proof -
  obtain kind queue where k: "mnKind m = Some kind" "mnQueue m = Some queue"
    using valid by (auto simp: validateTaskNewTask_def collect_def required_def Let_def split: if_splits)
  have obj: "object_or_null j \<Longrightarrow> json_or_null (object_of j) = j" for j
    by (cases j) (simp_all add: json_or_null_def)
  have int: "0 < n \<Longrightarrow> int64 n \<Longrightarrow> uint (word_of_int n :: u64) = n" for n
    by (simp add: int64_def uint_word_of_int)
  show ?thesis
    using int [of "mnRetryTimes m"] ints
    by (auto simp: read_new_task [OF k ints] result_simps sent_retries_Inr sent_timeout_Inr acceptable_def
        ToDomainNewTask_def Let_def obj k split: if_splits)
qed

section \<open>Recurring tasks\<close>

lemma read_definition:
  assumes "mdKind m = Some kind" "mdQueue m = Some queue" "int64 (mdPriority m)" "int64 (mdRetryTimes m)"
  shows "readTaskDefinition pd (definition_json m) =
     and_then (sent_retries (mdRetryTimes m)) (\<lambda>retryTimes. and_then (sent_timeout pd (mdProcessingTimeout m)) (\<lambda>timeout.
     if \<not> object_or_null (mdArgs m) \<or> \<not> object_or_null (mdContext m) then Inl ''wrong type'' else
     Inr \<lparr>adQueue = queue, adRetryTimes = retryTimes, adKind = kind,
       adPriority = (if mdPriority m = 0 then None else Some (mdPriority m)), adProcessingTimeout = timeout,
       adArgs = object_of (mdArgs m), adContext = object_of (mdContext m)\<rparr>))"
  using assms by (simp add: readTaskDefinition_def definition_json_def read_simps cong: if_cong)

text \<open>A recurring task as the server sends it.\<close>

definition api_definition_json :: "(duration \<Rightarrow> string) \<Rightarrow> ApiTaskDefinition \<Rightarrow> json" where
  "api_definition_json render d = JObj ([(''queue'', JStr (adQueue d))]
     @ opt_field ''retry_times'' (\<lambda>r. JNum (uint r)) (adRetryTimes d) @ [(''kind'', JStr (adKind d))]
     @ opt_field ''priority'' JNum (adPriority d)
     @ opt_field ''processing_timeout'' (\<lambda>p. JStr (render p)) (adProcessingTimeout d)
     @ opt_field ''args'' JObj (adArgs d) @ opt_field ''context'' JObj (adContext d))"

definition recurring_task_json :: "(duration \<Rightarrow> string) \<Rightarrow> RTaskJson \<Rightarrow> json" where
  "recurring_task_json render t = JObj ([(''id'', JStr (rjID t)), (''schedule_expression'', JStr (rjScheduleExpression t)),
     (''skip_if_outstanding_tasks_exist'', JBool (rjSkipIfOutstandingTasksExist t)),
     (''task_definition'', api_definition_json render (rjTaskDefinition t))]
     @ opt_field ''loaded_at'' JTime (rjLoadedAt t) @ [(''metadata'', api_metadata_json (rjMetadata t))])"

text \<open>The client's model of it; \<open>LoadedAt\<close> is a string, kept as the instant it was rendered from.\<close>

record RecurringTask =
  mgID :: "string option"
  mgLoadedAt :: "time option"
  mgMetadata :: "CommonMetadata option"
  mgScheduleExpression :: "string option"
  mgTaskDefinition :: "RecurringTaskDefinition option"

definition readRecurringTaskDefinition :: "json \<Rightarrow> RecurringTaskDefinition decoded" where
  "readRecurringTaskDefinition = when_object (\<lambda>j.
     and_then (nullable as_string (member j ''kind'')) (\<lambda>kind.
     and_then (or_zero 0 as_int64 (member j ''priority'')) (\<lambda>priority.
     and_then (or_zero [] as_string (member j ''processing_timeout'')) (\<lambda>processingTimeout.
     and_then (nullable as_string (member j ''queue'')) (\<lambda>queue.
     and_then (or_zero 0 as_int64 (member j ''retry_times'')) (\<lambda>retryTimes.
     Inr \<lparr>mdArgs = member j ''args'', mdContext = member j ''context'', mdKind = kind, mdPriority = priority,
       mdProcessingTimeout = processingTimeout, mdQueue = queue, mdRetryTimes = retryTimes\<rparr>))))))"

definition readRecurringTask :: "json \<Rightarrow> RecurringTask decoded" where
  "readRecurringTask = when_object (\<lambda>j.
     and_then (nullable as_string (member j ''id'')) (\<lambda>id.
     and_then (nullable as_time (member j ''loaded_at'')) (\<lambda>loadedAt.
     and_then (nullable readCommonMetadata (member j ''metadata'')) (\<lambda>metadata.
     and_then (nullable as_string (member j ''schedule_expression'')) (\<lambda>scheduleExpression.
     and_then (nullable readRecurringTaskDefinition (member j ''task_definition'')) (\<lambda>def.
     Inr \<lparr>mgID = id, mgLoadedAt = loadedAt, mgMetadata = metadata, mgScheduleExpression = scheduleExpression,
       mgTaskDefinition = def\<rparr>))))))"

definition validateRecurringTask :: "(time \<Rightarrow> bool) \<Rightarrow> RecurringTask \<Rightarrow> validation_error option" where
  "validateRecurringTask isDateTime m = collect [required ''id'' (mgID m),
     validate_metadata isDateTime (mgMetadata m), required ''schedule_expression'' (mgScheduleExpression m),
     validate_definition (mgTaskDefinition m)]"

definition client_definition :: "(duration \<Rightarrow> string) \<Rightarrow> TaskDefinition \<Rightarrow> RecurringTaskDefinition" where
  "client_definition render d = \<lparr>mdArgs = json_or_null (tdArgs d), mdContext = json_or_null (tdContext d),
     mdKind = Some (tdKind d), mdPriority = tdPriority d, mdProcessingTimeout = render (tdProcessingTimeout d),
     mdQueue = Some (tdQueue d), mdRetryTimes = uint (tdRetryTimes d)\<rparr>"

lemma read_client_definition:
  "readRecurringTaskDefinition (api_definition_json render (fromDomainTaskDefinition d)) =
     (if uint (tdRetryTimes d) < 2 ^ 63 \<and> int64 (tdPriority d) then Inr (client_definition render d)
      else Inl ''number out of range'')"
  by (simp add: readRecurringTaskDefinition_def api_definition_json_def fromDomainTaskDefinition_def read_simps
      client_definition_def json_or_null_def cong: option.case_cong)

lemma definition_not_null [read_simps]: "api_definition_json render d \<noteq> JNull" "definition_json m \<noteq> JNull"
  by (simp_all add: api_definition_json_def definition_json_def)

definition client_recurring :: "(duration \<Rightarrow> string) \<Rightarrow> RTask \<Rightarrow> RecurringTask" where
  "client_recurring render t = \<lparr>mgID = Some (rtID t), mgLoadedAt = rtLoadedAt t,
     mgMetadata = Some (client_metadata (FromDomainMetadata (rtMetadata t))),
     mgScheduleExpression = Some (rtScheduleExpression t),
     mgTaskDefinition = Some (client_definition render (rtTaskDefinition t))\<rparr>"

lemma read_recurring:
  assumes "readRecurringTask (recurring_task_json render (marshal_rtask h (FromDomainRTask h a))) = Inr m"
  shows "m = client_recurring render (h a)" "uint (tdRetryTimes (rtTaskDefinition (h a))) < 2 ^ 63"
    "int64 (tdPriority (rtTaskDefinition (h a)))"
proof -
  have loaded: "nullable as_time (case l of None \<Rightarrow> JNull | Some t \<Rightarrow> JTime t) = Inr l" for l
    by (simp add: read_simps split: option.splits)
  note r = assms [unfolded readRecurringTask_def recurring_task_json_def marshal_rtask_def FromDomainRTask_def Let_def]
  show "m = client_recurring render (h a)" "uint (tdRetryTimes (rtTaskDefinition (h a))) < 2 ^ 63"
    "int64 (tdPriority (rtTaskDefinition (h a)))"
    using r
    by (simp_all add: read_simps loaded read_metadata read_client_definition client_recurring_def
        cong: option.case_cong split: if_splits)
qed

text \<open>What a task stored as \<open>t\<close> becomes when a client writes back what it read of \<open>r\<close>.\<close>

definition written_back :: "TasksDefaults \<Rightarrow> RTask \<Rightarrow> RTask \<Rightarrow> RTask" where
  "written_back conf r t = t\<lparr>
     rtScheduleExpression := (if rtScheduleExpression r = [] then rtScheduleExpression t else rtScheduleExpression r),
     rtTaskDefinition := (rtTaskDefinition r)\<lparr>tdRetryTimes :=
       (if tdRetryTimes (rtTaskDefinition r) = 0 then RetryTimes conf else tdRetryTimes (rtTaskDefinition r))\<rparr>,
     rtLoadedAt := None\<rparr>"

lemma written_back_same:
  "rtScheduleExpression t = rtScheduleExpression r \<Longrightarrow> rtTaskDefinition t = rtTaskDefinition r \<Longrightarrow>
     tdRetryTimes (rtTaskDefinition t) \<noteq> 0 \<Longrightarrow> written_back conf r t = t\<lparr>rtLoadedAt := None\<rparr>"
  by (simp add: written_back_def)

definition sent_back :: "RTask \<Rightarrow> ApiRTaskUpdate" where
  "sent_back r =
     (let d = rtTaskDefinition r in
      \<lparr>auScheduleExpression = (if rtScheduleExpression r = [] then None else Some (rtScheduleExpression r)),
       auSkipIfOutstandingTasksExist = None, auTaskDefinition = Some
         \<lparr>adQueue = tdQueue d, adRetryTimes = (if tdRetryTimes d = 0 then None else Some (tdRetryTimes d)),
          adKind = tdKind d, adPriority = (if tdPriority d = 0 then None else Some (tdPriority d)),
          adProcessingTimeout = Some (tdProcessingTimeout d), adArgs = tdArgs d, adContext = tdContext d\<rparr>\<rparr>)"

lemma apply_sent_back: "(apply_update conf (sent_back r) t)\<lparr>rtLoadedAt := None\<rparr> = written_back conf r t"
  by (auto simp: apply_update_def sent_back_def written_back_def ToDomainTaskDefinition_def Let_def
      intro!: RTask.equality TaskDefinition.equality)

lemma written_back_request:
  assumes read: "readRecurringTask (recurring_task_json render (marshal_rtask h (FromDomainRTask h i))) = Inr m"
    and timeout: "pd (render (tdProcessingTimeout (rtTaskDefinition (h i)))) = Inr (tdProcessingTimeout (rtTaskDefinition (h i)))"
      "render (tdProcessingTimeout (rtTaskDefinition (h i))) \<noteq> []"
    and same: "mgScheduleExpression m = Some (muScheduleExpression u)" "mgTaskDefinition m = muTaskDefinition u"
  shows "validateRecurringTaskUpdate u = None \<and>
    readRTaskUpdate pd (recurring_update_json u) = Inr (sent_back (h i))"
proof -
  note m = read_recurring [OF read]
  let ?d = "rtTaskDefinition (h i)"
  have u: "muScheduleExpression u = rtScheduleExpression (h i)" "muTaskDefinition u = Some (client_definition render ?d)"
    using same by (simp_all add: m(1) client_recurring_def)
  have fields: "mdKind (client_definition render ?d) = Some (tdKind ?d)" "mdQueue (client_definition render ?d) = Some (tdQueue ?d)"
    "int64 (mdPriority (client_definition render ?d))" "int64 (mdRetryTimes (client_definition render ?d))"
    using m(2,3) by (simp_all add: client_definition_def)
  have obj: "object_or_null (json_or_null x)" "object_of (json_or_null x) = x" for x
    by (simp_all add: json_or_null_def split: option.splits)
  have retries: "sent_retries (uint (tdRetryTimes ?d)) = Inr (if tdRetryTimes ?d = 0 then None else Some (tdRetryTimes ?d))"
  proof -
    have "0 \<le> uint (tdRetryTimes ?d)" by (rule uint_ge_0)
    moreover have "uint (tdRetryTimes ?d) = 0 \<longleftrightarrow> tdRetryTimes ?d = 0" using uint_inject [of "tdRetryTimes ?d" 0] by simp
    ultimately show ?thesis by (auto simp: sent_retries_def order_le_less)
  qed
  have def: "readTaskDefinition pd (definition_json (client_definition render ?d)) =
     Inr \<lparr>adQueue = tdQueue ?d, adRetryTimes = (if tdRetryTimes ?d = 0 then None else Some (tdRetryTimes ?d)),
       adKind = tdKind ?d, adPriority = (if tdPriority ?d = 0 then None else Some (tdPriority ?d)),
       adProcessingTimeout = Some (tdProcessingTimeout ?d), adArgs = tdArgs ?d, adContext = tdContext ?d\<rparr>"
    unfolding read_definition [OF fields]
    using timeout by (simp add: client_definition_def retries sent_timeout_def obj)
  have "readRTaskUpdate pd (recurring_update_json u) = Inr (sent_back (h i))"
    by (simp add: readRTaskUpdate_def recurring_update_json_def u read_simps def sent_back_def Let_def)
  moreover have "validateRecurringTaskUpdate u = None"
    by (simp add: validateRecurringTaskUpdate_def u validateRecurringTaskDefinition_def fields collect_def required_def)
  ultimately show ?thesis by simp
qed

text \<open>
  C34: a client that reads a recurring task and writes its schedule and definition back. Answered with 200, the
  schedule and the definition that were read are stored directly on top of the version the server found, and the task is to be
  loaded again: its load time is reset. The skip flag, which the client does not see, and everything
  else stay as found; zero retries are not sent and become the default number. So if the task has not changed meanwhile,
  all that changes of it is the load time, the time of its modification and the version.
\<close>

theorem recurring_write_back:
  assumes read: "readRecurringTask (recurring_task_json render (marshal_rtask h (FromDomainRTask h a))) = Inr m"
    and timeout: "pd (render (tdProcessingTimeout (rtTaskDefinition (h a)))) = Inr (tdProcessingTimeout (rtTaskDefinition (h a)))"
      "render (tdProcessingTimeout (rtTaskDefinition (h a))) \<noteq> []"
    and same: "mgScheduleExpression m = Some (muScheduleExpression u)" "mgTaskDefinition m = muTaskDefinition u"
    and store: "recurring_store e hist" and ids: "gets_by_id e"
    and call: "handle_rupdate L parse (NewRService e n ttl) conf (rtID (h a))
      (readRTaskUpdate pd (recurring_update_json u)) w = (w', rsp)"
    and ok: "rrStatus rsp = 200"
  shows "validateRecurringTaskUpdate u = None \<and> (\<exists>p v v' at. \<not> prIsDeleted p \<and>
    (let found = persistedToDomain (rtID (h a)) p v; t = written_back conf (h a) found
     in written_over hist w' (recurring_key (rtID (h a))) (Some p, v) (Some (domainToPersistable t at), v') \<and>
        rrBody rsp = RTaskBody (rtask_json (set_rt_version v' t)) \<and>
        (rtScheduleExpression found = rtScheduleExpression (h a) \<and> rtTaskDefinition found = rtTaskDefinition (h a) \<and>
         tdRetryTimes (rtTaskDefinition found) \<noteq> 0 \<longrightarrow> t = found\<lparr>rtLoadedAt := None\<rparr>)))"
proof -
  note req = written_back_request [where h = h and i = a and pd = pd and render = render, OF read timeout same]
  from call show ?thesis
  proof (cases rule: rupdate_cases)
    case refused
    then show ?thesis using ok by simp
  next
    case (updated y t0 w1 t')
    have y: "y = sent_back (h a)" using updated(1) req by simp
    obtain p v v' at where s: "\<not> prIsDeleted p" "t0 = persistedToDomain (rtID (h a)) p v"
      "written_over hist w' (recurring_key (rtID (h a))) (Some p, v)
         (Some (domainToPersistable ((apply_update conf y t0)\<lparr>rtLoadedAt := None\<rparr>) at), v')"
      "wf_rtask L parse t0 \<longrightarrow> wf_rtask L parse ((apply_update conf y t0)\<lparr>rtLoadedAt := None\<rparr>)"
      "t' = set_rt_version v' ((apply_update conf y t0)\<lparr>rtLoadedAt := None\<rparr>)"
      by (rule update_stored [OF store ids updated(3,2,4)])
    note s' = s [unfolded y apply_sent_back]
    show ?thesis
      using conjunct1 [OF req] s'(1,3,5) updated(6) unfolding s(2)
      by (intro conjI, simp) (rule exI [of _ p], rule exI [of _ v], rule exI [of _ v'], rule exI [of _ at], auto simp: Let_def written_back_same)
  qed
qed

end
