(* ===== verification/HttpParams.thy ===== *)
theory HttpParams
  imports ClientRequests WorkerSystem
begin

text \<open>
  The parameters of the operations of the generated client (\<open>client/tasks/*_parameters.go\<close>,
  \<open>client/recurring_tasks/*_parameters.go\<close>): how they are built, and what is written of them to a request.
\<close>

section \<open>Requests\<close>

text \<open>
  What \<open>WriteToRequest\<close> sets on a request. A context and an HTTP client of the caller are only handed on to the HTTP
  runtime: they are handles here.
\<close>

record written =
  wrTimeout :: duration
  wrHeaders :: "(string \<times> string) list"
  wrPathParams :: "(string \<times> string) list"
  wrBody :: "json option"

definition written :: "duration \<Rightarrow> (string \<times> string) list \<Rightarrow> (string \<times> string) list \<Rightarrow> json option \<Rightarrow> written" where
  "written timeout headers params body =
     \<lparr>wrTimeout = timeout, wrHeaders = headers, wrPathParams = params, wrBody = body\<rparr>"

definition worker_header :: "worker_id \<Rightarrow> (string \<times> string) list" where
  "worker_header wid = [(''X-TASQUES-WORKER-ID'', wid)]"

type_synonym http_context = nat

type_synonym http_client = nat

text \<open>
  \<open>New\<close> takes the default timeout of the HTTP runtime, the constructors \<open>WithContext\<close> and \<open>WithHTTPClient\<close>
  leave the timeout at zero. Every \<open>With\<close> method calls the \<open>Set\<close> method of the same field and returns its receiver.
\<close>

section \<open>Tasks\<close>

record ClaimTasksParams =
  ctWorkerID :: worker_id
  ctClaim :: "TaskClaim option"
  ctTimeout :: duration
  ctContext :: "http_context option"
  ctHTTPClient :: "http_client option"

definition NewClaimTasksParams :: "duration \<Rightarrow> ClaimTasksParams" where
  "NewClaimTasksParams timeout =
     \<lparr>ctWorkerID = [], ctClaim = None, ctTimeout = timeout, ctContext = None, ctHTTPClient = None\<rparr>"

definition NewClaimTasksParamsWithContext :: "http_context option \<Rightarrow> ClaimTasksParams" where
  "NewClaimTasksParamsWithContext ctx = (NewClaimTasksParams 0)\<lparr>ctContext := ctx\<rparr>"

definition NewClaimTasksParamsWithHTTPClient :: "http_client option \<Rightarrow> ClaimTasksParams" where
  "NewClaimTasksParamsWithHTTPClient client = (NewClaimTasksParams 0)\<lparr>ctHTTPClient := client\<rparr>"

definition ClaimTasks_WithTimeout :: "duration \<Rightarrow> ClaimTasksParams \<Rightarrow> ClaimTasksParams" where
  "ClaimTasks_WithTimeout v p = p\<lparr>ctTimeout := v\<rparr>"

definition ClaimTasks_WithContext :: "http_context option \<Rightarrow> ClaimTasksParams \<Rightarrow> ClaimTasksParams" where
  "ClaimTasks_WithContext v p = p\<lparr>ctContext := v\<rparr>"

definition ClaimTasks_WithHTTPClient :: "http_client option \<Rightarrow> ClaimTasksParams \<Rightarrow> ClaimTasksParams" where
  "ClaimTasks_WithHTTPClient v p = p\<lparr>ctHTTPClient := v\<rparr>"

definition ClaimTasks_WithWorkerID :: "worker_id \<Rightarrow> ClaimTasksParams \<Rightarrow> ClaimTasksParams" where
  "ClaimTasks_WithWorkerID v p = p\<lparr>ctWorkerID := v\<rparr>"

definition ClaimTasks_WithClaim :: "TaskClaim option \<Rightarrow> ClaimTasksParams \<Rightarrow> ClaimTasksParams" where
  "ClaimTasks_WithClaim v p = p\<lparr>ctClaim := v\<rparr>"

definition writeClaimTasks :: "ClaimTasksParams \<Rightarrow> written" where
  "writeClaimTasks p = written (ctTimeout p) (worker_header (ctWorkerID p)) [] (map_option task_claim_json (ctClaim p))"

record CreateTaskParams =
  crNewTask :: "TaskNewTask option"
  crTimeout :: duration
  crContext :: "http_context option"
  crHTTPClient :: "http_client option"

definition NewCreateTaskParams :: "duration \<Rightarrow> CreateTaskParams" where
  "NewCreateTaskParams timeout = \<lparr>crNewTask = None, crTimeout = timeout, crContext = None, crHTTPClient = None\<rparr>"

definition NewCreateTaskParamsWithContext :: "http_context option \<Rightarrow> CreateTaskParams" where
  "NewCreateTaskParamsWithContext ctx = (NewCreateTaskParams 0)\<lparr>crContext := ctx\<rparr>"

definition NewCreateTaskParamsWithHTTPClient :: "http_client option \<Rightarrow> CreateTaskParams" where
  "NewCreateTaskParamsWithHTTPClient client = (NewCreateTaskParams 0)\<lparr>crHTTPClient := client\<rparr>"

definition CreateTask_WithTimeout :: "duration \<Rightarrow> CreateTaskParams \<Rightarrow> CreateTaskParams" where
  "CreateTask_WithTimeout v p = p\<lparr>crTimeout := v\<rparr>"

definition CreateTask_WithContext :: "http_context option \<Rightarrow> CreateTaskParams \<Rightarrow> CreateTaskParams" where
  "CreateTask_WithContext v p = p\<lparr>crContext := v\<rparr>"

definition CreateTask_WithHTTPClient :: "http_client option \<Rightarrow> CreateTaskParams \<Rightarrow> CreateTaskParams" where
  "CreateTask_WithHTTPClient v p = p\<lparr>crHTTPClient := v\<rparr>"

definition CreateTask_WithNewTask :: "TaskNewTask option \<Rightarrow> CreateTaskParams \<Rightarrow> CreateTaskParams" where
  "CreateTask_WithNewTask v p = p\<lparr>crNewTask := v\<rparr>"

definition writeCreateTask :: "(time \<Rightarrow> time) \<Rightarrow> CreateTaskParams \<Rightarrow> written" where
  "writeCreateTask sent p = written (crTimeout p) [] [] (map_option (new_task_json sent) (crNewTask p))"

record GetExistingTaskParams =
  geID :: task_id
  geQueue :: string
  geTimeout :: duration
  geContext :: "http_context option"
  geHTTPClient :: "http_client option"

definition NewGetExistingTaskParams :: "duration \<Rightarrow> GetExistingTaskParams" where
  "NewGetExistingTaskParams timeout =
     \<lparr>geID = [], geQueue = [], geTimeout = timeout, geContext = None, geHTTPClient = None\<rparr>"

definition NewGetExistingTaskParamsWithContext :: "http_context option \<Rightarrow> GetExistingTaskParams" where
  "NewGetExistingTaskParamsWithContext ctx = (NewGetExistingTaskParams 0)\<lparr>geContext := ctx\<rparr>"

definition NewGetExistingTaskParamsWithHTTPClient :: "http_client option \<Rightarrow> GetExistingTaskParams" where
  "NewGetExistingTaskParamsWithHTTPClient client = (NewGetExistingTaskParams 0)\<lparr>geHTTPClient := client\<rparr>"

definition GetExistingTask_WithTimeout :: "duration \<Rightarrow> GetExistingTaskParams \<Rightarrow> GetExistingTaskParams" where
  "GetExistingTask_WithTimeout v p = p\<lparr>geTimeout := v\<rparr>"

definition GetExistingTask_WithContext :: "http_context option \<Rightarrow> GetExistingTaskParams \<Rightarrow> GetExistingTaskParams" where
  "GetExistingTask_WithContext v p = p\<lparr>geContext := v\<rparr>"

definition GetExistingTask_WithHTTPClient :: "http_client option \<Rightarrow> GetExistingTaskParams \<Rightarrow> GetExistingTaskParams" where
  "GetExistingTask_WithHTTPClient v p = p\<lparr>geHTTPClient := v\<rparr>"

definition GetExistingTask_WithID :: "task_id \<Rightarrow> GetExistingTaskParams \<Rightarrow> GetExistingTaskParams" where
  "GetExistingTask_WithID v p = p\<lparr>geID := v\<rparr>"

definition GetExistingTask_WithQueue :: "string \<Rightarrow> GetExistingTaskParams \<Rightarrow> GetExistingTaskParams" where
  "GetExistingTask_WithQueue v p = p\<lparr>geQueue := v\<rparr>"

definition writeGetExistingTask :: "GetExistingTaskParams \<Rightarrow> written" where
  "writeGetExistingTask p = written (geTimeout p) [] [(''id'', geID p), (''queue'', geQueue p)] None"

record MarkClaimedTaskDoneParams =
  mdpWorkerID :: worker_id
  mdpID :: task_id
  mdpQueue :: string
  mdpSuccess :: "TaskSuccess option"
  mdpTimeout :: duration
  mdpContext :: "http_context option"
  mdpHTTPClient :: "http_client option"

definition NewMarkClaimedTaskDoneParams :: "duration \<Rightarrow> MarkClaimedTaskDoneParams" where
  "NewMarkClaimedTaskDoneParams timeout =
     \<lparr>mdpWorkerID = [], mdpID = [], mdpQueue = [], mdpSuccess = None, mdpTimeout = timeout, mdpContext = None, mdpHTTPClient = None\<rparr>"

definition NewMarkClaimedTaskDoneParamsWithContext :: "http_context option \<Rightarrow> MarkClaimedTaskDoneParams" where
  "NewMarkClaimedTaskDoneParamsWithContext ctx = (NewMarkClaimedTaskDoneParams 0)\<lparr>mdpContext := ctx\<rparr>"

definition NewMarkClaimedTaskDoneParamsWithHTTPClient :: "http_client option \<Rightarrow> MarkClaimedTaskDoneParams" where
  "NewMarkClaimedTaskDoneParamsWithHTTPClient client = (NewMarkClaimedTaskDoneParams 0)\<lparr>mdpHTTPClient := client\<rparr>"

definition MarkClaimedTaskDone_WithTimeout :: "duration \<Rightarrow> MarkClaimedTaskDoneParams \<Rightarrow> MarkClaimedTaskDoneParams" where
  "MarkClaimedTaskDone_WithTimeout v p = p\<lparr>mdpTimeout := v\<rparr>"

definition MarkClaimedTaskDone_WithContext :: "http_context option \<Rightarrow> MarkClaimedTaskDoneParams \<Rightarrow> MarkClaimedTaskDoneParams" where
  "MarkClaimedTaskDone_WithContext v p = p\<lparr>mdpContext := v\<rparr>"

definition MarkClaimedTaskDone_WithHTTPClient :: "http_client option \<Rightarrow> MarkClaimedTaskDoneParams \<Rightarrow> MarkClaimedTaskDoneParams" where
  "MarkClaimedTaskDone_WithHTTPClient v p = p\<lparr>mdpHTTPClient := v\<rparr>"

definition MarkClaimedTaskDone_WithWorkerID :: "worker_id \<Rightarrow> MarkClaimedTaskDoneParams \<Rightarrow> MarkClaimedTaskDoneParams" where
  "MarkClaimedTaskDone_WithWorkerID v p = p\<lparr>mdpWorkerID := v\<rparr>"

definition MarkClaimedTaskDone_WithID :: "task_id \<Rightarrow> MarkClaimedTaskDoneParams \<Rightarrow> MarkClaimedTaskDoneParams" where
  "MarkClaimedTaskDone_WithID v p = p\<lparr>mdpID := v\<rparr>"

definition MarkClaimedTaskDone_WithQueue :: "string \<Rightarrow> MarkClaimedTaskDoneParams \<Rightarrow> MarkClaimedTaskDoneParams" where
  "MarkClaimedTaskDone_WithQueue v p = p\<lparr>mdpQueue := v\<rparr>"

definition MarkClaimedTaskDone_WithSuccess :: "TaskSuccess option \<Rightarrow> MarkClaimedTaskDoneParams \<Rightarrow> MarkClaimedTaskDoneParams" where
  "MarkClaimedTaskDone_WithSuccess v p = p\<lparr>mdpSuccess := v\<rparr>"

definition writeMarkClaimedTaskDone :: "MarkClaimedTaskDoneParams \<Rightarrow> written" where
  "writeMarkClaimedTaskDone p =
     written (mdpTimeout p) (worker_header (mdpWorkerID p))
       [(''id'', mdpID p), (''queue'', mdpQueue p)] (map_option task_success_json (mdpSuccess p))"

record MarkClaimedTaskFailedParams =
  mfpWorkerID :: worker_id
  mfpFailure :: "TaskFailure option"
  mfpID :: task_id
  mfpQueue :: string
  mfpTimeout :: duration
  mfpContext :: "http_context option"
  mfpHTTPClient :: "http_client option"

definition NewMarkClaimedTaskFailedParams :: "duration \<Rightarrow> MarkClaimedTaskFailedParams" where
  "NewMarkClaimedTaskFailedParams timeout =
     \<lparr>mfpWorkerID = [], mfpFailure = None, mfpID = [], mfpQueue = [], mfpTimeout = timeout, mfpContext = None, mfpHTTPClient = None\<rparr>"

definition NewMarkClaimedTaskFailedParamsWithContext :: "http_context option \<Rightarrow> MarkClaimedTaskFailedParams" where
  "NewMarkClaimedTaskFailedParamsWithContext ctx = (NewMarkClaimedTaskFailedParams 0)\<lparr>mfpContext := ctx\<rparr>"

definition NewMarkClaimedTaskFailedParamsWithHTTPClient :: "http_client option \<Rightarrow> MarkClaimedTaskFailedParams" where
  "NewMarkClaimedTaskFailedParamsWithHTTPClient client =
     (NewMarkClaimedTaskFailedParams 0)\<lparr>mfpHTTPClient := client\<rparr>"

definition MarkClaimedTaskFailed_WithTimeout :: "duration \<Rightarrow> MarkClaimedTaskFailedParams \<Rightarrow> MarkClaimedTaskFailedParams" where
  "MarkClaimedTaskFailed_WithTimeout v p = p\<lparr>mfpTimeout := v\<rparr>"

definition MarkClaimedTaskFailed_WithContext :: "http_context option \<Rightarrow> MarkClaimedTaskFailedParams \<Rightarrow> MarkClaimedTaskFailedParams" where
  "MarkClaimedTaskFailed_WithContext v p = p\<lparr>mfpContext := v\<rparr>"

definition MarkClaimedTaskFailed_WithHTTPClient :: "http_client option \<Rightarrow> MarkClaimedTaskFailedParams \<Rightarrow> MarkClaimedTaskFailedParams" where
  "MarkClaimedTaskFailed_WithHTTPClient v p = p\<lparr>mfpHTTPClient := v\<rparr>"

definition MarkClaimedTaskFailed_WithWorkerID :: "worker_id \<Rightarrow> MarkClaimedTaskFailedParams \<Rightarrow> MarkClaimedTaskFailedParams" where
  "MarkClaimedTaskFailed_WithWorkerID v p = p\<lparr>mfpWorkerID := v\<rparr>"

definition MarkClaimedTaskFailed_WithFailure :: "TaskFailure option \<Rightarrow> MarkClaimedTaskFailedParams \<Rightarrow> MarkClaimedTaskFailedParams" where
  "MarkClaimedTaskFailed_WithFailure v p = p\<lparr>mfpFailure := v\<rparr>"

definition MarkClaimedTaskFailed_WithID :: "task_id \<Rightarrow> MarkClaimedTaskFailedParams \<Rightarrow> MarkClaimedTaskFailedParams" where
  "MarkClaimedTaskFailed_WithID v p = p\<lparr>mfpID := v\<rparr>"

definition MarkClaimedTaskFailed_WithQueue :: "string \<Rightarrow> MarkClaimedTaskFailedParams \<Rightarrow> MarkClaimedTaskFailedParams" where
  "MarkClaimedTaskFailed_WithQueue v p = p\<lparr>mfpQueue := v\<rparr>"

definition writeMarkClaimedTaskFailed :: "MarkClaimedTaskFailedParams \<Rightarrow> written" where
  "writeMarkClaimedTaskFailed p =
     written (mfpTimeout p) (worker_header (mfpWorkerID p))
       [(''id'', mfpID p), (''queue'', mfpQueue p)] (map_option task_failure_json (mfpFailure p))"

record ReportOnClaimedTaskParams =
  rcpWorkerID :: worker_id
  rcpID :: task_id
  rcpNewReport :: "TaskNewReport option"
  rcpQueue :: string
  rcpTimeout :: duration
  rcpContext :: "http_context option"
  rcpHTTPClient :: "http_client option"

definition NewReportOnClaimedTaskParams :: "duration \<Rightarrow> ReportOnClaimedTaskParams" where
  "NewReportOnClaimedTaskParams timeout =
     \<lparr>rcpWorkerID = [], rcpID = [], rcpNewReport = None, rcpQueue = [], rcpTimeout = timeout, rcpContext = None, rcpHTTPClient = None\<rparr>"

definition NewReportOnClaimedTaskParamsWithContext :: "http_context option \<Rightarrow> ReportOnClaimedTaskParams" where
  "NewReportOnClaimedTaskParamsWithContext ctx = (NewReportOnClaimedTaskParams 0)\<lparr>rcpContext := ctx\<rparr>"

definition NewReportOnClaimedTaskParamsWithHTTPClient :: "http_client option \<Rightarrow> ReportOnClaimedTaskParams" where
  "NewReportOnClaimedTaskParamsWithHTTPClient client = (NewReportOnClaimedTaskParams 0)\<lparr>rcpHTTPClient := client\<rparr>"

definition ReportOnClaimedTask_WithTimeout :: "duration \<Rightarrow> ReportOnClaimedTaskParams \<Rightarrow> ReportOnClaimedTaskParams" where
  "ReportOnClaimedTask_WithTimeout v p = p\<lparr>rcpTimeout := v\<rparr>"

definition ReportOnClaimedTask_WithContext :: "http_context option \<Rightarrow> ReportOnClaimedTaskParams \<Rightarrow> ReportOnClaimedTaskParams" where
  "ReportOnClaimedTask_WithContext v p = p\<lparr>rcpContext := v\<rparr>"

definition ReportOnClaimedTask_WithHTTPClient :: "http_client option \<Rightarrow> ReportOnClaimedTaskParams \<Rightarrow> ReportOnClaimedTaskParams" where
  "ReportOnClaimedTask_WithHTTPClient v p = p\<lparr>rcpHTTPClient := v\<rparr>"

definition ReportOnClaimedTask_WithWorkerID :: "worker_id \<Rightarrow> ReportOnClaimedTaskParams \<Rightarrow> ReportOnClaimedTaskParams" where
  "ReportOnClaimedTask_WithWorkerID v p = p\<lparr>rcpWorkerID := v\<rparr>"

definition ReportOnClaimedTask_WithID :: "task_id \<Rightarrow> ReportOnClaimedTaskParams \<Rightarrow> ReportOnClaimedTaskParams" where
  "ReportOnClaimedTask_WithID v p = p\<lparr>rcpID := v\<rparr>"

definition ReportOnClaimedTask_WithNewReport :: "TaskNewReport option \<Rightarrow> ReportOnClaimedTaskParams \<Rightarrow> ReportOnClaimedTaskParams" where
  "ReportOnClaimedTask_WithNewReport v p = p\<lparr>rcpNewReport := v\<rparr>"

definition ReportOnClaimedTask_WithQueue :: "string \<Rightarrow> ReportOnClaimedTaskParams \<Rightarrow> ReportOnClaimedTaskParams" where
  "ReportOnClaimedTask_WithQueue v p = p\<lparr>rcpQueue := v\<rparr>"

definition writeReportOnClaimedTask :: "ReportOnClaimedTaskParams \<Rightarrow> written" where
  "writeReportOnClaimedTask p =
     written (rcpTimeout p) (worker_header (rcpWorkerID p))
       [(''id'', rcpID p), (''queue'', rcpQueue p)] (map_option task_new_report_json (rcpNewReport p))"

record UnclaimExistingTaskParams =
  uepWorkerID :: worker_id
  uepID :: task_id
  uepQueue :: string
  uepTimeout :: duration
  uepContext :: "http_context option"
  uepHTTPClient :: "http_client option"

definition NewUnclaimExistingTaskParams :: "duration \<Rightarrow> UnclaimExistingTaskParams" where
  "NewUnclaimExistingTaskParams timeout =
     \<lparr>uepWorkerID = [], uepID = [], uepQueue = [], uepTimeout = timeout, uepContext = None, uepHTTPClient = None\<rparr>"

definition NewUnclaimExistingTaskParamsWithContext :: "http_context option \<Rightarrow> UnclaimExistingTaskParams" where
  "NewUnclaimExistingTaskParamsWithContext ctx = (NewUnclaimExistingTaskParams 0)\<lparr>uepContext := ctx\<rparr>"

definition NewUnclaimExistingTaskParamsWithHTTPClient :: "http_client option \<Rightarrow> UnclaimExistingTaskParams" where
  "NewUnclaimExistingTaskParamsWithHTTPClient client = (NewUnclaimExistingTaskParams 0)\<lparr>uepHTTPClient := client\<rparr>"

definition UnclaimExistingTask_WithTimeout :: "duration \<Rightarrow> UnclaimExistingTaskParams \<Rightarrow> UnclaimExistingTaskParams" where
  "UnclaimExistingTask_WithTimeout v p = p\<lparr>uepTimeout := v\<rparr>"

definition UnclaimExistingTask_WithContext :: "http_context option \<Rightarrow> UnclaimExistingTaskParams \<Rightarrow> UnclaimExistingTaskParams" where
  "UnclaimExistingTask_WithContext v p = p\<lparr>uepContext := v\<rparr>"

definition UnclaimExistingTask_WithHTTPClient :: "http_client option \<Rightarrow> UnclaimExistingTaskParams \<Rightarrow> UnclaimExistingTaskParams" where
  "UnclaimExistingTask_WithHTTPClient v p = p\<lparr>uepHTTPClient := v\<rparr>"

definition UnclaimExistingTask_WithWorkerID :: "worker_id \<Rightarrow> UnclaimExistingTaskParams \<Rightarrow> UnclaimExistingTaskParams" where
  "UnclaimExistingTask_WithWorkerID v p = p\<lparr>uepWorkerID := v\<rparr>"

definition UnclaimExistingTask_WithID :: "task_id \<Rightarrow> UnclaimExistingTaskParams \<Rightarrow> UnclaimExistingTaskParams" where
  "UnclaimExistingTask_WithID v p = p\<lparr>uepID := v\<rparr>"

definition UnclaimExistingTask_WithQueue :: "string \<Rightarrow> UnclaimExistingTaskParams \<Rightarrow> UnclaimExistingTaskParams" where
  "UnclaimExistingTask_WithQueue v p = p\<lparr>uepQueue := v\<rparr>"

definition writeUnclaimExistingTask :: "UnclaimExistingTaskParams \<Rightarrow> written" where
  "writeUnclaimExistingTask p =
     written (uepTimeout p) (worker_header (uepWorkerID p)) [(''id'', uepID p), (''queue'', uepQueue p)] None"

section \<open>Recurring tasks\<close>

record CreateRecurringTaskParams =
  crpNewRecurringTask :: "RecurringNewTask option"
  crpTimeout :: duration
  crpContext :: "http_context option"
  crpHTTPClient :: "http_client option"

definition NewCreateRecurringTaskParams :: "duration \<Rightarrow> CreateRecurringTaskParams" where
  "NewCreateRecurringTaskParams timeout =
     \<lparr>crpNewRecurringTask = None, crpTimeout = timeout, crpContext = None, crpHTTPClient = None\<rparr>"

definition NewCreateRecurringTaskParamsWithContext :: "http_context option \<Rightarrow> CreateRecurringTaskParams" where
  "NewCreateRecurringTaskParamsWithContext ctx = (NewCreateRecurringTaskParams 0)\<lparr>crpContext := ctx\<rparr>"

definition NewCreateRecurringTaskParamsWithHTTPClient :: "http_client option \<Rightarrow> CreateRecurringTaskParams" where
  "NewCreateRecurringTaskParamsWithHTTPClient client = (NewCreateRecurringTaskParams 0)\<lparr>crpHTTPClient := client\<rparr>"

definition CreateRecurringTask_WithTimeout :: "duration \<Rightarrow> CreateRecurringTaskParams \<Rightarrow> CreateRecurringTaskParams" where
  "CreateRecurringTask_WithTimeout v p = p\<lparr>crpTimeout := v\<rparr>"

definition CreateRecurringTask_WithContext :: "http_context option \<Rightarrow> CreateRecurringTaskParams \<Rightarrow> CreateRecurringTaskParams" where
  "CreateRecurringTask_WithContext v p = p\<lparr>crpContext := v\<rparr>"

definition CreateRecurringTask_WithHTTPClient :: "http_client option \<Rightarrow> CreateRecurringTaskParams \<Rightarrow> CreateRecurringTaskParams" where
  "CreateRecurringTask_WithHTTPClient v p = p\<lparr>crpHTTPClient := v\<rparr>"

definition CreateRecurringTask_WithNewRecurringTask :: "RecurringNewTask option \<Rightarrow> CreateRecurringTaskParams \<Rightarrow> CreateRecurringTaskParams" where
  "CreateRecurringTask_WithNewRecurringTask v p = p\<lparr>crpNewRecurringTask := v\<rparr>"

definition writeCreateRecurringTask :: "CreateRecurringTaskParams \<Rightarrow> written" where
  "writeCreateRecurringTask p = written (crpTimeout p) [] [] (map_option recurring_new_task_json (crpNewRecurringTask p))"

record DeleteExistingRecurringTaskParams =
  drpID :: recurring_id
  drpTimeout :: duration
  drpContext :: "http_context option"
  drpHTTPClient :: "http_client option"

definition NewDeleteExistingRecurringTaskParams :: "duration \<Rightarrow> DeleteExistingRecurringTaskParams" where
  "NewDeleteExistingRecurringTaskParams timeout =
     \<lparr>drpID = [], drpTimeout = timeout, drpContext = None, drpHTTPClient = None\<rparr>"

definition NewDeleteExistingRecurringTaskParamsWithContext :: "http_context option \<Rightarrow> DeleteExistingRecurringTaskParams" where
  "NewDeleteExistingRecurringTaskParamsWithContext ctx =
     (NewDeleteExistingRecurringTaskParams 0)\<lparr>drpContext := ctx\<rparr>"

definition NewDeleteExistingRecurringTaskParamsWithHTTPClient :: "http_client option \<Rightarrow> DeleteExistingRecurringTaskParams" where
  "NewDeleteExistingRecurringTaskParamsWithHTTPClient client =
     (NewDeleteExistingRecurringTaskParams 0)\<lparr>drpHTTPClient := client\<rparr>"

definition DeleteExistingRecurringTask_WithTimeout :: "duration \<Rightarrow> DeleteExistingRecurringTaskParams \<Rightarrow> DeleteExistingRecurringTaskParams" where
  "DeleteExistingRecurringTask_WithTimeout v p = p\<lparr>drpTimeout := v\<rparr>"

definition DeleteExistingRecurringTask_WithContext :: "http_context option \<Rightarrow> DeleteExistingRecurringTaskParams \<Rightarrow> DeleteExistingRecurringTaskParams" where
  "DeleteExistingRecurringTask_WithContext v p = p\<lparr>drpContext := v\<rparr>"

definition DeleteExistingRecurringTask_WithHTTPClient :: "http_client option \<Rightarrow> DeleteExistingRecurringTaskParams \<Rightarrow> DeleteExistingRecurringTaskParams" where
  "DeleteExistingRecurringTask_WithHTTPClient v p = p\<lparr>drpHTTPClient := v\<rparr>"

definition DeleteExistingRecurringTask_WithID :: "recurring_id \<Rightarrow> DeleteExistingRecurringTaskParams \<Rightarrow> DeleteExistingRecurringTaskParams" where
  "DeleteExistingRecurringTask_WithID v p = p\<lparr>drpID := v\<rparr>"

definition writeDeleteExistingRecurringTask :: "DeleteExistingRecurringTaskParams \<Rightarrow> written" where
  "writeDeleteExistingRecurringTask p = written (drpTimeout p) [] [(''id'', drpID p)] None"

record GetExistingRecurringTaskParams =
  grpID :: recurring_id
  grpTimeout :: duration
  grpContext :: "http_context option"
  grpHTTPClient :: "http_client option"

definition NewGetExistingRecurringTaskParams :: "duration \<Rightarrow> GetExistingRecurringTaskParams" where
  "NewGetExistingRecurringTaskParams timeout =
     \<lparr>grpID = [], grpTimeout = timeout, grpContext = None, grpHTTPClient = None\<rparr>"

definition NewGetExistingRecurringTaskParamsWithContext :: "http_context option \<Rightarrow> GetExistingRecurringTaskParams" where
  "NewGetExistingRecurringTaskParamsWithContext ctx = (NewGetExistingRecurringTaskParams 0)\<lparr>grpContext := ctx\<rparr>"

definition NewGetExistingRecurringTaskParamsWithHTTPClient :: "http_client option \<Rightarrow> GetExistingRecurringTaskParams" where
  "NewGetExistingRecurringTaskParamsWithHTTPClient client =
     (NewGetExistingRecurringTaskParams 0)\<lparr>grpHTTPClient := client\<rparr>"

definition GetExistingRecurringTask_WithTimeout :: "duration \<Rightarrow> GetExistingRecurringTaskParams \<Rightarrow> GetExistingRecurringTaskParams" where
  "GetExistingRecurringTask_WithTimeout v p = p\<lparr>grpTimeout := v\<rparr>"

definition GetExistingRecurringTask_WithContext :: "http_context option \<Rightarrow> GetExistingRecurringTaskParams \<Rightarrow> GetExistingRecurringTaskParams" where
  "GetExistingRecurringTask_WithContext v p = p\<lparr>grpContext := v\<rparr>"

definition GetExistingRecurringTask_WithHTTPClient :: "http_client option \<Rightarrow> GetExistingRecurringTaskParams \<Rightarrow> GetExistingRecurringTaskParams" where
  "GetExistingRecurringTask_WithHTTPClient v p = p\<lparr>grpHTTPClient := v\<rparr>"

definition GetExistingRecurringTask_WithID :: "recurring_id \<Rightarrow> GetExistingRecurringTaskParams \<Rightarrow> GetExistingRecurringTaskParams" where
  "GetExistingRecurringTask_WithID v p = p\<lparr>grpID := v\<rparr>"

definition writeGetExistingRecurringTask :: "GetExistingRecurringTaskParams \<Rightarrow> written" where
  "writeGetExistingRecurringTask p = written (grpTimeout p) [] [(''id'', grpID p)] None"

record ListExistingRecurringTasksParams =
  lrpTimeout :: duration
  lrpContext :: "http_context option"
  lrpHTTPClient :: "http_client option"

definition NewListExistingRecurringTasksParams :: "duration \<Rightarrow> ListExistingRecurringTasksParams" where
  "NewListExistingRecurringTasksParams timeout = \<lparr>lrpTimeout = timeout, lrpContext = None, lrpHTTPClient = None\<rparr>"

definition NewListExistingRecurringTasksParamsWithContext :: "http_context option \<Rightarrow> ListExistingRecurringTasksParams" where
  "NewListExistingRecurringTasksParamsWithContext ctx =
     (NewListExistingRecurringTasksParams 0)\<lparr>lrpContext := ctx\<rparr>"

definition NewListExistingRecurringTasksParamsWithHTTPClient :: "http_client option \<Rightarrow> ListExistingRecurringTasksParams" where
  "NewListExistingRecurringTasksParamsWithHTTPClient client =
     (NewListExistingRecurringTasksParams 0)\<lparr>lrpHTTPClient := client\<rparr>"

definition ListExistingRecurringTasks_WithTimeout :: "duration \<Rightarrow> ListExistingRecurringTasksParams \<Rightarrow> ListExistingRecurringTasksParams" where
  "ListExistingRecurringTasks_WithTimeout v p = p\<lparr>lrpTimeout := v\<rparr>"

definition ListExistingRecurringTasks_WithContext :: "http_context option \<Rightarrow> ListExistingRecurringTasksParams \<Rightarrow> ListExistingRecurringTasksParams" where
  "ListExistingRecurringTasks_WithContext v p = p\<lparr>lrpContext := v\<rparr>"

definition ListExistingRecurringTasks_WithHTTPClient :: "http_client option \<Rightarrow> ListExistingRecurringTasksParams \<Rightarrow> ListExistingRecurringTasksParams" where
  "ListExistingRecurringTasks_WithHTTPClient v p = p\<lparr>lrpHTTPClient := v\<rparr>"

definition writeListExistingRecurringTasks :: "ListExistingRecurringTasksParams \<Rightarrow> written" where
  "writeListExistingRecurringTasks p = written (lrpTimeout p) [] [] None"

record UpdateExistingRecurringTaskParams =
  urpID :: recurring_id
  urpRecurringTaskUpdate :: "RecurringTaskUpdate option"
  urpTimeout :: duration
  urpContext :: "http_context option"
  urpHTTPClient :: "http_client option"

definition NewUpdateExistingRecurringTaskParams :: "duration \<Rightarrow> UpdateExistingRecurringTaskParams" where
  "NewUpdateExistingRecurringTaskParams timeout =
     \<lparr>urpID = [], urpRecurringTaskUpdate = None, urpTimeout = timeout, urpContext = None, urpHTTPClient = None\<rparr>"

definition NewUpdateExistingRecurringTaskParamsWithContext :: "http_context option \<Rightarrow> UpdateExistingRecurringTaskParams" where
  "NewUpdateExistingRecurringTaskParamsWithContext ctx =
     (NewUpdateExistingRecurringTaskParams 0)\<lparr>urpContext := ctx\<rparr>"

definition NewUpdateExistingRecurringTaskParamsWithHTTPClient :: "http_client option \<Rightarrow> UpdateExistingRecurringTaskParams" where
  "NewUpdateExistingRecurringTaskParamsWithHTTPClient client =
     (NewUpdateExistingRecurringTaskParams 0)\<lparr>urpHTTPClient := client\<rparr>"

definition UpdateExistingRecurringTask_WithTimeout :: "duration \<Rightarrow> UpdateExistingRecurringTaskParams \<Rightarrow> UpdateExistingRecurringTaskParams" where
  "UpdateExistingRecurringTask_WithTimeout v p = p\<lparr>urpTimeout := v\<rparr>"

definition UpdateExistingRecurringTask_WithContext :: "http_context option \<Rightarrow> UpdateExistingRecurringTaskParams \<Rightarrow> UpdateExistingRecurringTaskParams" where
  "UpdateExistingRecurringTask_WithContext v p = p\<lparr>urpContext := v\<rparr>"

definition UpdateExistingRecurringTask_WithHTTPClient :: "http_client option \<Rightarrow> UpdateExistingRecurringTaskParams \<Rightarrow> UpdateExistingRecurringTaskParams" where
  "UpdateExistingRecurringTask_WithHTTPClient v p = p\<lparr>urpHTTPClient := v\<rparr>"

definition UpdateExistingRecurringTask_WithID :: "recurring_id \<Rightarrow> UpdateExistingRecurringTaskParams \<Rightarrow> UpdateExistingRecurringTaskParams" where
  "UpdateExistingRecurringTask_WithID v p = p\<lparr>urpID := v\<rparr>"

definition UpdateExistingRecurringTask_WithRecurringTaskUpdate :: "RecurringTaskUpdate option \<Rightarrow> UpdateExistingRecurringTaskParams \<Rightarrow> UpdateExistingRecurringTaskParams" where
  "UpdateExistingRecurringTask_WithRecurringTaskUpdate v p = p\<lparr>urpRecurringTaskUpdate := v\<rparr>"

definition writeUpdateExistingRecurringTask :: "UpdateExistingRecurringTaskParams \<Rightarrow> written" where
  "writeUpdateExistingRecurringTask p =
     written (urpTimeout p) [] [(''id'', urpID p)] (map_option recurring_update_json (urpRecurringTaskUpdate p))"

end
