(* ===== verification/HttpResponses.thy ===== *)
theory HttpResponses
  imports HttpParams
begin

text \<open>
  The responses of the generated client (\<open>client/tasks/*_responses.go\<close>, \<open>client/recurring_tasks/*_responses.go\<close>): the type
  for every status that an operation documents, and the readers that choose among them.
\<close>

section \<open>Bodies\<close>

text \<open>
  What the JSON consumer gets from a body: an error, nothing if the body is empty (the reader passes over \<open>io.EOF\<close>), or a
  value. Of an empty body, as of \<open>null\<close>, the payload stays what it was: a new object, or no list.
\<close>

type_synonym response_body = "json option decoded"

definition pointer_payload :: "(json \<Rightarrow> 'p decoded) \<Rightarrow> response_body \<Rightarrow> 'p decoded" where
  "pointer_payload dec body =
     and_then body (\<lambda>v. dec (case v of Some j \<Rightarrow> if j = JNull then JObj [] else j | None \<Rightarrow> JObj []))"

text \<open>The elements of a list are pointers.\<close>

fun read_array :: "(json \<Rightarrow> 'p decoded) \<Rightarrow> json list \<Rightarrow> 'p option list decoded" where
  "read_array dec [] = Inr []"
| "read_array dec (j # js) = and_then (nullable dec j) (\<lambda>x. map_result ((#) x) (read_array dec js))"

fun array_of :: "(json \<Rightarrow> 'p decoded) \<Rightarrow> json \<Rightarrow> 'p option list decoded" where
  "array_of dec (JArr js) = read_array dec js"
| "array_of dec JNull = Inr []"
| "array_of dec _ = Inl ''wrong type''"

definition slice_payload :: "(json \<Rightarrow> 'p decoded) \<Rightarrow> response_body \<Rightarrow> 'p option list decoded" where
  "slice_payload dec body =
     and_then body (\<lambda>v. array_of dec (case v of Some j \<Rightarrow> j | None \<Rightarrow> JNull))"

text \<open>\<open>models/common_body.go\<close>: the body of an error.\<close>

record CommonBody =
  mbMessage :: "string option"

definition readCommonBody :: "json \<Rightarrow> CommonBody decoded" where
  "readCommonBody =
     when_object (\<lambda>j. map_result (\<lambda>s. \<lparr>mbMessage = s\<rparr>) (nullable as_string (member j ''message'')))"

definition common_body_json :: "CommonBody \<Rightarrow> json" where
  "common_body_json m = JObj [(''message'', or_null JStr (mbMessage m))]"

definition validateCommonBody :: "CommonBody \<Rightarrow> validation_error option" where
  "validateCommonBody m = collect [required ''message'' (mbMessage m)]"

section \<open>Response types\<close>

text \<open>
  A type of response: its status, its name and endpoint as \<open>Error\<close> prints them, and how its payload is read. \<open>GetPayload\<close>
  returns the payload that was read.
\<close>

record 'p response_type =
  rtyStatus :: nat
  rtyEndpoint :: string
  rtyName :: string
  rtyRead :: "response_body \<Rightarrow> 'p decoded"

definition response_type :: "nat \<Rightarrow> string \<Rightarrow> string \<Rightarrow> (response_body \<Rightarrow> 'p decoded) \<Rightarrow> 'p response_type" where
  "response_type status ep name rd = \<lparr>rtyStatus = status, rtyEndpoint = ep, rtyName = name, rtyRead = rd\<rparr>"

text \<open>\<open>Error\<close>; \<open>decimal\<close> and \<open>fmt\<close> stand for the verbs \<open>%d\<close> and \<open>%+v\<close> of \<open>fmt.Sprintf\<close>.\<close>

definition response_Error :: "(nat \<Rightarrow> string) \<Rightarrow> ('p \<Rightarrow> string) \<Rightarrow> 'p response_type \<Rightarrow> 'p \<Rightarrow> string" where
  "response_Error decimal fmt t p =
     rtyEndpoint t @ ''['' @ decimal (rtyStatus t) @ ''] '' @ rtyName t @ ''  '' @ fmt p"

text \<open>
  \<open>ReadResponse\<close>: the result, an error with a type of its own, the \<open>APIError\<close> for a status that is not documented, or the error
  of a body that cannot be read.
\<close>

datatype 'p read_outcome = Result 'p | TypedError string CommonBody | UnknownError int | Unreadable string

definition ReadResponse ::
  "'p response_type \<Rightarrow> CommonBody response_type list \<Rightarrow> nat \<Rightarrow> response_body \<Rightarrow> 'p read_outcome" where
  "ReadResponse t errs status body =
     (if status = rtyStatus t then
        (case rtyRead t body of Inl err \<Rightarrow> Unreadable err | Inr p \<Rightarrow> Result p)
      else
        (case find (\<lambda>e. status = rtyStatus e) errs of
           Some e \<Rightarrow> (case rtyRead e body of Inl err \<Rightarrow> Unreadable err | Inr b \<Rightarrow> TypedError (rtyName e) b)
         | None \<Rightarrow> UnknownError (int status)))"

section \<open>The responses of every operation\<close>

definition ClaimTasksOK :: "TaskTask option list response_type" where
  "ClaimTasksOK = response_type 200 ''[POST /tasques/claims]'' ''claimTasksOK'' (slice_payload readTaskTask)"

definition ClaimTasksReader :: "nat \<Rightarrow> response_body \<Rightarrow> (TaskTask option list) read_outcome" where
  "ClaimTasksReader = ReadResponse ClaimTasksOK []"

definition CreateTaskCreated :: "TaskTask response_type" where
  "CreateTaskCreated = response_type 201 ''[POST /tasques]'' ''createTaskCreated'' (pointer_payload readTaskTask)"

definition CreateTaskBadRequest :: "CommonBody response_type" where
  "CreateTaskBadRequest = response_type 400 ''[POST /tasques]'' ''createTaskBadRequest'' (pointer_payload readCommonBody)"

definition CreateTaskReader :: "nat \<Rightarrow> response_body \<Rightarrow> TaskTask read_outcome" where
  "CreateTaskReader = ReadResponse CreateTaskCreated [CreateTaskBadRequest]"

definition GetExistingTaskOK :: "TaskTask response_type" where
  "GetExistingTaskOK = response_type 200 ''[GET /tasques/{queue}/{id}]'' ''getExistingTaskOK'' (pointer_payload readTaskTask)"

definition GetExistingTaskNotFound :: "CommonBody response_type" where
  "GetExistingTaskNotFound =
     response_type 404 ''[GET /tasques/{queue}/{id}]'' ''getExistingTaskNotFound'' (pointer_payload readCommonBody)"

definition GetExistingTaskReader :: "nat \<Rightarrow> response_body \<Rightarrow> TaskTask read_outcome" where
  "GetExistingTaskReader = ReadResponse GetExistingTaskOK [GetExistingTaskNotFound]"

definition MarkClaimedTaskDoneOK :: "TaskTask response_type" where
  "MarkClaimedTaskDoneOK =
     response_type 200 ''[PUT /tasques/done/{queue}/{id}]'' ''markClaimedTaskDoneOK'' (pointer_payload readTaskTask)"

definition MarkClaimedTaskDoneBadRequest :: "CommonBody response_type" where
  "MarkClaimedTaskDoneBadRequest =
     response_type 400 ''[PUT /tasques/done/{queue}/{id}]'' ''markClaimedTaskDoneBadRequest'' (pointer_payload readCommonBody)"

definition MarkClaimedTaskDoneForbidden :: "CommonBody response_type" where
  "MarkClaimedTaskDoneForbidden =
     response_type 403 ''[PUT /tasques/done/{queue}/{id}]'' ''markClaimedTaskDoneForbidden'' (pointer_payload readCommonBody)"

definition MarkClaimedTaskDoneNotFound :: "CommonBody response_type" where
  "MarkClaimedTaskDoneNotFound =
     response_type 404 ''[PUT /tasques/done/{queue}/{id}]'' ''markClaimedTaskDoneNotFound'' (pointer_payload readCommonBody)"

definition MarkClaimedTaskDoneReader :: "nat \<Rightarrow> response_body \<Rightarrow> TaskTask read_outcome" where
  "MarkClaimedTaskDoneReader =
     ReadResponse MarkClaimedTaskDoneOK
       [MarkClaimedTaskDoneBadRequest, MarkClaimedTaskDoneForbidden, MarkClaimedTaskDoneNotFound]"

definition MarkClaimedTaskFailedOK :: "TaskTask response_type" where
  "MarkClaimedTaskFailedOK =
     response_type 200 ''[PUT /tasques/failed/{queue}/{id}]'' ''markClaimedTaskFailedOK'' (pointer_payload readTaskTask)"

definition MarkClaimedTaskFailedBadRequest :: "CommonBody response_type" where
  "MarkClaimedTaskFailedBadRequest =
     response_type 400 ''[PUT /tasques/failed/{queue}/{id}]'' ''markClaimedTaskFailedBadRequest'' (pointer_payload readCommonBody)"

definition MarkClaimedTaskFailedForbidden :: "CommonBody response_type" where
  "MarkClaimedTaskFailedForbidden =
     response_type 403 ''[PUT /tasques/failed/{queue}/{id}]'' ''markClaimedTaskFailedForbidden'' (pointer_payload readCommonBody)"

definition MarkClaimedTaskFailedNotFound :: "CommonBody response_type" where
  "MarkClaimedTaskFailedNotFound =
     response_type 404 ''[PUT /tasques/failed/{queue}/{id}]'' ''markClaimedTaskFailedNotFound'' (pointer_payload readCommonBody)"

definition MarkClaimedTaskFailedReader :: "nat \<Rightarrow> response_body \<Rightarrow> TaskTask read_outcome" where
  "MarkClaimedTaskFailedReader =
     ReadResponse MarkClaimedTaskFailedOK
       [MarkClaimedTaskFailedBadRequest, MarkClaimedTaskFailedForbidden, MarkClaimedTaskFailedNotFound]"

definition ReportOnClaimedTaskOK :: "TaskTask response_type" where
  "ReportOnClaimedTaskOK =
     response_type 200 ''[PUT /tasques/reports/{queue}/{id}]'' ''reportOnClaimedTaskOK'' (pointer_payload readTaskTask)"

definition ReportOnClaimedTaskBadRequest :: "CommonBody response_type" where
  "ReportOnClaimedTaskBadRequest =
     response_type 400 ''[PUT /tasques/reports/{queue}/{id}]'' ''reportOnClaimedTaskBadRequest'' (pointer_payload readCommonBody)"

definition ReportOnClaimedTaskForbidden :: "CommonBody response_type" where
  "ReportOnClaimedTaskForbidden =
     response_type 403 ''[PUT /tasques/reports/{queue}/{id}]'' ''reportOnClaimedTaskForbidden'' (pointer_payload readCommonBody)"

definition ReportOnClaimedTaskNotFound :: "CommonBody response_type" where
  "ReportOnClaimedTaskNotFound =
     response_type 404 ''[PUT /tasques/reports/{queue}/{id}]'' ''reportOnClaimedTaskNotFound'' (pointer_payload readCommonBody)"

definition ReportOnClaimedTaskReader :: "nat \<Rightarrow> response_body \<Rightarrow> TaskTask read_outcome" where
  "ReportOnClaimedTaskReader =
     ReadResponse ReportOnClaimedTaskOK
       [ReportOnClaimedTaskBadRequest, ReportOnClaimedTaskForbidden, ReportOnClaimedTaskNotFound]"

definition UnclaimExistingTaskOK :: "TaskTask response_type" where
  "UnclaimExistingTaskOK =
     response_type 200 ''[DELETE /tasques/claims/{queue}/{id}]'' ''unclaimExistingTaskOK'' (pointer_payload readTaskTask)"

definition UnclaimExistingTaskBadRequest :: "CommonBody response_type" where
  "UnclaimExistingTaskBadRequest =
     response_type 400 ''[DELETE /tasques/claims/{queue}/{id}]'' ''unclaimExistingTaskBadRequest'' (pointer_payload readCommonBody)"

definition UnclaimExistingTaskForbidden :: "CommonBody response_type" where
  "UnclaimExistingTaskForbidden =
     response_type 403 ''[DELETE /tasques/claims/{queue}/{id}]'' ''unclaimExistingTaskForbidden'' (pointer_payload readCommonBody)"

definition UnclaimExistingTaskNotFound :: "CommonBody response_type" where
  "UnclaimExistingTaskNotFound =
     response_type 404 ''[DELETE /tasques/claims/{queue}/{id}]'' ''unclaimExistingTaskNotFound'' (pointer_payload readCommonBody)"

definition UnclaimExistingTaskReader :: "nat \<Rightarrow> response_body \<Rightarrow> TaskTask read_outcome" where
  "UnclaimExistingTaskReader =
     ReadResponse UnclaimExistingTaskOK
       [UnclaimExistingTaskBadRequest, UnclaimExistingTaskForbidden, UnclaimExistingTaskNotFound]"

definition CreateRecurringTaskCreated :: "RecurringTask response_type" where
  "CreateRecurringTaskCreated =
     response_type 201 ''[POST /recurring_tasques]'' ''createRecurringTaskCreated'' (pointer_payload readRecurringTask)"

definition CreateRecurringTaskBadRequest :: "CommonBody response_type" where
  "CreateRecurringTaskBadRequest =
     response_type 400 ''[POST /recurring_tasques]'' ''createRecurringTaskBadRequest'' (pointer_payload readCommonBody)"

definition CreateRecurringTaskConflict :: "CommonBody response_type" where
  "CreateRecurringTaskConflict =
     response_type 409 ''[POST /recurring_tasques]'' ''createRecurringTaskConflict'' (pointer_payload readCommonBody)"

definition CreateRecurringTaskReader :: "nat \<Rightarrow> response_body \<Rightarrow> RecurringTask read_outcome" where
  "CreateRecurringTaskReader =
     ReadResponse CreateRecurringTaskCreated [CreateRecurringTaskBadRequest, CreateRecurringTaskConflict]"

definition DeleteExistingRecurringTaskOK :: "RecurringTask response_type" where
  "DeleteExistingRecurringTaskOK =
     response_type 200 ''[DELETE /recurring_tasques/{id}]'' ''deleteExistingRecurringTaskOK'' (pointer_payload readRecurringTask)"

definition DeleteExistingRecurringTaskNotFound :: "CommonBody response_type" where
  "DeleteExistingRecurringTaskNotFound =
     response_type 404 ''[DELETE /recurring_tasques/{id}]'' ''deleteExistingRecurringTaskNotFound'' (pointer_payload readCommonBody)"

definition DeleteExistingRecurringTaskReader :: "nat \<Rightarrow> response_body \<Rightarrow> RecurringTask read_outcome" where
  "DeleteExistingRecurringTaskReader = ReadResponse DeleteExistingRecurringTaskOK [DeleteExistingRecurringTaskNotFound]"

definition GetExistingRecurringTaskOK :: "RecurringTask response_type" where
  "GetExistingRecurringTaskOK =
     response_type 200 ''[GET /recurring_tasques/{id}]'' ''getExistingRecurringTaskOK'' (pointer_payload readRecurringTask)"

definition GetExistingRecurringTaskNotFound :: "CommonBody response_type" where
  "GetExistingRecurringTaskNotFound =
     response_type 404 ''[GET /recurring_tasques/{id}]'' ''getExistingRecurringTaskNotFound'' (pointer_payload readCommonBody)"

definition GetExistingRecurringTaskReader :: "nat \<Rightarrow> response_body \<Rightarrow> RecurringTask read_outcome" where
  "GetExistingRecurringTaskReader = ReadResponse GetExistingRecurringTaskOK [GetExistingRecurringTaskNotFound]"

definition ListExistingRecurringTasksOK :: "RecurringTask option list response_type" where
  "ListExistingRecurringTasksOK =
     response_type 200 ''[GET /recurring_tasques]'' ''listExistingRecurringTasksOK'' (slice_payload readRecurringTask)"

definition ListExistingRecurringTasksReader :: "nat \<Rightarrow> response_body \<Rightarrow> (RecurringTask option list) read_outcome" where
  "ListExistingRecurringTasksReader = ReadResponse ListExistingRecurringTasksOK []"

definition UpdateExistingRecurringTaskOK :: "RecurringTask response_type" where
  "UpdateExistingRecurringTaskOK =
     response_type 200 ''[PUT /recurring_tasques/{id}]'' ''updateExistingRecurringTaskOK'' (pointer_payload readRecurringTask)"

definition UpdateExistingRecurringTaskNotFound :: "CommonBody response_type" where
  "UpdateExistingRecurringTaskNotFound =
     response_type 404 ''[PUT /recurring_tasques/{id}]'' ''updateExistingRecurringTaskNotFound'' (pointer_payload readCommonBody)"

definition UpdateExistingRecurringTaskReader :: "nat \<Rightarrow> response_body \<Rightarrow> RecurringTask read_outcome" where
  "UpdateExistingRecurringTaskReader = ReadResponse UpdateExistingRecurringTaskOK [UpdateExistingRecurringTaskNotFound]"

end
