(* ===== verification/HttpClient.thy ===== *)
theory HttpClient
  imports HttpResponses
begin

text \<open>
  The operations of the generated client (\<open>client/tasks/tasks_client.go\<close>, \<open>client/recurring_tasks/recurring_tasks_client.go\<close>), the
  client itself with its transport settings (\<open>client/tasques_client.go\<close>), and how a worker is given one
  (\<open>worker/config/models.go\<close>).
\<close>

section \<open>Operations\<close>

datatype http_method = GET | POST | PUT | DELETE

text \<open>A path is a list of segments; \<open>{name}\<close> for the client and \<open>:name\<close> for the server is a parameter.\<close>

datatype segment = Lit string | Param string

type_synonym pattern = "segment list"

text \<open>
  \<open>runtime.ClientOperation\<close>, with what its parameters write to the request. The reader is an argument of \<open>Submit\<close>.
\<close>

record ClientOperation =
  coID :: string
  coMethod :: http_method
  coPathPattern :: pattern
  coProduces :: "string list"
  coConsumes :: "string list"
  coSchemes :: "string list"
  coParams :: written
  coContext :: "http_context option"
  coClient :: "http_client option"

definition client_operation ::
  "string \<Rightarrow> http_method \<Rightarrow> pattern \<Rightarrow> written \<Rightarrow> http_context option \<Rightarrow> http_client option \<Rightarrow> ClientOperation" where
  "client_operation opid meth path params ctx client =
     \<lparr>coID = opid, coMethod = meth, coPathPattern = path, coProduces = [''application/json''],
       coConsumes = [''application/json''], coSchemes = [''http''], coParams = params, coContext = ctx, coClient = client\<rparr>"

text \<open>
  The transport is the HTTP runtime: it sends the operation and fails, or has a response, to which it applies the reader.
\<close>

type_synonym 'w http_transport = "ClientOperation \<Rightarrow> 'w \<Rightarrow> 'w \<times> (string + nat \<times> response_body)"

definition Submit ::
  "'w http_transport \<Rightarrow> ClientOperation \<Rightarrow> (nat \<Rightarrow> response_body \<Rightarrow> 'p read_outcome) \<Rightarrow> 'w \<Rightarrow> 'w \<times> (string + 'p read_outcome)" where
  "Submit transport op reader w =
     (case transport op w of (w', r) \<Rightarrow> (w', map_result (\<lambda>(status, body). reader status body) r))"

text \<open>Each client has a transport and a registry of formats, which is a handle too.\<close>

record 'w Client =
  clTransport :: "'w http_transport"
  clFormats :: nat

definition NewClient :: "'w http_transport \<Rightarrow> nat \<Rightarrow> 'w Client" where
  "NewClient transport formats = \<lparr>clTransport = transport, clFormats = formats\<rparr>"

definition Client_SetTransport :: "'w http_transport \<Rightarrow> 'w Client \<Rightarrow> 'w Client" where
  "Client_SetTransport transport a = a\<lparr>clTransport := transport\<rparr>"

text \<open>
  The operations. Without parameters an operation uses new ones. A result is always of the one type that the readers
  return as success, so the panic at the end of every operation is not reached.
\<close>

definition params_or :: "'a \<Rightarrow> 'a option \<Rightarrow> 'a" where
  "params_or d p = (case p of None \<Rightarrow> d | Some x \<Rightarrow> x)"

definition ClaimTasksOperation :: "ClaimTasksParams \<Rightarrow> ClientOperation" where
  "ClaimTasksOperation p = client_operation ''claim-tasks'' POST [Lit ''tasques'', Lit ''claims'']
     (writeClaimTasks p) (ctContext p) (ctHTTPClient p)"

definition Client_ClaimTasks ::
  "'w Client \<Rightarrow> duration \<Rightarrow> ClaimTasksParams option \<Rightarrow> 'w \<Rightarrow> 'w \<times> (string + (TaskTask option list) read_outcome)" where
  "Client_ClaimTasks a timeout params =
     Submit (clTransport a) (ClaimTasksOperation (params_or (NewClaimTasksParams timeout) params)) ClaimTasksReader"

definition CreateTaskOperation :: "(time \<Rightarrow> time) \<Rightarrow> CreateTaskParams \<Rightarrow> ClientOperation" where
  "CreateTaskOperation sent p = client_operation ''create-task'' POST [Lit ''tasques'']
     (writeCreateTask sent p) (crContext p) (crHTTPClient p)"

definition Client_CreateTask ::
  "'w Client \<Rightarrow> duration \<Rightarrow> (time \<Rightarrow> time) \<Rightarrow> CreateTaskParams option \<Rightarrow> 'w \<Rightarrow> 'w \<times> (string + TaskTask read_outcome)" where
  "Client_CreateTask a timeout sent params =
     Submit (clTransport a) (CreateTaskOperation sent (params_or (NewCreateTaskParams timeout) params)) CreateTaskReader"

definition GetExistingTaskOperation :: "GetExistingTaskParams \<Rightarrow> ClientOperation" where
  "GetExistingTaskOperation p = client_operation ''get-existing-task'' GET [Lit ''tasques'', Param ''queue'', Param ''id'']
     (writeGetExistingTask p) (geContext p) (geHTTPClient p)"

definition Client_GetExistingTask ::
  "'w Client \<Rightarrow> duration \<Rightarrow> GetExistingTaskParams option \<Rightarrow> 'w \<Rightarrow> 'w \<times> (string + TaskTask read_outcome)" where
  "Client_GetExistingTask a timeout params =
     Submit (clTransport a) (GetExistingTaskOperation (params_or (NewGetExistingTaskParams timeout) params)) GetExistingTaskReader"

definition MarkClaimedTaskDoneOperation :: "MarkClaimedTaskDoneParams \<Rightarrow> ClientOperation" where
  "MarkClaimedTaskDoneOperation p =
     client_operation ''mark-claimed-task-done'' PUT [Lit ''tasques'', Lit ''done'', Param ''queue'', Param ''id'']
     (writeMarkClaimedTaskDone p) (mdpContext p) (mdpHTTPClient p)"

definition Client_MarkClaimedTaskDone ::
  "'w Client \<Rightarrow> duration \<Rightarrow> MarkClaimedTaskDoneParams option \<Rightarrow> 'w \<Rightarrow> 'w \<times> (string + TaskTask read_outcome)" where
  "Client_MarkClaimedTaskDone a timeout params =
     Submit (clTransport a) (MarkClaimedTaskDoneOperation (params_or (NewMarkClaimedTaskDoneParams timeout) params)) MarkClaimedTaskDoneReader"

definition MarkClaimedTaskFailedOperation :: "MarkClaimedTaskFailedParams \<Rightarrow> ClientOperation" where
  "MarkClaimedTaskFailedOperation p =
     client_operation ''mark-claimed-task-failed'' PUT [Lit ''tasques'', Lit ''failed'', Param ''queue'', Param ''id'']
     (writeMarkClaimedTaskFailed p) (mfpContext p) (mfpHTTPClient p)"

definition Client_MarkClaimedTaskFailed ::
  "'w Client \<Rightarrow> duration \<Rightarrow> MarkClaimedTaskFailedParams option \<Rightarrow> 'w \<Rightarrow> 'w \<times> (string + TaskTask read_outcome)" where
  "Client_MarkClaimedTaskFailed a timeout params =
     Submit (clTransport a) (MarkClaimedTaskFailedOperation (params_or (NewMarkClaimedTaskFailedParams timeout) params)) MarkClaimedTaskFailedReader"

definition ReportOnClaimedTaskOperation :: "ReportOnClaimedTaskParams \<Rightarrow> ClientOperation" where
  "ReportOnClaimedTaskOperation p =
     client_operation ''report-on-claimed-task'' PUT [Lit ''tasques'', Lit ''reports'', Param ''queue'', Param ''id'']
     (writeReportOnClaimedTask p) (rcpContext p) (rcpHTTPClient p)"

definition Client_ReportOnClaimedTask ::
  "'w Client \<Rightarrow> duration \<Rightarrow> ReportOnClaimedTaskParams option \<Rightarrow> 'w \<Rightarrow> 'w \<times> (string + TaskTask read_outcome)" where
  "Client_ReportOnClaimedTask a timeout params =
     Submit (clTransport a) (ReportOnClaimedTaskOperation (params_or (NewReportOnClaimedTaskParams timeout) params)) ReportOnClaimedTaskReader"

definition UnclaimExistingTaskOperation :: "UnclaimExistingTaskParams \<Rightarrow> ClientOperation" where
  "UnclaimExistingTaskOperation p =
     client_operation ''unclaim-existing-task'' DELETE [Lit ''tasques'', Lit ''claims'', Param ''queue'', Param ''id'']
     (writeUnclaimExistingTask p) (uepContext p) (uepHTTPClient p)"

definition Client_UnclaimExistingTask ::
  "'w Client \<Rightarrow> duration \<Rightarrow> UnclaimExistingTaskParams option \<Rightarrow> 'w \<Rightarrow> 'w \<times> (string + TaskTask read_outcome)" where
  "Client_UnclaimExistingTask a timeout params =
     Submit (clTransport a) (UnclaimExistingTaskOperation (params_or (NewUnclaimExistingTaskParams timeout) params)) UnclaimExistingTaskReader"

definition CreateRecurringTaskOperation :: "CreateRecurringTaskParams \<Rightarrow> ClientOperation" where
  "CreateRecurringTaskOperation p = client_operation ''create-recurring-task'' POST [Lit ''recurring_tasques'']
     (writeCreateRecurringTask p) (crpContext p) (crpHTTPClient p)"

definition Client_CreateRecurringTask ::
  "'w Client \<Rightarrow> duration \<Rightarrow> CreateRecurringTaskParams option \<Rightarrow> 'w \<Rightarrow> 'w \<times> (string + RecurringTask read_outcome)" where
  "Client_CreateRecurringTask a timeout params =
     Submit (clTransport a) (CreateRecurringTaskOperation (params_or (NewCreateRecurringTaskParams timeout) params)) CreateRecurringTaskReader"

definition DeleteExistingRecurringTaskOperation :: "DeleteExistingRecurringTaskParams \<Rightarrow> ClientOperation" where
  "DeleteExistingRecurringTaskOperation p =
     client_operation ''delete-existing-recurring-task'' DELETE [Lit ''recurring_tasques'', Param ''id'']
     (writeDeleteExistingRecurringTask p) (drpContext p) (drpHTTPClient p)"

definition Client_DeleteExistingRecurringTask ::
  "'w Client \<Rightarrow> duration \<Rightarrow> DeleteExistingRecurringTaskParams option \<Rightarrow> 'w \<Rightarrow> 'w \<times> (string + RecurringTask read_outcome)" where
  "Client_DeleteExistingRecurringTask a timeout params =
     Submit (clTransport a) (DeleteExistingRecurringTaskOperation (params_or (NewDeleteExistingRecurringTaskParams timeout) params)) DeleteExistingRecurringTaskReader"

definition GetExistingRecurringTaskOperation :: "GetExistingRecurringTaskParams \<Rightarrow> ClientOperation" where
  "GetExistingRecurringTaskOperation p =
     client_operation ''get-existing-recurring-task'' GET [Lit ''recurring_tasques'', Param ''id'']
     (writeGetExistingRecurringTask p) (grpContext p) (grpHTTPClient p)"

definition Client_GetExistingRecurringTask ::
  "'w Client \<Rightarrow> duration \<Rightarrow> GetExistingRecurringTaskParams option \<Rightarrow> 'w \<Rightarrow> 'w \<times> (string + RecurringTask read_outcome)" where
  "Client_GetExistingRecurringTask a timeout params =
     Submit (clTransport a) (GetExistingRecurringTaskOperation (params_or (NewGetExistingRecurringTaskParams timeout) params)) GetExistingRecurringTaskReader"

definition ListExistingRecurringTasksOperation :: "ListExistingRecurringTasksParams \<Rightarrow> ClientOperation" where
  "ListExistingRecurringTasksOperation p = client_operation ''list-existing-recurring-tasks'' GET [Lit ''recurring_tasques'']
     (writeListExistingRecurringTasks p) (lrpContext p) (lrpHTTPClient p)"

definition Client_ListExistingRecurringTasks ::
  "'w Client \<Rightarrow> duration \<Rightarrow> ListExistingRecurringTasksParams option \<Rightarrow> 'w \<Rightarrow> 'w \<times> (string + (RecurringTask option list) read_outcome)" where
  "Client_ListExistingRecurringTasks a timeout params =
     Submit (clTransport a) (ListExistingRecurringTasksOperation (params_or (NewListExistingRecurringTasksParams timeout) params)) ListExistingRecurringTasksReader"

definition UpdateExistingRecurringTaskOperation :: "UpdateExistingRecurringTaskParams \<Rightarrow> ClientOperation" where
  "UpdateExistingRecurringTaskOperation p =
     client_operation ''update-existing-recurring-task'' PUT [Lit ''recurring_tasques'', Param ''id'']
     (writeUpdateExistingRecurringTask p) (urpContext p) (urpHTTPClient p)"

definition Client_UpdateExistingRecurringTask ::
  "'w Client \<Rightarrow> duration \<Rightarrow> UpdateExistingRecurringTaskParams option \<Rightarrow> 'w \<Rightarrow> 'w \<times> (string + RecurringTask read_outcome)" where
  "Client_UpdateExistingRecurringTask a timeout params =
     Submit (clTransport a) (UpdateExistingRecurringTaskOperation (params_or (NewUpdateExistingRecurringTaskParams timeout) params)) UpdateExistingRecurringTaskReader"

section \<open>The client\<close>

record TransportConfig =
  Host :: string
  BasePath :: string
  Schemes :: "string list"

definition DefaultTransportConfig :: TransportConfig where
  "DefaultTransportConfig = \<lparr>Host = ''localhost:8080'', BasePath = ''/'', Schemes = [''http'']\<rparr>"

definition WithHost :: "string \<Rightarrow> TransportConfig \<Rightarrow> TransportConfig" where
  "WithHost host cfg = cfg\<lparr>Host := host\<rparr>"

definition WithBasePath :: "string \<Rightarrow> TransportConfig \<Rightarrow> TransportConfig" where
  "WithBasePath basePath cfg = cfg\<lparr>BasePath := basePath\<rparr>"

definition WithSchemes :: "string list \<Rightarrow> TransportConfig \<Rightarrow> TransportConfig" where
  "WithSchemes schemes cfg = cfg\<lparr>Schemes := schemes\<rparr>"

record 'w TasquesClient =
  tqRecurringTasks :: "'w Client"
  tqTasks :: "'w Client"
  tqTransport :: "'w http_transport"

text \<open>\<open>strfmt.Default\<close>, the registry if none is given, is an argument.\<close>

definition NewTasques :: "nat \<Rightarrow> 'w http_transport \<Rightarrow> nat option \<Rightarrow> 'w TasquesClient" where
  "NewTasques strfmt_default transport formats =
     (let fs = (case formats of None \<Rightarrow> strfmt_default | Some f \<Rightarrow> f)
      in \<lparr>tqRecurringTasks = NewClient transport fs, tqTasks = NewClient transport fs, tqTransport = transport\<rparr>)"

text \<open>\<open>http\<close> is the constructor of the HTTP runtime, from host, base path, schemes and the credentials it sends with every request.\<close>

record WorkerBasicAuth =
  wbName :: string
  wbPassword :: string

type_synonym 'w http_runtime = "string \<Rightarrow> string \<Rightarrow> string list \<Rightarrow> WorkerBasicAuth option \<Rightarrow> 'w http_transport"

definition NewHTTPClientWithConfig ::
  "'w http_runtime \<Rightarrow> nat \<Rightarrow> nat option \<Rightarrow> TransportConfig option \<Rightarrow> 'w TasquesClient" where
  "NewHTTPClientWithConfig http strfmt_default formats cfg =
     (let c = (case cfg of None \<Rightarrow> DefaultTransportConfig | Some c \<Rightarrow> c)
      in NewTasques strfmt_default (http (Host c) (BasePath c) (Schemes c) None) formats)"

definition NewHTTPClient :: "'w http_runtime \<Rightarrow> nat \<Rightarrow> nat option \<Rightarrow> 'w TasquesClient" where
  "NewHTTPClient http strfmt_default formats = NewHTTPClientWithConfig http strfmt_default formats None"

definition SetTransport :: "'w http_transport \<Rightarrow> 'w TasquesClient \<Rightarrow> 'w TasquesClient" where
  "SetTransport transport c =
     c\<lparr>tqTransport := transport, tqRecurringTasks := Client_SetTransport transport (tqRecurringTasks c),
       tqTasks := Client_SetTransport transport (tqTasks c)\<rparr>"

section \<open>The client of a worker\<close>

record TasquesServer =
  tsAddress :: string
  tsBasePath :: "string option"
  tsSchemes :: "string list option"
  tsAuth :: "WorkerBasicAuth option"

definition BuildClient :: "'w http_runtime \<Rightarrow> nat \<Rightarrow> TasquesServer \<Rightarrow> 'w TasquesClient" where
  "BuildClient http strfmt_default t =
     (let c1 = DefaultTransportConfig\<lparr>Host := tsAddress t\<rparr>;
          c2 = (case tsBasePath t of None \<Rightarrow> c1 | Some p \<Rightarrow> c1\<lparr>BasePath := p\<rparr>);
          c3 = (case tsSchemes t of None \<Rightarrow> c2 | Some ss \<Rightarrow> c2\<lparr>Schemes := ss\<rparr>)
      in case tsAuth t of
           None \<Rightarrow> NewHTTPClientWithConfig http strfmt_default (Some strfmt_default) (Some c3)
         | Some a \<Rightarrow> NewTasques strfmt_default (http (Host c3) (BasePath c3) (Schemes c3) (Some a)) (Some strfmt_default))"

definition WorkerId_Set :: "string \<Rightarrow> worker_id \<Rightarrow> worker_id \<times> string option" where
  "WorkerId_Set s w =
     (if length (TrimSpace s) = 0 then (w, Some ''worker Id cannot be empty'') else (s, None))"

text \<open>
  Whatever the server is, with or without credentials, both parts of a worker's client send through one transport: the runtime
  for its host, with its base path and schemes where it has them.
\<close>

lemma BuildClient_transport:
  "tqTasks (BuildClient http d t) = NewClient (tqTransport (BuildClient http d t)) d \<and>
   tqRecurringTasks (BuildClient http d t) = NewClient (tqTransport (BuildClient http d t)) d \<and>
   tqTransport (BuildClient http d t) =
     http (tsAddress t) (case tsBasePath t of None \<Rightarrow> ''/'' | Some p \<Rightarrow> p)
       (case tsSchemes t of None \<Rightarrow> [''http''] | Some ss \<Rightarrow> ss) (tsAuth t)"
  by (simp add: BuildClient_def NewHTTPClientWithConfig_def NewTasques_def DefaultTransportConfig_def Let_def
      split: option.splits)

end
