(* ===== verification/ClientServer.thy ===== *)
theory ClientServer
  imports HttpClient
begin

text \<open>
  The generated client against the server: every request of the client reaches the handler it is meant for, with its
  parameters and its body, and every response is read for what it is.
\<close>

section \<open>Routes\<close>

datatype task_route = CreateRoute | GetRoute | ClaimRoute | UnclaimRoute | ReportRoute | DoneRoute | FailedRoute

datatype recurring_route = RCreateRoute | RUpdateRoute | RGetRoute | RDeleteRoute | RListRoute

datatype route = TaskRoute task_route | RecurringRoute recurring_route

type_synonym routes = "(http_method \<times> pattern \<times> route) list"

definition RegisterTaskRoutes :: routes where
  "RegisterTaskRoutes =
     [(POST, [Lit ''tasques''], TaskRoute CreateRoute),
      (GET, [Lit ''tasques'', Param ''queue'', Param ''task_id''], TaskRoute GetRoute),
      (POST, [Lit ''tasques'', Lit ''claims''], TaskRoute ClaimRoute),
      (DELETE, [Lit ''tasques'', Lit ''claims'', Param ''queue'', Param ''task_id''], TaskRoute UnclaimRoute),
      (PUT, [Lit ''tasques'', Lit ''reports'', Param ''queue'', Param ''task_id''], TaskRoute ReportRoute),
      (PUT, [Lit ''tasques'', Lit ''done'', Param ''queue'', Param ''task_id''], TaskRoute DoneRoute),
      (PUT, [Lit ''tasques'', Lit ''failed'', Param ''queue'', Param ''task_id''], TaskRoute FailedRoute)]"

definition RegisterRecurringRoutes :: routes where
  "RegisterRecurringRoutes =
     [(POST, [Lit ''recurring_tasques''], RecurringRoute RCreateRoute),
      (PUT, [Lit ''recurring_tasques'', Param ''recurring_task_id''], RecurringRoute RUpdateRoute),
      (GET, [Lit ''recurring_tasques'', Param ''recurring_task_id''], RecurringRoute RGetRoute),
      (DELETE, [Lit ''recurring_tasques'', Param ''recurring_task_id''], RecurringRoute RDeleteRoute),
      (GET, [Lit ''recurring_tasques''], RecurringRoute RListRoute)]"

definition registered :: routes where
  "registered = RegisterTaskRoutes @ RegisterRecurringRoutes"

section \<open>The documented behaviour of the two web libraries\<close>

text \<open>
  gin's router: a literal matches itself, a parameter matches any segment that is not empty. A request that matches one
  route goes to its handler, with the parameters by name.
\<close>

fun path_params :: "pattern \<Rightarrow> string list \<Rightarrow> (string \<times> string) list option" where
  "path_params [] [] = Some []"
| "path_params (Lit s # pat) (x # xs) = (if s = x then path_params pat xs else None)"
| "path_params (Param n # pat) (x # xs) = (if x = [] then None else map_option ((#) (n, x)) (path_params pat xs))"
| "path_params _ _ = None"

type_synonym router = "routes \<Rightarrow> http_method \<Rightarrow> string list \<Rightarrow> (route \<times> (string \<times> string) list) option"

definition matching :: "routes \<Rightarrow> http_method \<Rightarrow> string list \<Rightarrow> (route \<times> (string \<times> string) list) list" where
  "matching rs meth segs =
     [(h, ps). (meth', pat, h) \<leftarrow> rs, meth' = meth, Some ps \<leftarrow> [path_params pat segs]]"

definition gin_routing :: "router \<Rightarrow> bool" where
  "gin_routing router \<longleftrightarrow> (\<forall>rs meth segs x. matching rs meth segs = [x] \<longrightarrow> router rs meth segs = Some x)"

text \<open>
  The client runtime puts the parameters into the path, escaped; the server sees them unescaped, in a
  segment of its own if they hold no slash and are not one of the dot segments.
\<close>

definition plain :: "string \<Rightarrow> bool" where
  "plain s \<longleftrightarrow> s \<noteq> [] \<and> CHR 0x2F \<notin> set s \<and> s \<noteq> ''.'' \<and> s \<noteq> ''..''"

fun substitute :: "(string \<times> string) list \<Rightarrow> segment \<Rightarrow> string" where
  "substitute ps (Lit s) = s"
| "substitute ps (Param n) = (case map_of ps n of None \<Rightarrow> [] | Some v \<Rightarrow> v)"

definition path_building :: "(pattern \<Rightarrow> (string \<times> string) list \<Rightarrow> string list) \<Rightarrow> bool" where
  "path_building build \<longleftrightarrow> (\<forall>pat ps. (\<forall>(n, v) \<in> set ps. plain v) \<longrightarrow> build pat ps = map (substitute ps) pat)"

section \<open>Serving a request\<close>

text \<open>\<open>ShouldBindJSON\<close> of a request without a body is an error.\<close>

definition body_as :: "(json \<Rightarrow> 'a decoded) \<Rightarrow> json option \<Rightarrow> 'a decoded" where
  "body_as dec body = (case body of None \<Rightarrow> Inl ''EOF'' | Some j \<Rightarrow> dec j)"

definition value_of :: "string \<Rightarrow> (string \<times> string) list \<Rightarrow> string" where
  "value_of k ps = (case map_of ps k of None \<Rightarrow> [] | Some v \<Rightarrow> v)"

fun serve_task ::
  "(string \<Rightarrow> string) \<Rightarrow> (string \<Rightarrow> string + duration) \<Rightarrow> 'w Service \<Rightarrow> TasksDefaults \<Rightarrow> ('w \<Rightarrow> 'w \<times> time) \<Rightarrow>
     task_route \<Rightarrow> (string \<times> string) list \<Rightarrow> written \<Rightarrow> 'w \<Rightarrow> ('w \<times> response) option" where
  "serve_task L pd svc conf now CreateRoute ps r w =
     Some (handle_create L (ctlCreate svc conf now) (body_as (readNewTask pd) (wrBody r)) w)"
| "serve_task L pd svc conf now GetRoute ps r w =
     Some (handle_get L svc (value_of ''queue'' ps) (value_of ''task_id'' ps) w)"
| "serve_task L pd svc conf now ClaimRoute ps r w =
     handle_claim L svc conf (value_of ''X-TASQUES-WORKER-ID'' (wrHeaders r)) (body_as (readClaim pd) (wrBody r)) w"
| "serve_task L pd svc conf now UnclaimRoute ps r w =
     Some (handle_unClaim L svc (value_of ''X-TASQUES-WORKER-ID'' (wrHeaders r)) (value_of ''queue'' ps) (value_of ''task_id'' ps) w)"
| "serve_task L pd svc conf now ReportRoute ps r w =
     Some (handle_reportIn L svc (value_of ''X-TASQUES-WORKER-ID'' (wrHeaders r)) (value_of ''queue'' ps) (value_of ''task_id'' ps)
       (map_result (\<lambda>d. \<lparr>arData = d\<rparr>) (body_as readData (wrBody r))) w)"
| "serve_task L pd svc conf now DoneRoute ps r w =
     Some (handle_markDone L svc (value_of ''X-TASQUES-WORKER-ID'' (wrHeaders r)) (value_of ''queue'' ps) (value_of ''task_id'' ps)
       (body_as readData (wrBody r)) w)"
| "serve_task L pd svc conf now FailedRoute ps r w =
     Some (handle_markFailed L svc (value_of ''X-TASQUES-WORKER-ID'' (wrHeaders r)) (value_of ''queue'' ps) (value_of ''task_id'' ps)
       (body_as readData (wrBody r)) w)"

text \<open>A request of the client, as the server gets it.\<close>

definition routed :: "router \<Rightarrow> (pattern \<Rightarrow> (string \<times> string) list \<Rightarrow> string list) \<Rightarrow> ClientOperation \<Rightarrow>
    (route \<times> (string \<times> string) list) option" where
  "routed router build op = router registered (coMethod op) (build (coPathPattern op) (wrPathParams (coParams op)))"

section \<open>Every request reaches its handler\<close>

text \<open>The operations of the client, whatever their parameters, and the handlers they are meant for.\<close>

inductive meant_for :: "ClientOperation \<Rightarrow> route \<Rightarrow> bool" where
  "meant_for (ClaimTasksOperation p) (TaskRoute ClaimRoute)"
| "meant_for (CreateTaskOperation sent p') (TaskRoute CreateRoute)"
| "meant_for (GetExistingTaskOperation p'') (TaskRoute GetRoute)"
| "meant_for (MarkClaimedTaskDoneOperation d) (TaskRoute DoneRoute)"
| "meant_for (MarkClaimedTaskFailedOperation f) (TaskRoute FailedRoute)"
| "meant_for (ReportOnClaimedTaskOperation r) (TaskRoute ReportRoute)"
| "meant_for (UnclaimExistingTaskOperation u) (TaskRoute UnclaimRoute)"
| "meant_for (CreateRecurringTaskOperation c) (RecurringRoute RCreateRoute)"
| "meant_for (DeleteExistingRecurringTaskOperation e) (RecurringRoute RDeleteRoute)"
| "meant_for (GetExistingRecurringTaskOperation g) (RecurringRoute RGetRoute)"
| "meant_for (ListExistingRecurringTasksOperation l) (RecurringRoute RListRoute)"
| "meant_for (UpdateExistingRecurringTaskOperation m) (RecurringRoute RUpdateRoute)"

text \<open>The names of the path parameters: the client's, and the server's for the same place.\<close>

fun server_name :: "route \<Rightarrow> string \<Rightarrow> string" where
  "server_name (TaskRoute _) n = (if n = ''id'' then ''task_id'' else n)"
| "server_name (RecurringRoute _) n = (if n = ''id'' then ''recurring_task_id'' else n)"

lemmas operation_defs = client_operation_def written_def worker_header_def
  ClaimTasksOperation_def CreateTaskOperation_def GetExistingTaskOperation_def MarkClaimedTaskDoneOperation_def
  MarkClaimedTaskFailedOperation_def ReportOnClaimedTaskOperation_def UnclaimExistingTaskOperation_def
  CreateRecurringTaskOperation_def DeleteExistingRecurringTaskOperation_def GetExistingRecurringTaskOperation_def
  ListExistingRecurringTasksOperation_def UpdateExistingRecurringTaskOperation_def
  writeClaimTasks_def writeCreateTask_def writeGetExistingTask_def writeMarkClaimedTaskDone_def
  writeMarkClaimedTaskFailed_def writeReportOnClaimedTask_def writeUnclaimExistingTask_def
  writeCreateRecurringTask_def writeDeleteExistingRecurringTask_def writeGetExistingRecurringTask_def
  writeListExistingRecurringTasks_def writeUpdateExistingRecurringTask_def

lemmas route_defs = matching_def registered_def RegisterTaskRoutes_def RegisterRecurringRoutes_def

definition arrives :: "router \<Rightarrow> (pattern \<Rightarrow> (string \<times> string) list \<Rightarrow> string list) \<Rightarrow> ClientOperation \<Rightarrow> route \<Rightarrow> bool" where
  "arrives router build op h \<longleftrightarrow>
     (\<exists>ps. routed router build op = Some (h, ps) \<and>
       (\<forall>n v. (n, v) \<in> set (wrPathParams (coParams op)) \<longrightarrow> value_of (server_name h n) ps = v))"

definition plain_params :: "ClientOperation \<Rightarrow> bool" where
  "plain_params op \<longleftrightarrow> (\<forall>(n, v) \<in> set (wrPathParams (coParams op)). plain v)"

lemma only_match:
  assumes "meant_for op h" and "plain_params op"
  shows "\<exists>ps. matching registered (coMethod op) (map (substitute (wrPathParams (coParams op))) (coPathPattern op)) = [(h, ps)] \<and>
    (\<forall>n v. (n, v) \<in> set (wrPathParams (coParams op)) \<longrightarrow> value_of (server_name h n) ps = v)"
  using assms
  by (induction rule: meant_for.induct) (auto simp: operation_defs route_defs plain_params_def plain_def value_of_def)

text \<open>
  Every operation of the client reaches the handler of the server it is meant for, and no other, and every path
  parameter arrives under the name by which that handler asks for it, as long as its value is a segment of a path.
\<close>

lemma client_reaches_handler:
  assumes gin: "gin_routing router" and path: "path_building build" and meant: "meant_for op h" and plain: "plain_params op"
  shows "arrives router build op h"
proof -
  obtain ps where ps: "matching registered (coMethod op) (map (substitute (wrPathParams (coParams op))) (coPathPattern op)) = [(h, ps)]"
      "\<forall>n v. (n, v) \<in> set (wrPathParams (coParams op)) \<longrightarrow> value_of (server_name h n) ps = v"
    using only_match [OF meant plain] by blast
  have "build (coPathPattern op) (wrPathParams (coParams op)) = map (substitute (wrPathParams (coParams op))) (coPathPattern op)"
    using path plain unfolding path_building_def plain_params_def by blast
  with gin ps(1) have "routed router build op = Some (h, ps)" unfolding routed_def gin_routing_def by metis
  with ps(2) show ?thesis unfolding arrives_def by blast
qed

section \<open>The requests of a worker\<close>

text \<open>
  How \<open>worker/work_loop.go\<close> fills the parameters; \<open>ms\<close> is \<open>fmt.Sprintf("%dms", n)\<close>.
\<close>

definition claim_params :: "duration \<Rightarrow> (int \<Rightarrow> string) \<Rightarrow> worker_id \<Rightarrow> WorkLoop.claim_params \<Rightarrow> ClaimTasksParams" where
  "claim_params timeout ms wid p =
     ClaimTasks_WithClaim (Some \<lparr>mcAmount = cpAmount p, mcBlockFor = ms (cpBlockForMs p), mcQueues = Some (cpQueues p)\<rparr>)
     (ClaimTasks_WithWorkerID wid (NewClaimTasksParams timeout))"

definition report_params ::
  "duration \<Rightarrow> worker_id \<Rightarrow> qname \<Rightarrow> task_id \<Rightarrow> json_obj option \<Rightarrow> ReportOnClaimedTaskParams" where
  "report_params timeout wid q i d =
     ReportOnClaimedTask_WithNewReport (Some \<lparr>mnrData = json_or_null d\<rparr>) (ReportOnClaimedTask_WithID i
     (ReportOnClaimedTask_WithQueue q (ReportOnClaimedTask_WithWorkerID wid (NewReportOnClaimedTaskParams timeout))))"

definition unclaim_params :: "duration \<Rightarrow> worker_id \<Rightarrow> qname \<Rightarrow> task_id \<Rightarrow> UnclaimExistingTaskParams" where
  "unclaim_params timeout wid q i = UnclaimExistingTask_WithID i
     (UnclaimExistingTask_WithQueue q (UnclaimExistingTask_WithWorkerID wid (NewUnclaimExistingTaskParams timeout)))"

definition done_params :: "duration \<Rightarrow> worker_id \<Rightarrow> qname \<Rightarrow> task_id \<Rightarrow> json_obj \<Rightarrow> MarkClaimedTaskDoneParams" where
  "done_params timeout wid q i d =
     MarkClaimedTaskDone_WithSuccess (Some \<lparr>msuData = JObj d\<rparr>) (MarkClaimedTaskDone_WithID i
     (MarkClaimedTaskDone_WithQueue q (MarkClaimedTaskDone_WithWorkerID wid (NewMarkClaimedTaskDoneParams timeout))))"

definition failed_params :: "duration \<Rightarrow> worker_id \<Rightarrow> qname \<Rightarrow> task_id \<Rightarrow> json_obj \<Rightarrow> MarkClaimedTaskFailedParams" where
  "failed_params timeout wid q i d =
     MarkClaimedTaskFailed_WithFailure (Some \<lparr>mfaData = JObj d\<rparr>) (MarkClaimedTaskFailed_WithID i
     (MarkClaimedTaskFailed_WithQueue q (MarkClaimedTaskFailed_WithWorkerID wid (NewMarkClaimedTaskFailedParams timeout))))"

text \<open>The operation of each request of a worker.\<close>

fun http_of :: "duration \<Rightarrow> (int \<Rightarrow> string) \<Rightarrow> client_request \<Rightarrow> ClientOperation" where
  "http_of timeout ms (ClaimTasksReq wid p) = ClaimTasksOperation (claim_params timeout ms wid p)"
| "http_of timeout ms (ReportReq wid q i d) = ReportOnClaimedTaskOperation (report_params timeout wid q i d)"
| "http_of timeout ms (UnclaimReq wid q i) = UnclaimExistingTaskOperation (unclaim_params timeout wid q i)"
| "http_of timeout ms (MarkDoneReq wid q i d) = MarkClaimedTaskDoneOperation (done_params timeout wid q i d)"
| "http_of timeout ms (MarkFailedReq wid q i d) = MarkClaimedTaskFailedOperation (failed_params timeout wid q i d)"

fun request_route :: "client_request \<Rightarrow> task_route" where
  "request_route (ClaimTasksReq wid p) = ClaimRoute"
| "request_route (ReportReq wid q i d) = ReportRoute"
| "request_route (UnclaimReq wid q i) = UnclaimRoute"
| "request_route (MarkDoneReq wid q i d) = DoneRoute"
| "request_route (MarkFailedReq wid q i d) = FailedRoute"

fun sendable :: "client_request \<Rightarrow> bool" where
  "sendable (ClaimTasksReq wid p) \<longleftrightarrow> int64 (cpAmount p) \<and> int64 (cpBlockForMs p * 1000000)"
| "sendable (ReportReq wid q i d) \<longleftrightarrow> plain q \<and> plain i"
| "sendable (UnclaimReq wid q i) \<longleftrightarrow> plain q \<and> plain i"
| "sendable (MarkDoneReq wid q i d) \<longleftrightarrow> plain q \<and> plain i"
| "sendable (MarkFailedReq wid q i d) \<longleftrightarrow> plain q \<and> plain i"

lemma read_strings [read_simps]: "as_string_array (strings_json ss) = Inr ss"
proof -
  have "as_strings (map JStr ss) = Inr ss" by (induction ss) (simp_all add: or_zero_def)
  then show ?thesis by (simp add: strings_json_def)
qed

lemma read_data [read_simps]:
  "readData (task_new_report_json \<lparr>mnrData = json_or_null d\<rparr>) = Inr d"
  "readData (task_success_json \<lparr>msuData = JObj fs\<rparr>) = Inr (Some fs)"
  "readData (task_failure_json \<lparr>mfaData = JObj fs\<rparr>) = Inr (Some fs)"
  by (simp_all add: readData_def task_new_report_json_def task_success_json_def task_failure_json_def read_simps
      json_or_null_def split: option.splits)

lemma read_claim_body:
  assumes "\<And>n. ms n \<noteq> []" "\<And>n. int64 (n * 1000000) \<Longrightarrow> pd (ms n) = Inr (n * 1000000)"
    and "int64 (cpAmount p)" "int64 (cpBlockForMs p * 1000000)"
  shows "readClaim pd (task_claim_json \<lparr>mcAmount = cpAmount p, mcBlockFor = ms (cpBlockForMs p), mcQueues = Some (cpQueues p)\<rparr>)
    = claim_body p"
proof -
  have n: "strings_json qs \<noteq> JNull" for qs by (simp add: strings_json_def)
  show ?thesis
    using assms
    by (auto simp: readClaim_def task_claim_json_def claim_body_def read_simps n sent_retries_def sent_timeout_def cong: if_cong)
qed

lemmas params_defs = claim_params_def report_params_def unclaim_params_def done_params_def failed_params_def
  NewClaimTasksParams_def NewReportOnClaimedTaskParams_def NewUnclaimExistingTaskParams_def
  NewMarkClaimedTaskDoneParams_def NewMarkClaimedTaskFailedParams_def ClaimTasks_WithClaim_def ClaimTasks_WithWorkerID_def
  ReportOnClaimedTask_WithNewReport_def ReportOnClaimedTask_WithID_def ReportOnClaimedTask_WithQueue_def
  ReportOnClaimedTask_WithWorkerID_def UnclaimExistingTask_WithID_def UnclaimExistingTask_WithQueue_def
  UnclaimExistingTask_WithWorkerID_def MarkClaimedTaskDone_WithSuccess_def MarkClaimedTaskDone_WithID_def
  MarkClaimedTaskDone_WithQueue_def MarkClaimedTaskDone_WithWorkerID_def MarkClaimedTaskFailed_WithFailure_def
  MarkClaimedTaskFailed_WithID_def MarkClaimedTaskFailed_WithQueue_def MarkClaimedTaskFailed_WithWorkerID_def

lemma worker_request_routed:
  assumes gin: "gin_routing router" and path: "path_building build" and fit: "sendable req"
  shows "arrives router build (http_of timeout ms req) (TaskRoute (request_route req))"
proof (rule client_reaches_handler [OF gin path])
  show "meant_for (http_of timeout ms req) (TaskRoute (request_route req))"
    by (cases req) (simp_all add: meant_for.intros)
  show "plain_params (http_of timeout ms req)"
    using fit by (cases req) (auto simp: plain_params_def operation_defs params_defs)
qed

text \<open>
  On their way through HTTP the requests of a worker lose nothing. For every request that the worker sends, the
  server runs exactly the handler call that the model of the worker's servers stands for: the path leads to
  that handler, and queue, id, worker and body arrive as they were given.
\<close>

lemma worker_requests_served:
  assumes gin: "gin_routing router" and path: "path_building build" and fit: "sendable req"
    and block: "\<And>n. ms n \<noteq> []" "\<And>n. int64 (n * 1000000) \<Longrightarrow> pd (ms n) = Inr (n * 1000000)"
  shows "\<exists>tr ps. routed router build (http_of timeout ms req) = Some (TaskRoute tr, ps) \<and>
    serve_task L pd svc conf now tr ps (coParams (http_of timeout ms req)) w = served L svc conf req w"
proof -
  obtain ps where ps: "routed router build (http_of timeout ms req) = Some (TaskRoute (request_route req), ps)"
      "\<forall>n v. (n, v) \<in> set (wrPathParams (coParams (http_of timeout ms req))) \<longrightarrow>
        value_of (server_name (TaskRoute (request_route req)) n) ps = v"
    using worker_request_routed [OF gin path fit] unfolding arrives_def by blast
  have "serve_task L pd svc conf now (request_route req) ps (coParams (http_of timeout ms req)) w = served L svc conf req w"
  proof (cases req)
    case (ClaimTasksReq wid p)
    then show ?thesis
      using fit read_claim_body [where ms = ms and pd = pd and p = p, OF block]
      by (auto simp: operation_defs params_defs body_as_def value_of_def)
  qed (use ps(2) in \<open>auto simp: operation_defs params_defs body_as_def read_simps value_of_def\<close>)
  then show ?thesis using ps(1) by blast
qed

section \<open>The responses\<close>

text \<open>\<open>internal/api/models/common/errors.go\<close>: an error has a message, which \<open>tx\<close> renders.\<close>

definition response_json :: "(message \<Rightarrow> string) \<Rightarrow> (duration \<Rightarrow> string) \<Rightarrow> response \<Rightarrow> json" where
  "response_json tx render rsp =
     (case rspBody rsp of
        TaskBody t \<Rightarrow> api_task_json render t
      | TasksBody ts \<Rightarrow> JArr (map (api_task_json render) ts)
      | ErrorBody m \<Rightarrow> JObj [(''message'', JStr (tx m))])"

definition all_readable :: "response \<Rightarrow> bool" where
  "all_readable rsp \<longleftrightarrow>
     (case rspBody rsp of TaskBody t \<Rightarrow> readable t | TasksBody ts \<Rightarrow> list_all readable ts | ErrorBody m \<Rightarrow> True)"

lemma task_not_null: "api_task_json render t \<noteq> JNull"
  by (simp add: api_task_json_def)

lemma read_tasks:
  "list_all readable ts \<Longrightarrow>
   read_array readTaskTask (map (api_task_json render) ts) = Inr (map (\<lambda>t. Some (client_task render t)) ts)"
  by (induction ts) (simp_all add: read_task nullable_def task_not_null)

lemmas payload_defs = pointer_payload_def slice_payload_def response_type_def

text \<open>A body of the server, as the consumer of the client gets it.\<close>

definition body_of :: "(message \<Rightarrow> string) \<Rightarrow> (duration \<Rightarrow> string) \<Rightarrow> response \<Rightarrow> response_body" where
  "body_of tx render rsp = Inr (Some (response_json tx render rsp))"

text \<open>What the worker's model says of a response is what the readers make of its JSON.\<close>

lemma claim_response_read:
  assumes "all_readable rsp" and "ReadClaimResponse rsp = Inr ts"
  shows "ClaimTasksReader (rspStatus rsp) (body_of tx render rsp) = Result (map (\<lambda>t. Some (client_task render t)) ts)"
  using assms read_tasks [of _ render]
  by (auto simp: ReadClaimResponse_def ClaimTasksReader_def ReadResponse_def ClaimTasksOK_def payload_defs body_of_def
      response_json_def all_readable_def split: body.splits if_splits)

lemmas update_readers = MarkClaimedTaskDoneReader_def MarkClaimedTaskFailedReader_def ReportOnClaimedTaskReader_def
  UnclaimExistingTaskReader_def MarkClaimedTaskDoneOK_def MarkClaimedTaskFailedOK_def ReportOnClaimedTaskOK_def
  UnclaimExistingTaskOK_def MarkClaimedTaskDoneBadRequest_def MarkClaimedTaskFailedBadRequest_def
  ReportOnClaimedTaskBadRequest_def UnclaimExistingTaskBadRequest_def MarkClaimedTaskDoneForbidden_def
  MarkClaimedTaskFailedForbidden_def ReportOnClaimedTaskForbidden_def UnclaimExistingTaskForbidden_def
  MarkClaimedTaskDoneNotFound_def MarkClaimedTaskFailedNotFound_def ReportOnClaimedTaskNotFound_def
  UnclaimExistingTaskNotFound_def

text \<open>
  A task that the client cannot read, because of a number beyond its 64 bits, makes the whole batch unreadable:
  the claim fails with an error that ends the worker.
\<close>

lemma unreadable_batch:
  assumes "\<not> readable t" and "t \<in> set ts" and "rsp = \<lparr>rspStatus = 200, rspBody = TasksBody ts\<rparr>"
  shows "\<exists>err. ClaimTasksReader (rspStatus rsp) (body_of tx render rsp) = Unreadable err"
proof -
  have "\<exists>err. read_array readTaskTask (map (api_task_json render) ts) = Inl err"
    using assms(2)
  proof (induction ts)
    case (Cons u us)
    show ?case
    proof (cases "readable u")
      case True
      then show ?thesis using Cons assms(1) by (auto simp: read_task nullable_def task_not_null)
    qed (simp add: read_task nullable_def task_not_null)
  qed simp
  then show ?thesis
    by (auto simp: assms(3) ClaimTasksReader_def ReadResponse_def ClaimTasksOK_def payload_defs body_of_def response_json_def)
qed

text \<open>
  The server documents 409 for the creation of a task with an id in use; the generated client has no type for it.
\<close>

lemma create_conflict_untyped: "CreateTaskReader 409 body = UnknownError 409"
  by (simp add: CreateTaskReader_def ReadResponse_def CreateTaskCreated_def CreateTaskBadRequest_def response_type_def)

end
