(* ===== verification/ClientCalls.thy ===== *)
theory ClientCalls
  imports ClientServer
begin

text \<open>
  The calls of a worker, from the method of the generated client to the server's handler and back to the result that the
  method returns: the client that \<open>WorkerSystem\<close> gives to the work loop is what the generated client computes.
\<close>

section \<open>The server behind a transport\<close>

text \<open>
  The HTTP runtime with the server's handlers for tasks at the other end; a handler that panics gives no response.
\<close>

definition tasks_transport ::
  "router \<Rightarrow> (pattern \<Rightarrow> (string \<times> string) list \<Rightarrow> string list) \<Rightarrow> (string \<Rightarrow> string) \<Rightarrow> (string \<Rightarrow> string + duration) \<Rightarrow>
     'w Service \<Rightarrow> TasksDefaults \<Rightarrow> ('w \<Rightarrow> 'w \<times> time) \<Rightarrow> (message \<Rightarrow> string) \<Rightarrow> (duration \<Rightarrow> string) \<Rightarrow> 'w http_transport" where
  "tasks_transport router build L pd svc conf now tx render op w =
     (case routed router build op of
        Some (TaskRoute tr, ps) \<Rightarrow>
          (case serve_task L pd svc conf now tr ps (coParams op) w of
             Some (w', rsp) \<Rightarrow> (w', Inr (rspStatus rsp, body_of tx render rsp))
           | None \<Rightarrow> (w, Inl ''EOF''))
      | Some (RecurringRoute rr, ps) \<Rightarrow> (w, Inl ''not a route for tasks'')
      | None \<Rightarrow> (w, Inr (rspStatus NoRoute, body_of tx render NoRoute)))"

section \<open>The calls of a worker\<close>

text \<open>Which method of the client each request calls; the single task of an update is taken as a list.\<close>

definition single :: "'w \<times> (string + 'p read_outcome) \<Rightarrow> 'w \<times> (string + 'p option list read_outcome)" where
  "single r = map_prod (\<lambda>w. w) (map_result (map_read_outcome (\<lambda>t. [Some t]))) r"

fun worker_call ::
  "'w Client \<Rightarrow> duration \<Rightarrow> (int \<Rightarrow> string) \<Rightarrow> client_request \<Rightarrow> 'w \<Rightarrow> 'w \<times> (string + TaskTask option list read_outcome)" where
  "worker_call a timeout ms (ClaimTasksReq wid p) w =
     Client_ClaimTasks a timeout (Some (claim_params timeout ms wid p)) w"
| "worker_call a timeout ms (ReportReq wid q i d) w =
     single (Client_ReportOnClaimedTask a timeout (Some (report_params timeout wid q i d)) w)"
| "worker_call a timeout ms (UnclaimReq wid q i) w =
     single (Client_UnclaimExistingTask a timeout (Some (unclaim_params timeout wid q i)) w)"
| "worker_call a timeout ms (MarkDoneReq wid q i d) w =
     single (Client_MarkClaimedTaskDone a timeout (Some (done_params timeout wid q i d)) w)"
| "worker_call a timeout ms (MarkFailedReq wid q i d) w =
     single (Client_MarkClaimedTaskFailed a timeout (Some (failed_params timeout wid q i d)) w)"

text \<open>What the worker's model takes a response for, and when an outcome of the generated client is the same error.\<close>

fun worker_view :: "client_request \<Rightarrow> response \<Rightarrow> client_error + ApiTask list" where
  "worker_view (ClaimTasksReq wid p) rsp = ReadClaimResponse rsp"
| "worker_view _ rsp =
     (case ReadTaskResponse rsp of
        Some err \<Rightarrow> Inl err
      | None \<Rightarrow> Inr (case rspBody rsp of TaskBody t \<Rightarrow> [t] | _ \<Rightarrow> []))"

fun same_error :: "client_error \<Rightarrow> 'p read_outcome \<Rightarrow> bool" where
  "same_error (APIError c) (UnknownError c') \<longleftrightarrow> c = c'"
| "same_error (OtherError m) (TypedError n b) \<longleftrightarrow> True"
| "same_error (OtherError m) (Unreadable e) \<longleftrightarrow> True"
| "same_error _ _ \<longleftrightarrow> False"

definition agrees :: "(duration \<Rightarrow> string) \<Rightarrow> client_error + ApiTask list \<Rightarrow> TaskTask option list read_outcome \<Rightarrow> bool" where
  "agrees render view out \<longleftrightarrow>
     (case view of
        Inr ts \<Rightarrow>
          if list_all readable ts then out = Result (map (\<lambda>t. Some (client_task render t)) ts)
          else (\<exists>err. out = Unreadable err)
      | Inl err \<Rightarrow> same_error err out)"

section \<open>The calls are served\<close>

fun answered_shape :: "client_request \<Rightarrow> response \<Rightarrow> bool" where
  "answered_shape (ClaimTasksReq wid p) rsp \<longleftrightarrow> (rspStatus rsp = 200 \<longrightarrow> (\<exists>ts. rspBody rsp = TasksBody ts))"
| "answered_shape _ rsp \<longleftrightarrow> (rspStatus rsp = 200 \<longrightarrow> (\<exists>t. rspBody rsp = TaskBody t))"

lemma served_shape:
  assumes "served L (NewService e cfg) conf req w = Some (w', rsp)"
  shows "answered_shape req rsp"
proof (cases req)
  case (ClaimTasksReq wid p)
  then have "handle_claim L (NewService e cfg) conf wid (claim_body p) w = Some (w', rsp)" using assms by simp
  from es_service.claim_replied [OF this] show ?thesis using ClaimTasksReq by auto
next
  case (ReportReq wid q i d)
  then have "handle_reportIn L (NewService e cfg) wid q i (Inr \<lparr>arData = d\<rparr>) w = (w', rsp)" using assms by simp
  from es_service.updates_replied(1) [OF this] show ?thesis using ReportReq by auto
next
  case (UnclaimReq wid q i)
  then have "handle_unClaim L (NewService e cfg) wid q i w = (w', rsp)" using assms by simp
  from es_service.updates_replied(4) [OF this] show ?thesis using UnclaimReq by auto
next
  case (MarkDoneReq wid q i d)
  then have "handle_markDone L (NewService e cfg) wid q i (Inr (Some d)) w = (w', rsp)" using assms by simp
  from es_service.updates_replied(2) [OF this] show ?thesis using MarkDoneReq by auto
next
  case (MarkFailedReq wid q i d)
  then have "handle_markFailed L (NewService e cfg) wid q i (Inr (Some d)) w = (w', rsp)" using assms by simp
  from es_service.updates_replied(3) [OF this] show ?thesis using MarkFailedReq by auto
qed

text \<open>The readers agree with the worker's model on every response of the right shape.\<close>

lemma claim_read:
  assumes "answered_shape (ClaimTasksReq wid p) rsp"
  shows "agrees render (ReadClaimResponse rsp) (ClaimTasksReader (rspStatus rsp) (body_of tx render rsp))"
proof (cases "rspStatus rsp = 200")
  case True
  then obtain ts where ts: "rspBody rsp = TasksBody ts" using assms by auto
  have rsp: "rsp = \<lparr>rspStatus = 200, rspBody = TasksBody ts\<rparr>" using True ts by simp
  have view: "ReadClaimResponse rsp = Inr ts" using True ts by (simp add: ReadClaimResponse_def)
  show ?thesis
  proof (cases "list_all readable ts")
    case True
    then have "all_readable rsp" by (simp add: all_readable_def ts)
    from claim_response_read [OF this view, of tx render] True show ?thesis by (simp add: agrees_def view)
  next
    case False
    then obtain t where "\<not> readable t" "t \<in> set ts" by (auto simp: list_all_iff)
    from unreadable_batch [OF this rsp, of tx render] False show ?thesis by (simp add: agrees_def view)
  qed
qed (simp add: agrees_def ReadClaimResponse_def ClaimTasksReader_def ReadResponse_def ClaimTasksOK_def response_type_def)

lemma update_read:
  assumes "rspStatus rsp = 200 \<longrightarrow> (\<exists>t. rspBody rsp = TaskBody t)"
    and "reader \<in> {MarkClaimedTaskDoneReader, MarkClaimedTaskFailedReader, ReportOnClaimedTaskReader, UnclaimExistingTaskReader}"
  shows "agrees render (worker_view (UnclaimReq wid q i) rsp)
    (map_read_outcome (\<lambda>t. [Some t]) (reader (rspStatus rsp) (body_of tx render rsp)))"
proof (cases "rspStatus rsp = 200")
  case True
  then obtain t where t: "rspBody rsp = TaskBody t" using assms(1) by blast
  then show ?thesis
    using assms(2) True
    by (auto simp: agrees_def ReadTaskResponse_def update_readers ReadResponse_def payload_defs body_of_def response_json_def
        read_task task_not_null)
next
  case False
  then show ?thesis
    using assms(2)
    by (auto simp: agrees_def ReadTaskResponse_def update_readers ReadResponse_def response_type_def split: sum.splits)
qed

lemma submit_over_transport:
  assumes "routed router build op = Some (TaskRoute tr, ps)"
    and "serve_task L pd svc conf now tr ps (coParams op) w = Some (w', rsp)"
  shows "Submit (tasks_transport router build L pd svc conf now tx render) op reader w =
    (w', Inr (reader (rspStatus rsp) (body_of tx render rsp)))"
  using assms by (simp add: Submit_def tasks_transport_def)

lemmas call_defs = Client_ClaimTasks_def Client_ReportOnClaimedTask_def Client_UnclaimExistingTask_def
  Client_MarkClaimedTaskDone_def Client_MarkClaimedTaskFailed_def NewClient_def params_or_def single_def

text \<open>
  C22: the generated client and the server's HTTP interface are, together, the client that the model of the worker
  assumes. Whatever method the work loop calls, the request reaches the handler for it and the
  store is left as the handler leaves it; and what the method returns is what the handler answered: the tasks, field by
  field, if their numbers are in the client's range, and otherwise an error; on a refusal the error of that status.
\<close>

theorem worker_calls_served:
  assumes gin: "gin_routing router" and path: "path_building build" and fit: "sendable req"
    and block: "\<And>n. ms n \<noteq> []" "\<And>n. int64 (n * 1000000) \<Longrightarrow> pd (ms n) = Inr (n * 1000000)"
    and served: "served L (NewService e cfg) conf req w = Some (w', rsp)"
  shows "\<exists>out. worker_call (NewClient (tasks_transport router build L pd (NewService e cfg) conf now tx render) formats)
      timeout ms req w = (w', Inr out) \<and> agrees render (worker_view req rsp) out"
proof -
  let ?op = "http_of timeout ms req"
  obtain tr ps where r: "routed router build ?op = Some (TaskRoute tr, ps)"
      "serve_task L pd (NewService e cfg) conf now tr ps (coParams ?op) w = Some (w', rsp)"
    using worker_requests_served [where svc = "NewService e cfg" and L = L and conf = conf and w = w and now = now
        and timeout = timeout, OF gin path fit block] served by metis
  note sent = submit_over_transport [OF r, of tx render]
  note shape = served_shape [OF served]
  show ?thesis
  proof (cases req)
    case (ClaimTasksReq wid p)
    then show ?thesis using sent [where reader = ClaimTasksReader] claim_read [of wid p rsp render tx] shape by (simp add: call_defs)
  qed (use sent [where reader = ReportOnClaimedTaskReader] sent [where reader = UnclaimExistingTaskReader]
      sent [where reader = MarkClaimedTaskDoneReader] sent [where reader = MarkClaimedTaskFailedReader]
      shape update_read [of rsp _ render] in \<open>simp_all add: call_defs\<close>)
qed

end
