(* ===== verification/ClientExamples.thy ===== *)
theory ClientExamples
  imports ClientCalls RecurringApiExamples
begin

text \<open>The theorems about the client at concrete requests and responses.\<close>

section \<open>The libraries\<close>

definition first_match :: router where
  "first_match rs meth segs = (case matching rs meth segs of [x] \<Rightarrow> Some x | _ \<Rightarrow> None)"

lemma first_match_routing: "gin_routing first_match"
  by (simp add: gin_routing_def first_match_def)

definition plain_build :: "pattern \<Rightarrow> (string \<times> string) list \<Rightarrow> string list" where
  "plain_build pat ps = map (substitute ps) pat"

lemma plain_path_building: "path_building plain_build"
  by (simp add: path_building_def plain_build_def)

text \<open>Durations in unary, as milliseconds and as nanoseconds.\<close>

definition unary :: "int \<Rightarrow> string" where
  "unary n = (if n < 0 then CHR ''-'' else CHR ''+'') # replicate (nat \<bar>n\<bar>) CHR ''i''"

definition unary_value :: "int \<Rightarrow> string \<Rightarrow> string + duration" where
  "unary_value scale s =
     (case s of [] \<Rightarrow> Inl ''invalid duration''
      | c # ds \<Rightarrow> Inr ((if c = CHR ''-'' then - int (length ds) else int (length ds)) * scale))"

lemma unary_values: "unary n \<noteq> []" "unary_value scale (unary n) = Inr (n * scale)"
  by (auto simp: unary_def unary_value_def)

lemma unary_inj: "inj unary"
  by (rule injI) (metis unary_values(2) [of 1] sum.inject(2) mult.right_neutral)

section \<open>The theorems\<close>

text \<open>A worker hands its task back; the header with its id is trimmed on the way.\<close>

definition example_request :: client_request where
  "example_request = UnclaimReq '' w1'' ''run-later'' ''t1''"

theorem worker_calls_served_witness:
  "\<forall>conf now tx. \<exists>w' rsp out. served lower example_service conf example_request (example_world example_claimed) = Some (w', rsp) \<and>
     rspStatus rsp = 200 \<and>
     worker_call (NewClient (tasks_transport first_match plain_build lower (unary_value 1000000) example_service conf now tx unary) 0)
       30 unary example_request (example_world example_claimed) = (w', Inr out) \<and>
     agrees unary (worker_view example_request rsp) out"
proof (intro allI)
  fix conf now tx
  obtain w' t' where run: "EsUnClaim example_env example_conf ''w1'' ''run-later'' ''t1''
      (example_world example_claimed) = (w', Inr t')"
    using example_unclaim by blast
  let ?rsp = "respond 200 (TaskBody (FromDomainTask t'))"
  have served: "served lower example_service conf example_request (example_world example_claimed) = Some (w', ?rsp)"
    using run by (simp add: example_request_def handle_unClaim_def example_queue example_worker ctlUnClaim_def
        answer_to_api reply_of_def NewService_def)
  have fit: "sendable example_request" by (simp add: example_request_def plain_def)
  obtain out where "worker_call
      (NewClient (tasks_transport first_match plain_build lower (unary_value 1000000) example_service conf now tx unary) 0)
       30 unary example_request (example_world example_claimed) = (w', Inr out)"
      "agrees unary (worker_view example_request ?rsp) out"
    using worker_calls_served [where now = now and tx = tx and render = unary and formats = 0 and timeout = 30,
        OF first_match_routing plain_path_building fit unary_values(1) unary_values(2) served] by blast
  moreover have "rspStatus ?rsp = 200" by (simp add: respond_def)
  ultimately show "\<exists>w' rsp out. served lower example_service conf example_request (example_world example_claimed) = Some (w', rsp) \<and>
     rspStatus rsp = 200 \<and>
     worker_call (NewClient (tasks_transport first_match plain_build lower (unary_value 1000000) example_service conf now tx unary) 0)
       30 unary example_request (example_world example_claimed) = (w', Inr out) \<and>
     agrees unary (worker_view example_request rsp) out"
    using served by blast
qed

definition example_api_task :: ApiTask where
  "example_api_task = \<lparr>atID = ''t1'', atQueue = ''run-later'', atRetryTimes = 3, atAttempted = 1, atKind = ''hello'',
     atState = CLAIMED, atPriority = -1, atProcessingTimeout = 5, atRunAt = 7, atArgs = Some [(''x'', JNum 1)],
     atContext = None, atLastClaimed = Some \<lparr>alWorkerId = ''w1'', alClaimedAt = 8, alTimesOutAt = 13, alLastReport = None,
       alResult = None\<rparr>, atLastEnqueuedAt = 6,
     atMetadata = \<lparr>amCreatedAt = 6, amModifiedAt = 8, amVersion = \<lparr>avSeqNum = 2, avPrimaryTerm = 1\<rparr>\<rparr>,
     atRecurringTaskId = None\<rparr>"

theorem client_reads_tasks_witness:
  "\<exists>m. readTaskTask (api_task_json unary example_api_task) = Inr m \<and> validateTaskTask (\<lambda>_. True) m = None"
proof -
  have "readable example_api_task"
    by (simp add: readable_def readable_version_def example_api_task_def int64_def)
  with client_reads_tasks [of unary example_api_task]
  obtain m where m: "readTaskTask (api_task_json unary example_api_task) = Inr m" by blast
  have "validateTaskTask (\<lambda>_. True) m = None"
    using conjunct2 [OF client_reads_tasks [of unary example_api_task], rule_format, OF m, of "\<lambda>_. True"] by simp
  with m show ?thesis by blast
qed

definition example_new_task :: TaskNewTask where
  "example_new_task = \<lparr>mnArgs = JObj [], mnContext = JNull, mnKind = Some ''hello'', mnPriority = 2,
     mnProcessingTimeout = [], mnQueue = Some ''run-later'', mnRetryTimes = 0, mnRunAt = TimeZero\<rparr>"

text \<open>A task with no retries becomes one with the ten of the default.\<close>

lemma client_new_task_witness:
  "\<exists>a. readNewTask (unary_value 1) (new_task_json (\<lambda>t. t) example_new_task) = Inr a \<and>
     nRetryTimes (ToDomainNewTask a 10 99 30) = 10 \<and> nRunAt (ToDomainNewTask a 10 99 30) = 99"
proof -
  have "validateTaskNewTask (\<lambda>_. True) example_new_task = None" "int64 (mnPriority example_new_task)"
    "int64 (mnRetryTimes example_new_task)"
    by (simp_all add: example_new_task_def validateTaskNewTask_def collect_def required_def validate_optional_time_def int64_def)
  note c = client_new_task [OF this, of "unary_value 1" "\<lambda>t. t" 10 99 30]
  have "acceptable (unary_value 1) (mnRetryTimes example_new_task) (mnProcessingTimeout example_new_task)
      (mnArgs example_new_task) (mnContext example_new_task)"
    by (simp add: acceptable_def example_new_task_def)
  then obtain a where "readNewTask (unary_value 1) (new_task_json (\<lambda>t. t) example_new_task) = Inr a"
    using c by blast
  with c show ?thesis by (auto simp: Let_def example_new_task_def)
qed

text \<open>
  The store holds a recurring task that a server has loaded. A client that reads it and writes it back makes it one to
  load again, and nothing else.
\<close>

definition loaded_recurring :: RTask where
  "loaded_recurring = example_recurring\<lparr>rtLoadedAt := Some 7\<rparr>"

definition loaded_world :: "PersistedRTask mem_world" where
  "loaded_world = (1000, (\<lambda>_. [])(recurring_key0 := [(Some (domainToPersistable loaded_recurring 5), next_version 0)]))"

definition back_request :: RecurringTaskUpdate where
  "back_request = \<lparr>muScheduleExpression = ''0 * * * *'', muTaskDefinition = Some (client_definition unary example_definition)\<rparr>"

lemma loaded_defs: "rtID loaded_recurring = ''hourly''" "rtScheduleExpression loaded_recurring = ''0 * * * *''"
  "rtTaskDefinition loaded_recurring = example_definition" "tdProcessingTimeout example_definition = 30"
  by (simp_all add: loaded_recurring_def example_recurring_def example_definition_def)

lemma loaded_read:
  "readRecurringTask (recurring_task_json unary (marshal_rtask (\<lambda>_. loaded_recurring) (FromDomainRTask (\<lambda>_. loaded_recurring) 0)))
    = Inr (client_recurring unary loaded_recurring)"
  by (simp add: readRecurringTask_def recurring_task_json_def marshal_rtask_def FromDomainRTask_def Let_def read_simps
      read_metadata read_client_definition loaded_recurring_def example_recurring_def example_definition_def
      client_recurring_def readable_version_def FromDomainMetadata_def int64_def next_version_def)

lemma loaded_back:
  "\<exists>w' t. handle_rupdate lower example_parse example_rservice (Defaults example_conf) ''hourly''
     (Inr (sent_back loaded_recurring)) loaded_world = (w', rrespond 200 (RTaskBody t))"
proof -
  let ?doc = "domainToPersistable loaded_recurring 5"
  have valid: "valid_rtask_update lower example_parse (sent_back loaded_recurring)"
    by (simp add: valid_rtask_update_def sent_back_def loaded_defs ScheduleExpressionValidator_def example_parse_def
        valid_definition_def QueueNameValidator_def example_queue example_definition_def Let_def)
  have get: "rGet recurring_memory ''hourly'' False loaded_world =
      (loaded_world, Inr (persistedToDomain ''hourly'' ?doc (next_version 0)))"
    by (simp add: rGet_def recurring_memory_def mem_client_def loaded_world_def recurring_key0_def mem_read_def
        mem_hist_def key_ok_def anywhere_def hit_toDomainTask_def mem_hit_def persistedToDomain_def
        loaded_recurring_def example_recurring_defs domainToPersistable_def hit_version_def next_version_def)
  have "\<exists>w' t'. rUpdate recurring_memory (apply_update (Defaults example_conf) (sent_back loaded_recurring)
      (persistedToDomain ''hourly'' ?doc (next_version 0))) loaded_world = (w', Inr t')"
    by (simp add: rUpdate_def recurring_memory_def mem_client_def loaded_world_def recurring_key0_def
        mem_hist_def key_ok_def anywhere_def persistedToDomain_def loaded_recurring_def example_recurring_defs domainToPersistable_def
        mem_locked_write_def mem_write_def rt_version_def next_version_def status_2xx_def apply_update_def
        sent_back_def Let_def)
  then show ?thesis
    using get valid by (auto simp: handle_rupdate_def bind_def ctlRUpdate_def NewRService_def ranswer_to_rapi)
qed

theorem recurring_write_back_witness:
  "\<exists>w' p v v' at. written_over (mem_hist anywhere) w' (recurring_key ''hourly'') (Some p, v)
      (Some (domainToPersistable (written_back (Defaults example_conf) loaded_recurring (persistedToDomain ''hourly'' p v)) at), v') \<and>
    rtLoadedAt loaded_recurring = Some 7 \<and>
    rtLoadedAt (written_back (Defaults example_conf) loaded_recurring (persistedToDomain ''hourly'' p v)) = None"
proof -
  let ?h = "\<lambda>_ :: address. loaded_recurring"
  have timeout: "unary_value 1 (unary (tdProcessingTimeout (rtTaskDefinition (?h 0)))) =
      Inr (tdProcessingTimeout (rtTaskDefinition (?h 0)))" "unary (tdProcessingTimeout (rtTaskDefinition (?h 0))) \<noteq> []"
    by (simp_all add: loaded_defs unary_values)
  have same: "mgScheduleExpression (client_recurring unary loaded_recurring) = Some (muScheduleExpression back_request)"
    "mgTaskDefinition (client_recurring unary loaded_recurring) = muTaskDefinition back_request"
    by (simp_all add: client_recurring_def loaded_defs back_request_def)
  have req: "readRTaskUpdate (unary_value 1) (recurring_update_json back_request) = Inr (sent_back loaded_recurring)"
    using written_back_request [where h = ?h and i = 0 and render = unary and pd = "unary_value 1", OF loaded_read timeout same] by simp
  obtain w' t where call: "handle_rupdate lower example_parse example_rservice (Defaults example_conf) ''hourly''
      (Inr (sent_back loaded_recurring)) loaded_world = (w', rrespond 200 (RTaskBody t))"
    using loaded_back by blast
  have "handle_rupdate lower example_parse example_rservice (Defaults example_conf) (rtID (?h 0))
      (readRTaskUpdate (unary_value 1) (recurring_update_json back_request)) loaded_world = (w', rrespond 200 (RTaskBody t))"
    using call by (simp only: req loaded_defs)
  from recurring_write_back [where h = ?h and a = 0 and render = unary and pd = "unary_value 1", OF loaded_read timeout same recurring_memory_store recurring_memory_ids this]
  obtain p v v' at where "written_over (mem_hist anywhere) w' (recurring_key ''hourly'') (Some p, v)
      (Some (domainToPersistable (written_back (Defaults example_conf) loaded_recurring (persistedToDomain ''hourly'' p v)) at), v')"
    by (auto simp: rrespond_def Let_def loaded_defs)
  then show ?thesis
    by (intro exI conjI, assumption) (simp_all add: written_back_def loaded_recurring_def)
qed

end
