(* ===== verification/Diagnostics.thy ===== *)
theory Diagnostics
  imports EsCommon CronScheduler
begin

text \<open>
  What the program says of errors and of the work of its libraries: the errors of \<open>internal/infra/elasticsearch/common/models.go\<close>
  and the adapter of \<open>internal/infra/cron/task/recurring/scheduler.go\<close> that logs for the cron library.
\<close>

section \<open>Errors of Elasticsearch\<close>

text \<open>
  Errors of other packages are known by their text here. \<open>list_text\<close> and \<open>decimal\<close> are what \<open>fmt\<close> prints of a list and of a number.
\<close>

datatype go_error =
    Errorf string
  | ElasticsearchErr go_error
  | JsonSerdesErr "go_error list"

fun Error :: "(string list \<Rightarrow> string) \<Rightarrow> go_error \<Rightarrow> string" where
  "Error list_text (Errorf s) = s"
| "Error list_text (ElasticsearchErr e) = ''Error from Elasticsearch: '' @ Error list_text e"
| "Error list_text (JsonSerdesErr es) = ''Error working with JSON: '' @ list_text (map (Error list_text) es)"

fun Unwrap :: "(string list \<Rightarrow> string) \<Rightarrow> go_error \<Rightarrow> go_error option" where
  "Unwrap list_text (Errorf s) = None"
| "Unwrap list_text (ElasticsearchErr e) = Some e"
| "Unwrap list_text (JsonSerdesErr [e]) = Some e"
| "Unwrap list_text (JsonSerdesErr es) =
     Some (Errorf (''Multiple JSON serdes errors: ['' @ list_text (map (Error list_text) es) @ '']''))"

text \<open>The body is what was read of it, with the error that ended the reading, if one did.\<close>

definition UnexpectedEsStatusError :: "(nat \<Rightarrow> string) \<Rightarrow> nat \<Rightarrow> string \<times> string option \<Rightarrow> go_error" where
  "UnexpectedEsStatusError decimal status body =
     (let content = (case body of (read, Some err) \<Rightarrow> read | (read, None) \<Rightarrow> [])
      in ElasticsearchErr (Errorf
           (''Unexpected status from ES: ['' @ decimal status @ ''], body: ['' @ content @ '']'')))"

text \<open>A body that was read to its end is not in the error: the reason that Elasticsearch gave is lost.\<close>

lemma reason_lost:
  "UnexpectedEsStatusError decimal status (read, None) =
   ElasticsearchErr (Errorf (''Unexpected status from ES: ['' @ decimal status @ ''], body: []''))"
  by (simp add: UnexpectedEsStatusError_def)

section \<open>The log of cron\<close>

text \<open>The values that cron logs: a time, a string, or another value, which \<open>sprint\<close> prints.\<close>

datatype 'v log_value = LogTime time | LogString string | LogOther 'v

fun log_key :: "('v log_value \<Rightarrow> string) \<Rightarrow> 'v log_value \<Rightarrow> string" where
  "log_key sprint (LogString s) = s"
| "log_key sprint v = sprint v"

fun log_rendered :: "(time \<Rightarrow> string) \<Rightarrow> 'v log_value \<Rightarrow> 'v log_value" where
  "log_rendered rfc3339 (LogTime t) = LogString (rfc3339 t)"
| "log_rendered rfc3339 v = v"

fun format_from ::
  "('v log_value \<Rightarrow> string) \<Rightarrow> (time \<Rightarrow> string) \<Rightarrow> 'v log_value list \<Rightarrow> (string \<rightharpoonup> 'v log_value) \<Rightarrow> (string \<rightharpoonup> 'v log_value)" where
  "format_from sprint rfc3339 (k # v # kvs) m =
     format_from sprint rfc3339 kvs (m(log_key sprint k \<mapsto> log_rendered rfc3339 v))"
| "format_from sprint rfc3339 _ m = m"

definition formatTimeValues ::
  "('v log_value \<Rightarrow> string) \<Rightarrow> (time \<Rightarrow> string) \<Rightarrow> 'v log_value list \<Rightarrow> (string \<rightharpoonup> 'v log_value)" where
  "formatTimeValues sprint rfc3339 keysAndValues = format_from sprint rfc3339 keysAndValues Map.empty"

text \<open>No time is left in what is logged, and a key without a value is not logged.\<close>

lemma format_from_times:
  "ran (format_from sprint rfc3339 kvs m) \<subseteq> ran m \<union> {v. \<forall>t. v \<noteq> LogTime t}"
proof (induction sprint rfc3339 kvs m rule: format_from.induct)
  case (1 sprint rfc3339 k v kvs m)
  have "log_rendered rfc3339 v \<noteq> LogTime t" for t by (cases v) simp_all
  then have "ran (m(log_key sprint k \<mapsto> log_rendered rfc3339 v)) \<subseteq> ran m \<union> {v. \<forall>t. v \<noteq> LogTime t}"
    by (auto simp: ran_def)
  with 1 show ?case unfolding format_from.simps fun_upd_def by blast
qed auto

lemma no_times_logged: "LogTime t \<notin> ran (formatTimeValues sprint rfc3339 kvs)"
  using format_from_times [of sprint rfc3339 kvs Map.empty] by (auto simp: formatTimeValues_def)

text \<open>\<open>Info\<close> and \<open>Error\<close> of the logger that cron is given: the fields and the message, if messages of the level are enabled.\<close>

definition cron_log_Info ::
  "('v log_value \<Rightarrow> string) \<Rightarrow> (time \<Rightarrow> string) \<Rightarrow> bool \<Rightarrow> string \<Rightarrow> 'v log_value list \<Rightarrow>
     ((string \<rightharpoonup> 'v log_value) \<times> string) option" where
  "cron_log_Info sprint rfc3339 enabled msg kvs = (if enabled then Some (formatTimeValues sprint rfc3339 kvs, msg) else None)"

definition cron_log_Error ::
  "('v log_value \<Rightarrow> string) \<Rightarrow> (time \<Rightarrow> string) \<Rightarrow> bool \<Rightarrow> string \<Rightarrow> string \<Rightarrow> 'v log_value list \<Rightarrow>
     ((string \<rightharpoonup> 'v log_value) \<times> string \<times> string) option" where
  "cron_log_Error sprint rfc3339 enabled err msg kvs =
     (if enabled then Some (formatTimeValues sprint rfc3339 kvs, err, msg) else None)"

end
