(* ===== verification/CipherCode.thy ===== *)
theory CipherCode
  imports WorkerSystem
begin

text \<open>
  The ciphers of the example application (\<open>example/ciphers/worker-go/handlers/ciphers.go\<close>), with what
  they use of Go: strings as sequences of runes, and the encodings of the standard library.
\<close>

unbundle bit_operations_syntax

section \<open>Strings and runes\<close>

text \<open>
  The conversion \<open>[]rune(text)\<close> reads UTF-8; a byte that does not begin a well-formed sequence becomes
  the replacement character. \<open>decode_rune\<close> is the first rune and the number of bytes it takes.
\<close>

type_synonym rune = nat

definition RuneError :: rune where
  "RuneError = 0xFFFD"

definition continues :: "nat \<Rightarrow> bool" where
  "continues b \<longleftrightarrow> 0x80 \<le> b \<and> b \<le> 0xBF"

text \<open>The second byte, which excludes overlong forms, surrogates and what is beyond Unicode.\<close>

definition second_ok :: "nat \<Rightarrow> nat \<Rightarrow> bool" where
  "second_ok b0 b1 \<longleftrightarrow> continues b1 \<and> (b0 = 0xE0 \<longrightarrow> 0xA0 \<le> b1) \<and> (b0 = 0xED \<longrightarrow> b1 \<le> 0x9F) \<and>
     (b0 = 0xF0 \<longrightarrow> 0x90 \<le> b1) \<and> (b0 = 0xF4 \<longrightarrow> b1 \<le> 0x8F)"

definition decode_rune :: "nat list \<Rightarrow> rune \<times> nat" where
  "decode_rune bs =
     (let n = length bs in
      if n = 0 then (RuneError, 0)
      else if bs ! 0 < 0x80 then (bs ! 0, 1)
      else if 1 < n \<and> 0xC2 \<le> bs ! 0 \<and> bs ! 0 \<le> 0xDF \<and> continues (bs ! 1) then
        ((bs ! 0 - 0xC0) * 64 + (bs ! 1 - 0x80), 2)
      else if 2 < n \<and> 0xE0 \<le> bs ! 0 \<and> bs ! 0 \<le> 0xEF \<and> second_ok (bs ! 0) (bs ! 1) \<and> continues (bs ! 2) then
        ((bs ! 0 - 0xE0) * 4096 + (bs ! 1 - 0x80) * 64 + (bs ! 2 - 0x80), 3)
      else if 3 < n \<and> 0xF0 \<le> bs ! 0 \<and> bs ! 0 \<le> 0xF4 \<and> second_ok (bs ! 0) (bs ! 1) \<and> continues (bs ! 2) \<and>
          continues (bs ! 3) then
        ((bs ! 0 - 0xF0) * 262144 + (bs ! 1 - 0x80) * 4096 + (bs ! 2 - 0x80) * 64 + (bs ! 3 - 0x80), 4)
      else (RuneError, 1))"

lemma decode_rune_size: "bs \<noteq> [] \<Longrightarrow> 0 < snd (decode_rune bs)"
  by (simp add: decode_rune_def Let_def)

function runes_of :: "nat list \<Rightarrow> rune list" where
  "runes_of bs = (if bs = [] then [] else fst (decode_rune bs) # runes_of (drop (snd (decode_rune bs)) bs))"
  by auto
termination
  by (relation "measure length") (auto simp: decode_rune_size)

declare runes_of.simps [simp del]

text \<open>The conversion back; what is not a Unicode scalar value is written as the replacement character.\<close>

definition scalar :: "rune \<Rightarrow> bool" where
  "scalar r \<longleftrightarrow> r < 0xD800 \<or> 0xDFFF < r \<and> r \<le> 0x10FFFF"

definition encode_rune :: "rune \<Rightarrow> nat list" where
  "encode_rune r0 =
     (let r = (if scalar r0 then r0 else RuneError) in
      if r < 0x80 then [r]
      else if r < 0x800 then [0xC0 + r div 64, 0x80 + r mod 64]
      else if r < 0x10000 then [0xE0 + r div 4096, 0x80 + r div 64 mod 64, 0x80 + r mod 64]
      else [0xF0 + r div 262144, 0x80 + r div 4096 mod 64, 0x80 + r div 64 mod 64, 0x80 + r mod 64])"

definition string_bytes :: "string \<Rightarrow> nat list" where
  "string_bytes s = map of_char s"

definition bytes_string :: "nat list \<Rightarrow> string" where
  "bytes_string bs = map char_of bs"

definition string_runes :: "string \<Rightarrow> rune list" where
  "string_runes s = runes_of (string_bytes s)"

definition runes_string :: "rune list \<Rightarrow> string" where
  "runes_string rs = bytes_string (concat (map encode_rune rs))"

text \<open>The sequences of two, three and four bytes, with the bits of the rune apart.\<close>

lemma decode_2: "2 \<le> h \<Longrightarrow> h \<le> 31 \<Longrightarrow> l \<le> 63 \<Longrightarrow> decode_rune ((192 + h) # (128 + l) # bs) = (h * 64 + l, 2)"
  by (simp add: decode_rune_def continues_def)

lemma decode_3:
  "h \<le> 15 \<Longrightarrow> m \<le> 63 \<Longrightarrow> l \<le> 63 \<Longrightarrow> (h = 0 \<longrightarrow> 32 \<le> m) \<Longrightarrow> (h = 13 \<longrightarrow> m \<le> 31) \<Longrightarrow>
     decode_rune ((224 + h) # (128 + m) # (128 + l) # bs) = (h * 4096 + m * 64 + l, 3)"
  by (simp add: decode_rune_def continues_def second_ok_def)

lemma decode_4:
  "h \<le> 4 \<Longrightarrow> m \<le> 63 \<Longrightarrow> k \<le> 63 \<Longrightarrow> l \<le> 63 \<Longrightarrow> (h = 0 \<longrightarrow> 16 \<le> m) \<Longrightarrow> (h = 4 \<longrightarrow> m \<le> 15) \<Longrightarrow>
     decode_rune ((240 + h) # (128 + m) # (128 + k) # (128 + l) # bs) = (h * 262144 + m * 4096 + k * 64 + l, 4)"
  by (simp add: decode_rune_def continues_def second_ok_def)

lemma decode_encode:
  assumes "scalar r"
  shows "decode_rune (encode_rune r @ bs) = (r, length (encode_rune r))"
proof -
  consider "r < 0x80" | "0x80 \<le> r" "r < 0x800" | "0x800 \<le> r" "r < 0x10000" | "0x10000 \<le> r" "r \<le> 0x10FFFF"
    using assms unfolding scalar_def by linarith
  then show ?thesis
  proof cases
    case 1
    then show ?thesis using assms by (simp add: encode_rune_def decode_rune_def)
  next
    case 2
    then have "2 \<le> r div 64" "r div 64 < 32"
      using div_le_mono [of 128 r 64] by (simp_all add: less_mult_imp_div_less)
    then have "2 \<le> r div 64" "r div 64 \<le> 31" "r mod 64 \<le> 63" by simp_all
    from decode_2 [OF this, of bs] show ?thesis using 2 assms by (simp add: encode_rune_def)
  next
    case 3
    define q where "q = r div 64"
    have q: "r div 4096 = q div 64" by (simp add: q_def div_mult2_eq [symmetric])
    have "32 \<le> q" "q < 1024" "r < 0xD800 \<Longrightarrow> q < 864" "0xE000 \<le> r \<Longrightarrow> 896 \<le> q"
      using 3 div_le_mono [of 2048 r 64] div_le_mono [of 57344 r 64] unfolding q_def
      by (simp_all add: less_mult_imp_div_less)
    then have "32 \<le> q" "q < 1024" "q < 864 \<or> 896 \<le> q"
      using 3 assms unfolding scalar_def by auto
    then have "q div 64 < 16" "q div 64 = 0 \<longrightarrow> 32 \<le> q mod 64" "q div 64 = 13 \<longrightarrow> q mod 64 \<le> 31"
      using div_mult_mod_eq [of q 64] mod_less_divisor [of 64 q]
      by (simp add: less_mult_imp_div_less, linarith, linarith)
    then have "q div 64 \<le> 15" "q mod 64 \<le> 63" "r mod 64 \<le> 63" "q div 64 = 0 \<longrightarrow> 32 \<le> q mod 64"
        "q div 64 = 13 \<longrightarrow> q mod 64 \<le> 31"
      by simp_all
    note d = decode_3 [OF this, of bs]
    have "q div 64 * 4096 + q mod 64 * 64 = q * 64" using div_mult_mod_eq [of q 64] by linarith
    moreover have "q * 64 + r mod 64 = r" by (simp add: q_def)
    ultimately show ?thesis using 3 assms d by (simp add: encode_rune_def q q_def [symmetric])
  next
    case 4
    define q where "q = r div 64"
    define p where "p = q div 64"
    have q: "r div 4096 = p" "r div 262144 = p div 64" by (simp_all add: p_def q_def div_mult2_eq [symmetric])
    have "1024 \<le> q" "q < 17408"
      using 4 div_le_mono [of 65536 r 64] unfolding q_def by (simp_all add: less_mult_imp_div_less)
    then have "16 \<le> p" "p < 272"
      using div_le_mono [of 1024 q 64] unfolding p_def by (simp_all add: less_mult_imp_div_less)
    then have "p div 64 < 5" "p div 64 = 0 \<longrightarrow> 16 \<le> p mod 64" "p div 64 = 4 \<longrightarrow> p mod 64 \<le> 15"
      using div_mult_mod_eq [of p 64] mod_less_divisor [of 64 p]
      by (simp add: less_mult_imp_div_less, linarith, linarith)
    then have "p div 64 \<le> 4" "p mod 64 \<le> 63" "q mod 64 \<le> 63" "r mod 64 \<le> 63"
        "p div 64 = 0 \<longrightarrow> 16 \<le> p mod 64" "p div 64 = 4 \<longrightarrow> p mod 64 \<le> 15"
      by simp_all
    note d = decode_4 [OF this, of bs]
    have "p div 64 * 262144 + p mod 64 * 4096 = p * 4096" using div_mult_mod_eq [of p 64] by linarith
    moreover have "p * 4096 + q mod 64 * 64 = q * 64" using div_mult_mod_eq [of q 64] unfolding p_def by linarith
    moreover have "q * 64 + r mod 64 = r" by (simp add: q_def)
    ultimately show ?thesis using 4 assms d by (simp add: encode_rune_def q q_def [symmetric])
  qed
qed

lemma encode_not_empty: "encode_rune r \<noteq> []"
  by (simp add: encode_rune_def Let_def)

lemma runes_of_encoded: "list_all scalar rs \<Longrightarrow> runes_of (concat (map encode_rune rs)) = rs"
proof (induction rs)
  case Nil
  then show ?case by (simp add: runes_of.simps)
next
  case (Cons r rs)
  then show ?case
    by (subst runes_of.simps) (simp add: decode_encode encode_not_empty)
qed

lemma encoded_bytes: "b \<in> set (encode_rune r) \<Longrightarrow> b < 256"
proof -
  define s where "s = (if scalar r then r else RuneError)"
  have "s \<le> 0x10FFFF" by (simp add: s_def scalar_def RuneError_def)
  then have "s div 262144 < 5" by (simp add: less_mult_imp_div_less)
  moreover have "s < 0x800 \<Longrightarrow> s div 64 < 32" "s < 0x10000 \<Longrightarrow> s div 4096 < 16"
    by (simp_all add: less_mult_imp_div_less)
  moreover have "s div 4096 mod 64 < 64" "s div 64 mod 64 < 64" "s mod 64 < 64" by simp_all
  ultimately show "b \<in> set (encode_rune r) \<Longrightarrow> b < 256"
    unfolding encode_rune_def s_def [symmetric] Let_def by (simp split: if_splits) linarith+
qed

text \<open>A string that was written from runes is read back as the same runes.\<close>

lemma string_runes_of_runes: "list_all scalar rs \<Longrightarrow> string_runes (runes_string rs) = rs"
proof -
  assume rs: "list_all scalar rs"
  have "map (of_char \<circ> char_of) bs = (bs :: nat list)" if "\<forall>b \<in> set bs. b < 256" for bs
    using that by (induction bs) (simp_all add: of_char_of)
  then have "string_bytes (runes_string rs) = concat (map encode_rune rs)"
    using encoded_bytes by (auto simp: string_bytes_def runes_string_def bytes_string_def)
  then show ?thesis using runes_of_encoded [OF rs] by (simp add: string_runes_def)
qed

section \<open>The ciphers\<close>

text \<open>The lookup table of a letter begins at \<open>upper[0]\<close> or \<open>lower[0]\<close>; the sum is one of \<open>uint\<close>s and wraps.\<close>

definition rotate_rune :: "u64 \<Rightarrow> rune \<Rightarrow> rune" where
  "rotate_rune shift char =
     (let rotated = (\<lambda>first.
        let offset = of_nat char - of_nat first;
            shiftedIdx = offset + shift
        in first + unat (if shiftedIdx > 25 then shiftedIdx mod 26 else shiftedIdx))
      in if 65 \<le> char \<and> char \<le> 90 then rotated 65
         else if 97 \<le> char \<and> char \<le> 122 then rotated 97
         else char)"

definition Rotate :: "string \<Rightarrow> u64 \<Rightarrow> string" where
  "Rotate text shift = runes_string (map (rotate_rune shift) (string_runes text))"

text \<open>A letter moves within its alphabet, for any shift whose sum with an offset does not wrap.\<close>

lemma shifted_offset:
  assumes "unat (shift :: u64) \<le> 2 ^ 64 - 26" and "first \<le> c" and "c \<le> first + 25"
  shows "unat (let shiftedIdx = of_nat c - of_nat first + shift
    in if shiftedIdx > 25 then shiftedIdx mod 26 else shiftedIdx) = (c - first + unat shift) mod 26"
proof -
  have "(of_nat c - of_nat first :: u64) = of_nat (c - first)" using assms(2) by simp
  moreover have sum: "n \<le> 25 \<Longrightarrow> unat (of_nat n + shift :: u64) = n + unat shift" for n
    using assms(1) by (simp add: unat_word_ariths unsigned_of_nat take_bit_eq_mod)
  have "unat (of_nat (c - first) + shift :: u64) = c - first + unat shift" by (rule sum) (use assms(3) in simp)
  ultimately show ?thesis
    by (simp add: Let_def word_less_nat_alt unat_mod)
qed

lemma rotate_rune_shift:
  assumes "unat shift \<le> 2 ^ 64 - 26"
  shows "rotate_rune shift c =
    (if 65 \<le> c \<and> c \<le> 90 then 65 + (c - 65 + unat shift) mod 26
     else if 97 \<le> c \<and> c \<le> 122 then 97 + (c - 97 + unat shift) mod 26 else c)"
  using shifted_offset [OF assms, of 65 c] shifted_offset [OF assms, of 97 c]
  by (auto simp: rotate_rune_def Let_def)

lemma rotate_rune_scalar:
  "unat shift \<le> 2 ^ 64 - 26 \<Longrightarrow> scalar c \<Longrightarrow> scalar (rotate_rune shift c)"
proof -
  assume s: "unat shift \<le> 2 ^ 64 - 26" and c: "scalar c"
  have "(c - 65 + unat shift) mod 26 < 26" "(c - 97 + unat shift) mod 26 < 26" by simp_all
  then show ?thesis using c unfolding rotate_rune_shift [OF s] by (auto simp: scalar_def)
qed

lemma rotate_rune_back:
  assumes "unat k \<le> 2 ^ 64 - 26" "unat l \<le> 2 ^ 64 - 26" "(unat k + unat l) mod 26 = 0"
  shows "rotate_rune l (rotate_rune k c) = c"
proof -
  have undone: "((c - first + unat k) mod 26 + unat l) mod 26 = c - first" if "first \<le> c" "c \<le> first + 25" for first
  proof -
    have "((c - first + unat k) mod 26 + unat l) mod 26 = (c - first + (unat k + unat l)) mod 26"
      by (simp add: mod_add_left_eq add.assoc)
    also have "\<dots> = (c - first + (unat k + unat l) mod 26) mod 26" by (simp add: mod_add_right_eq)
    also have "\<dots> = c - first" using that assms(3) by simp
    finally show ?thesis .
  qed
  have less: "x mod 26 \<le> 25" for x :: nat using mod_less_divisor [of 26 x] by linarith
  consider "65 \<le> c \<and> c \<le> 90" | "97 \<le> c \<and> c \<le> 122" | "\<not> (65 \<le> c \<and> c \<le> 90) \<and> \<not> (97 \<le> c \<and> c \<le> 122)" by blast
  then show ?thesis
  proof cases
    case 1
    then show ?thesis using undone [of 65] less [of "c - 65 + unat k"]
      unfolding rotate_rune_shift [OF assms(1)] rotate_rune_shift [OF assms(2)] by simp
  next
    case 2
    then show ?thesis using undone [of 97] less [of "c - 97 + unat k"]
      unfolding rotate_rune_shift [OF assms(1)] rotate_rune_shift [OF assms(2)] by simp
  next
    case 3
    then have "rotate_rune k c = c" "rotate_rune l c = c"
      unfolding rotate_rune_shift [OF assms(1)] rotate_rune_shift [OF assms(2)] by (auto split: if_splits)
    then show ?thesis by simp
  qed
qed

text \<open>A rotation is undone by the one that completes it to a multiple of 26, in any text.\<close>

lemma Rotate_back:
  assumes "list_all scalar rs" and "unat k \<le> 2 ^ 64 - 26" "unat l \<le> 2 ^ 64 - 26" "(unat k + unat l) mod 26 = 0"
  shows "Rotate (Rotate (runes_string rs) k) l = runes_string rs"
proof -
  have "list_all scalar (map (rotate_rune k) rs)"
    using assms(1) rotate_rune_scalar [OF assms(2)] by (simp add: list_all_iff)
  then have "string_runes (runes_string (map (rotate_rune k) rs)) = map (rotate_rune k) rs"
    by (rule string_runes_of_runes)
  then show ?thesis
    using string_runes_of_runes [OF assms(1)] rotate_rune_back [OF assms(2-4)] by (simp add: Rotate_def o_def)
qed

definition base64_digit :: "nat \<Rightarrow> char" where
  "base64_digit n = ''ABCDEFGHIJKLMNOPQRSTUVWXYZabcdefghijklmnopqrstuvwxyz0123456789+/'' ! n"

fun EncodeToString :: "nat list \<Rightarrow> string" where
  "EncodeToString (a # b # c # bs) =
     [base64_digit (a div 4), base64_digit (a mod 4 * 16 + b div 16),
      base64_digit (b mod 16 * 4 + c div 64), base64_digit (c mod 64)] @ EncodeToString bs"
| "EncodeToString [a, b] =
     [base64_digit (a div 4), base64_digit (a mod 4 * 16 + b div 16), base64_digit (b mod 16 * 4), CHR ''='']"
| "EncodeToString [a] = [base64_digit (a div 4), base64_digit (a mod 4 * 16), CHR ''='', CHR ''='']"
| "EncodeToString [] = ''''"

definition Base64 :: "string \<Rightarrow> string" where
  "Base64 s = EncodeToString (string_bytes s)"

section \<open>MD5\<close>

text \<open>The algorithm of RFC 1321: \<open>md5_table\<close> are its constants, \<open>md5_shifts\<close> its amounts of rotation.\<close>

definition md5_table :: "32 word list" where
  "md5_table = [
     0xd76aa478, 0xe8c7b756, 0x242070db, 0xc1bdceee, 0xf57c0faf, 0x4787c62a,
     0xa8304613, 0xfd469501, 0x698098d8, 0x8b44f7af, 0xffff5bb1, 0x895cd7be,
     0x6b901122, 0xfd987193, 0xa679438e, 0x49b40821, 0xf61e2562, 0xc040b340,
     0x265e5a51, 0xe9b6c7aa, 0xd62f105d, 0x02441453, 0xd8a1e681, 0xe7d3fbc8,
     0x21e1cde6, 0xc33707d6, 0xf4d50d87, 0x455a14ed, 0xa9e3e905, 0xfcefa3f8,
     0x676f02d9, 0x8d2a4c8a, 0xfffa3942, 0x8771f681, 0x6d9d6122, 0xfde5380c,
     0xa4beea44, 0x4bdecfa9, 0xf6bb4b60, 0xbebfbc70, 0x289b7ec6, 0xeaa127fa,
     0xd4ef3085, 0x04881d05, 0xd9d4d039, 0xe6db99e5, 0x1fa27cf8, 0xc4ac5665,
     0xf4292244, 0x432aff97, 0xab9423a7, 0xfc93a039, 0x655b59c3, 0x8f0ccc92,
     0xffeff47d, 0x85845dd1, 0x6fa87e4f, 0xfe2ce6e0, 0xa3014314, 0x4e0811a1,
     0xf7537e82, 0xbd3af235, 0x2ad7d2bb, 0xeb86d391]"

definition md5_shifts :: "nat list" where
  "md5_shifts = [7, 12, 17, 22, 5, 9, 14, 20, 4, 11, 16, 23, 6, 10, 15, 21]"

type_synonym md5_state = "32 word \<times> 32 word \<times> 32 word \<times> 32 word"

fun md5_round :: "32 word list \<Rightarrow> nat \<Rightarrow> md5_state \<Rightarrow> md5_state" where
  "md5_round m i (a, b, c, d) =
     (let (f, g) =
        (if i < 16 then ((b AND c) OR (NOT b AND d), i)
         else if i < 32 then ((d AND b) OR (NOT d AND c), (5 * i + 1) mod 16)
         else if i < 48 then (b XOR c XOR d, (3 * i + 5) mod 16)
         else (c XOR (b OR NOT d), (7 * i) mod 16))
      in (d, b + word_rotl (md5_shifts ! (4 * (i div 16) + i mod 4)) (f + a + md5_table ! i + m ! g), b, c))"

fun little_endian :: "nat \<Rightarrow> nat \<Rightarrow> nat list" where
  "little_endian 0 n = []"
| "little_endian (Suc k) n = n mod 256 # little_endian k (n div 256)"

fun from_little_endian :: "nat list \<Rightarrow> nat" where
  "from_little_endian [] = 0"
| "from_little_endian (b # bs) = b + 256 * from_little_endian bs"

definition md5_words :: "nat list \<Rightarrow> 32 word list" where
  "md5_words block = map (\<lambda>i. of_nat (from_little_endian (take 4 (drop (4 * i) block)))) [0..<16]"

fun md5_block :: "md5_state \<Rightarrow> nat list \<Rightarrow> md5_state" where
  "md5_block (a, b, c, d) block =
     (let (a', b', c', d') = fold (md5_round (md5_words block)) [0..<64] (a, b, c, d)
      in (a + a', b + b', c + c', d + d'))"

definition md5_pad :: "nat list \<Rightarrow> nat list" where
  "md5_pad bs = bs @ [0x80] @ replicate ((119 - length bs mod 64) mod 64) 0 @ little_endian 8 (8 * length bs)"

definition md5_start :: md5_state where
  "md5_start = (0x67452301, 0xefcdab89, 0x98badcfe, 0x10325476)"

definition md5_sum :: "nat list \<Rightarrow> nat list" where
  "md5_sum bs =
     (let padded = md5_pad bs;
          (a, b, c, d) = fold (\<lambda>i st. md5_block st (take 64 (drop (64 * i) padded))) [0..<length padded div 64] md5_start
      in concat (map (\<lambda>x. little_endian 4 (unat x)) [a, b, c, d]))"

definition hex_digit :: "nat \<Rightarrow> char" where
  "hex_digit n = ''0123456789abcdef'' ! n"

definition hex_string :: "nat list \<Rightarrow> string" where
  "hex_string bs = concat (map (\<lambda>b. [hex_digit (b div 16), hex_digit (b mod 16)]) bs)"

definition Md5 :: "string \<Rightarrow> string" where
  "Md5 s = hex_string (md5_sum (string_bytes s))"

end
