(* ===== verification/Ciphers.thy ===== *)
theory Ciphers
  imports CipherCode ClientRequests
begin

text \<open>
  The example application (\<open>example/ciphers\<close>): a server that stores messages and queues a task for every cipher
  of each, and a worker that handles the tasks. Messages are documents in Elasticsearch
  (\<open>common/models.go\<close>), which both use through an interface of their own.
\<close>

section \<open>Messages\<close>

record Message =
  mID :: string
  mPlain :: string
  mRot1 :: "string option"
  mRot13 :: "string option"
  mBase64 :: "string option"
  mMd5 :: "string option"
  mCreatedAt :: time
  mModifiedAt :: time

text \<open>The names of the ciphers are the kinds of the tasks.\<close>

definition kindRot1 :: string where "kindRot1 = ''Rot1''"
definition kindRot13 :: string where "kindRot13 = ''Rot13''"
definition kindBase64 :: string where "kindBase64 = ''Base64''"
definition kindMd5 :: string where "kindMd5 = ''Md5''"

definition AllCiphers :: "string list" where
  "AllCiphers = [kindRot1, kindRot13, kindBase64, kindMd5]"

lemmas kind_defs = kindRot1_def kindRot13_def kindBase64_def kindMd5_def

text \<open>The source of a document, by the names of its fields; a nil pointer is left out.\<close>

type_synonym source = "string \<rightharpoonup> json"

definition message_source :: "Message \<Rightarrow> source" where
  "message_source m k =
     (if k = ''id'' then Some (JStr (mID m))
      else if k = ''plain'' then Some (JStr (mPlain m))
      else if k = ''rot_1'' then map_option JStr (mRot1 m)
      else if k = ''rot_13'' then map_option JStr (mRot13 m)
      else if k = ''base_64'' then map_option JStr (mBase64 m)
      else if k = ''md_5'' then map_option JStr (mMd5 m)
      else if k = ''created_at'' then Some (JTime (mCreatedAt m))
      else if k = ''modified_at'' then Some (JTime (mModifiedAt m))
      else None)"

definition field_of :: "source \<Rightarrow> string \<Rightarrow> json" where
  "field_of src k = (case src k of None \<Rightarrow> JNull | Some v \<Rightarrow> v)"

definition readMessage :: "source \<Rightarrow> Message decoded" where
  "readMessage src =
     and_then (or_zero [] as_string (field_of src ''id'')) (\<lambda>i.
     and_then (or_zero [] as_string (field_of src ''plain'')) (\<lambda>plain.
     and_then (nullable as_string (field_of src ''rot_1'')) (\<lambda>rot1.
     and_then (nullable as_string (field_of src ''rot_13'')) (\<lambda>rot13.
     and_then (nullable as_string (field_of src ''base_64'')) (\<lambda>base64.
     and_then (nullable as_string (field_of src ''md_5'')) (\<lambda>md5.
     and_then (or_zero TimeZero as_time (field_of src ''created_at'')) (\<lambda>createdAt.
     and_then (or_zero TimeZero as_time (field_of src ''modified_at'')) (\<lambda>modifiedAt.
     Inr \<lparr>mID = i, mPlain = plain, mRot1 = rot1, mRot13 = rot13, mBase64 = base64, mMd5 = md5,
       mCreatedAt = createdAt, mModifiedAt = modifiedAt\<rparr>))))))))"

text \<open>The arguments of a task: \<open>ToMap\<close> and \<open>FromInterface\<close> go through JSON.\<close>

record MessageArgs =
  MessageId :: string

definition ToMap :: "MessageArgs \<Rightarrow> json_obj" where
  "ToMap j = [(''message_id'', JStr (MessageId j))]"

definition FromInterface :: "json \<Rightarrow> MessageArgs decoded" where
  "FromInterface j = or_zero \<lparr>MessageId = []\<rparr> (when_object (\<lambda>j.
     and_then (or_zero [] as_string (member j ''message_id'')) (\<lambda>i. Inr \<lparr>MessageId = i\<rparr>))) j"

section \<open>The repository\<close>

datatype cipher_error =
    RequestErr
  | DecodeErr
  | UnexpectedStatus int
  | NoSuchId string
  | UnsupportedKind
  | JobErrs "client_error list"
  | FormErr string

text \<open>
  The requests to Elasticsearch: reading, creating and searching documents, and the partial update, whose number is how
  often Elasticsearch retries it after a conflict. The texts of errors are a parameter.
\<close>

record 'w cipher_env = "'w sys" +
  MessageGet :: "string \<Rightarrow> 'w \<Rightarrow> 'w \<times> source es_reply"
  MessageCreate :: "string \<Rightarrow> source \<Rightarrow> 'w \<Rightarrow> 'w \<times> unit es_reply"
  MessageSearch :: "json \<Rightarrow> 'w \<Rightarrow> 'w \<times> source list es_reply"
  MessageUpdate :: "string \<Rightarrow> source \<Rightarrow> int \<Rightarrow> 'w \<Rightarrow> 'w \<times> unit es_reply"
  rand_Intn10 :: "'w \<Rightarrow> 'w \<times> nat"
  rand_Int :: "'w \<Rightarrow> 'w \<times> int"
  errorText :: "cipher_error \<Rightarrow> string"

definition genId :: "('w, 'm) cipher_env_scheme \<Rightarrow> 'w \<Rightarrow> 'w \<times> string" where
  "genId e w = (let (w1, uuid) = new_uuid e w in (w1, filter (\<lambda>c. c \<noteq> CHR ''-'') uuid))"

definition RepoGet :: "('w, 'm) cipher_env_scheme \<Rightarrow> string \<Rightarrow> 'w \<Rightarrow> 'w \<times> (cipher_error + Message)" where
  "RepoGet e i w =
     (case MessageGet e i w of
        (w1, NoResponse) \<Rightarrow> (w1, Inl RequestErr)
      | (w1, Response statusCode body) \<Rightarrow>
          (w1, if statusCode = 200 then
                 (case body of
                    None \<Rightarrow> Inl DecodeErr
                  | Some src \<Rightarrow> (case readMessage src of Inl _ \<Rightarrow> Inl DecodeErr | Inr m \<Rightarrow> Inr m))
               else Inl (UnexpectedStatus statusCode)))"

definition RepoCreate :: "('w, 'm) cipher_env_scheme \<Rightarrow> string \<Rightarrow> 'w \<Rightarrow> 'w \<times> (cipher_error + Message)" where
  "RepoCreate e plain w =
     (let (w1, now) = getUTC e w;
          (w2, i) = genId e w1;
          toPersist = \<lparr>mID = i, mPlain = plain, mRot1 = None, mRot13 = None, mBase64 = None, mMd5 = None,
            mCreatedAt = now, mModifiedAt = now\<rparr>
      in case MessageCreate e i (message_source toPersist) w2 of
           (w3, NoResponse) \<Rightarrow> (w3, Inl RequestErr)
         | (w3, Response statusCode _) \<Rightarrow>
             (w3, if status_2xx statusCode then Inr toPersist else Inl (UnexpectedStatus statusCode)))"

definition listQuery :: json where
  "listQuery = JObj [(''from'', JNum 0), (''size'', JNum 10000),
     (''sort'', JArr [JObj [(''created_at'', JObj [(''order'', JStr ''desc'')])]]),
     (''query'', JObj [(''match_all'', JObj [])])]"

fun read_all :: "source list \<Rightarrow> Message list decoded" where
  "read_all [] = Inr []"
| "read_all (src # srcs) =
     and_then (readMessage src) (\<lambda>m. and_then (read_all srcs) (\<lambda>ms. Inr (m # ms)))"

text \<open>
  The status is not looked at: the body of an error has no hits, and reads as an empty list.
\<close>

definition RepoList :: "('w, 'm) cipher_env_scheme \<Rightarrow> 'w \<Rightarrow> 'w \<times> (cipher_error + Message list)" where
  "RepoList e w =
     (case MessageSearch e listQuery w of
        (w1, NoResponse) \<Rightarrow> (w1, Inl RequestErr)
      | (w1, Response statusCode body) \<Rightarrow>
          (w1, case body of
                 None \<Rightarrow> Inl DecodeErr
               | Some srcs \<Rightarrow> (case read_all srcs of Inl _ \<Rightarrow> Inl DecodeErr | Inr ms \<Rightarrow> Inr ms)))"

definition partial_doc :: "string \<Rightarrow> string \<Rightarrow> time \<Rightarrow> source" where
  "partial_doc field data now = [field \<mapsto> JStr data, ''modified_at'' \<mapsto> JTime now]"

definition updateField ::
  "('w, 'm) cipher_env_scheme \<Rightarrow> string \<Rightarrow> string \<Rightarrow> string \<Rightarrow> 'w \<Rightarrow> 'w \<times> cipher_error option" where
  "updateField e i field data w =
     (let (w1, now) = getUTC e w in
      case MessageUpdate e i (partial_doc field data now) 1000 w1 of
        (w2, NoResponse) \<Rightarrow> (w2, Some RequestErr)
      | (w2, Response statusCode _) \<Rightarrow>
          (w2, if status_2xx statusCode then None
               else if statusCode = 404 then Some (NoSuchId i)
               else Some (UnexpectedStatus statusCode)))"

definition SetRot1 :: "('w, 'm) cipher_env_scheme \<Rightarrow> string \<Rightarrow> string \<Rightarrow> 'w \<Rightarrow> 'w \<times> cipher_error option" where
  "SetRot1 e i data w = updateField e i ''rot_1'' data w"

definition SetRot13 :: "('w, 'm) cipher_env_scheme \<Rightarrow> string \<Rightarrow> string \<Rightarrow> 'w \<Rightarrow> 'w \<times> cipher_error option" where
  "SetRot13 e i data w = updateField e i ''rot_13'' data w"

definition SetBase64 :: "('w, 'm) cipher_env_scheme \<Rightarrow> string \<Rightarrow> string \<Rightarrow> 'w \<Rightarrow> 'w \<times> cipher_error option" where
  "SetBase64 e i data w = updateField e i ''base_64'' data w"

definition SetMd5 :: "('w, 'm) cipher_env_scheme \<Rightarrow> string \<Rightarrow> string \<Rightarrow> 'w \<Rightarrow> 'w \<times> cipher_error option" where
  "SetMd5 e i data w = updateField e i ''md_5'' data w"

section \<open>The worker\<close>

definition cipher_failure :: "('w, 'm) cipher_env_scheme \<Rightarrow> cipher_error \<Rightarrow> json_obj" where
  "cipher_failure e err = [(''error'', JStr (errorText e err))]"

text \<open>The switch over the kind of the task: the message enciphered and stored.\<close>

definition encipher ::
  "('w, 'm) cipher_env_scheme \<Rightarrow> string \<Rightarrow> string \<Rightarrow> string \<Rightarrow> 'w \<Rightarrow> 'w \<times> string \<times> cipher_error option" where
  "encipher e kind i plain w =
     (if kind = kindRot1 then
        (let ciphered = Rotate plain 1; (w1, err) = SetRot1 e i ciphered w in (w1, ciphered, err))
      else if kind = kindRot13 then
        (let ciphered = Rotate plain 13; (w1, err) = SetRot13 e i ciphered w in (w1, ciphered, err))
      else if kind = kindBase64 then
        (let ciphered = Base64 plain; (w1, err) = SetBase64 e i ciphered w in (w1, ciphered, err))
      else if kind = kindMd5 then
        (let ciphered = Md5 plain; (w1, err) = SetMd5 e i ciphered w in (w1, ciphered, err))
      else (w, [], Some UnsupportedKind))"

definition CipherHandle :: "('w, 'm) cipher_env_scheme \<Rightarrow> 'w tasques_client \<Rightarrow> bool \<Rightarrow> 'w task_handler" where
  "CipherHandle e c randomFailures handle w =
     (let (w1, pause) = rand_Intn10 e w;
          w2 = Sleep e (int pause * 1000000000) w1;
          (w3, destined) = (if randomFailures then (let (w3, n) = rand_Int e w2 in (w3, n mod 2 = 0)) else (w2, False))
      in if destined then (w3, None, Some [(''error'', JStr ''Destined to fail, I guess'')])
         else case FromInterface (json_or_null (atArgs (hTask handle))) of
             Inl err \<Rightarrow> (w3, None, Some (cipher_failure e DecodeErr))
           | Inr args \<Rightarrow>
               (let (w4, ignored) = handleReportIn c (Some [(''starting'', JStr (atID (hTask handle)))]) handle w3
                in case RepoGet e (MessageId args) w4 of
                     (w5, Inl err) \<Rightarrow> (w5, None, Some (cipher_failure e err))
                   | (w5, Inr message) \<Rightarrow>
                       (case encipher e (atKind (hTask handle)) (MessageId args) (mPlain message) w5 of
                          (w6, ciphered, Some err) \<Rightarrow> (w6, None, Some (cipher_failure e err))
                        | (w6, ciphered, None) \<Rightarrow> (w6, Some [(''ciphered'', JStr ciphered)], None))))"

record CipherWorkerConf =
  cwQueue :: qname
  cwTasquesWorker :: TasquesWorker

definition cipherWorkLoop ::
  "('w, 'm) cipher_env_scheme \<Rightarrow> 'w tasques_client \<Rightarrow> bool \<Rightarrow> CipherWorkerConf \<Rightarrow> 'w WorkLoop" where
  "cipherWorkLoop e c randomFailures conf =
     NewWorkLoop (cwTasquesWorker conf) [cwQueue conf \<mapsto> CipherHandle e c randomFailures]"

section \<open>The server\<close>

definition job_for :: "qname \<Rightarrow> string \<Rightarrow> string \<Rightarrow> TaskNewTask" where
  "job_for queue i cipher = \<lparr>mnArgs = JObj (ToMap \<lparr>MessageId = i\<rparr>), mnContext = JNull, mnKind = Some cipher,
     mnPriority = 0, mnProcessingTimeout = [], mnQueue = Some queue, mnRetryTimes = 0, mnRunAt = TimeZero\<rparr>"

text \<open>
  The loop over the ciphers; the tasks point to its variable, but each is sent before the variable changes.
\<close>

fun insert_each ::
  "(TaskNewTask \<Rightarrow> 'w \<Rightarrow> 'w \<times> client_error option) \<Rightarrow> qname \<Rightarrow> string \<Rightarrow> string list \<Rightarrow> 'w \<Rightarrow> 'w \<times> client_error list" where
  "insert_each createTask queue i [] w = (w, [])"
| "insert_each createTask queue i (cipher # ciphers) w =
     (let (w1, err) = createTask (job_for queue i cipher) w;
          (w2, errs) = insert_each createTask queue i ciphers w1
      in (w2, (case err of Some x \<Rightarrow> x # errs | None \<Rightarrow> errs)))"

definition insertJobs ::
  "(TaskNewTask \<Rightarrow> 'w \<Rightarrow> 'w \<times> client_error option) \<Rightarrow> qname \<Rightarrow> Message \<Rightarrow> 'w \<Rightarrow> 'w \<times> cipher_error option" where
  "insertJobs createTask queue message w =
     (let (w1, errs) = insert_each createTask queue (mID message) AllCiphers w
      in (w1, if errs \<noteq> [] then Some (JobErrs errs) else None))"

datatype page = NotFoundPage | ErrorPage cipher_error | IndexPage "Message option" "Message list"

definition ctlIndex :: "('w, 'm) cipher_env_scheme \<Rightarrow> string \<Rightarrow> 'w \<Rightarrow> 'w \<times> page" where
  "ctlIndex e meth w =
     (if meth = ''GET'' then
        (case RepoList e w of
           (w1, Inl err) \<Rightarrow> (w1, ErrorPage err)
         | (w1, Inr messages) \<Rightarrow> (w1, IndexPage None messages))
      else (w, NotFoundPage))"

definition ctlCreateMessage ::
  "('w, 'm) cipher_env_scheme \<Rightarrow> (TaskNewTask \<Rightarrow> 'w \<Rightarrow> 'w \<times> client_error option) \<Rightarrow> qname \<Rightarrow> string \<Rightarrow>
     string + string \<Rightarrow> 'w \<Rightarrow> 'w \<times> page" where
  "ctlCreateMessage e createTask queue meth form w =
     (if meth = ''POST'' then
        (case form of
           Inl err \<Rightarrow> (w, ErrorPage (FormErr err))
         | Inr plain \<Rightarrow>
             (case RepoList e w of
                (w1, Inl err) \<Rightarrow> (w1, ErrorPage err)
              | (w1, Inr messages) \<Rightarrow>
                  (case RepoCreate e plain w1 of
                     (w2, Inl err) \<Rightarrow> (w2, ErrorPage err)
                   | (w2, Inr inserted) \<Rightarrow>
                       (case insertJobs createTask queue inserted w2 of
                          (w3, Some err) \<Rightarrow> (w3, ErrorPage err)
                        | (w3, None) \<Rightarrow> (w3, IndexPage (Some inserted) (inserted # messages))))))
      else (w, NotFoundPage))"

end
