(* ===== verification/CipherSafety.thy ===== *)
theory CipherSafety
  imports Ciphers
begin

text \<open>
  Any number of cipher workers and servers share the messages, each task may be handled several times, and requests
  may be applied although their replies are lost. What every worker relies on of the others is what it guarantees
  itself: a message only ever gets fields that are right for its text. So a task that is done has left its cipher
  in the message, for good, whatever the order and the repetitions.
\<close>

section \<open>The messages of the program\<close>

definition cipher_of :: "string \<Rightarrow> string \<Rightarrow> string" where
  "cipher_of kind plain =
     (if kind = kindRot1 then Rotate plain 1
      else if kind = kindRot13 then Rotate plain 13
      else if kind = kindBase64 then Base64 plain
      else Md5 plain)"

definition cipher_in :: "string \<Rightarrow> Message \<Rightarrow> string option" where
  "cipher_in kind m =
     (if kind = kindRot1 then mRot1 m
      else if kind = kindRot13 then mRot13 m
      else if kind = kindBase64 then mBase64 m
      else mMd5 m)"

definition set_cipher :: "string \<Rightarrow> time \<Rightarrow> Message \<Rightarrow> Message" where
  "set_cipher kind at m =
     (let s = Some (cipher_of kind (mPlain m)); m' = m\<lparr>mModifiedAt := at\<rparr> in
      if kind = kindRot1 then m'\<lparr>mRot1 := s\<rparr>
      else if kind = kindRot13 then m'\<lparr>mRot13 := s\<rparr>
      else if kind = kindBase64 then m'\<lparr>mBase64 := s\<rparr>
      else m'\<lparr>mMd5 := s\<rparr>)"

definition field_name :: "string \<Rightarrow> string" where
  "field_name kind =
     (if kind = kindRot1 then ''rot_1''
      else if kind = kindRot13 then ''rot_13''
      else if kind = kindBase64 then ''base_64''
      else ''md_5'')"

lemma set_cipher_simps [simp]:
  "mPlain (set_cipher kind at m) = mPlain m"
  "mID (set_cipher kind at m) = mID m"
  by (simp_all add: set_cipher_def Let_def)

lemma cipher_in_set [simp]:
  "kind \<in> set AllCiphers \<Longrightarrow> k \<in> set AllCiphers \<Longrightarrow>
     cipher_in k (set_cipher kind at m) = (if k = kind then Some (cipher_of kind (mPlain m)) else cipher_in k m)"
  by (auto simp: AllCiphers_def cipher_in_def set_cipher_def kind_defs Let_def)

text \<open>A message is read as it was stored, and the partial update of a worker is the change of one field.\<close>

lemma read_message: "readMessage (message_source m) = Inr m"
proof -
  have "nullable as_string (case map_option JStr x of None \<Rightarrow> JNull | Some v \<Rightarrow> v) = Inr x" for x
    by (cases x) (simp_all add: nullable_def)
  then show ?thesis
    by (simp add: readMessage_def field_of_def message_source_def or_zero_def)
qed

lemma message_source_inject [simp]: "message_source m = message_source m' \<longleftrightarrow> m = m'"
  using read_message by (metis sum.inject(2))

lemma map_message_source [simp]: "map message_source ms = map message_source ms' \<longleftrightarrow> ms = ms'"
  by (rule inj_map_eq_map) (simp add: inj_def)

lemma merged_source:
  "kind \<in> set AllCiphers \<Longrightarrow>
     message_source m ++ partial_doc (field_name kind) (cipher_of kind (mPlain m)) at = message_source (set_cipher kind at m)"
  by (rule ext) (auto simp: AllCiphers_def partial_doc_def message_source_def field_name_def set_cipher_def kind_defs
      Let_def map_add_def split: option.splits)

section \<open>Histories of messages\<close>

text \<open>
  As for tasks, \<open>hist w i\<close> is what was written to the document with the id \<open>i\<close>, newest first. These are the
  histories the program makes: a message without ciphers, to which ciphers of its text are added.
\<close>

type_synonym 'w message_hist = "'w \<Rightarrow> string \<Rightarrow> source list"

inductive message_log :: "Message list \<Rightarrow> bool" where
  no_message: "message_log []"
| message_born: "\<forall>k \<in> set AllCiphers. cipher_in k m = None \<Longrightarrow> message_log [m]"
| message_ciphered: "message_log (m # ms) \<Longrightarrow> kind \<in> set AllCiphers \<Longrightarrow> message_log (set_cipher kind at m # m # ms)"

inductive_cases message_log_Cons: "message_log (m' # m # ms)"

definition message_history :: "source list \<Rightarrow> bool" where
  "message_history h \<longleftrightarrow> (\<exists>ms. h = map message_source ms \<and> message_log ms)"

text \<open>
  What others do while a request is on its way: the histories grow, and stay what the program makes of them.
\<close>

definition others :: "'w message_hist \<Rightarrow> 'w \<Rightarrow> 'w \<Rightarrow> bool" where
  "others hist w w' \<longleftrightarrow>
     (\<forall>i. suffix (hist w i) (hist w' i) \<and> (message_history (hist w i) \<longrightarrow> message_history (hist w' i)))"

lemma others_refl [simp]: "others hist w w"
  by (simp add: others_def)

lemma others_trans [trans]: "others hist w w1 \<Longrightarrow> others hist w1 w2 \<Longrightarrow> others hist w w2"
  unfolding others_def by (meson suffix_order.trans)

definition right_message :: "Message \<Rightarrow> bool" where
  "right_message m \<longleftrightarrow> (\<forall>k \<in> set AllCiphers. cipher_in k m \<in> {None, Some (cipher_of k (mPlain m))})"

text \<open>Along a history the text stays, and no cipher is lost or wrong.\<close>

lemma log_newest_right: "message_log ms \<Longrightarrow> ms \<noteq> [] \<Longrightarrow> right_message (hd ms)"
  by (induction rule: message_log.induct) (auto simp: right_message_def)

definition keeps :: "Message \<Rightarrow> Message \<Rightarrow> bool" where
  "keeps m m' \<longleftrightarrow> mPlain m' = mPlain m \<and>
     (\<forall>k \<in> set AllCiphers. cipher_in k m \<noteq> None \<longrightarrow> cipher_in k m' = cipher_in k m)"

lemma log_keeps: "message_log (l @ m # ms) \<Longrightarrow> keeps m (hd (l @ [m]))"
proof (induction l)
  case Nil
  then show ?case by (simp add: keeps_def)
next
  case (Cons x l)
  obtain y ys where y: "l @ m # ms = y # ys" "hd (l @ [m]) = y" by (cases l) auto
  have "message_log (x # y # ys)" using Cons.prems y by simp
  then obtain kind at where x: "x = set_cipher kind at y" "kind \<in> set AllCiphers" and log: "message_log (y # ys)"
    by (elim message_log_Cons) auto
  have "right_message y" using log_newest_right [OF log] by simp
  moreover have "keeps m y" using Cons.IH log y by simp
  ultimately show ?case using x by (auto simp: keeps_def right_message_def)
qed

text \<open>The newest message at an id has the cipher of a kind, and it is right.\<close>

definition has_cipher :: "'w message_hist \<Rightarrow> 'w \<Rightarrow> string \<Rightarrow> string \<Rightarrow> string \<Rightarrow> bool" where
  "has_cipher hist w i kind s \<longleftrightarrow>
     (\<exists>m h. hist w i = message_source m # h \<and> cipher_in kind m = Some s \<and> s = cipher_of kind (mPlain m))"

lemma has_cipher_others:
  assumes has: "has_cipher hist w i kind s" and kind: "kind \<in> set AllCiphers" and ok: "message_history (hist w i)"
    and later: "others hist w w'"
  shows "has_cipher hist w' i kind s"
proof -
  obtain m h where m: "hist w i = message_source m # h" "cipher_in kind m = Some s" "s = cipher_of kind (mPlain m)"
    using has unfolding has_cipher_def by blast
  obtain ms where ms: "hist w' i = map message_source ms" "message_log ms"
    using later ok unfolding others_def message_history_def by blast
  obtain l where l: "hist w' i = l @ message_source m # h" using later m(1) unfolding others_def suffix_def by metis
  then obtain ls ms' where split: "ms = ls @ m # ms'"
    using ms(1) by (auto simp: map_eq_append_conv map_eq_Cons_conv)
  have "keeps m (hd (ls @ [m]))" using log_keeps ms(2) unfolding split by blast
  moreover obtain y ys where y: "ms = y # ys" "hd (ls @ [m]) = y" unfolding split by (cases ls) auto
  ultimately show ?thesis
    using m kind ms(1) by (auto simp: has_cipher_def keeps_def)
qed

section \<open>What is relied on\<close>

text \<open>
  A partial update merges its fields into the newest version, whichever that is by then. If no reply came it may have been
  applied or not.
\<close>

definition applied :: "'w message_hist \<Rightarrow> 'w \<Rightarrow> string \<Rightarrow> source \<Rightarrow> 'w \<Rightarrow> bool" where
  "applied hist w i ps w' \<longleftrightarrow>
     (\<exists>w1 w2 old h. others hist w w1 \<and> hist w1 i = old # h \<and> hist w2 i = (old ++ ps) # old # h \<and>
        (\<forall>j. j \<noteq> i \<longrightarrow> hist w2 j = hist w1 j) \<and> others hist w2 w')"

definition messages_shared :: "('w, 'm) cipher_env_scheme \<Rightarrow> 'w tasques_client \<Rightarrow> 'w message_hist \<Rightarrow> bool" where
  "messages_shared e c hist \<longleftrightarrow>
     (\<forall>w. others hist w (fst (getUTC e w)) \<and> (\<forall>d. others hist w (Sleep e d w)) \<and>
        others hist w (fst (rand_Intn10 e w)) \<and> others hist w (fst (rand_Int e w)) \<and>
        (\<forall>i. others hist w (fst (MessageGet e i w))) \<and>
        (\<forall>i p. others hist w (fst (ClaimTasks c i p w))) \<and>
        (\<forall>i q t d. others hist w (fst (ReportOnClaimedTask c i q t d w))) \<and>
        (\<forall>i q t d. others hist w (fst (MarkClaimedTaskDone c i q t d w))) \<and>
        (\<forall>i q t d. others hist w (fst (MarkClaimedTaskFailed c i q t d w)))) \<and>
     (\<forall>i w w' src. MessageGet e i w = (w', Response 200 (Some src)) \<longrightarrow> src \<in> set (hist w' i)) \<and>
     (\<forall>i ps n w w' reply. MessageUpdate e i ps n w = (w', reply) \<longrightarrow>
        others hist w w' \<and> (\<forall>s b. reply = Response s b \<longrightarrow> \<not> status_2xx s) \<or> applied hist w i ps w')"

lemma shared_rules:
  assumes "messages_shared e c hist"
  shows "getUTC e w = (w', now) \<Longrightarrow> others hist w w'" "others hist w (Sleep e d w)"
    "rand_Intn10 e w = (w', n) \<Longrightarrow> others hist w w'" "rand_Int e w = (w', r) \<Longrightarrow> others hist w w'"
    "MessageGet e i w = (w', reply) \<Longrightarrow> others hist w w'"
    "ClaimTasks c wid p w = (w', ts) \<Longrightarrow> others hist w w'"
    "ReportOnClaimedTask c wid q t d' w = (w', err) \<Longrightarrow> others hist w w'"
    "MarkClaimedTaskDone c wid q t d'' w = (w', err) \<Longrightarrow> others hist w w'"
    "MarkClaimedTaskFailed c wid q t d'' w = (w', err) \<Longrightarrow> others hist w w'"
  using assms unfolding messages_shared_def by (metis fst_conv)+

lemma shared_get:
  "messages_shared e c hist \<Longrightarrow> MessageGet e i w = (w', Response 200 (Some src)) \<Longrightarrow> src \<in> set (hist w' i)"
  unfolding messages_shared_def by (elim conjE) (metis (no_types))

lemma shared_update:
  "messages_shared e c hist \<Longrightarrow> MessageUpdate e i ps n w = (w', reply) \<Longrightarrow>
     others hist w w' \<and> (\<forall>s b. reply = Response s b \<longrightarrow> \<not> status_2xx s) \<or> applied hist w i ps w'"
  unfolding messages_shared_def by (elim conjE) (metis (no_types))

section \<open>What a worker guarantees\<close>

text \<open>A message that was read tells what its text is, then and later.\<close>

definition text_is :: "'w message_hist \<Rightarrow> 'w \<Rightarrow> string \<Rightarrow> string \<Rightarrow> bool" where
  "text_is hist w i plain \<longleftrightarrow>
     (\<forall>ms. hist w i = map message_source ms \<longrightarrow> message_log ms \<longrightarrow> ms \<noteq> [] \<and> mPlain (hd ms) = plain)"

lemma text_of_read:
  assumes read: "src \<in> set (hist w i)" "readMessage src = Inr m"
  shows "text_is hist w i (mPlain m)"
  unfolding text_is_def
proof (intro allI impI)
  fix ms
  assume ms: "hist w i = map message_source ms" "message_log ms"
  then obtain m0 where m0: "m0 \<in> set ms" "src = message_source m0" using read(1) by auto
  then have "m0 = m" using read(2) read_message by (metis sum.inject(2))
  then obtain l h where split: "ms = l @ m # h" using m0(1) split_list by metis
  have "keeps m (hd (l @ [m]))" using log_keeps ms(2) unfolding split by blast
  then show "ms \<noteq> [] \<and> mPlain (hd ms) = mPlain m"
    unfolding split by (cases l) (simp_all add: keeps_def)
qed

lemma text_is_others:
  assumes plain: "text_is hist w i plain" and ok: "message_history (hist w i)" and later: "others hist w w'"
  shows "text_is hist w' i plain"
  unfolding text_is_def
proof (intro allI impI)
  fix ms
  assume ms: "hist w' i = map message_source ms" "message_log ms"
  obtain ns where ns: "hist w i = map message_source ns" "message_log ns" using ok unfolding message_history_def by blast
  have n: "ns \<noteq> []" "mPlain (hd ns) = plain" using plain ns unfolding text_is_def by blast+
  obtain l where "map message_source ms = l @ map message_source ns"
    using later ms(1) ns(1) unfolding others_def suffix_def by metis
  then obtain ls where split: "ms = ls @ ns"
    by (auto simp: map_eq_append_conv)
  obtain n0 ns' where ns': "ns = n0 # ns'" using n(1) by (cases ns) auto
  have "keeps n0 (hd (ls @ [n0]))" using log_keeps ms(2) unfolding split ns' by blast
  then show "ms \<noteq> [] \<and> mPlain (hd ms) = plain"
    using n(2) unfolding split ns' by (cases ls) (simp_all add: keeps_def)
qed

text \<open>An update with the cipher of the text is one that the others may rely on.\<close>

lemma right_update:
  assumes upd: "applied hist w i (partial_doc (field_name kind) (cipher_of kind plain) now) w'"
    and kind: "kind \<in> set AllCiphers" and plain: "message_history (hist w i) \<Longrightarrow> text_is hist w i plain"
  shows "others hist w w' \<and> (message_history (hist w i) \<longrightarrow> has_cipher hist w' i kind (cipher_of kind plain))"
proof -
  let ?ps = "partial_doc (field_name kind) (cipher_of kind plain) now"
  obtain w1 w2 old h where u: "others hist w w1" "hist w1 i = old # h" "hist w2 i = (old ++ ?ps) # old # h"
      "\<forall>j. j \<noteq> i \<longrightarrow> hist w2 j = hist w1 j" "others hist w2 w'"
    using upd unfolding applied_def by blast
  have step: "message_history (hist w2 i) \<and> has_cipher hist w2 i kind (cipher_of kind plain)"
    if ok: "message_history (hist w i)"
  proof -
    have "message_history (hist w1 i)" using u(1) ok unfolding others_def by blast
    then obtain ms where ms: "hist w1 i = map message_source ms" "message_log ms"
      unfolding message_history_def by blast
    have "text_is hist w1 i plain" by (rule text_is_others [OF plain [OF ok] ok u(1)])
    then have "ms \<noteq> [] \<and> mPlain (hd ms) = plain" using ms unfolding text_is_def by blast
    then obtain m ms' where m: "ms = m # ms'" "mPlain m = plain" by (cases ms) auto
    have src: "old = message_source m" "h = map message_source ms'" using u(2) ms(1) m(1) by simp_all
    have new: "hist w2 i = map message_source (set_cipher kind now m # m # ms')"
      using u(3) merged_source [OF kind, of m now] src m(2) by simp
    moreover have "message_log (set_cipher kind now m # m # ms')"
      by (rule message_ciphered) (use ms(2) m(1) kind in simp_all)
    ultimately show ?thesis
      using kind m(2) unfolding message_history_def has_cipher_def by (metis cipher_in_set list.simps(9) set_cipher_simps(1))
  qed
  have "others hist w w2"
    unfolding others_def
  proof (intro allI conjI impI)
    fix j
    show "suffix (hist w j) (hist w2 j)"
    proof (cases "j = i")
      case True
      have "suffix (hist w i) (old # h)" using u(1,2) unfolding others_def by metis
      then show ?thesis using u(3) True by (simp add: suffix_ConsI)
    next
      case False
      then show ?thesis using u(1,4) unfolding others_def by simp
    qed
    show "message_history (hist w j) \<Longrightarrow> message_history (hist w2 j)"
      using step u(1,4) unfolding others_def by (cases "j = i") auto
  qed
  then have "others hist w w'" using u(5) by (rule others_trans)
  moreover have "has_cipher hist w' i kind (cipher_of kind plain)" if "message_history (hist w i)"
    using step [OF that] has_cipher_others [OF _ kind _ u(5)] by simp
  ultimately show ?thesis by simp
qed

lemma updateField_right:
  assumes shared: "messages_shared e c hist" and upd: "updateField e i (field_name kind) (cipher_of kind plain) w = (w', err)"
    and kind: "kind \<in> set AllCiphers" and plain: "message_history (hist w i) \<Longrightarrow> text_is hist w i plain"
  shows "others hist w w' \<and>
    (err = None \<longrightarrow> message_history (hist w i) \<longrightarrow> has_cipher hist w' i kind (cipher_of kind plain))"
proof -
  obtain w1 now where now: "getUTC e w = (w1, now)" by fastforce
  let ?ps = "partial_doc (field_name kind) (cipher_of kind plain) now"
  obtain reply where sent: "MessageUpdate e i ?ps 1000 w1 = (w', reply)"
      and err: "err = None \<Longrightarrow> \<exists>s b. reply = Response s b \<and> status_2xx s"
    using upd now by (auto simp: updateField_def split: prod.splits es_reply.splits if_splits)
  have w1: "others hist w w1" by (rule shared_rules(1) [OF shared now])
  have plain1: "message_history (hist w i) \<Longrightarrow> text_is hist w1 i plain"
    using text_is_others [OF plain _ w1] by blast
  from shared_update [OF shared sent] show ?thesis
  proof
    assume "others hist w1 w' \<and> (\<forall>s b. reply = Response s b \<longrightarrow> \<not> status_2xx s)"
    then show ?thesis using err others_trans [OF w1] by blast
  next
    assume "applied hist w1 i ?ps w'"
    then obtain w2 w3 old h where u: "others hist w1 w2" "hist w2 i = old # h" "hist w3 i = (old ++ ?ps) # old # h"
        "\<forall>j. j \<noteq> i \<longrightarrow> hist w3 j = hist w2 j" "others hist w3 w'"
      unfolding applied_def by blast
    have "applied hist w i ?ps w'"
      unfolding applied_def using others_trans [OF w1 u(1)] u(2-5) by blast
    from right_update [OF this kind plain] show ?thesis by blast
  qed
qed

lemma encipher_update:
  assumes "encipher e kind i plain w = (w', ciphered, err)"
  shows "kind \<in> set AllCiphers \<and> ciphered = cipher_of kind plain \<and>
      updateField e i (field_name kind) (cipher_of kind plain) w = (w', err) \<or>
    kind \<notin> set AllCiphers \<and> w' = w \<and> err = Some UnsupportedKind"
  using assms
  by (auto simp: encipher_def AllCiphers_def cipher_of_def field_name_def SetRot1_def SetRot13_def SetBase64_def SetMd5_def
      kind_defs Let_def split: if_splits prod.splits)

lemma encipher_right:
  assumes shared: "messages_shared e c hist" and step: "encipher e kind i plain w = (w', ciphered, err)"
    and plain: "message_history (hist w i) \<Longrightarrow> text_is hist w i plain"
  shows "others hist w w' \<and>
    (err = None \<longrightarrow> kind \<in> set AllCiphers \<and> (message_history (hist w i) \<longrightarrow> has_cipher hist w' i kind ciphered))"
proof (cases "kind \<in> set AllCiphers")
  case True
  then show ?thesis using encipher_update [OF step] updateField_right [OF shared _ True plain] by blast
next
  case False
  then show ?thesis using encipher_update [OF step] by auto
qed

lemma report_others:
  "messages_shared e c hist \<Longrightarrow> handleReportIn c d h w = (w', err) \<Longrightarrow> others hist w w'"
  by (auto simp: handleReportIn_def split: if_splits dest: shared_rules(7))

lemma RepoGet_text:
  assumes shared: "messages_shared e c hist" and get: "RepoGet e i w = (w', r)"
  shows "others hist w w' \<and> (\<forall>m. r = Inr m \<longrightarrow> text_is hist w' i (mPlain m))"
proof -
  obtain reply where sent: "MessageGet e i w = (w', reply)"
    using get by (auto simp: RepoGet_def split: prod.splits es_reply.splits)
  have "text_is hist w' i (mPlain m)" if m: "r = Inr m" for m
  proof -
    obtain src where src: "reply = Response 200 (Some src)" "readMessage src = Inr m"
      using get sent m by (auto simp: RepoGet_def split: es_reply.splits if_splits option.splits sum.splits)
    have "src \<in> set (hist w' i)" by (rule shared_get [OF shared sent [unfolded src(1)]])
    then show ?thesis using src(2) by (rule text_of_read)
  qed
  then show ?thesis using shared_rules(5) [OF shared sent] by blast
qed

text \<open>The handler: whatever becomes of it, it keeps what the others rely on; if it succeeds, the cipher is there.\<close>

lemma handler_guarantee:
  assumes shared: "messages_shared e c hist" and run: "CipherHandle e c randomFailures handle w = (w', r, f)"
  shows "others hist w w' \<and>
    (f = None \<longrightarrow> (\<exists>args s. FromInterface (json_or_null (atArgs (hTask handle))) = Inr args \<and>
       r = Some [(''ciphered'', JStr s)] \<and> atKind (hTask handle) \<in> set AllCiphers \<and>
       (message_history (hist w (MessageId args)) \<longrightarrow> has_cipher hist w' (MessageId args) (atKind (hTask handle)) s)))"
proof -
  let ?kind = "atKind (hTask handle)"
  obtain w1 pause where pause: "rand_Intn10 e w = (w1, pause)" by fastforce
  let ?w2 = "Sleep e (int pause * 1000000000) w1"
  obtain w3 destined where coin:
      "(if randomFailures then (let (w3, n) = rand_Int e ?w2 in (w3, n mod 2 = 0)) else (?w2, False)) = (w3, destined)"
    by fastforce
  have "others hist ?w2 w3" using coin shared_rules(4) [OF shared] by (auto split: if_splits prod.splits)
  then have w3: "others hist w w3"
    using shared_rules(2,3) [OF shared] pause others_trans by meson
  consider (stop) "w' = w3" "f \<noteq> None"
    | (args) args where "FromInterface (json_or_null (atArgs (hTask handle))) = Inr args" "\<not> destined"
    using run pause coin by (auto simp: CipherHandle_def split: if_splits sum.splits)
  then show ?thesis
  proof cases
    case stop
    then show ?thesis using w3 by blast
  next
    case args
    obtain w4 ignored where rep: "handleReportIn c (Some [(''starting'', JStr (atID (hTask handle)))]) handle w3 = (w4, ignored)"
      by fastforce
    obtain w5 got where get: "RepoGet e (MessageId args) w4 = (w5, got)" by fastforce
    have w5: "others hist w w5"
      using w3 report_others [OF shared rep] RepoGet_text [OF shared get] others_trans by meson
    show ?thesis
    proof (cases got)
      case (Inl err)
      then show ?thesis using run pause coin args rep get w5 by (auto simp: CipherHandle_def)
    next
      case (Inr m)
      obtain w6 ciphered err where enc: "encipher e ?kind (MessageId args) (mPlain m) w5 = (w6, ciphered, err)"
        by (metis prod_cases3)
      have res: "w' = w6" "f = None \<Longrightarrow> err = None \<and> r = Some [(''ciphered'', JStr ciphered)]"
        using run pause coin args rep get Inr enc by (auto simp: CipherHandle_def split: option.splits)
      have "text_is hist w5 (MessageId args) (mPlain m)" using RepoGet_text [OF shared get] Inr by blast
      note right = encipher_right [OF shared enc this]
      have "message_history (hist w (MessageId args)) \<Longrightarrow> message_history (hist w5 (MessageId args))"
        using w5 unfolding others_def by blast
      then show ?thesis using right res args(1) others_trans [OF w5] by blast
    qed
  qed
qed

section \<open>What the server queues\<close>

text \<open>
  Jobs were inserted without an error exactly if the four tasks were created, one after the other. What the tasks server
  makes of each is a task of its kind in the queue of the workers, with the default retries, whose arguments give the handler the
  id of the message.
\<close>

lemma jobs_inserted:
  "insertJobs createTask queue m w = (w', None) \<longleftrightarrow>
     (\<exists>w1 w2 w3. createTask (job_for queue (mID m) kindRot1) w = (w1, None) \<and>
        createTask (job_for queue (mID m) kindRot13) w1 = (w2, None) \<and>
        createTask (job_for queue (mID m) kindBase64) w2 = (w3, None) \<and>
        createTask (job_for queue (mID m) kindMd5) w3 = (w', None))"
  by (auto simp: insertJobs_def AllCiphers_def Let_def split: prod.splits option.splits)

lemma args_read_back: "FromInterface (json_or_null (Some (ToMap args))) = Inr args"
  by (simp add: FromInterface_def ToMap_def json_or_null_def or_zero_def when_object_def member_def)

lemma job_accepted:
  assumes "\<And>t. sent t = t"
  shows "readNewTask pd (new_task_json sent (job_for queue i kind)) =
      Inr \<lparr>anID = None, anQueue = queue, anRetryTimes = None, anKind = kind, anPriority = None, anProcessingTimeout = None,
        anRunAt = Some TimeZero, anArgs = Some (ToMap \<lparr>MessageId = i\<rparr>), anContext = None\<rparr>"
proof -
  have "readNewTask pd (new_task_json sent (job_for queue i kind)) =
     and_then (sent_retries 0) (\<lambda>retryTimes. and_then (sent_timeout pd []) (\<lambda>timeout.
     if \<not> object_or_null (JObj (ToMap \<lparr>MessageId = i\<rparr>)) \<or> \<not> object_or_null JNull then Inl ''wrong type'' else
     Inr \<lparr>anID = None, anQueue = queue, anRetryTimes = retryTimes, anKind = kind, anPriority = None,
       anProcessingTimeout = timeout, anRunAt = Some (sent TimeZero), anArgs = object_of (JObj (ToMap \<lparr>MessageId = i\<rparr>)),
       anContext = object_of JNull\<rparr>))"
    by (subst read_new_task [of "job_for queue i kind" kind queue]) (simp_all add: job_for_def int64_def)
  then show ?thesis using assms by (simp add: sent_retries_def sent_timeout_def)
qed

text \<open>
  A page that shows a new message has stored it and queued its tasks. An error may be shown although both have happened: the message
  stays, and so do the tasks that were created.
\<close>

lemma message_created:
  assumes "ctlCreateMessage e createTask queue meth form w = (w', IndexPage (Some m) ms)"
  shows "\<exists>plain w1 w2. form = Inr plain \<and> mPlain m = plain \<and> RepoCreate e plain w1 = (w2, Inr m) \<and>
    insertJobs createTask queue m w2 = (w', None)"
proof -
  have plain: "RepoCreate e plain v = (v', Inr m) \<Longrightarrow> mPlain m = plain" for plain v v'
    by (auto simp: RepoCreate_def Let_def split: prod.splits es_reply.splits if_splits)
  from assms obtain plain w1 w2 where "form = Inr plain" "RepoCreate e plain w1 = (w2, Inr m)"
      "insertJobs createTask queue m w2 = (w', None)"
    by (auto simp: ctlCreateMessage_def split: if_splits sum.splits prod.splits option.splits)
  then show ?thesis using plain by blast
qed

text \<open>A search that Elasticsearch refuses shows as an empty list.\<close>

lemma list_status_unread:
  "MessageSearch e listQuery w = (w', Response s (Some [])) \<Longrightarrow> ctlIndex e ''GET'' w = (w', IndexPage None [])"
  by (simp add: ctlIndex_def RepoList_def)

section \<open>A run of a cipher worker\<close>

definition messages_ok :: "'w message_hist \<Rightarrow> 'w \<Rightarrow> bool" where
  "messages_ok hist w \<longleftrightarrow> (\<forall>i. message_history (hist w i))"

text \<open>The task \<open>t\<close> was reported as done with the data \<open>d\<close>, and its cipher is in its message.\<close>

definition ciphered_task :: "'w message_hist \<Rightarrow> 'w \<Rightarrow> ApiTask \<Rightarrow> json_obj \<Rightarrow> bool" where
  "ciphered_task hist w t d \<longleftrightarrow>
     (\<exists>args s. FromInterface (json_or_null (atArgs t)) = Inr args \<and> d = [(''ciphered'', JStr s)] \<and>
        atKind t \<in> set AllCiphers \<and> has_cipher hist w (MessageId args) (atKind t) s)"

definition done_are_ciphered ::
  "'w message_hist \<Rightarrow> 'w \<Rightarrow> (ApiTask \<times> json_obj option \<times> json_obj option) list \<Rightarrow> bool" where
  "done_are_ciphered hist w xs \<longleftrightarrow>
     (\<forall>t r f d. (t, r, f) \<in> set xs \<longrightarrow> outcome_event t r f = MarkedDone (atQueue t) (atID t) d \<longrightarrow> ciphered_task hist w t d)"

lemma done_are_ciphered_others:
  assumes "done_are_ciphered hist w xs" and ok: "messages_ok hist w" and later: "others hist w w'"
  shows "done_are_ciphered hist w' xs"
  using assms(1) has_cipher_others [OF _ _ spec [OF ok [unfolded messages_ok_def]] later]
  unfolding done_are_ciphered_def ciphered_task_def by blast

lemma histories_others: "messages_ok hist w \<Longrightarrow> others hist w w' \<Longrightarrow> messages_ok hist w'"
  by (simp add: others_def messages_ok_def)

lemma done_outcome: "outcome_event t r f = MarkedDone q i d \<Longrightarrow> f = None \<and> r = Some d"
  by (auto simp: outcome_event_def split: option.splits)

lemma sent_others:
  "messages_shared e c hist \<Longrightarrow> send_outcome c wid (outcome_event t r f) w = (w', err) \<Longrightarrow> others hist w w'"
  by (cases rule: outcome_event_cases [of t r f]) (auto dest: shared_rules(8,9))

lemma batch_ciphered:
  assumes shared: "messages_shared e c hist"
  shows "batch_done c (cipherWorkLoop e c rf conf) w xs w' \<Longrightarrow> messages_ok hist w \<Longrightarrow>
    others hist w w' \<and> done_are_ciphered hist w' xs"
proof (induction rule: batch_done.induct)
  case (no_more w)
  then show ?case by (simp add: done_are_ciphered_def)
next
  case (one_more t handler w w1 r f w2 xs w')
  let ?h = "\<lparr>hTask = t, hWorkerId = wlWorkerId (cipherWorkLoop e c rf conf), hUnclaimed = 0\<rparr>"
  have "handler = CipherHandle e c rf"
    using one_more.hyps(1) by (simp add: cipherWorkLoop_def NewWorkLoop_def split: if_splits)
  then have run: "CipherHandle e c rf ?h w = (w1, r, f)" using one_more.hyps(2) by simp
  note h = handler_guarantee [OF shared run]
  have sent: "others hist w1 w2" by (rule sent_others [OF shared one_more.hyps(3)])
  have ok1: "messages_ok hist w1" by (rule histories_others [OF one_more.prems conjunct1 [OF h]])
  have ok2: "messages_ok hist w2" by (rule histories_others [OF ok1 sent])
  have rest: "others hist w2 w'" "done_are_ciphered hist w' xs" using one_more.IH [OF ok2] by simp_all
  have "done_are_ciphered hist w1 [(t, r, f)]"
    using h one_more.prems done_outcome unfolding messages_ok_def done_are_ciphered_def ciphered_task_def by fastforce
  then have "done_are_ciphered hist w' [(t, r, f)]"
    by (rule done_are_ciphered_others [OF _ ok1 others_trans [OF sent rest(1)]])
  then show ?case
    using rest others_trans [OF conjunct1 [OF h] others_trans [OF sent rest(1)]] by (auto simp: done_are_ciphered_def)
qed

lemma run_ciphered:
  assumes shared: "messages_shared e c hist"
  shows "worker_ran c (cipherWorkLoop e c rf conf) p w batches w' \<Longrightarrow> messages_ok hist w \<Longrightarrow>
    others hist w w' \<and> (\<forall>xs \<in> set batches. done_are_ciphered hist w' xs)"
proof (induction rule: worker_ran.induct)
  case (stopped w)
  then show ?case by simp
next
  case (claim_refused w w1 err batches w')
  have w1: "others hist w w1" by (rule shared_rules(6) [OF shared claim_refused.hyps(1)])
  note rest = claim_refused.IH [OF histories_others [OF claim_refused.prems w1]]
  show ?case using rest others_trans [OF w1 conjunct1 [OF rest]] by simp
next
  case (claimed w w1 xs w2 batches w')
  have w1: "others hist w w1" by (rule shared_rules(6) [OF shared claimed.hyps(1)])
  note ok1 = histories_others [OF claimed.prems w1]
  have batch: "others hist w1 w2" "done_are_ciphered hist w2 xs"
    using batch_ciphered [OF shared claimed.hyps(2) ok1] by simp_all
  note ok2 = histories_others [OF ok1 batch(1)]
  have rest: "others hist w2 w'" "\<forall>xs \<in> set batches. done_are_ciphered hist w' xs"
    using claimed.IH [OF ok2] by simp_all
  have "done_are_ciphered hist w' xs" by (rule done_are_ciphered_others [OF batch(2) ok2 rest(1)])
  then show ?case using rest others_trans [OF w1 others_trans [OF batch(1) rest(1)]] by simp
qed

definition complete_message :: "Message \<Rightarrow> bool" where
  "complete_message m \<longleftrightarrow> mRot1 m = Some (Rotate (mPlain m) 1) \<and> mRot13 m = Some (Rotate (mPlain m) 13) \<and>
     mBase64 m = Some (Base64 (mPlain m)) \<and> mMd5 m = Some (Md5 (mPlain m))"

lemma all_ciphers_complete:
  assumes "\<forall>k \<in> set AllCiphers. \<exists>s. has_cipher hist w i k s"
  shows "\<exists>m h. hist w i = message_source m # h \<and> complete_message m"
proof -
  obtain m h where m: "hist w i = message_source m # h"
    using assms by (auto simp: has_cipher_def AllCiphers_def)
  then have "\<forall>k \<in> set AllCiphers. cipher_in k m = Some (cipher_of k (mPlain m))"
    using assms by (auto simp: has_cipher_def)
  then show ?thesis
    using m by (auto simp: complete_message_def AllCiphers_def cipher_in_def cipher_of_def kind_defs)
qed

text \<open>
  C23: when a cipher worker stops without an error, every task that it reported as done has left its cipher in the
  message it is for, and a message whose four tasks were done is complete. This holds although other workers
  handle the same messages at the same time, tasks are handled repeatedly and in any order, and requests whose replies are
  lost may have been applied: the histories are still ones that this worker too, by what it writes, keeps as they should be.
\<close>

theorem done_means_ciphered:
  assumes shared: "messages_shared e c hist" and start: "messages_ok hist w"
    and run: "work_run c (cipherWorkLoop e c randomFailures conf) queueNames w = Some (w', None)"
  shows "\<exists>batches. worker_ran c (cipherWorkLoop e c randomFailures conf)
        (claim_request (cipherWorkLoop e c randomFailures conf) queueNames) w batches w' \<and>
      others hist w w' \<and> messages_ok hist w' \<and>
      (\<forall>xs \<in> set batches. done_are_ciphered hist w' xs) \<and>
      (\<forall>i. (\<forall>k \<in> set AllCiphers. \<exists>xs \<in> set batches. \<exists>t r f d. (t, r, f) \<in> set xs \<and> atKind t = k \<and>
            outcome_event t r f = MarkedDone (atQueue t) (atID t) d \<and>
            FromInterface (json_or_null (atArgs t)) = Inr \<lparr>MessageId = i\<rparr>) \<longrightarrow>
         (\<exists>m h. hist w' i = message_source m # h \<and> complete_message m))"
proof -
  obtain batches where ran: "worker_ran c (cipherWorkLoop e c randomFailures conf)
      (claim_request (cipherWorkLoop e c randomFailures conf) queueNames) w batches w'"
    using work_loop_ran run unfolding work_run_def by fastforce
  have right: "others hist w w'" "\<forall>xs \<in> set batches. done_are_ciphered hist w' xs"
    using run_ciphered [OF shared ran start] by simp_all
  have "\<exists>m h. hist w' i = message_source m # h \<and> complete_message m"
    if all: "\<forall>k \<in> set AllCiphers. \<exists>xs \<in> set batches. \<exists>t r f d. (t, r, f) \<in> set xs \<and> atKind t = k \<and>
        outcome_event t r f = MarkedDone (atQueue t) (atID t) d \<and>
        FromInterface (json_or_null (atArgs t)) = Inr \<lparr>MessageId = i\<rparr>" for i
  proof (rule all_ciphers_complete [of hist w' i], rule ballI)
    fix k
    assume "k \<in> set AllCiphers"
    then obtain xs t r f d where t: "xs \<in> set batches" "(t, r, f) \<in> set xs" "atKind t = k"
        "outcome_event t r f = MarkedDone (atQueue t) (atID t) d"
        "FromInterface (json_or_null (atArgs t)) = Inr \<lparr>MessageId = i\<rparr>"
      using all by blast
    have "done_are_ciphered hist w' xs" using right(2) t(1) by (rule bspec)
    then have "ciphered_task hist w' t d" using t(2,4) unfolding done_are_ciphered_def by blast
    then show "\<exists>s. has_cipher hist w' i k s" using t(3,5) by (auto simp: ciphered_task_def)
  qed
  note complete = this
  show ?thesis
    by (rule exI [of _ batches], intro conjI allI impI, rule ran, rule right(1), rule histories_others [OF start right(1)],
      rule right(2), rule complete, assumption)
qed

end
