(* ===== verification/CipherExamples.thy ===== *)
theory CipherExamples
  imports CipherSafety
begin

text \<open>
  A cipher worker on messages in memory: the world is the history of every message and the number of tasks that are
  still to be claimed.
\<close>

type_synonym cipher_world = "(string \<Rightarrow> source list) \<times> nat"

definition cipher_hist :: "cipher_world message_hist" where
  "cipher_hist = fst"

definition memory_messages :: "cipher_world cipher_env" where
  "memory_messages = \<lparr>getUTC = (\<lambda>w. (w, 1000)), Sleep = (\<lambda>d w. w), new_uuid = (\<lambda>w. (w, ''0-1'')),
     MessageGet = (\<lambda>i w. (w, case fst w i of [] \<Rightarrow> Response 404 None | src # _ \<Rightarrow> Response 200 (Some src))),
     MessageCreate = (\<lambda>i src w. (w, Response 409 None)),
     MessageSearch = (\<lambda>q w. (w, Response 200 (Some []))),
     MessageUpdate = (\<lambda>i ps n w. case fst w i of
         [] \<Rightarrow> (w, Response 404 None)
       | src # h \<Rightarrow> (((fst w)(i := (src ++ ps) # src # h), snd w), Response 200 None)),
     rand_Intn10 = (\<lambda>w. (w, 3)), rand_Int = (\<lambda>w. (w, 7)), errorText = (\<lambda>err. ''error'')\<rparr>"

definition cipher_task :: ApiTask where
  "cipher_task = \<lparr>atID = ''t1'', atQueue = ''ciphers'', atRetryTimes = 10, atAttempted = 1, atKind = ''Rot13'',
     atState = CLAIMED, atPriority = 0, atProcessingTimeout = 5, atRunAt = 7,
     atArgs = Some [(''message_id'', JStr ''m1'')], atContext = None,
     atLastClaimed = Some \<lparr>alWorkerId = ''w1'', alClaimedAt = 8, alTimesOutAt = 13, alLastReport = None, alResult = None\<rparr>,
     atLastEnqueuedAt = 6,
     atMetadata = \<lparr>amCreatedAt = 6, amModifiedAt = 8, amVersion = \<lparr>avSeqNum = 2, avPrimaryTerm = 1\<rparr>\<rparr>,
     atRecurringTaskId = None\<rparr>"

definition cipher_client :: "cipher_world tasques_client" where
  "cipher_client = \<lparr>
     ClaimTasks = (\<lambda>wid p w. ((fst w, snd w - 1), Inr [cipher_task])),
     ReportOnClaimedTask = (\<lambda>wid q i d w. (w, None)),
     UnclaimExistingTask = (\<lambda>wid q i w. (w, None)),
     MarkClaimedTaskDone = (\<lambda>wid q i d w. (w, None)),
     MarkClaimedTaskFailed = (\<lambda>wid q i d w. (w, None)),
     stopSignal = (\<lambda>w. if snd w = 0 then 1 else 0)\<rparr>"

lemma same_messages: "fst w = fst w' \<Longrightarrow> others cipher_hist w w'"
  by (simp add: others_def cipher_hist_def)

lemma memory_shared: "messages_shared memory_messages cipher_client cipher_hist"
proof -
  have update: "applied cipher_hist w i ps w' \<or> others cipher_hist w w' \<and> (\<forall>s b. reply = Response s b \<longrightarrow> \<not> status_2xx s)"
    if "MessageUpdate memory_messages i ps n w = (w', reply)" for i ps n w w' reply
  proof (cases "fst w i")
    case Nil
    then show ?thesis using that by (auto simp: memory_messages_def status_2xx_def)
  next
    case (Cons src h)
    then have "w' = ((fst w)(i := (src ++ ps) # src # h), snd w)" using that by (simp add: memory_messages_def)
    then have "applied cipher_hist w i ps w'"
      unfolding applied_def using Cons by (intro exI [of _ w] exI [of _ w'] exI [of _ src] exI [of _ h]) (simp add: cipher_hist_def)
    then show ?thesis by blast
  qed
  have get: "src \<in> set (cipher_hist w' i)"
    if "MessageGet memory_messages i w = (w', Response 200 (Some src))" for i w w' src
    using that by (auto simp: memory_messages_def cipher_hist_def split: list.splits)
  show ?thesis
    unfolding messages_shared_def
    by (intro conjI allI impI)
      (erule get | (drule update, erule disjE, erule disjI2, erule disjI1) |
        (rule same_messages, simp add: memory_messages_def cipher_client_def))+
qed

text \<open>One message and a task to apply ROT13 to it, claimed once.\<close>

definition secret :: Message where
  "secret = \<lparr>mID = ''m1'', mPlain = ''Hello'', mRot1 = None, mRot13 = None, mBase64 = None, mMd5 = None,
     mCreatedAt = 5, mModifiedAt = 5\<rparr>"

definition cipher_start :: cipher_world where
  "cipher_start = ((\<lambda>_. [])(''m1'' := [message_source secret]), 1)"

definition cipher_conf :: CipherWorkerConf where
  "cipher_conf = \<lparr>cwQueue = ''ciphers'',
     cwTasquesWorker = \<lparr>twID = ''w1'', twClaimAmount = 1, twBlockFor = 1000000000, twLoopStopTimeout = 5\<rparr>\<rparr>"

definition cipher_end :: cipher_world where
  "cipher_end = ((fst cipher_start)(''m1'' := [message_source (set_cipher ''Rot13'' 1000 secret), message_source secret]), 0)"

lemma start_ok: "messages_ok cipher_hist cipher_start"
proof -
  have "message_log [secret]"
    by (rule message_born) (simp add: secret_def AllCiphers_def cipher_in_def)
  then have "message_history [message_source secret]"
    unfolding message_history_def by (intro exI [of _ "[secret]"]) simp
  moreover have "message_history []" unfolding message_history_def using no_message by (intro exI [of _ "[]"]) simp
  ultimately show ?thesis by (simp add: messages_ok_def cipher_hist_def cipher_start_def)
qed

lemma cipher_read: "MessageGet memory_messages ''m1'' (fst cipher_start, 0) = ((fst cipher_start, 0), Response 200 (Some (message_source secret)))"
  by (simp add: memory_messages_def cipher_start_def)

lemma cipher_updated:
  "updateField memory_messages ''m1'' ''rot_13'' (Rotate ''Hello'' 13) (fst cipher_start, 0) = (cipher_end, None)"
proof -
  have "message_source secret ++ partial_doc ''rot_13'' (Rotate ''Hello'' 13) 1000 = message_source (set_cipher ''Rot13'' 1000 secret)"
    using merged_source [of kindRot13 secret 1000]
    by (simp add: AllCiphers_def field_name_def cipher_of_def secret_def kind_defs)
  then show ?thesis
    by (simp add: updateField_def memory_messages_def cipher_start_def cipher_end_def status_2xx_def)
qed

lemma cipher_handled:
  "CipherHandle memory_messages cipher_client False \<lparr>hTask = cipher_task, hWorkerId = ''w1'', hUnclaimed = 0\<rparr> (fst cipher_start, 0)
    = (cipher_end, Some [(''ciphered'', JStr (Rotate ''Hello'' 13))], None)"
proof -
  have "encipher memory_messages ''Rot13'' ''m1'' ''Hello'' (fst cipher_start, 0) = (cipher_end, Rotate ''Hello'' 13, None)"
    by (simp add: encipher_def SetRot13_def kind_defs cipher_updated)
  moreover have "RepoGet memory_messages ''m1'' (fst cipher_start, 0) = ((fst cipher_start, 0), Inr secret)"
    by (simp add: RepoGet_def cipher_read read_message)
  moreover have "FromInterface (json_or_null (atArgs cipher_task)) = Inr \<lparr>MessageId = ''m1''\<rparr>"
    using args_read_back [of "\<lparr>MessageId = ''m1''\<rparr>"] by (simp add: cipher_task_def ToMap_def)
  moreover have "rand_Intn10 memory_messages w = (w, 3)" "Sleep memory_messages d w = w" for w d
    by (simp_all add: memory_messages_def)
  moreover have "handleReportIn cipher_client d h w = (w, None)" for d h w
    by (simp add: handleReportIn_def cipher_client_def)
  ultimately show ?thesis
    by (simp add: CipherHandle_def cipher_task_def secret_def)
qed

lemma cipher_worked:
  "work_run cipher_client (cipherWorkLoop memory_messages cipher_client False cipher_conf) [''ciphers''] cipher_start
    = Some (cipher_end, None)"
proof -
  let ?wl = "cipherWorkLoop memory_messages cipher_client False cipher_conf"
  have "wlHandlers ?wl ''ciphers'' = Some (CipherHandle memory_messages cipher_client False)" "wlWorkerId ?wl = ''w1''"
    by (simp_all add: cipherWorkLoop_def NewWorkLoop_def cipher_conf_def)
  then have "work_on cipher_client ?wl cipher_task (fst cipher_start, 0) = (cipher_end, None)"
    using cipher_handled
    by (simp add: work_on_def cipher_task_def IsUnclaimed_def workMarkSuccess_def cipher_client_def)
  then have all: "work_on_all cipher_client ?wl [cipher_task] (fst cipher_start, 0) = (cipher_end, None)" by simp
  have "stopSignal cipher_client cipher_start = 0" "stopSignal cipher_client cipher_end > 0"
      "ClaimTasks cipher_client wid p cipher_start = ((fst cipher_start, 0), Inr [cipher_task])" for wid p
    by (simp_all add: cipher_client_def cipher_start_def cipher_end_def)
  with all show ?thesis
    unfolding work_run_def by (subst work_loop.simps, subst work_loop.simps) simp
qed

lemma cipher_stored: "has_cipher cipher_hist cipher_end ''m1'' ''Rot13'' (Rotate ''Hello'' 13)"
  unfolding has_cipher_def
  by (intro exI [of _ "set_cipher ''Rot13'' 1000 secret"] exI [of _ "[message_source secret]"])
    (simp add: cipher_hist_def cipher_end_def cipher_in_def set_cipher_def cipher_of_def kind_defs secret_def)

theorem done_means_ciphered_witness:
  "work_run cipher_client (cipherWorkLoop memory_messages cipher_client False cipher_conf) [''ciphers''] cipher_start
      = Some (cipher_end, None) \<and>
    others cipher_hist cipher_start cipher_end \<and> messages_ok cipher_hist cipher_end \<and>
    has_cipher cipher_hist cipher_end ''m1'' ''Rot13'' (Rotate ''Hello'' 13)"
  using done_means_ciphered [OF memory_shared start_ok cipher_worked] cipher_worked cipher_stored by blast

end
