(* ===== verification/Spec2Isabelle.thy ===== *)
theory Spec2Isabelle
  imports ApiExamples ArchiverExamples LeaderExamples Backoff TaskHistoryExamples RecurringExamples RecurringApiExamples
    WorkerSystemExamples WorkerShutdown LeaderRunnerExamples CommandExamples ClientExamples Diagnostics
    CipherExamples
begin

text \<open>
  A verification development for tasques, a task queue server over Elasticsearch, written in Go.

  \<^bold>\<open>The program.\<close> Clients create tasks in named queues over an HTTP API; workers claim tasks, report on
  them and complete, fail or return them. A task is a document in the index of its queue, and every
  change is a read of the document followed by a write conditional on the version read, so that any number of
  servers can share one cluster. Background work belongs to one server, the one that holds the leader lock
  (another document, polled): failing the tasks whose claims have timed out, archiving old tasks, and keeping
  the recurring tasks scheduled with cron, whose jobs create ordinary tasks. A worker library claims
  tasks and dispatches them to handlers, and a setup command prepares the indices.

  \<^bold>\<open>Conventions.\<close> Functions that change something take the world \<open>w\<close> (an arbitrary type: Elasticsearch, the clock,
  the sources of random numbers) and return it with their result; errors are the \<open>Inl\<close> side of a sum or
  an option. Times and durations are integers of nanoseconds with the 64-bit wrap-around and the saturation of Go
  written out (\<open>Prelude\<close>), \<open>uint\<close>s are 64-bit words. What the program only calls is a field
  of an environment record: requests to Elasticsearch (\<open>es_client\<close>, \<open>lock_client\<close>, \<open>es_admin\<close>), the clock, uuids,
  the LRU cache, the cron library, the generated HTTP client of the worker library. A loop that need not end is a
  \<open>partial_function (option)\<close>, so that not returning is \<open>None\<close>; no fuel is used anywhere.

  \<^bold>\<open>The theories\<close>, in the order of the program (paths are under \<open>src/\<close>).

  \<^item> \<open>Prelude\<close>: Go's base types, JSON values, results; \<open>Config\<close>: settings (\<open>internal/config/models.go\<close>).
  \<^item> \<open>QueueName\<close>: queue names and their indices (\<open>internal/domain/queue/models.go\<close>). Exactly the valid names are
    accepted, and the index of an accepted name is a single index of its own.
  \<^item> \<open>TaskModel\<close>: the task and its operations \<open>IntoClaimed\<close>, \<open>ReportIn\<close>, \<open>IntoDone\<close>, \<open>IntoFailed\<close>,
    \<open>IntoUnClaimed\<close> (\<open>internal/domain/task/models.go\<close>). \<open>TaskLifecycle\<close>: the locale \<open>claimed_op\<close> is what the four
    operations on a claim share; the step relation \<open>task_step\<close>, with reachability, gives ownership, the budget of
    attempts, the final states and the invariant of what is recorded. \<open>Backoff\<close>: the delay before a retry, exactly, and how it
    falls short of the documented one.
  \<^item> \<open>EsCommon\<close>, \<open>EsTaskPersist\<close>, \<open>EsTaskService\<close>, \<open>EsTaskClaim\<close>, \<open>EsTaskScan\<close>: the Elasticsearch task service
    (\<open>internal/infra/elasticsearch/task/service.go\<close>), with documents and bulk bodies, creation and updates, the loops of
    \<open>Claim\<close>, and the scroll scans of the reaper and the archiver. \<open>EsQueries\<close>: what its search bodies
    select, under a semantics of the four query forms used; \<open>Recovery\<close>: taken together they reach every task in every state. \<open>TaskService\<close>: the interface \<open>Service\<close>
    (\<open>internal/domain/task/service.go\<close>) as the locale \<open>task_service\<close>, interpreted by this service.
  \<^item> \<open>EsStore\<close>, \<open>EsLocking\<close>, \<open>EsClaiming\<close>, \<open>EsClaimReturns\<close>, \<open>Scans\<close>: optimistic locking stated over the
    history of a document; no update is lost, a version is claimed by one worker, what \<open>Claim\<close> returns and when, what
    a successful scan has done; \<open>Archiver\<close>: what the archiver deletes and what it archives. \<open>EsMemory\<close> is a store in memory that meets the laws, \<open>EsInMemory\<close> and
    \<open>ArchiverExamples\<close> have the theorems at concrete runs on it.
  \<^item> \<open>TaskWrites\<close>, \<open>TaskHistory\<close>, \<open>TaskHistoryExamples\<close>: the task service among others. With any behaviour \<open>R\<close> of
    the others between its requests, all a method of the service writes is lawful (rely and guarantee); so the history of
    every document of a cluster of servers is a run of \<open>TaskLifecycle\<close>, and no task is ever stuck.
  \<^item> \<open>TasksApi\<close>, \<open>ApiExamples\<close>: models, controller, validation and handlers of the HTTP API
    (\<open>internal/api\<close>, \<open>internal/infra/server/routing\<close>), down to the history of the document.
  \<^item> \<open>LeaderLock\<close>, \<open>LeaderSafety\<close>, \<open>LeaderExamples\<close>: the leader lock (\<open>internal/infra/elasticsearch/leader/lock.go\<close>) as
    passes of its state machine, and any number of processes interleaved with each other.
  \<^item> \<open>RecurringModel\<close>, \<open>EsRecurring\<close>, \<open>RecurringStore\<close>: recurring tasks and their Elasticsearch service
    (\<open>internal/domain/task/recurring\<close>, \<open>internal/infra/elasticsearch/task/recurring\<close>); changes are versioned and wait to be loaded.
  \<^item> \<open>RecurringManager\<close>, \<open>CronScheduler\<close>: the manager that keeps cron in step with the stored tasks, and the
    scheduler (\<open>internal/domain/task/recurring/manager.go\<close>, \<open>internal/infra/cron/task/recurring\<close>) with the job that skips
    while a task of it can be found outstanding. \<open>RecurringSync\<close> states
    the contracts as the locales \<open>job_scheduler\<close> and \<open>recurring_manager\<close>; \<open>CronContract\<close> and \<open>RecurringSystem\<close> interpret them on
    the scheduler and on the components as the server assembles them. \<open>RecurringExamples\<close>: concrete runs.
  \<^item> \<open>RecurringApi\<close>, \<open>RecurringApiExamples\<close>: the HTTP API of recurring tasks. Responses keep the pointers of the
    code, over a small store of addresses, because a listing depends on their aliasing.
  \<^item> \<open>LeaderRunner\<close>, \<open>LeaderRunnerExamples\<close>: the threads that run the internal recurring functions
    (\<open>internal/domain/leader/recurring.go\<close>) and the functions themselves (\<open>internal/infra/server/components.go\<close>). The test of
    the stop flag, the reading of the clock, the call, its question to the leader lock, its return and the sleep are
    steps of their own. There are two clocks: the wall clock, which the code reads and which can be set, and real time, by which it sleeps.
  \<^item> \<open>WorkLoop\<close>: the worker library (\<open>worker/work_loop.go\<close>). \<open>WorkerSystem\<close>, \<open>WorkerSystemExamples\<close>: a worker over the
    generated client (\<open>client/tasks\<close>) and the handlers of the API, down to the history of the documents.
    \<open>ClientModels\<close>, \<open>ClientRequests\<close>: the JSON of requests and responses with its decoding and validation (\<open>models\<close>).
    \<open>HttpParams\<close>, \<open>HttpResponses\<close>, \<open>HttpClient\<close>: the generated client (\<open>client\<close>), the parameters of every operation with their
    constructors and setters, the responses with their readers, and the operations over a transport. \<open>ClientServer\<close>,
    \<open>ClientCalls\<close>, \<open>ClientExamples\<close>: that client against the routes and handlers of the server; every call of a worker is served
    and answered as \<open>WorkerSystem\<close> says. \<open>WorkerShutdown\<close>: the process around the loop, in steps between any two of which
    the signal may come, and its ends.
  \<^item> \<open>IndexSetup\<close>, \<open>SetupSafety\<close>, \<open>SetupExamples\<close>: index templates, lifecycle policy, Kibana import and the setup
    (\<open>internal/infra/elasticsearch/index\<close>, \<open>internal/infra/kibana/saved_objects\<close>, \<open>internal/infra/server/setup.go\<close>); which
    template each index gets, and that what is written to it fits.
  \<^item> \<open>Server\<close>, \<open>ServerExamples\<close>: the configuration, the assembly of the server, its start, and its
    life up to the end of its shutdown: threads, passes of the lock and the three stops as interleaved steps (\<open>internal/infra/server/components.go\<close>). \<open>CommandLine\<close>, \<open>CommandExamples\<close>: the commands of the program
    (\<open>app/cmd\<close>), the setup, the server and \<open>show config\<close>. \<open>Diagnostics\<close>: the errors of Elasticsearch
    (\<open>internal/infra/elasticsearch/common/models.go\<close>) and the log of the cron library.
  \<^item> \<open>CipherCode\<close>, \<open>Ciphers\<close>, \<open>CipherSafety\<close>, \<open>CipherExamples\<close>: the example application (\<open>example/ciphers\<close>), a
    server and workers that share messages. What the workers rely on of each other they guarantee themselves, so a task
    that is done has left its cipher in its message.

  \<^bold>\<open>Hypotheses.\<close> They state documented behaviour of what is not part of the program, and each is shown to hold
  of a concrete instance: \<open>task_store\<close> and \<open>recurring_store\<close> (a conditional write succeeds only on the version
  given, and a successful write appends to the history of its document), \<open>lock_store\<close> (the same of the lock
  document), \<open>shared_store\<close> (a request applies its writes or refuses them, and others write between requests; shown of the memory store alone and
  with the writes of others composed in, \<open>meanwhile_shared\<close>), \<open>scroll_laws\<close> (a scroll is a snapshot), \<open>archive_store\<close> (the lines of a bulk request, one by one), \<open>cron_laws\<close> (entries), \<open>gin_routing\<close> and \<open>path_building\<close> (the router of the
  server and the paths of the HTTP runtime), \<open>clock_ok\<close> (the clock advances and a sleep
  takes its time), \<open>search_laws\<close> and \<open>search_seen\<close> (what is searchable: refreshing no index changes nothing, a count counts the matching
  documents; whether a search has found anything), \<open>logged\<close> and \<open>flag_kept\<close> (what the client of a worker did is recorded, and neither it
  nor a handler sets the worker's private stop flag), \<open>admin_laws\<close> (installed templates and policies stay and are found),
  \<open>messages_shared\<close> (a partial update merges into the newest version; other writers are workers too), and that \<open>strings.ToLower\<close>
  maps as documented. Writes by others are covered: any
  request, and any passing of time, may find the history grown by writes of other servers, and the theorems about
  several workers or processes relate their worlds by such growth.

  \<^bold>\<open>Not modelled.\<close> Most messages of errors, most logging, and tracing; the text of JSON beyond the values sent and read
  (marshalling errors cannot occur on the stored types, apart from times out of range); gin's
  middleware and basic authentication; the construction of clients; how a signal is delivered (it comes at any step), and the HTTP server
  itself. The atomic steps of goroutines: a pass of the leader lock, which holds its mutex; of a recurring function, what it does between the answer of
  the lock and its return (the manager holds a mutex; the requests of the reaper and the archiver are interleaved with those of others in
  \<open>TaskWrites\<close> and \<open>TaskHistory\<close>); of a worker, one claim, one call of a handler, one report of an outcome; single requests in
  \<open>TaskHistory\<close>. Unicode: names are handled as byte strings, blanks
  as ASCII. The parsing of flags and of the configuration file; of the generated code \<open>docs\<close>, which is data;
  of \<open>example\<close> the HTML, the configuration and the workers in other languages; the \<open>mock_service.go\<close> files serve the
  tests.

  \<^bold>\<open>What modelling showed.\<close> Some theorems state behaviour that falls short of what the code is for: the retry delay
  is linear and not the exponential one documented (\<open>Backoff\<close>), a refresh names an index that does not exist
  (\<open>CronContract\<close>), \<open>Claim\<close> panics on huge amounts (\<open>EsClaimReturns\<close>), a failed reload leaves jobs in cron
  (\<open>RecurringSystem\<close>), a listing shows one task's flag for all (\<open>RecurringApi\<close>), a handler that gives its task
  back ends its worker (\<open>WorkLoop\<close>), the archiver may lose a task and succeed (\<open>ArchiverExamples\<close>), an interrupted setup is never completed (\<open>SetupSafety\<close>), a restarted runner
  runs its functions twice, and a wall clock that is set back keeps them waiting (\<open>LeaderRunner\<close>).
\<close>

end
